(* ===== verification/Kw_Prelude.thy ===== *)
theory Kw_Prelude
  imports Main "HOL-Library.Word" "HOL-Library.Signed_Division"
begin

text \<open>
  Prelude of the development: the machine types of the 32-bit ARM compiler the kernel is built
  with, the abnormal outcomes of kernel code, the state-and-exception actions in which the
  drivers are written down, their proof rules, and the interfaces several drivers share.

  An action takes the state of its component and returns an outcome together with the new state.
  A normal outcome is \<open>Inr\<close>; \<open>Inl\<close> carries one of the ways kernel code stops: \<open>error()\<close> (which a
  \<open>waserror()\<close> handler catches), \<open>panic()\<close>, an access through a nil pointer, a lock that the
  caller would wait for forever, or an exhausted iteration budget.  The state is returned in
  every case, because what a routine wrote before it called \<open>error()\<close> stays written.
\<close>

unbundle bit_operations_syntax

section \<open>Machine integers\<close>

type_synonym u8 = "8 word"
type_synonym u16 = "16 word"
type_synonym u32 = "32 word"
type_synonym u64 = "64 word"

text \<open>
  \<open>int\<close>, \<open>long\<close> and \<open>vlong\<close> are signed two's complement integers; a computed value is brought
  back into the range of its type by \<open>i32\<close> and \<open>i64\<close>.
\<close>

definition i32 :: "int \<Rightarrow> int" where
  "i32 x = signed_take_bit 31 x"

definition i64 :: "int \<Rightarrow> int" where
  "i64 x = signed_take_bit 63 x"

lemma i32_id: "- 2147483648 \<le> x \<Longrightarrow> x < 2147483648 \<Longrightarrow> i32 x = x"
  by (simp add: i32_def signed_take_bit_int_eq_self)

lemma i64_id: "- 9223372036854775808 \<le> x \<Longrightarrow> x < 9223372036854775808 \<Longrightarrow> i64 x = x"
  by (simp add: i64_def signed_take_bit_int_eq_self)

lemma i32_range: "- 2147483648 \<le> i32 x" "i32 x < 2147483648"
  using signed_take_bit_int_greater_eq_minus_exp [of 31 x] signed_take_bit_int_less_exp [of 31 x]
  by (simp_all add: i32_def)

lemma i64_range: "- 9223372036854775808 \<le> i64 x" "i64 x < 9223372036854775808"
  using signed_take_bit_int_greater_eq_minus_exp [of 63 x] signed_take_bit_int_less_exp [of 63 x]
  by (simp_all add: i64_def)

text \<open>\<open>/\<close> and \<open>%\<close> of the compiler truncate toward zero (\<open>sdiv\<close>, \<open>smod\<close>).\<close>

lemma sdiv_nonneg: "0 \<le> a \<Longrightarrow> 0 < b \<Longrightarrow> a sdiv b = a div (b :: int)"
  by (cases "a = 0") (simp_all add: signed_divide_int_def)

lemma smod_nonneg: "0 \<le> a \<Longrightarrow> 0 < b \<Longrightarrow> a smod b = a mod (b :: int)"
  by (cases "a = 0") (simp_all add: signed_modulo_int_def)

section \<open>Abnormal outcomes\<close>

text \<open>The error strings of \<open>../port/error.h\<close> the sources use, and literal messages.\<close>

datatype kerr =
    Enodisk | Enopart | Ebadalign | Estale | Enocard | Etimeout
  | Ebadarg | Eperm | Enomem | Einuse | Ebadctl | Ebadusefd | Egreg | Eshortstat
  | Enodev | Etoobig | Etoosmall
  | Emsg string

datatype exn =
    Error kerr        \<comment> \<open>\<open>error(s)\<close>: unwinds to the innermost \<open>waserror()\<close>\<close>
  | Panic string      \<comment> \<open>\<open>panic(s)\<close>: the kernel stops\<close>
  | Fault string      \<comment> \<open>an access through a nil or wild pointer\<close>
  | Blocked           \<comment> \<open>waits for a lock or a condition that nothing will signal\<close>
  | Fuel              \<comment> \<open>the iteration budget ended before the loop did\<close>

section \<open>Results without state\<close>

definition ebind :: "(exn + 'a) \<Rightarrow> ('a \<Rightarrow> exn + 'b) \<Rightarrow> exn + 'b" where
  "ebind m f = (case m of Inl e \<Rightarrow> Inl e | Inr x \<Rightarrow> f x)"

definition eguard :: "bool \<Rightarrow> kerr \<Rightarrow> exn + unit" where
  "eguard b e = (if b then Inr () else Inl (Error e))"

lemma ebind_simps [simp]:
  "ebind (Inl e) f = Inl e"
  "ebind (Inr x) f = f x"
  by (simp_all add: ebind_def)

lemma ebind_Inr: "ebind m f = Inr y \<longleftrightarrow> (\<exists>x. m = Inr x \<and> f x = Inr y)"
  by (cases m) auto

text \<open>A loop over a list that threads a value and stops at the first error.\<close>

primrec efold :: "('x \<Rightarrow> 'a \<Rightarrow> exn + 'a) \<Rightarrow> 'x list \<Rightarrow> 'a \<Rightarrow> exn + 'a" where
  "efold f [] a = Inr a"
| "efold f (x # xs) a = ebind (f x a) (efold f xs)"

lemma efold_inv:
  assumes "efold f xs a = Inr b" and "P a"
    and "\<And>x a b. x \<in> set xs \<Longrightarrow> P a \<Longrightarrow> f x a = Inr b \<Longrightarrow> P b"
  shows "P b"
  using assms by (induction xs arbitrary: a) (auto simp: ebind_Inr)

lemma eguard_Inr [simp]: "eguard b e = Inr u \<longleftrightarrow> b"
  by (simp add: eguard_def)

lemma eguard_Inl [simp]: "eguard b e = Inl x \<longleftrightarrow> \<not> b \<and> x = Error e"
  by (auto simp add: eguard_def)

section \<open>Actions: state and outcome\<close>

type_synonym ('s, 'a) kact = "'s \<Rightarrow> (exn + 'a) \<times> 's"

definition kret :: "'a \<Rightarrow> ('s, 'a) kact" where
  "kret x s = (Inr x, s)"

definition kraise :: "exn \<Rightarrow> ('s, 'a) kact" where
  "kraise e s = (Inl e, s)"

definition kbind :: "('s, 'a) kact \<Rightarrow> ('a \<Rightarrow> ('s, 'b) kact) \<Rightarrow> ('s, 'b) kact" where
  "kbind m f s = (case m s of (Inl e, s') \<Rightarrow> (Inl e, s') | (Inr x, s') \<Rightarrow> f x s')"

definition kthen :: "('s, 'a) kact \<Rightarrow> ('s, 'b) kact \<Rightarrow> ('s, 'b) kact" where
  "kthen m n = kbind m (\<lambda>_. n)"

definition kget :: "('s \<Rightarrow> 'a) \<Rightarrow> ('s, 'a) kact" where
  "kget f s = (Inr (f s), s)"

definition kmod :: "('s \<Rightarrow> 's) \<Rightarrow> ('s, unit) kact" where
  "kmod f s = (Inr (), f s)"

definition kguard :: "bool \<Rightarrow> kerr \<Rightarrow> ('s, unit) kact" where
  "kguard b e = (if b then kret () else kraise (Error e))"

definition klift :: "(exn + 'a) \<Rightarrow> ('s, 'a) kact" where
  "klift r s = (r, s)"

text \<open>\<open>if(waserror()) h; m; poperror();\<close> only \<open>error()\<close> is caught.\<close>

definition kcatch :: "('s, 'a) kact \<Rightarrow> (kerr \<Rightarrow> ('s, 'a) kact) \<Rightarrow> ('s, 'a) kact" where
  "kcatch m h s = (case m s of (Inl (Error e), s') \<Rightarrow> h e s' | r \<Rightarrow> r)"

text \<open>
  The idiom \<open>acq; if(waserror()){ rel; nexterror(); } body; poperror(); rel;\<close>: the release runs
  on the normal path and on the error path, and the error is raised again after it.
\<close>

definition kbracket :: "('s, unit) kact \<Rightarrow> ('s, unit) kact \<Rightarrow> ('s, 'a) kact \<Rightarrow> ('s, 'a) kact" where
  "kbracket acq rel body =
     kthen acq
       (kbind (kcatch body (\<lambda>e. kthen rel (kraise (Error e))))
          (\<lambda>x. kthen rel (kret x)))"

primrec kfor :: "'x list \<Rightarrow> ('x \<Rightarrow> ('s, unit) kact) \<Rightarrow> ('s, unit) kact" where
  "kfor [] f = kret ()"
| "kfor (x # xs) f = kthen (f x) (kfor xs f)"

primrec kfold :: "('x \<Rightarrow> 'a \<Rightarrow> ('s, 'a) kact) \<Rightarrow> 'x list \<Rightarrow> 'a \<Rightarrow> ('s, 'a) kact" where
  "kfold f [] a = kret a"
| "kfold f (x # xs) a = kbind (f x a) (kfold f xs)"

lemmas kact_defs = kret_def kraise_def kbind_def kthen_def kget_def kmod_def kguard_def klift_def

named_theorems kact_run \<open>how the primitive actions run\<close>

lemma run_simps [simp, kact_run]:
  "kret x s = (Inr x, s)"
  "kraise e s = (Inl e, s)"
  "kget f s = (Inr (f s), s)"
  "kmod g s = (Inr (), g s)"
  "klift r s = (r, s)"
  by (simp_all add: kact_defs)

lemma kguard_simps [simp, kact_run]:
  "b \<Longrightarrow> kguard b e s = (Inr (), s)"
  "\<not> b \<Longrightarrow> kguard b e s = (Inl (Error e), s)"
  by (simp_all add: kact_defs)

lemma kguard_run: "kguard b e s = (if b then (Inr (), s) else (Inl (Error e), s))"
  by simp

lemma kbind_Inr: "m s = (Inr x, s') \<Longrightarrow> kbind m f s = f x s'"
  by (simp add: kbind_def)

lemma kbind_Inl: "m s = (Inl e, s') \<Longrightarrow> kbind m f s = (Inl e, s')"
  by (simp add: kbind_def)

lemma kthen_Inr: "m s = (Inr x, s') \<Longrightarrow> kthen m n s = n s'"
  by (simp add: kthen_def kbind_Inr)

lemma kthen_Inl: "m s = (Inl e, s') \<Longrightarrow> kthen m n s = (Inl e, s')"
  by (simp add: kthen_def kbind_Inl)

lemma kbind_prim [simp, kact_run]:
  "kbind (kret x) f s = f x s"
  "kbind (kraise e) f s = (Inl e, s)"
  "kbind (kget g) f s = f (g s) s"
  "kbind (klift (Inr x)) f s = f x s"
  "kbind (klift (Inl e)) f s = (Inl e, s)"
  by (simp_all add: kact_defs)

lemma kthen_prim [simp, kact_run]:
  "kthen (kmod g) n s = n (g s)"
  "kthen (kret x) n s = n s"
  "kthen (kraise x') n s = (Inl x', s)"
  "kthen (kguard b e) n s = (if b then n s else (Inl (Error e), s))"
  by (simp_all add: kact_defs)

lemma kbind_Inr_iff:
  "kbind m f s = (Inr y, s'') \<longleftrightarrow> (\<exists>x s'. m s = (Inr x, s') \<and> f x s' = (Inr y, s''))"
  by (auto simp: kbind_def split: prod.splits sum.splits)

lemma kthen_Inr_iff:
  "kthen m n s = (Inr y, s'') \<longleftrightarrow> (\<exists>x s'. m s = (Inr x, s') \<and> n s' = (Inr y, s''))"
  by (simp add: kthen_def kbind_Inr_iff)

lemma kguard_Inr_iff: "kguard b e s = (Inr u, s') \<longleftrightarrow> b \<and> s' = s"
  by (auto simp: kguard_run)

lemma klift_Inr_iff: "klift r s = (Inr x, s') \<longleftrightarrow> r = Inr x \<and> s' = s"
  by auto

lemmas kact_Inr_iff = kbind_Inr_iff kthen_Inr_iff kguard_Inr_iff klift_Inr_iff

lemma kfold_inv:
  assumes "kfold f xs a s = (Inr b, s')" and "P a"
    and "\<And>x a b s s'. x \<in> set xs \<Longrightarrow> P a \<Longrightarrow> f x a s = (Inr b, s') \<Longrightarrow> P b"
  shows "P b"
  using assms
proof (induction xs arbitrary: a s)
  case Nil
  then show ?case by simp
next
  case (Cons x xs)
  from Cons.prems(1) obtain c t where f: "f x a s = (Inr c, t)"
    and rest: "kfold f xs c t = (Inr b, s')" by (auto simp: kbind_Inr_iff)
  have "P c" by (rule Cons.prems(3) [OF _ Cons.prems(2) f]) simp
  with rest show ?case by (rule Cons.IH) (metis Cons.prems(3) list.set_intros(2))
qed

section \<open>Triples: what an action does on its normal and its abnormal outcome\<close>

definition ktriple ::
  "('s \<Rightarrow> bool) \<Rightarrow> ('s, 'a) kact \<Rightarrow> ('a \<Rightarrow> 's \<Rightarrow> bool) \<Rightarrow> (exn \<Rightarrow> 's \<Rightarrow> bool) \<Rightarrow> bool" where
  "ktriple P m Q E \<longleftrightarrow>
     (\<forall>s. P s \<longrightarrow> (case m s of (Inl e, s') \<Rightarrow> E e s' | (Inr x, s') \<Rightarrow> Q x s'))"

lemma ktriple_Inr: "ktriple P m Q E \<Longrightarrow> P s \<Longrightarrow> m s = (Inr x, s') \<Longrightarrow> Q x s'"
  by (force simp: ktriple_def)

lemma ktriple_Inl: "ktriple P m Q E \<Longrightarrow> P s \<Longrightarrow> m s = (Inl e, s') \<Longrightarrow> E e s'"
  by (force simp: ktriple_def)

named_theorems ktriple_rule \<open>rules for triples, applied backwards\<close>

lemma ktriple_ret [ktriple_rule]: "(\<And>s. P s \<Longrightarrow> Q x s) \<Longrightarrow> ktriple P (kret x) Q E"
  by (simp add: ktriple_def)

lemma ktriple_raise [ktriple_rule]: "(\<And>s. P s \<Longrightarrow> E e s) \<Longrightarrow> ktriple P (kraise e) Q E"
  by (simp add: ktriple_def)

lemma ktriple_get: "(\<And>s. P s \<Longrightarrow> Q (f s) s) \<Longrightarrow> ktriple P (kget f) Q E"
  by (simp add: ktriple_def)

lemma ktriple_mod: "(\<And>s. P s \<Longrightarrow> Q () (f s)) \<Longrightarrow> ktriple P (kmod f) Q E"
  by (simp add: ktriple_def)

lemma ktriple_guard:
  "(\<And>s. P s \<Longrightarrow> if b then Q () s else E (Error e) s) \<Longrightarrow> ktriple P (kguard b e) Q E"
  by (auto simp: ktriple_def kguard_run)

lemma ktriple_bind:
  assumes "ktriple P m R E" and "\<And>x. ktriple (R x) (f x) Q E"
  shows "ktriple P (kbind m f) Q E"
  using assms unfolding ktriple_def kbind_def
  by (fastforce split: prod.splits sum.splits)

lemma ktriple_then:
  assumes "ktriple P m (\<lambda>_. R) E" and "ktriple R n Q E"
  shows "ktriple P (kthen m n) Q E"
  unfolding kthen_def by (rule ktriple_bind [OF assms(1)]) (rule assms(2))

lemma ktriple_catch:
  assumes "ktriple P m Q (\<lambda>e s. case e of Error x \<Rightarrow> R x s | _ \<Rightarrow> E e s)"
    and "\<And>e. ktriple (R e) (h e) Q E"
  shows "ktriple P (kcatch m h) Q E"
  unfolding ktriple_def
proof (intro allI impI)
  fix s
  assume P: "P s"
  obtain r s' where m: "m s = (r, s')" by (cases "m s")
  show "case kcatch m h s of (Inl e, s') \<Rightarrow> E e s' | (Inr x, s') \<Rightarrow> Q x s'"
  proof (cases r)
    case (Inr x)
    with m P assms(1) have "Q x s'" by (auto dest: ktriple_Inr)
    with m Inr show ?thesis by (simp add: kcatch_def)
  next
    case (Inl e)
    with m P assms(1) have e: "case e of Error x \<Rightarrow> R x s' | _ \<Rightarrow> E e s'"
      by (auto dest: ktriple_Inl)
    show ?thesis
    proof (cases e)
      case (Error x)
      with e have "R x s'" by simp
      with assms(2) [of x] m Inl Error show ?thesis by (simp add: kcatch_def ktriple_def)
    qed (use e m Inl in \<open>simp_all add: kcatch_def\<close>)
  qed
qed

lemma ktriple_weaken:
  assumes "ktriple P m Q E" and "\<And>s. P' s \<Longrightarrow> P s"
    and "\<And>x s. Q x s \<Longrightarrow> Q' x s" and "\<And>e s. E e s \<Longrightarrow> E' e s"
  shows "ktriple P' m Q' E'"
  using assms unfolding ktriple_def by (fastforce split: prod.splits sum.splits)

text \<open>An invariant of an action holds afterwards whatever the outcome.\<close>

definition kinv :: "('s \<Rightarrow> bool) \<Rightarrow> ('s, 'a) kact \<Rightarrow> bool" where
  "kinv I m \<longleftrightarrow> (\<forall>s. I s \<longrightarrow> I (snd (m s)))"

named_theorems kinv_rule \<open>rules for invariants of actions\<close>

lemma kinvD: "kinv I m \<Longrightarrow> I s \<Longrightarrow> m s = (r, s') \<Longrightarrow> I s'"
  by (force simp: kinv_def)

lemma kinv_snd: "kinv I m \<Longrightarrow> I s \<Longrightarrow> I (snd (m s))"
  by (simp add: kinv_def)

lemma kinvI: "(\<And>s r s'. I s \<Longrightarrow> m s = (r, s') \<Longrightarrow> I s') \<Longrightarrow> kinv I m"
  unfolding kinv_def by (metis prod.collapse)

lemma kinv_prim [kinv_rule]:
  "kinv I (kret x)" "kinv I (kraise e)" "kinv I (kget f)" "kinv I (klift r)"
  by (simp_all add: kinv_def)

lemma kinv_guard [kinv_rule]: "kinv I (kguard b e)"
  by (simp add: kinv_def kguard_run)

lemma kinv_mod: "(\<And>s. I s \<Longrightarrow> I (f s)) \<Longrightarrow> kinv I (kmod f)"
  by (simp add: kinv_def)

lemma kinv_bind [kinv_rule]:
  assumes "kinv I m" and "\<And>x. kinv I (f x)"
  shows "kinv I (kbind m f)"
proof (rule kinvI)
  fix s r s'
  assume "I s" and run: "kbind m f s = (r, s')"
  obtain q t where m: "m s = (q, t)" by (cases "m s")
  with \<open>I s\<close> assms(1) have t: "I t" by (auto dest: kinvD)
  show "I s'"
  proof (cases q)
    case (Inl e)
    with m run t show ?thesis by (simp add: kbind_def)
  next
    case (Inr x)
    with m run have "f x t = (r, s')" by (simp add: kbind_def)
    with t assms(2) show ?thesis by (auto dest: kinvD)
  qed
qed

lemma kinv_then [kinv_rule]: "kinv I m \<Longrightarrow> kinv I n \<Longrightarrow> kinv I (kthen m n)"
  unfolding kthen_def by (intro kinv_bind)

lemma kinv_catch [kinv_rule]:
  assumes "kinv I m" and "\<And>e. kinv I (h e)"
  shows "kinv I (kcatch m h)"
proof (rule kinvI)
  fix s r s'
  assume "I s" and run: "kcatch m h s = (r, s')"
  obtain q t where m: "m s = (q, t)" by (cases "m s")
  with \<open>I s\<close> assms(1) have t: "I t" by (auto dest: kinvD)
  show "I s'"
  proof (cases "\<exists>e. q = Inl (Error e)")
    case True
    then obtain e where "q = Inl (Error e)" ..
    with m run have "h e t = (r, s')" by (simp add: kcatch_def)
    with t assms(2) show ?thesis by (auto dest: kinvD)
  next
    case False
    with m run have "s' = t" by (auto simp: kcatch_def split: sum.splits exn.splits)
    with t show ?thesis by simp
  qed
qed

lemma kinv_fold [kinv_rule]: "(\<And>x a. kinv I (f x a)) \<Longrightarrow> kinv I (kfold f xs a)"
  by (induction xs arbitrary: a) (auto intro: kinv_rule)

lemma kinv_if [kinv_rule]:
  "(c \<Longrightarrow> kinv I a) \<Longrightarrow> (\<not> c \<Longrightarrow> kinv I b) \<Longrightarrow> kinv I (if c then a else b)"
  by simp

lemma kinv_prod [kinv_rule]: "(\<And>x y. kinv I (f x y)) \<Longrightarrow> kinv I (case p of (x, y) \<Rightarrow> f x y)"
  by (cases p) simp

lemma kinv_option [kinv_rule]:
  "(opt = None \<Longrightarrow> kinv I a) \<Longrightarrow> (\<And>x. opt = Some x \<Longrightarrow> kinv I (f x)) \<Longrightarrow>
   kinv I (case opt of None \<Rightarrow> a | Some x \<Rightarrow> f x)"
  by (cases opt) simp_all

lemma kinv_let [kinv_rule]: "kinv I (f x) \<Longrightarrow> kinv I (let y = x in f y)"
  by simp

lemma kinv_for [kinv_rule]: "(\<And>x. kinv I (f x)) \<Longrightarrow> kinv I (kfor xs f)"
  by (induction xs) (auto intro: kinv_rule)

section \<open>Interface: a lock and the code it brackets\<close>

text \<open>
  What a driver relies on when it writes \<open>acquire; waserror; \<dots>; release\<close>: the release undoes the
  acquire as far as the lock state \<open>lk\<close> is concerned, provided the code between them left the
  lock state as it found it.  \<open>lk\<close> is the state of every lock of the component, so that brackets
  nest.  The lemma, proved once, is that bracketed code is balanced: it returns, or raises an
  error, with the locks as they were.
\<close>

definition balanced :: "('s \<Rightarrow> 'l) \<Rightarrow> ('s, 'a) kact \<Rightarrow> bool" where
  "balanced lk m \<longleftrightarrow>
     (\<forall>s r s'. m s = (r, s') \<longrightarrow> (\<exists>x. r = Inr x) \<or> (\<exists>e. r = Inl (Error e)) \<longrightarrow> lk s' = lk s)"

named_theorems balanced_rule \<open>rules for lock-balanced actions\<close>

lemma balancedI:
  "(\<And>s x s'. m s = (Inr x, s') \<Longrightarrow> lk s' = lk s) \<Longrightarrow>
   (\<And>s e s'. m s = (Inl (Error e), s') \<Longrightarrow> lk s' = lk s) \<Longrightarrow> balanced lk m"
  by (auto simp: balanced_def)

lemma balancedD_Inr: "balanced lk m \<Longrightarrow> m s = (Inr x, s') \<Longrightarrow> lk s' = lk s"
  by (auto simp: balanced_def)

lemma balancedD_Error: "balanced lk m \<Longrightarrow> m s = (Inl (Error e), s') \<Longrightarrow> lk s' = lk s"
  by (auto simp: balanced_def)

lemma balanced_prim [balanced_rule]:
  "balanced lk (kret x)" "balanced lk (kraise e)" "balanced lk (kget f)" "balanced lk (klift r)"
  by (simp_all add: balanced_def)

lemma balanced_guard [balanced_rule]: "balanced lk (kguard b e)"
  by (simp add: balanced_def kguard_run)

lemma balanced_mod: "(\<And>s. lk (f s) = lk s) \<Longrightarrow> balanced lk (kmod f)"
  by (simp add: balanced_def)

lemma balanced_bind [balanced_rule]:
  assumes "balanced lk m" and "\<And>x. balanced lk (f x)"
  shows "balanced lk (kbind m f)"
proof -
  have step: "lk s' = lk s"
    if "kbind m f s = (r, s')" and "(\<exists>x. r = Inr x) \<or> (\<exists>e. r = Inl (Error e))" for s r s'
  proof -
    obtain q t where m: "m s = (q, t)" by (cases "m s")
    show ?thesis
    proof (cases q)
      case (Inl e)
      with m that assms(1) show ?thesis by (auto simp: kbind_def balanced_def)
    next
      case (Inr x)
      with m that(1) have "f x t = (r, s')" by (simp add: kbind_def)
      with that(2) assms(2) have "lk s' = lk t" unfolding balanced_def by blast
      with m Inr assms(1) show ?thesis by (auto simp: balanced_def)
    qed
  qed
  then show ?thesis unfolding balanced_def by blast
qed

lemma balanced_then [balanced_rule]: "balanced lk m \<Longrightarrow> balanced lk n \<Longrightarrow> balanced lk (kthen m n)"
  unfolding kthen_def by (intro balanced_bind)

lemma balanced_catch [balanced_rule]:
  assumes "balanced lk m" and "\<And>e. balanced lk (h e)"
  shows "balanced lk (kcatch m h)"
proof -
  have step: "lk s' = lk s"
    if "kcatch m h s = (r, s')" and "(\<exists>x. r = Inr x) \<or> (\<exists>e. r = Inl (Error e))" for s r s'
  proof -
    obtain q t where m: "m s = (q, t)" by (cases "m s")
    show ?thesis
    proof (cases "\<exists>e. q = Inl (Error e)")
      case True
      then obtain e where q: "q = Inl (Error e)" ..
      with m that(1) have "h e t = (r, s')" by (simp add: kcatch_def)
      with that(2) assms(2) have "lk s' = lk t" unfolding balanced_def by blast
      with m q assms(1) show ?thesis by (auto simp: balanced_def)
    next
      case False
      with m that(1) have "q = r" "s' = t"
        by (auto simp: kcatch_def split: sum.splits exn.splits)
      with m that(2) False assms(1) show ?thesis by (auto simp: balanced_def)
    qed
  qed
  then show ?thesis unfolding balanced_def by blast
qed

lemma balanced_for [balanced_rule]: "(\<And>x. balanced lk (f x)) \<Longrightarrow> balanced lk (kfor xs f)"
  by (induction xs) (auto intro: balanced_rule)

lemma balanced_fold [balanced_rule]: "(\<And>x a. balanced lk (f x a)) \<Longrightarrow> balanced lk (kfold f xs a)"
  by (induction xs arbitrary: a) (auto intro: balanced_rule)

lemma balanced_if [balanced_rule]:
  "(c \<Longrightarrow> balanced lk a) \<Longrightarrow> (\<not> c \<Longrightarrow> balanced lk b) \<Longrightarrow> balanced lk (if c then a else b)"
  by simp

lemma balanced_prod [balanced_rule]:
  "(\<And>x y. balanced lk (f x y)) \<Longrightarrow> balanced lk (case p of (x, y) \<Rightarrow> f x y)"
  by (cases p) simp

lemma balanced_option [balanced_rule]:
  "(opt = None \<Longrightarrow> balanced lk a) \<Longrightarrow> (\<And>x. opt = Some x \<Longrightarrow> balanced lk (f x)) \<Longrightarrow>
   balanced lk (case opt of None \<Rightarrow> a | Some x \<Rightarrow> f x)"
  by (cases opt) simp_all

lemma balanced_let [balanced_rule]: "balanced lk (f x) \<Longrightarrow> balanced lk (let y = x in f y)"
  by simp

locale lock_pair =
  fixes acq :: "('s, unit) kact"
    and rel :: "('s, unit) kact"
    and lk :: "'s \<Rightarrow> 'l"
  assumes acq_run: "acq s = (Inr (), snd (acq s)) \<or> fst (acq s) = Inl Blocked"
    and rel_undoes: "acq s = (Inr (), s1) \<Longrightarrow> lk s2 = lk s1 \<Longrightarrow>
      \<exists>s3. rel s2 = (Inr (), s3) \<and> lk s3 = lk s"
begin

lemma bracket_balanced:
  assumes body: "balanced lk body"
  shows "balanced lk (kbracket acq rel body)"
proof -
  have step: "lk s' = lk s"
    if run: "kbracket acq rel body s = (r, s')"
      and r: "(\<exists>x. r = Inr x) \<or> (\<exists>e. r = Inl (Error e))" for s r s'
  proof (cases "acq s = (Inr (), snd (acq s))")
    case False
    then have "fst (acq s) = Inl Blocked" using acq_run by blast
    then have "acq s = (Inl Blocked, snd (acq s))" by (metis prod.collapse)
    with run r show ?thesis by (auto simp: kbracket_def kthen_Inl)
  next
    case True
    define s1 where "s1 = snd (acq s)"
    from True have acq: "acq s = (Inr (), s1)" by (simp add: s1_def)
    obtain q s2 where b: "body s1 = (q, s2)" by (cases "body s1")
    show ?thesis
    proof (cases q)
      case (Inr x)
      with b body have "lk s2 = lk s1" by (auto dest: balancedD_Inr)
      with acq obtain s3 where "rel s2 = (Inr (), s3)" "lk s3 = lk s"
        using rel_undoes by blast
      with run acq b Inr show ?thesis
        by (simp add: kbracket_def kthen_def kbind_def kcatch_def)
    next
      case (Inl e)
      show ?thesis
      proof (cases "\<exists>x. e = Error x")
        case True
        then obtain x where e: "e = Error x" ..
        with b Inl body have "lk s2 = lk s1" by (auto dest: balancedD_Error)
        with acq obtain s3 where "rel s2 = (Inr (), s3)" "lk s3 = lk s"
          using rel_undoes by blast
        with run acq b Inl e show ?thesis
          by (simp add: kbracket_def kthen_def kbind_def kcatch_def)
      next
        case False
        with run acq b Inl r show ?thesis
          by (auto simp: kbracket_def kthen_def kbind_def kcatch_def split: exn.splits)
      qed
    qed
  qed
  then show ?thesis unfolding balanced_def by blast
qed

end

section \<open>Reader-writer locks\<close>

text \<open>
  An \<open>RWlock\<close> as one process sees it: the read locks held and whether the write lock is held.
  An acquire that would wait is \<open>Blocked\<close>; a release of a lock that is not held panics.
\<close>

record rwlock =
  rw_readers :: nat
  rw_writer :: bool

definition rw_free :: rwlock where
  "rw_free = \<lparr>rw_readers = 0, rw_writer = False\<rparr>"

definition rlock :: "('s \<Rightarrow> rwlock) \<Rightarrow> (rwlock \<Rightarrow> 's \<Rightarrow> 's) \<Rightarrow> ('s, unit) kact" where
  "rlock get put s =
     (if rw_writer (get s) then (Inl Blocked, s)
      else (Inr (), put ((get s)\<lparr>rw_readers := Suc (rw_readers (get s))\<rparr>) s))"

definition runlock :: "('s \<Rightarrow> rwlock) \<Rightarrow> (rwlock \<Rightarrow> 's \<Rightarrow> 's) \<Rightarrow> ('s, unit) kact" where
  "runlock get put s =
     (if rw_readers (get s) = 0 then (Inl (Panic ''runlock''), s)
      else (Inr (), put ((get s)\<lparr>rw_readers := rw_readers (get s) - 1\<rparr>) s))"

definition wlock :: "('s \<Rightarrow> rwlock) \<Rightarrow> (rwlock \<Rightarrow> 's \<Rightarrow> 's) \<Rightarrow> ('s, unit) kact" where
  "wlock get put s =
     (if rw_writer (get s) \<or> rw_readers (get s) \<noteq> 0 then (Inl Blocked, s)
      else (Inr (), put ((get s)\<lparr>rw_writer := True\<rparr>) s))"

definition wunlock :: "('s \<Rightarrow> rwlock) \<Rightarrow> (rwlock \<Rightarrow> 's \<Rightarrow> 's) \<Rightarrow> ('s, unit) kact" where
  "wunlock get put s =
     (if \<not> rw_writer (get s) then (Inl (Panic ''wunlock''), s)
      else (Inr (), put ((get s)\<lparr>rw_writer := False\<rparr>) s))"

text \<open>
  Interface: a lock that is one of the locks \<open>lk\<close> of a component, reached by \<open>get\<close> and \<open>put\<close>.
  Every such lock gives the two \<open>lock_pair\<close>s, so code bracketed by either of them is balanced.
\<close>

locale rw_lens =
  fixes get :: "'s \<Rightarrow> rwlock"
    and put :: "rwlock \<Rightarrow> 's \<Rightarrow> 's"
    and lk :: "'s \<Rightarrow> 'l"
  assumes get_put: "get (put x s) = x"
    and put_put: "put x (put y s) = put x s"
    and put_get: "put (get s) s = s"
    and lk_get: "lk s = lk t \<Longrightarrow> get s = get t"
    and lk_put: "lk s = lk t \<Longrightarrow> lk (put x s) = lk (put x t)"

sublocale rw_lens \<subseteq> reader: lock_pair "rlock get put" "runlock get put" lk
proof
  fix s
  show "rlock get put s = (Inr (), snd (rlock get put s)) \<or> fst (rlock get put s) = Inl Blocked"
    by (simp add: rlock_def)
next
  fix s s1 s2
  assume acq: "rlock get put s = (Inr (), s1)" and lk: "lk s2 = lk s1"
  let ?up = "(get s)\<lparr>rw_readers := Suc (rw_readers (get s))\<rparr>"
  from acq have s1: "s1 = put ?up s" by (simp add: rlock_def split: if_splits)
  with lk have g: "get s2 = ?up" by (metis get_put lk_get)
  have "lk (put (get s) s2) = lk s"
    by (metis lk s1 lk_put put_put put_get)
  with g show "\<exists>s3. runlock get put s2 = (Inr (), s3) \<and> lk s3 = lk s"
    by (simp add: runlock_def)
qed

sublocale rw_lens \<subseteq> writer: lock_pair "wlock get put" "wunlock get put" lk
proof
  fix s
  show "wlock get put s = (Inr (), snd (wlock get put s)) \<or> fst (wlock get put s) = Inl Blocked"
    by (simp add: wlock_def)
next
  fix s s1 s2
  assume acq: "wlock get put s = (Inr (), s1)" and lk: "lk s2 = lk s1"
  let ?up = "(get s)\<lparr>rw_writer := True\<rparr>"
  from acq have s1: "s1 = put ?up s" and free: "\<not> rw_writer (get s)"
    by (simp_all add: wlock_def split: if_splits)
  with lk have g: "get s2 = ?up" by (metis get_put lk_get)
  have "lk (put (get s) s2) = lk s"
    by (metis lk s1 lk_put put_put put_get)
  moreover have "(get s2)\<lparr>rw_writer := False\<rparr> = get s"
    using free by (simp add: g)
  ultimately show "\<exists>s3. wunlock get put s2 = (Inr (), s3) \<and> lk s3 = lk s"
    using g by (simp add: wunlock_def)
qed

section \<open>Interrupt locks\<close>

text \<open>
  \<open>ilock\<close> and \<open>iunlock\<close> (and \<open>lock\<close>, \<open>unlock\<close>): a lock that is held or not.  Taking one that is held
  spins for ever on the single processor.
\<close>

definition ilock :: "('s \<Rightarrow> bool) \<Rightarrow> (bool \<Rightarrow> 's \<Rightarrow> 's) \<Rightarrow> ('s, unit) kact" where
  "ilock get put s = (if get s then (Inl Blocked, s) else (Inr (), put True s))"

definition iunlock :: "(bool \<Rightarrow> 's \<Rightarrow> 's) \<Rightarrow> ('s, unit) kact" where
  "iunlock put s = (Inr (), put False s)"

text \<open>\<open>ilock(l); body; iunlock(l);\<close> without an error handler.\<close>

definition with_ilock :: "('s \<Rightarrow> bool) \<Rightarrow> (bool \<Rightarrow> 's \<Rightarrow> 's) \<Rightarrow> ('s, 'a) kact \<Rightarrow> ('s, 'a) kact" where
  "with_ilock get put body =
     kthen (ilock get put) (kbind body (\<lambda>x. kthen (iunlock put) (kret x)))"

locale spin_lens =
  fixes get :: "'s \<Rightarrow> bool"
    and put :: "bool \<Rightarrow> 's \<Rightarrow> 's"
    and lk :: "'s \<Rightarrow> 'l"
  assumes get_put: "get (put x s) = x"
    and put_put: "put x (put y s) = put x s"
    and put_get: "put (get s) s = s"
    and lk_get: "lk s = lk t \<Longrightarrow> get s = get t"
    and lk_put: "lk s = lk t \<Longrightarrow> lk (put x s) = lk (put x t)"

sublocale spin_lens \<subseteq> spin: lock_pair "ilock get put" "iunlock put" lk
proof
  fix s
  show "ilock get put s = (Inr (), snd (ilock get put s)) \<or> fst (ilock get put s) = Inl Blocked"
    by (simp add: ilock_def)
next
  fix s s1 s2
  assume acq: "ilock get put s = (Inr (), s1)" and lk: "lk s2 = lk s1"
  then have "s1 = put True s" "\<not> get s" by (auto simp: ilock_def split: if_splits)
  then have "lk (put False s2) = lk s"
    by (metis (full_types) lk lk_put put_put put_get)
  then show "\<exists>s3. iunlock put s2 = (Inr (), s3) \<and> lk s3 = lk s"
    by (simp add: iunlock_def)
qed

context spin_lens begin

lemma with_ilock_run:
  assumes "\<not> get s" and "body (put True s) = (Inr x, t)"
  shows "with_ilock get put body s = (Inr x, put False t)"
  using assms by (simp add: with_ilock_def kthen_def kbind_def ilock_def iunlock_def)

lemma with_ilock_Inr:
  assumes "with_ilock get put body s = (Inr x, s')"
  shows "\<exists>t. \<not> get s \<and> body (put True s) = (Inr x, t) \<and> s' = put False t"
  using assms by (auto simp: with_ilock_def kthen_def kbind_Inr_iff ilock_def iunlock_def
      split: if_splits)

end

lemma mod_add_inj:
  fixes a b h n :: nat
  assumes "a < n" and "b < n" and eq: "(h + a) mod n = (h + b) mod n"
  shows "a = b"
proof -
  have half: "x = y" if "y \<le> x" "x < n" "(h + x) mod n = (h + y) mod n" for x y
  proof -
    have "n dvd (h + x) - (h + y)" using that by (simp flip: mod_eq_iff_dvd_symdiff_nat add: mod_eq_dvd_iff_nat)
    then have "n dvd x - y" by simp
    with that show ?thesis by (metis diff_is_0_eq dvd_imp_le le_antisym less_imp_diff_less
          linorder_not_less not_gr_zero)
  qed
  show ?thesis using half [of b a] half [of a b] assms by (cases "a \<le> b") auto
qed

section \<open>Interface: a circular index\<close>

text \<open>
  Descriptor rings and tag pools move an index round a table of fixed length (\<open>NEXT\<close> of
  \<open>etherif.h\<close>, \<open>(i+1)%32\<close> in the sata driver).  A ring promises a length and a step that is the
  successor modulo that length; what its clients use is the closed form of the iterated step.
\<close>

locale ring_index =
  fixes len :: nat
    and nxt :: "nat \<Rightarrow> nat"
  assumes len_pos: "0 < len"
    and nxt_mod: "i < len \<Longrightarrow> nxt i = (i + 1) mod len"
begin

lemma nxt_less: "i < len \<Longrightarrow> nxt i < len"
  using len_pos by (simp add: nxt_mod)

lemma nxt_iter: "i < len \<Longrightarrow> (nxt ^^ k) i = (i + k) mod len"
proof (induction k)
  case 0
  then show ?case by simp
next
  case (Suc k)
  then have "(nxt ^^ Suc k) i = nxt ((i + k) mod len)" by simp
  also have "\<dots> = ((i + k) mod len + 1) mod len"
    using len_pos by (intro nxt_mod) simp
  also have "\<dots> = (i + Suc k) mod len" by (simp add: mod_simps)
  finally show ?case .
qed

lemma nxt_cycle: "i < len \<Longrightarrow> (nxt ^^ len) i = i"
  by (simp add: nxt_iter)

lemma nxt_inj: "i < len \<Longrightarrow> j < len \<Longrightarrow> nxt i = nxt j \<Longrightarrow> i = j"
  by (cases "i + 1 = len"; cases "j + 1 = len") (auto simp: nxt_mod)

end

section \<open>Shared lists lemmas\<close>

lemma nth_append_snoc [simp]: "i < length xs \<Longrightarrow> (xs @ [x]) ! i = xs ! i"
  by (simp add: nth_append)

end
