(* ===== verification/Kw_Libc.thy ===== *)
theory Kw_Libc
  imports Kw_Prelude
begin

text \<open>
  The parts of the C library (\<open>lib9\<close>, \<open>libkern\<close>) the sources call, by their documented
  behaviour: decimal and hexadecimal conversion, bounded printing, tokenising and number parsing.
  Nothing here maps to a file of the repository.  A C string is the list of its characters
  before the terminating NUL.
\<close>

section \<open>Numbers as text\<close>

definition dec_digit :: "nat \<Rightarrow> char" where
  "dec_digit n = (char_of (48 + n) :: char)"

fun udec :: "nat \<Rightarrow> string" where
  "udec n = (if n < 10 then [dec_digit n] else udec (n div 10) @ [dec_digit (n mod 10)])"

declare udec.simps [simp del]

text \<open>\<open>%d\<close>.\<close>

definition sdec :: "int \<Rightarrow> string" where
  "sdec i = (if i < 0 then CHR ''-'' # udec (nat (- i)) else udec (nat i))"

definition dec_val :: "string \<Rightarrow> nat" where
  "dec_val s = foldl (\<lambda>a c. 10 * a + (of_char c - 48)) 0 s"

lemma of_char_dec_digit: "n < 10 \<Longrightarrow> of_char (dec_digit n) = 48 + n"
  by (simp add: dec_digit_def)

lemma dec_val_udec: "dec_val (udec n) = n"
proof (induction n rule: udec.induct)
  case (1 n)
  show ?case
  proof (cases "n < 10")
    case True
    then show ?thesis by (simp add: udec.simps [of n] dec_val_def of_char_dec_digit)
  next
    case False
    with 1 have "dec_val (udec (n div 10)) = n div 10" by simp
    with False show ?thesis
      by (simp add: udec.simps [of n] dec_val_def of_char_dec_digit)
  qed
qed

lemma udec_inj: "udec m = udec n \<longleftrightarrow> m = n"
  by (metis dec_val_udec)

lemma sdec_of_nat [simp]: "sdec (int n) = udec n"
  by (simp add: sdec_def)

lemma udec_length: "n < 10 ^ Suc k \<Longrightarrow> length (udec n) \<le> Suc k"
proof (induction k arbitrary: n)
  case 0
  then show ?case by (simp add: udec.simps [of n])
next
  case (Suc k)
  show ?case
  proof (cases "n < 10")
    case True
    then show ?thesis by (simp add: udec.simps [of n])
  next
    case False
    have "n div 10 < 10 ^ Suc k"
      using Suc.prems by (simp add: less_mult_imp_div_less mult.commute)
    then have "length (udec (n div 10)) \<le> Suc k" by (rule Suc.IH)
    with False show ?thesis by (simp add: udec.simps [of n])
  qed
qed

section \<open>Bounded printing\<close>

text \<open>
  \<open>seprint(p, e, \<dots>)\<close> appends to the text already in a buffer of \<open>cap\<close> bytes and returns a pointer
  to the terminating NUL, which is always inside the buffer: at most \<open>cap - 1\<close> characters are
  kept.  The pointer is the length of the result.
\<close>

definition seprint :: "nat \<Rightarrow> string \<Rightarrow> string \<Rightarrow> string" where
  "seprint cap old new = take (cap - 1) (old @ new)"

lemma seprint_length: "0 < cap \<Longrightarrow> length (seprint cap old new) < cap"
  by (simp add: seprint_def)

lemma seprint_fits: "length old + length new < cap \<Longrightarrow> seprint cap old new = old @ new"
  by (simp add: seprint_def)

section \<open>Tokenising\<close>

definition is_sep :: "char \<Rightarrow> bool" where
  "is_sep c \<longleftrightarrow> c = CHR '' '' \<or> c = CHR 0x09 \<or> c = CHR 0x0D \<or> c = CHR 0x0A"

text \<open>One token: quotes may enclose separators, and a doubled quote inside quotes is a quote.\<close>

fun qtoken :: "bool \<Rightarrow> string \<Rightarrow> string \<times> string" where
  "qtoken q [] = ([], [])"
| "qtoken q (c # cs) =
     (if \<not> q \<and> is_sep c then ([], c # cs)
      else if c \<noteq> CHR 0x27 then (let (t, r) = qtoken q cs in (c # t, r))
      else if \<not> q then qtoken True cs
      else (case cs of
              c' # cs' \<Rightarrow>
                if c' = CHR 0x27 then (let (t, r) = qtoken True cs' in (CHR 0x27 # t, r))
                else qtoken False cs
            | [] \<Rightarrow> ([], [])))"

fun tokenize :: "nat \<Rightarrow> string \<Rightarrow> string list" where
  "tokenize 0 s = []"
| "tokenize (Suc n) s =
     (let s' = dropWhile is_sep s in
      if s' = [] then []
      else (let (t, r) = qtoken False s' in t # tokenize n r))"

lemma tokenize_length: "length (tokenize n s) \<le> n"
  by (induction n s rule: tokenize.induct) (auto simp: Let_def split: prod.splits)

section \<open>Parsing numbers\<close>

definition digit_val :: "char \<Rightarrow> nat" where
  "digit_val c =
     (let n = of_char c in
      if 48 \<le> n \<and> n \<le> 57 then n - 48
      else if 97 \<le> n \<and> n \<le> 122 then n - 97 + 10
      else if 65 \<le> n \<and> n \<le> 90 then n - 65 + 10
      else 99)"

fun digits_val :: "nat \<Rightarrow> int \<Rightarrow> string \<Rightarrow> int" where
  "digits_val base a [] = a"
| "digits_val base a (c # cs) =
     (if digit_val c < base then digits_val base (a * int base + int (digit_val c)) cs else a)"

definition is_space :: "char \<Rightarrow> bool" where
  "is_space c \<longleftrightarrow> c = CHR '' '' \<or> (9 \<le> (of_char c :: nat) \<and> (of_char c :: nat) \<le> 13)"

text \<open>
  \<open>strtoul(s, nil, base)\<close> and \<open>strtoull\<close>: white space, a sign, a base prefix when \<open>base\<close> is 0
  (or 16), digits; a value that does not fit saturates, a minus sign negates modulo the width.
\<close>

definition strtou :: "nat \<Rightarrow> nat \<Rightarrow> string \<Rightarrow> int" where
  "strtou bits base s =
     (let s1 = dropWhile is_space s;
          neg = (s1 \<noteq> [] \<and> hd s1 = CHR ''-'');
          s2 = (if s1 \<noteq> [] \<and> (hd s1 = CHR ''-'' \<or> hd s1 = CHR ''+'') then tl s1 else s1);
          hex = (length s2 \<ge> 2 \<and> hd s2 = CHR ''0'' \<and> (s2 ! 1 = CHR ''x'' \<or> s2 ! 1 = CHR ''X''));
          b = (if base = 0 then (if hex then 16 else if s2 \<noteq> [] \<and> hd s2 = CHR ''0'' then 8 else 10)
               else base);
          s3 = (if hex \<and> (base = 0 \<or> base = 16) then drop 2 s2 else s2);
          n = digits_val b 0 s3
      in if 2 ^ bits \<le> n then 2 ^ bits - 1
         else if neg then (- n) mod 2 ^ bits
         else n)"

lemma strtou_less: "strtou bits base s < 2 ^ bits"
  by (auto simp: strtou_def Let_def)

text \<open>What is printed in decimal is parsed back.\<close>

lemma digits_val_append:
  "\<forall>c\<in>set xs. digit_val c < b \<Longrightarrow> digits_val b a (xs @ ys) = digits_val b (digits_val b a xs) ys"
  by (induction xs arbitrary: a) auto

lemma digit_val_dec: "n < 10 \<Longrightarrow> digit_val (dec_digit n) = n"
  by (simp add: digit_val_def of_char_dec_digit Let_def)

lemma digits_val_udec: "(\<forall>c\<in>set (udec n). digit_val c < 10) \<and> digits_val 10 0 (udec n) = int n"
proof (induction n rule: udec.induct)
  case (1 n)
  show ?case
  proof (cases "n < 10")
    case True
    then show ?thesis by (simp add: udec.simps [of n] digit_val_dec)
  next
    case False
    with 1 have IH: "\<forall>c\<in>set (udec (n div 10)). digit_val c < 10"
      "digits_val 10 0 (udec (n div 10)) = int (n div 10)" by auto
    have "int (n div 10) * 10 + int (n mod 10) = int n" by presburger
    with IH False show ?thesis
      by (auto simp: udec.simps [of n] digits_val_append digit_val_dec)
  qed
qed

lemma udec_hd_digit: "\<exists>k. hd (udec n) = dec_digit k \<and> k < 10 \<and> (k = 0 \<longrightarrow> n = 0) \<and> udec n \<noteq> []"
proof (induction n rule: udec.induct)
  case (1 n)
  show ?case
  proof (cases "n < 10")
    case True
    then show ?thesis by (auto simp: udec.simps [of n])
  next
    case False
    with 1 have "\<exists>k. hd (udec (n div 10)) = dec_digit k \<and> k < 10 \<and> (k = 0 \<longrightarrow> n div 10 = 0) \<and>
      udec (n div 10) \<noteq> []" by blast
    with False show ?thesis by (auto simp: udec.simps [of n] hd_append)
  qed
qed

lemma strtou_udec:
  assumes "int n < 2 ^ bits"
  shows "strtou bits 0 (udec n) = int n"
proof -
  obtain k where k: "hd (udec n) = dec_digit k" "k < 10" "k = 0 \<longrightarrow> n = 0" "udec n \<noteq> []"
    using udec_hd_digit by blast
  then have oc: "of_char (hd (udec n)) = 48 + k" by (simp add: of_char_dec_digit)
  obtain c cs where u: "udec n = c # cs" using k(4) by (cases "udec n") auto
  have c: "(of_char c :: nat) = 48 + k" using oc u by simp
  have sp: "\<not> is_space c" "c \<noteq> CHR ''-''" "c \<noteq> CHR ''+''"
    using c k(2) by (auto simp: is_space_def)
  show ?thesis
  proof (cases "n = 0")
    case True
    have z: "udec 0 = ''0''" by code_simp
    show ?thesis unfolding True z by (simp add: strtou_def is_space_def digit_val_def Let_def)
  next
    case False
    with k c have "c \<noteq> CHR ''0''" by auto
    moreover have "digits_val 10 0 (c # cs) = int n"
      using digits_val_udec [of n] u by (simp only:)
    ultimately show ?thesis
      using sp u assms unfolding strtou_def
      by (simp add: Let_def del: digits_val.simps)
  qed
qed

definition strtoull :: "string \<Rightarrow> u64" where
  "strtoull s = of_int (strtou 64 0 s)"

definition strtoul :: "nat \<Rightarrow> string \<Rightarrow> u32" where
  "strtoul base s = of_int (strtou 32 base s)"

text \<open>The text after the number, where \<open>strtoul(s, &p, base)\<close> leaves \<open>p\<close>; no digits: \<open>s\<close> itself.\<close>

definition strtou_end :: "nat \<Rightarrow> string \<Rightarrow> string" where
  "strtou_end base s =
     (let s1 = dropWhile is_space s;
          s2 = (if s1 \<noteq> [] \<and> (hd s1 = CHR ''-'' \<or> hd s1 = CHR ''+'') then tl s1 else s1);
          hex = (length s2 \<ge> 2 \<and> hd s2 = CHR ''0'' \<and> (s2 ! 1 = CHR ''x'' \<or> s2 ! 1 = CHR ''X''));
          b = (if base = 0 then (if hex then 16 else if s2 \<noteq> [] \<and> hd s2 = CHR ''0'' then 8 else 10)
               else base);
          s3 = (if hex \<and> (base = 0 \<or> base = 16) then drop 2 s2 else s2);
          rest = dropWhile (\<lambda>c. digit_val c < b) s3
      in if length rest = length s3 then s else rest)"

section \<open>Strings and bytes\<close>

definition chr_of :: "u8 \<Rightarrow> char" where
  "chr_of b = (char_of (unat b) :: char)"

definition byte_of :: "char \<Rightarrow> u8" where
  "byte_of c = of_nat (of_char c)"

lemma chr_of_byte_of [simp]: "chr_of (byte_of c) = c"
  by (simp add: chr_of_def byte_of_def unat_of_nat)

lemma byte_of_chr_of [simp]: "byte_of (chr_of b) = b"
proof -
  have "unat b < 2 ^ LENGTH(8)" by (rule unsigned_less)
  then have "unat b < 256" by simp
  then show ?thesis by (simp add: chr_of_def byte_of_def)
qed

text \<open>The bytes of a C string inside a buffer: up to the first NUL.\<close>

definition cstr :: "u8 list \<Rightarrow> string" where
  "cstr bs = map chr_of (takeWhile (\<lambda>b. b \<noteq> 0) bs)"

definition to_lower :: "char \<Rightarrow> char" where
  "to_lower c = (let n = (of_char c :: nat) in if 65 \<le> n \<and> n \<le> 90 then char_of (n + 32) else c)"

definition hex_digit :: "nat \<Rightarrow> char" where
  "hex_digit n = (if n < 10 then char_of (48 + n) else char_of (87 + n))"

text \<open>\<open>%2.2ux\<close> of a byte.\<close>

definition hex2 :: "u8 \<Rightarrow> string" where
  "hex2 b = [hex_digit (unat b div 16), hex_digit (unat b mod 16)]"

definition cistrcmp_eq :: "string \<Rightarrow> string \<Rightarrow> bool" where
  "cistrcmp_eq a b \<longleftrightarrow> map to_lower a = map to_lower b"

text \<open>\<open>%ux\<close>, \<open>%#lux\<close> and \<open>%0nd\<close>.\<close>

fun uhex :: "nat \<Rightarrow> string" where
  "uhex n = (if n < 16 then [hex_digit n] else uhex (n div 16) @ [hex_digit (n mod 16)])"

declare uhex.simps [simp del]

definition xhex :: "nat \<Rightarrow> string" where "xhex n = ''0x'' @ uhex n"

definition zeropad :: "nat \<Rightarrow> int \<Rightarrow> string" where
  "zeropad w i = (if i < 0 then CHR ''-'' # replicate (w - length (sdec i)) CHR ''0'' @ sdec (- i)
     else replicate (w - length (sdec i)) CHR ''0'' @ sdec i)"

section \<open>Kernel helpers for control files\<close>

text \<open>\<open>readstr(off, a, n, s)\<close>: the part of a text a read sees; the offset is a \<open>ulong\<close>.\<close>

definition readstr :: "int \<Rightarrow> int \<Rightarrow> string \<Rightarrow> u8 list" where
  "readstr off n s = map byte_of (take (nat n) (drop (unat (of_int off :: u32)) s))"

text \<open>\<open>%q\<close>: quoted when the text is empty or has a character that needs it.\<close>

definition needs_quote :: "char \<Rightarrow> bool" where
  "needs_quote c \<longleftrightarrow> (of_char c :: nat) \<le> 32 \<or> c \<in> set ''`^#*[]=|?${}()<>&;'' \<or> c = CHR 0x27 \<or> c = CHR 0x5C"

definition qfmt :: "string \<Rightarrow> string" where
  "qfmt s =
     (if s \<noteq> [] \<and> \<not> list_ex needs_quote s then s
      else [CHR 0x27] @ concat (map (\<lambda>c. if c = CHR 0x27 then [c, c] else [c]) s) @ [CHR 0x27])"

text \<open>
  \<open>lookupcmd\<close>: the entry with the name of the first field and as many fields as the entry wants
  (0 for any number).
\<close>

fun lookupcmd :: "(nat \<times> string \<times> nat) list \<Rightarrow> string list \<Rightarrow> exn + nat" where
  "lookupcmd tab [] = Inl (Error Ebadctl)"
| "lookupcmd [] (f # fs) = Inl (Error Ebadctl)"
| "lookupcmd ((i, name, n) # tab) (f # fs) =
     (if name \<noteq> f then lookupcmd tab (f # fs)
      else if n \<noteq> 0 \<and> n \<noteq> Suc (length fs) then Inl (Error (Emsg ''wrong #args in control message''))
      else Inr i)"

definition atoi :: "string \<Rightarrow> int" where
  "atoi s = i32 (sint (strtoul 10 s))"

section \<open>Bytes and words\<close>

text \<open>
  Interface: a fixed-width byte encoding.  The kernel writes 32-bit numbers into byte buffers in
  several files, each with its own pair of static helpers; what the callers rely on is that the
  decoder inverts the encoder and that the width is constant.  From this the lemmas give what a
  sequence of encoded fields decodes to.
\<close>

locale byte_codec =
  fixes width :: nat
    and enc :: "'a \<Rightarrow> u8 list"
    and dec :: "u8 list \<Rightarrow> 'a"
  assumes enc_length: "length (enc x) = width"
    and dec_enc: "dec (enc x @ rest) = x"
begin

lemma dec_enc_exact: "dec (enc x) = x"
  using dec_enc [of x "[]"] by simp

lemma enc_inj: "enc x = enc y \<Longrightarrow> x = y"
  by (metis dec_enc_exact)

lemma dec_field: "length xs * width + off = k \<Longrightarrow> length pre = off \<Longrightarrow>
    dec (drop k (pre @ concat (map enc xs) @ enc x @ rest)) = x"
proof -
  assume k: "length xs * width + off = k" and pre: "length pre = off"
  have "length (concat (map enc xs)) = length xs * width"
    by (induction xs) (simp_all add: enc_length)
  with k pre have "drop k (pre @ concat (map enc xs) @ enc x @ rest) = enc x @ rest"
    by simp
  then show ?thesis by (simp add: dec_enc)
qed

end

text \<open>Sums of shifted bytes, the way the helpers build a word.\<close>

definition be32 :: "u8 \<Rightarrow> u8 \<Rightarrow> u8 \<Rightarrow> u8 \<Rightarrow> u32" where
  "be32 a b c d = push_bit 24 (ucast a) OR push_bit 16 (ucast b) OR push_bit 8 (ucast c) OR ucast d"

lemma be32_split:
  "be32 (ucast (drop_bit 24 v)) (ucast (drop_bit 16 v)) (ucast (drop_bit 8 v)) (ucast v) = (v::u32)"
proof (rule bit_word_eqI)
  fix n
  assume n: "n < LENGTH(32)"
  then consider "n < 8" | "8 \<le> n" "n < 16" | "16 \<le> n" "n < 24" | "24 \<le> n" "n < 32"
    by fastforce
  then show "bit (be32 (ucast (drop_bit 24 v)) (ucast (drop_bit 16 v)) (ucast (drop_bit 8 v))
      (ucast v)) n = bit v n"
    by cases (use n in \<open>auto simp: be32_def bit_simps\<close>)
qed

lemma be32_bytes:
  "ucast (drop_bit 24 (be32 a b c d)) = a"
  "ucast (drop_bit 16 (be32 a b c d)) = b"
  "ucast (drop_bit 8 (be32 a b c d)) = c"
  "ucast (be32 a b c d) = d"
proof -
  show "ucast (drop_bit 24 (be32 a b c d)) = a"
    by (rule bit_word_eqI) (auto simp: be32_def bit_simps dest: bit_imp_le_length)
  show "ucast (drop_bit 16 (be32 a b c d)) = b"
    by (rule bit_word_eqI) (auto simp: be32_def bit_simps dest: bit_imp_le_length)
  show "ucast (drop_bit 8 (be32 a b c d)) = c"
    by (rule bit_word_eqI) (auto simp: be32_def bit_simps dest: bit_imp_le_length)
  show "ucast (be32 a b c d) = d"
    by (rule bit_word_eqI) (auto simp: be32_def bit_simps dest: bit_imp_le_length)
qed

definition get_be32 :: "u8 list \<Rightarrow> u32" where
  "get_be32 p = be32 (p ! 0) (p ! 1) (p ! 2) (p ! 3)"

text \<open>\<open>strncpy\<close>: at most \<open>n\<close> bytes of the string, then zeros up to \<open>n\<close>.\<close>

definition strncpy :: "nat \<Rightarrow> u8 list \<Rightarrow> u8 list" where
  "strncpy n s = take n (takeWhile (\<lambda>b. b \<noteq> 0) s @ replicate n 0)"

lemma strncpy_length [simp]: "length (strncpy n s) = n"
  by (simp add: strncpy_def)

lemma uint_u32_bounds [simp]: "0 \<le> uint (x::u32)" "uint (x::u32) < 4294967296"
  using uint_lt2p [of x] by simp_all

lemma unat_of_int_u32: "0 \<le> x \<Longrightarrow> x < 4294967296 \<Longrightarrow> unat (of_int x :: u32) = nat x"
proof -
  assume "0 \<le> x" "x < 4294967296"
  then have "uint (of_int x :: u32) = x"
    by (simp add: uint_word_of_int take_bit_int_eq_self)
  then show ?thesis by (metis nat_uint_eq)
qed

lemma unat_of_nat_u32: "n < 4294967296 \<Longrightarrow> unat (of_nat n :: u32) = n"
  by (simp add: unat_of_nat take_bit_nat_eq_self)

lemma uint_of_nat_u32: "n < 4294967296 \<Longrightarrow> uint (of_nat n :: u32) = int n"
  by (simp add: unsigned_of_nat take_bit_nat_eq_self)

lemma uint_of_int_u32: "0 \<le> x \<Longrightarrow> x < 4294967296 \<Longrightarrow> uint (of_int x :: u32) = x"
  by (simp add: unsigned_of_int take_bit_int_eq_self)

end
