(* ===== verification/Part.thy ===== *)
theory Part
  imports Kw_Libc
begin

text \<open>
  \<open>part.c\<close> and \<open>part.h\<close>: the partition table of a disk.  The parts array is the list of its first
  \<open>nparts\<close> elements; element 0 is the whole-disk partition the caller put there.  The device's
  read function, \<open>realloc\<close>'s success and the name of the host owner (\<open>eve\<close>) are parameters.
\<close>

section \<open>Data\<close>

text \<open>
  \<open>typ\<close> is an option because the sub-partitions of a Plan 9 partition never get one: \<open>partinit\<close>
  leaves the field of the freshly reallocated element as it is.
\<close>

record part =
  p_index :: u8
  p_typ :: "u8 option"
  p_name :: string
  p_s :: int
  p_e :: int
  p_size :: int
  p_uid :: string
  p_perm :: u32
  p_isopen :: int

section \<open>Names\<close>

definition g32_part :: "u8 list \<Rightarrow> nat \<Rightarrow> u32" where
  "g32_part p o' = be32 (p ! (o' + 3)) (p ! (o' + 2)) (p ! (o' + 1)) (p ! o')"

definition haspartname :: "part list \<Rightarrow> string \<Rightarrow> bool" where
  "haspartname parts s \<longleftrightarrow> list_ex (\<lambda>p. p_name p = s) parts"

text \<open>\<open>sizeof pp->name\<close>\<close>

abbreviation NAMELEN :: nat where "NAMELEN \<equiv> 32"

definition Elongname :: kerr where
  "Elongname = Emsg ''partition name too long''"

fun partgen_loop :: "nat \<Rightarrow> part list \<Rightarrow> string \<Rightarrow> int \<Rightarrow> exn + string" where
  "partgen_loop 0 parts pre i = Inl Fuel"
| "partgen_loop (Suc fuel) parts pre i =
     (let name = seprint NAMELEN pre (sdec i) in
      if length name = NAMELEN then Inl (Error Elongname)
      else if \<not> haspartname parts name then Inr name
      else partgen_loop fuel parts pre (i32 (i + 1)))"

definition partgenname :: "nat \<Rightarrow> part list \<Rightarrow> string \<Rightarrow> string \<Rightarrow> exn + string" where
  "partgenname fuel parts first nxt =
     (if \<not> haspartname parts first then
        (let name = seprint NAMELEN [] first in
         if length name = NAMELEN then Inl (Error Elongname) else Inr name)
      else partgen_loop fuel parts (seprint NAMELEN [] (nxt @ ''.'')) 0)"

definition partname :: "nat \<Rightarrow> u8 \<Rightarrow> part list \<Rightarrow> nat \<Rightarrow> exn + string" where
  "partname fuel typ parts i =
     (if typ = 0x39 then partgenname fuel parts ''plan9'' ''plan9''
      else if typ \<in> {0x01, 0x04, 0x06, 0x0b, 0x0c, 0x0e} then partgenname fuel parts ''9fat'' ''dos''
      else Inr (seprint NAMELEN [] (''p'' @ udec i)))"

section \<open>Checking a partition against the others\<close>

definition part_clash :: "part \<Rightarrow> part \<Rightarrow> bool" where
  "part_clash p q \<longleftrightarrow>
     p_s p \<le> p_s q \<and> p_s q < p_e p \<or> p_s p < p_e q \<and> p_e q \<le> p_e p"

definition partcheck :: "part \<Rightarrow> part list \<Rightarrow> int \<Rightarrow> exn + unit" where
  "partcheck p parts sz =
     ebind (eguard (p_e p \<le> sz) (Emsg ''partition beyond end of disk'')) (\<lambda>_.
     ebind (eguard (p_s p \<le> p_e p) (Emsg ''bad partition, start > end'')) (\<lambda>_.
     eguard (\<not> list_ex (part_clash p) (tl parts)) (Emsg ''overlapping partitions'')))"

text \<open>A new element: \<open>partclear\<close> and the index; the other fields are set by the callers.\<close>

definition partclear :: "string \<Rightarrow> nat \<Rightarrow> part" where
  "partclear eve nparts =
     \<lparr>p_index = of_nat nparts, p_typ = None, p_name = [], p_s = 0, p_e = 0, p_size = 0,
      p_uid = eve, p_perm = 432 \<comment> \<open>\<open>0660\<close>\<close>, p_isopen = 0\<rparr>"

definition partrealloc :: "(nat \<Rightarrow> bool) \<Rightarrow> nat \<Rightarrow> exn + unit" where
  "partrealloc memok np = eguard (memok (np + 1)) Enomem"

section \<open>The two loops of partinit\<close>

text \<open>One entry of the table in the master boot record.\<close>

definition mbr_entry ::
  "nat \<Rightarrow> (nat \<Rightarrow> bool) \<Rightarrow> string \<Rightarrow> u8 list \<Rightarrow> int \<Rightarrow> nat \<Rightarrow> part list \<Rightarrow> exn + part list" where
  "mbr_entry fuel memok eve p sz i parts =
     (let o' = 446 + i * 16;
          nparts = length parts;
          typ = p ! (o' + 4)
      in
      ebind (partrealloc memok nparts) (\<lambda>_.
      if typ = 0 then Inr parts
      else
        ebind (partname fuel typ parts i) (\<lambda>name.
        let s = i64 (uint (g32_part p (o' + 8)) * 512);
            n = i64 (uint (g32_part p (o' + 12)) * 512);
            pp = (partclear eve nparts)
                   \<lparr>p_typ := Some typ, p_name := name, p_s := s, p_size := n, p_e := i64 (s + n)\<rparr>
        in
        ebind (partcheck pp parts sz) (\<lambda>_. Inr (parts @ [pp])))))"

definition mbr_table ::
  "nat \<Rightarrow> (nat \<Rightarrow> bool) \<Rightarrow> string \<Rightarrow> u8 list \<Rightarrow> int \<Rightarrow> part list \<Rightarrow> exn + part list" where
  "mbr_table fuel memok eve p sz = efold (mbr_entry fuel memok eve p sz) [0, 1, 2, 3]"

text \<open>The lines of a sector of text: up to the first NUL, each ended by a newline.\<close>

fun nl_lines :: "string \<Rightarrow> string \<Rightarrow> string list" where
  "nl_lines acc [] = []"
| "nl_lines acc (c # cs) =
     (if c = CHR 0x0A then rev acc # nl_lines [] cs else nl_lines (c # acc) cs)"

text \<open>One line \<open>part name start end\<close> of the table inside the Plan 9 partition \<open>parts[i]\<close>.\<close>

definition plan9_line ::
  "nat \<Rightarrow> (nat \<Rightarrow> bool) \<Rightarrow> string \<Rightarrow> nat \<Rightarrow> string \<Rightarrow> part list \<Rightarrow> exn + part list" where
  "plan9_line fuel memok eve i line parts =
     (let f = tokenize 4 line; nparts = length parts; parent = parts ! i in
      ebind (eguard (length f = 4 \<and> f ! 0 = ''part'') (Emsg ''bad plan 9 partition table'')) (\<lambda>_.
      ebind (partrealloc memok nparts) (\<lambda>_.
      ebind (partgenname fuel parts (f ! 1) (f ! 1)) (\<lambda>name.
      let s = i64 (sint (strtoull (f ! 2)) * 512);
          e = i64 (sint (strtoull (f ! 3)) * 512);
          pp = (partclear eve nparts)\<lparr>p_name := name, p_s := s, p_e := e, p_size := i64 (e - s)\<rparr>
      in
      ebind (partcheck pp (drop i parts) (p_size parent)) (\<lambda>_.
      Inr (parts @ [pp\<lparr>p_s := i64 (s + p_s parent), p_e := i64 (e + p_e parent)\<rparr>]))))))"

definition plan9_table ::
  "nat \<Rightarrow> (nat \<Rightarrow> bool) \<Rightarrow> string \<Rightarrow> (int \<Rightarrow> int \<Rightarrow> ('d, u8 list) kact) \<Rightarrow> nat \<Rightarrow> part list
     \<Rightarrow> ('d, part list) kact" where
  "plan9_table fuel memok eve r i parts =
     (let pp = parts ! i in
      if p_typ pp \<noteq> Some 0x39 \<or> p_size pp < 2 * 512 then kret parts
      else
        kbind (r 512 (i64 (p_s pp + 512))) (\<lambda>p.
        kthen (kguard (length p = 512) (Emsg ''reading plan 9 partition table''))
        (klift (efold (plan9_line fuel memok eve i) (nl_lines [] (cstr p)) parts))))"

definition partinit ::
  "nat \<Rightarrow> (nat \<Rightarrow> bool) \<Rightarrow> string \<Rightarrow> (int \<Rightarrow> int \<Rightarrow> ('d, u8 list) kact) \<Rightarrow> int \<Rightarrow> part
     \<Rightarrow> ('d, part list) kact" where
  "partinit fuel memok eve r sz data =
     kbind (r 512 0) (\<lambda>p.
     kthen (kguard (length p = 512) (Emsg ''reading mbr''))
     (kthen (kguard (p ! 510 = 0x55 \<and> p ! 511 = 0xaa) (Emsg ''missing mbr signature''))
     (kbind (klift (mbr_table fuel memok eve p sz [data])) (\<lambda>parts.
      kfold (plan9_table fuel memok eve r) [1..<length parts] parts))))"

section \<open>Names are fresh, and found\<close>

lemma haspartname_iff: "haspartname parts s \<longleftrightarrow> s \<in> p_name ` set parts"
  by (auto simp: haspartname_def list_ex_iff)

lemma seprint_name_length [simp]: "length (seprint NAMELEN old new) < NAMELEN"
  by (rule seprint_length) simp

lemma seprint_name_neq [simp]: "length (seprint NAMELEN old new) \<noteq> NAMELEN"
  using seprint_name_length [of old new] by linarith

lemma partgen_loop_fresh:
  "partgen_loop fuel parts pre i = Inr name \<Longrightarrow> \<not> haspartname parts name \<and> length name < NAMELEN"
  by (induction fuel arbitrary: i) (auto simp: Let_def split: if_splits)

lemma partgen_loop_no_error: "partgen_loop fuel parts pre i \<noteq> Inl (Error e)"
  by (induction fuel arbitrary: i) (auto simp: Let_def)

lemma partgenname_length: "partgenname fuel parts first nxt = Inr name \<Longrightarrow> length name < NAMELEN"
  by (auto simp: partgenname_def Let_def dest: partgen_loop_fresh split: if_splits)

lemma partgenname_fresh:
  assumes "partgenname fuel parts first nxt = Inr name" and "length name \<noteq> NAMELEN - 1"
  shows "\<not> haspartname parts name"
proof (cases "haspartname parts first")
  case True
  with assms(1) show ?thesis by (auto simp: partgenname_def dest: partgen_loop_fresh)
next
  case False
  with assms(1) have "name = seprint NAMELEN [] first" by (simp add: partgenname_def Let_def)
  with assms(2) have "name = first" by (simp add: seprint_def min_def split: if_splits)
  with False show ?thesis by simp
qed

lemma partname_fresh_mbr:
  assumes "partname fuel typ parts i = Inr name" and "length name \<noteq> NAMELEN - 1"
    and "typ = 0x39 \<or> typ \<in> {0x01, 0x04, 0x06, 0x0b, 0x0c, 0x0e}"
  shows "\<not> haspartname parts name"
  using assms by (auto simp: partname_def dest: partgenname_fresh split: if_splits)

text \<open>The search ends as soon as one of the candidates of the budget is unused.\<close>

lemma partgen_loop_finds:
  assumes "i \<le> j" "j < i + fuel" "i + fuel \<le> 2147483648"
    and "length pre + 10 < NAMELEN" and "\<not> haspartname parts (pre @ udec j)"
  shows "\<exists>name. partgen_loop fuel parts pre (int i) = Inr name"
  using assms
proof (induction fuel arbitrary: i)
  case 0
  then show ?case by simp
next
  case (Suc fuel)
  have len: "length (udec i) \<le> Suc 9"
    using Suc.prems by (intro udec_length) simp
  have name: "seprint NAMELEN pre (sdec (int i)) = pre @ udec i"
    using len Suc.prems(4) by (simp add: seprint_fits)
  show ?case
  proof (cases "haspartname parts (pre @ udec i)")
    case False
    with name len Suc.prems(4) show ?thesis by (simp add: Let_def)
  next
    case True
    then have ij: "Suc i \<le> j" using Suc.prems(1,5) by (cases "i = j") auto
    have "i32 (int i + 1) = int (Suc i)"
    proof (cases fuel)
      case 0
      with ij Suc.prems(2) show ?thesis by simp
    next
      case (Suc f)
      with Suc.prems(3) show ?thesis by (subst i32_id) auto
    qed
    moreover have "\<exists>name. partgen_loop fuel parts pre (int (Suc i)) = Inr name"
      using ij Suc.prems by (intro Suc.IH) auto
    ultimately show ?thesis using True name len Suc.prems(4) by (simp add: Let_def)
  qed
qed

lemma unused_candidate:
  "\<exists>j \<le> length parts. \<not> haspartname parts (pre @ udec j)"
proof (rule ccontr)
  assume "\<not> ?thesis"
  then have "(\<lambda>j. pre @ udec j) ` {..length parts} \<subseteq> p_name ` set parts"
    by (auto simp: haspartname_iff)
  then have "card ((\<lambda>j. pre @ udec j) ` {..length parts}) \<le> card (p_name ` set parts)"
    by (rule card_mono [rotated]) simp
  also have "\<dots> \<le> length parts"
    by (metis card_length length_map set_map)
  finally show False
    by (simp add: card_image inj_on_def udec_inj)
qed

lemma partgenname_returns:
  assumes "length nxt \<le> 20" and "length parts < fuel" and "fuel \<le> 2147483648"
  shows "\<exists>name. partgenname fuel parts first nxt = Inr name"
proof (cases "haspartname parts first")
  case False
  then show ?thesis by (simp add: partgenname_def Let_def)
next
  case True
  obtain j where j: "j \<le> length parts" "\<not> haspartname parts ((nxt @ ''.'') @ udec j)"
    using unused_candidate by blast
  have "seprint NAMELEN [] (nxt @ ''.'') = nxt @ ''.''"
    using assms(1) by (simp add: seprint_fits)
  moreover have "\<exists>name. partgen_loop fuel parts (nxt @ ''.'') (int 0) = Inr name"
    using j assms by (intro partgen_loop_finds [of 0 j]) auto
  ultimately show ?thesis using True by (simp add: partgenname_def)
qed

lemma partgen_loop_stuck:
  "length pre = NAMELEN - 1 \<Longrightarrow> haspartname parts pre \<Longrightarrow> partgen_loop fuel parts pre i = Inl Fuel"
  by (induction fuel arbitrary: i) (auto simp: Let_def seprint_def)

section \<open>What the checks guarantee of the extents\<close>

definition part_within :: "int \<Rightarrow> part \<Rightarrow> bool" where
  "part_within sz p \<longleftrightarrow>
     0 \<le> p_s p \<and> p_s p \<le> p_e p \<and> p_e p \<le> sz \<and> p_size p = p_e p - p_s p \<and>
     512 dvd p_s p \<and> 512 dvd p_e p"

definition part_disjoint :: "part \<Rightarrow> part \<Rightarrow> bool" where
  "part_disjoint p q \<longleftrightarrow> p_e p \<le> p_s q \<or> p_e q \<le> p_s p"

text \<open>\<open>p\<close> lies strictly inside \<open>q\<close>: the case the overlap test does not see.\<close>

definition part_inside :: "part \<Rightarrow> part \<Rightarrow> bool" where
  "part_inside p q \<longleftrightarrow> p_s q < p_s p \<and> p_e p < p_e q"

text \<open>
  A sub-partition \<open>p\<close> of \<open>q\<close>: unless its start wrapped round to before \<open>q\<close>, the bytes that \<open>s\<close>
  and \<open>size\<close> select are inside \<open>q\<close>; the recorded end is too large by the size of \<open>q\<close>.
\<close>

definition part_sub :: "part \<Rightarrow> part \<Rightarrow> bool" where
  "part_sub q p \<longleftrightarrow>
     (p_s q \<le> p_s p \<longrightarrow> p_s p + p_size p \<le> p_e q \<and> 0 \<le> p_size p \<and>
        p_e p = p_s p + p_size p + p_size q)"

definition part_fresh :: "nat \<Rightarrow> part \<Rightarrow> bool" where
  "part_fresh j p \<longleftrightarrow> p_index p = of_nat j \<and> p_perm p = 432 \<and> p_isopen p = 0"

definition part_table_ok :: "int \<Rightarrow> part list \<Rightarrow> bool" where
  "part_table_ok sz parts \<longleftrightarrow>
     (\<forall>j. 1 \<le> j \<and> j < length parts \<longrightarrow>
        part_fresh j (parts ! j) \<and>
        (case p_typ (parts ! j) of
           Some t \<Rightarrow> t \<noteq> 0 \<and> part_within sz (parts ! j)
         | None \<Rightarrow> (\<exists>i. 1 \<le> i \<and> i < j \<and> p_typ (parts ! i) = Some 0x39 \<and>
                     part_sub (parts ! i) (parts ! j))))"

definition mbr_pairs_ok :: "part list \<Rightarrow> bool" where
  "mbr_pairs_ok parts \<longleftrightarrow>
     (\<forall>i j. 1 \<le> i \<and> i < j \<and> j < length parts \<longrightarrow>
        part_disjoint (parts ! i) (parts ! j) \<or> part_inside (parts ! j) (parts ! i))"

lemma sector_u32: "i64 (uint (x::u32) * 512) = uint x * 512"
proof -
  have "0 \<le> uint x" "uint x < 4294967296" by (rule uint_u32_bounds)+
  then show ?thesis by (intro i64_id) linarith+
qed

lemma partcheck_Inr:
  "partcheck p parts sz = Inr u \<longleftrightarrow>
     p_e p \<le> sz \<and> p_s p \<le> p_e p \<and> (\<forall>q\<in>set (tl parts). \<not> part_clash p q)"
  by (auto simp: partcheck_def ebind_Inr list_ex_iff)

lemma no_clash:
  "\<not> part_clash p q \<Longrightarrow> p_s p \<le> p_e p \<Longrightarrow> p_s q \<le> p_e q \<Longrightarrow>
     part_disjoint q p \<or> part_inside p q"
  by (auto simp: part_clash_def part_disjoint_def part_inside_def)

lemma mbr_entry_Inr:
  assumes "mbr_entry fuel memok eve p sz i parts = Inr parts'"
  obtains "p ! (450 + i * 16) = 0" "parts' = parts"
  | pp where "parts' = parts @ [pp]" "p ! (450 + i * 16) \<noteq> 0"
      "p_typ pp = Some (p ! (450 + i * 16))"
      "partname fuel (p ! (450 + i * 16)) parts i = Inr (p_name pp)"
      "part_fresh (length parts) pp" "part_within sz pp" "p_uid pp = eve"
      "\<forall>q\<in>set (tl parts). \<not> part_clash pp q"
proof (cases "p ! (450 + i * 16) = 0")
  case True
  with assms that(1) show ?thesis by (auto simp: mbr_entry_def Let_def ebind_Inr)
next
  case False
  define s where "s = uint (g32_part p (454 + i * 16)) * 512"
  define n where "n = uint (g32_part p (458 + i * 16)) * 512"
  have bounds: "0 \<le> s" "s < 4294967296 * 512" "0 \<le> n" "n < 4294967296 * 512"
    by (simp_all add: s_def n_def)
  then have e: "i64 (s + n) = s + n" by (intro i64_id) simp_all
  have w: "i64 s = s" "i64 n = n" by (simp_all only: s_def n_def sector_u32)
  have dvd: "512 dvd s" "512 dvd n" by (simp_all add: s_def n_def)
  from assms False obtain name pp where
    "partname fuel (p ! (450 + i * 16)) parts i = Inr name"
    and pp: "pp = (partclear eve (length parts))
      \<lparr>p_typ := Some (p ! (450 + i * 16)), p_name := name, p_s := s, p_size := n, p_e := s + n\<rparr>"
    and "partcheck pp parts sz = Inr ()" and "parts' = parts @ [pp]"
    by (auto simp: mbr_entry_def Let_def ebind_Inr e w s_def [symmetric] n_def [symmetric])
  with False bounds dvd show ?thesis
    by (intro that(2) [of pp])
      (auto simp: pp partcheck_Inr part_within_def part_fresh_def partclear_def)
qed

lemma part_table_ok_snoc:
  assumes "part_table_ok sz parts" and "parts \<noteq> []" and "part_fresh (length parts) pp"
    and "case p_typ pp of Some t \<Rightarrow> t \<noteq> 0 \<and> part_within sz pp
         | None \<Rightarrow> (\<exists>i. 1 \<le> i \<and> i < length parts \<and> p_typ (parts ! i) = Some 0x39 \<and>
                     part_sub (parts ! i) pp)"
  shows "part_table_ok sz (parts @ [pp])"
  unfolding part_table_ok_def
proof (intro allI impI)
  fix j
  assume j: "1 \<le> j \<and> j < length (parts @ [pp])"
  show "part_fresh j ((parts @ [pp]) ! j) \<and>
      (case p_typ ((parts @ [pp]) ! j) of
         Some t \<Rightarrow> t \<noteq> 0 \<and> part_within sz ((parts @ [pp]) ! j)
       | None \<Rightarrow> (\<exists>i. 1 \<le> i \<and> i < j \<and> p_typ ((parts @ [pp]) ! i) = Some 0x39 \<and>
                   part_sub ((parts @ [pp]) ! i) ((parts @ [pp]) ! j)))"
  proof (cases "j = length parts")
    case True
    with assms(3,4) show ?thesis by (auto split: option.splits)
  next
    case False
    with j have "j < length parts" by simp
    with assms(1) j show ?thesis
      by (fastforce simp: part_table_ok_def split: option.splits)
  qed
qed

text \<open>Disks are far smaller than this bound; below it none of the sums in the table wraps.\<close>

abbreviation DISKMAX :: int where "DISKMAX \<equiv> 4611686018427387904"

lemma plan9_line_Inr:
  assumes run: "plan9_line fuel memok eve i line parts = Inr parts'"
    and parent: "part_within sz (parts ! i)" and sz: "sz < DISKMAX"
  obtains pp where "parts' = parts @ [pp]" "p_typ pp = None" "part_fresh (length parts) pp"
    "part_sub (parts ! i) pp"
    "partgenname fuel parts (tokenize 4 line ! 1) (tokenize 4 line ! 1) = Inr (p_name pp)"
proof -
  define f where "f = tokenize 4 line"
  define q where "q = parts ! i"
  define s where "s = i64 (sint (strtoull (f ! 2)) * 512)"
  define e where "e = i64 (sint (strtoull (f ! 3)) * 512)"
  from run obtain name pp where
    name: "partgenname fuel parts (f ! 1) (f ! 1) = Inr name" and
    pp: "pp = (partclear eve (length parts))
          \<lparr>p_name := name, p_s := s, p_e := e, p_size := i64 (e - s)\<rparr>" and
    check: "partcheck pp (drop i parts) (p_size q) = Inr ()" and
    parts': "parts' = parts @ [pp\<lparr>p_s := i64 (s + p_s q), p_e := i64 (e + p_e q)\<rparr>]"
    by (auto simp: plan9_line_def Let_def ebind_Inr f_def [symmetric] q_def [symmetric]
        s_def [symmetric] e_def [symmetric])
  from check have se: "e \<le> p_size q" "s \<le> e" by (auto simp: partcheck_Inr pp)
  have lo: "- 9223372036854775808 \<le> s" by (simp add: s_def i64_range)
  have q: "0 \<le> p_s q" "p_s q \<le> p_e q" "p_e q \<le> sz" "p_size q = p_e q - p_s q"
    using parent by (simp_all add: part_within_def q_def)
  have w: "i64 (s + p_s q) = s + p_s q" "i64 (e + p_e q) = e + p_e q"
    by (rule i64_id; use se lo q sz in linarith)+
  have size: "i64 (e - s) = e - s" if "0 \<le> s"
    by (rule i64_id; use that se q sz in linarith)
  show ?thesis
  proof (rule that)
    show "parts' = parts @ [pp\<lparr>p_s := s + p_s q, p_e := e + p_e q\<rparr>]"
      by (simp add: parts' w)
    show "part_sub (parts ! i) (pp\<lparr>p_s := s + p_s q, p_e := e + p_e q\<rparr>)"
      using se q by (auto simp: part_sub_def pp partclear_def size q_def [symmetric])
  qed (use name in \<open>simp_all add: pp partclear_def part_fresh_def f_def\<close>)
qed

section \<open>The invariant of the table under construction\<close>

definition table_inv :: "int \<Rightarrow> part \<Rightarrow> part list \<Rightarrow> bool" where
  "table_inv sz data parts \<longleftrightarrow> parts \<noteq> [] \<and> hd parts = data \<and> part_table_ok sz parts"

lemma table_inv_init: "table_inv sz data [data]"
  by (simp add: table_inv_def part_table_ok_def)

lemma table_inv_mbr:
  assumes "table_inv sz data parts" and "mbr_entry fuel memok eve p sz i parts = Inr parts'"
  shows "table_inv sz data parts'"
  using assms(2)
proof (cases rule: mbr_entry_Inr)
  case 1
  with assms(1) show ?thesis by simp
next
  case (2 pp)
  with assms(1) show ?thesis
    by (auto simp: table_inv_def intro!: part_table_ok_snoc)
qed

lemma table_inv_plan9:
  assumes inv: "table_inv sz data parts" and sz: "sz < DISKMAX"
    and i: "1 \<le> i" "i < length parts" "p_typ (parts ! i) = Some 0x39"
    and run: "plan9_line fuel memok eve i line parts = Inr parts'"
  shows "table_inv sz data parts'"
proof -
  from inv i have "part_within sz (parts ! i)"
    by (auto simp: table_inv_def part_table_ok_def split: option.splits)
  from run this sz show ?thesis
  proof (cases rule: plan9_line_Inr)
    case (1 pp)
    with inv i show ?thesis
      by (auto simp: table_inv_def intro!: part_table_ok_snoc)
  qed
qed

lemma plan9_line_grows:
  "plan9_line fuel memok eve i line parts = Inr parts' \<Longrightarrow> \<exists>pp. parts' = parts @ [pp]"
  by (auto simp: plan9_line_def Let_def ebind_Inr)

lemma plan9_lines_inv:
  assumes run: "efold (plan9_line fuel memok eve i) ls parts = Inr parts'"
    and inv: "table_inv sz data parts" and sz: "sz < DISKMAX"
    and i: "1 \<le> i" "i < length parts" "p_typ (parts ! i) = Some 0x39"
  shows "table_inv sz data parts' \<and> length parts \<le> length parts'"
proof -
  let ?P = "\<lambda>ps. table_inv sz data ps \<and> i < length ps \<and> p_typ (ps ! i) = Some 0x39
      \<and> length parts \<le> length ps"
  have "?P parts'"
  proof (rule efold_inv [of _ _ _ _ ?P, OF run])
    show "?P parts" using inv i by simp
    fix x a b
    assume a: "?P a" and step: "plan9_line fuel memok eve i x a = Inr b"
    from plan9_line_grows [OF step] obtain pp where "b = a @ [pp]" ..
    moreover have "table_inv sz data b"
      using table_inv_plan9 [OF _ sz i(1) _ _ step] a by blast
    ultimately show "?P b" using a by simp
  qed
  then show ?thesis by simp
qed

lemma plan9_table_inv:
  assumes run: "plan9_table fuel memok eve r i parts d = (Inr parts', d')"
    and inv: "table_inv sz data parts" and sz: "sz < DISKMAX"
    and i: "1 \<le> i" "i < length parts"
  shows "table_inv sz data parts' \<and> length parts \<le> length parts'"
proof (cases "p_typ (parts ! i) \<noteq> Some 0x39 \<or> p_size (parts ! i) < 2 * 512")
  case True
  with run inv show ?thesis by (auto simp: plan9_table_def Let_def)
next
  case False
  with run obtain ls where "efold (plan9_line fuel memok eve i) ls parts = Inr parts'"
    by (auto simp: plan9_table_def Let_def kact_Inr_iff split: if_splits)
  with False inv sz i show ?thesis by (intro plan9_lines_inv) auto
qed

lemma partinit_Inr:
  assumes "partinit fuel memok eve r sz data d = (Inr parts, d')"
  obtains p mbr d1 where "length p = 512" "p ! 510 = 0x55" "p ! 511 = 0xaa"
    "mbr_table fuel memok eve p sz [data] = Inr mbr"
    "kfold (plan9_table fuel memok eve r) [1..<length mbr] mbr d1 = (Inr parts, d')"
    "r 512 0 d = (Inr p, d1)"
  using assms by (auto simp: partinit_def kact_Inr_iff split: if_splits)

lemma mbr_table_inv:
  "mbr_table fuel memok eve p sz [data] = Inr parts \<Longrightarrow> table_inv sz data parts"
  unfolding mbr_table_def
  by (erule efold_inv [where P = "table_inv sz data"]) (auto intro: table_inv_init table_inv_mbr)

lemma partinit_inv:
  assumes "partinit fuel memok eve r sz data d = (Inr parts, d')" and "sz < DISKMAX"
  shows "table_inv sz data parts"
  using assms(1)
proof (cases rule: partinit_Inr)
  case (1 p mbr d1)
  let ?P = "\<lambda>ps. table_inv sz data ps \<and> length mbr \<le> length ps"
  have "?P parts"
  proof (rule kfold_inv [of _ _ _ _ _ _ ?P, OF 1(5)])
    show "?P mbr" using 1(4) by (simp add: mbr_table_inv)
    fix x a b s s'
    assume "x \<in> set [1..<length mbr]" "?P a" "plan9_table fuel memok eve r x a s = (Inr b, s')"
    with plan9_table_inv [OF _ _ assms(2)] show "?P b" by fastforce
  qed
  then show ?thesis by simp
qed

section \<open>The entries of the master boot record: names and pairs\<close>

definition mbr_name :: "nat \<Rightarrow> string \<Rightarrow> bool" where
  "mbr_name k nm \<longleftrightarrow>
     (\<exists>j<k. nm = ''p'' @ udec j) \<or>
     nm \<noteq> [] \<and> (hd nm = CHR ''9'' \<or> hd nm = CHR ''d'' \<or> take 2 nm = ''pl'')"

lemma udec_hd: "hd (udec n) \<in> dec_digit ` {..<10} \<and> udec n \<noteq> []"
proof (induction n rule: udec.induct)
  case (1 n)
  then show ?case by (cases "n < 10") (auto simp: udec.simps [of n] hd_append)
qed

lemma udec_not_l: "udec n \<noteq> CHR ''l'' # xs"
proof
  assume "udec n = CHR ''l'' # xs"
  with udec_hd [of n] obtain k where "k < 10" "CHR ''l'' = dec_digit k" by auto
  then have "(of_char (CHR ''l'') :: nat) = 48 + k" by (simp only: of_char_dec_digit)
  with \<open>k < 10\<close> show False by simp
qed

lemma mbr_name_p_fresh: "mbr_name k nm \<Longrightarrow> nm \<noteq> CHR ''p'' # udec k"
proof
  assume nm: "mbr_name k nm" "nm = CHR ''p'' # udec k"
  then have "take 2 nm = ''pl''" by (auto simp: mbr_name_def udec_inj)
  with nm(2) have "take 1 (udec k) = ''l''" by (simp add: numeral_2_eq_2)
  then show False by (cases "udec k") (auto simp: udec_not_l)
qed

lemma partgen_loop_shape:
  "partgen_loop fuel parts pre i = Inr name \<Longrightarrow> \<exists>x. name = seprint NAMELEN pre x"
  by (induction fuel arbitrary: i) (auto simp: Let_def split: if_splits)

lemma partgenname_short:
  assumes "partgenname fuel parts first nxt = Inr name" and "length first < NAMELEN"
  shows "\<not> haspartname parts name"
  using assms
  by (auto simp: partgenname_def Let_def seprint_fits dest: partgen_loop_fresh split: if_splits)

lemma partgenname_shape:
  assumes "partgenname fuel parts first nxt = Inr name"
    and "length first < NAMELEN" "length nxt < 20"
  shows "name = first \<or> (\<exists>x. name = nxt @ ''.'' @ x)"
proof -
  have "take (31 - length nxt) (CHR ''.'' # x) = CHR ''.'' # take (30 - length nxt) x" for x
    using assms(3) by (simp add: take_Cons')
  with assms show ?thesis
    by (auto simp: partgenname_def Let_def seprint_fits seprint_def dest!: partgen_loop_shape
        split: if_splits)
qed

lemma partname_mbr:
  assumes run: "partname fuel typ parts i = Inr name" and i: "i < 10"
    and names: "\<forall>p\<in>set parts. mbr_name i (p_name p)"
  shows "\<not> haspartname parts name \<and> mbr_name (Suc i) name"
proof -
  consider "typ = 0x39" | "typ \<noteq> 0x39" "typ \<in> {0x01, 0x04, 0x06, 0x0b, 0x0c, 0x0e}"
    | "typ \<noteq> 0x39" "typ \<notin> {0x01, 0x04, 0x06, 0x0b, 0x0c, 0x0e}" by blast
  then show ?thesis
  proof cases
    case 1
    with run have g: "partgenname fuel parts ''plan9'' ''plan9'' = Inr name"
      by (simp add: partname_def)
    from partgenname_short [OF g] partgenname_shape [OF g] show ?thesis
      by (auto simp: mbr_name_def)
  next
    case 2
    with run have g: "partgenname fuel parts ''9fat'' ''dos'' = Inr name"
      by (simp add: partname_def)
    from partgenname_short [OF g] partgenname_shape [OF g] show ?thesis
      by (auto simp: mbr_name_def)
  next
    case 3
    with run have "name = seprint NAMELEN [] (''p'' @ udec i)"
      by (simp only: partname_def if_False) simp
    moreover have "length (udec i) \<le> Suc 0" using i by (intro udec_length) simp
    ultimately have "name = ''p'' @ udec i" by (simp add: seprint_fits)
    then have name: "name = CHR ''p'' # udec i" by simp
    have "\<not> haspartname parts name"
      unfolding name haspartname_iff using names mbr_name_p_fresh [of i] by fastforce
    moreover have "mbr_name (Suc i) name"
      unfolding mbr_name_def using name by auto
    ultimately show ?thesis ..
  qed
qed

definition mbr_inv :: "int \<Rightarrow> nat \<Rightarrow> part list \<Rightarrow> bool" where
  "mbr_inv sz k parts \<longleftrightarrow>
     parts \<noteq> [] \<and> (\<forall>q\<in>set (tl parts). part_within sz q) \<and> mbr_pairs_ok parts \<and>
     distinct (map p_name parts) \<and> (\<forall>p\<in>set parts. mbr_name k (p_name p))"

lemma mbr_name_mono: "mbr_name k nm \<Longrightarrow> mbr_name (Suc k) nm"
  unfolding mbr_name_def by (blast intro: less_SucI)

lemma mbr_pairs_snoc:
  assumes "mbr_pairs_ok parts" and "\<forall>q\<in>set (tl parts). part_within sz q \<and> \<not> part_clash pp q"
    and "part_within sz pp"
  shows "mbr_pairs_ok (parts @ [pp])"
  unfolding mbr_pairs_ok_def
proof (intro allI impI)
  fix i j
  assume ij: "1 \<le> i \<and> i < j \<and> j < length (parts @ [pp])"
  show "part_disjoint ((parts @ [pp]) ! i) ((parts @ [pp]) ! j) \<or>
      part_inside ((parts @ [pp]) ! j) ((parts @ [pp]) ! i)"
  proof (cases "j = length parts")
    case False
    with ij assms(1) show ?thesis by (auto simp: mbr_pairs_ok_def)
  next
    case True
    with ij have "tl parts ! (i - 1) = parts ! i" "i - 1 < length (tl parts)"
      by (auto simp: nth_tl)
    then have "parts ! i \<in> set (tl parts)" by (metis nth_mem)
    with assms(2,3) True ij no_clash [of pp "parts ! i"] show ?thesis
      by (auto simp: part_within_def)
  qed
qed

lemma mbr_inv_step:
  assumes run: "mbr_entry fuel memok eve p sz i parts = Inr parts'" and inv: "mbr_inv sz i parts"
    and i: "i < 10"
  shows "mbr_inv sz (Suc i) parts'"
  using run
proof (cases rule: mbr_entry_Inr)
  case 1
  with inv show ?thesis by (auto simp: mbr_inv_def mbr_name_mono)
next
  case (2 pp)
  from 2(4) i inv have "\<not> haspartname parts (p_name pp) \<and> mbr_name (Suc i) (p_name pp)"
    by (intro partname_mbr) (auto simp: mbr_inv_def)
  moreover have "mbr_pairs_ok (parts @ [pp])"
    using inv 2 by (intro mbr_pairs_snoc [of _ sz]) (auto simp: mbr_inv_def)
  ultimately show ?thesis
    using inv 2 by (auto simp: mbr_inv_def mbr_name_mono haspartname_iff)
qed

lemma mbr_table_mbr_inv:
  assumes "mbr_table fuel memok eve p sz [data] = Inr parts" and "p_name data = ''data''"
  shows "mbr_inv sz 4 parts"
proof -
  have "mbr_inv sz 0 [data]"
    by (simp add: mbr_inv_def mbr_pairs_ok_def mbr_name_def assms(2))
  moreover from assms(1) obtain a b c where step:
    "mbr_entry fuel memok eve p sz 0 [data] = Inr a" "mbr_entry fuel memok eve p sz 1 a = Inr b"
    "mbr_entry fuel memok eve p sz 2 b = Inr c" "mbr_entry fuel memok eve p sz 3 c = Inr parts"
    by (auto simp: mbr_table_def ebind_Inr)
  ultimately have "mbr_inv sz (Suc 0) a" by (intro mbr_inv_step [of _ _ _ _ _ 0]) auto
  with step(2) have "mbr_inv sz (Suc 1) b" by (intro mbr_inv_step [of _ _ _ _ _ 1]) auto
  with step(3) have "mbr_inv sz (Suc 2) c"
    by (intro mbr_inv_step [of _ _ _ _ _ 2]) (auto simp: numeral_2_eq_2)
  with step(4) have "mbr_inv sz (Suc 3) parts"
    by (intro mbr_inv_step [of _ _ _ _ _ 3]) (auto simp: numeral_3_eq_3)
  then show ?thesis by (simp add: numeral_eq_Suc)
qed

lemma partinit_names_step:
  assumes "plan9_line fuel memok eve i line parts = Inr parts'"
    and "distinct (map p_name parts) \<or> (\<exists>p\<in>set parts. length (p_name p) = NAMELEN - 1)"
  shows "distinct (map p_name parts') \<or> (\<exists>p\<in>set parts'. length (p_name p) = NAMELEN - 1)"
proof -
  from assms(1) obtain pp first where "parts' = parts @ [pp]"
    and "partgenname fuel parts first first = Inr (p_name pp)"
    by (auto simp: plan9_line_def Let_def ebind_Inr partclear_def)
  with assms(2) partgenname_fresh [of fuel parts first first "p_name pp"] show ?thesis
    by (auto simp: haspartname_iff)
qed

lemma partinit_names_inv:
  assumes "partinit fuel memok eve r sz data d = (Inr parts, d')" and "p_name data = ''data''"
  shows "distinct (map p_name parts) \<or> (\<exists>p\<in>set parts. length (p_name p) = NAMELEN - 1)"
  using assms(1)
proof (cases rule: partinit_Inr)
  case (1 p mbr d1)
  let ?P = "\<lambda>ps. distinct (map p_name ps) \<or> (\<exists>p\<in>set ps. length (p_name p) = NAMELEN - 1)"
  show "?P parts"
  proof (rule kfold_inv [of _ _ _ _ _ _ ?P, OF 1(5)])
    show "?P mbr" using mbr_table_mbr_inv [OF 1(4) assms(2)] by (simp add: mbr_inv_def)
    fix x a b s s'
    assume a: "?P a" and "plan9_table fuel memok eve r x a s = (Inr b, s')"
    then have "b = a \<or> (\<exists>ls. efold (plan9_line fuel memok eve x) ls a = Inr b)"
      by (auto simp: plan9_table_def Let_def kact_Inr_iff split: if_splits)
    then show "?P b"
    proof
      assume "b = a"
      with a show ?thesis by simp
    next
      assume "\<exists>ls. efold (plan9_line fuel memok eve x) ls a = Inr b"
      then obtain ls where "efold (plan9_line fuel memok eve x) ls a = Inr b" ..
      then show ?thesis by (rule efold_inv [where P = ?P]) (use a partinit_names_step in blast)+
    qed
  qed
qed

section \<open>The scan only reads\<close>

lemma partinit_balanced:
  assumes "\<And>n off. balanced lk (r n off)"
  shows "balanced lk (partinit fuel memok eve r sz data)"
  unfolding partinit_def plan9_table_def by (intro balanced_rule assms)

lemma partinit_kinv:
  assumes "\<And>n off. kinv I (r n off)"
  shows "kinv I (partinit fuel memok eve r sz data)"
  unfolding partinit_def plan9_table_def by (intro kinv_rule assms)

text \<open>Element 0 stays the whole-disk partition.\<close>

lemma partinit_hd:
  assumes "partinit fuel memok eve r sz data d = (Inr parts, d')"
  shows "parts \<noteq> [] \<and> hd parts = data"
  using assms
proof (cases rule: partinit_Inr)
  case (1 p mbr d1)
  let ?P = "\<lambda>ps. ps \<noteq> [] \<and> hd ps = data"
  have lines: "?P b" if "efold (plan9_line fuel memok eve i) ls a = Inr b" "?P a" for i ls a b
    using that by (rule efold_inv [where P = ?P]) (auto dest!: plan9_line_grows)
  have "?P mbr"
    using 1(4) unfolding mbr_table_def
    by (rule efold_inv [where P = ?P]) (auto elim!: mbr_entry_Inr)
  with 1(5) show "?P parts"
  proof (rule kfold_inv [where P = ?P])
    fix x a b s s'
    assume "?P a" "plan9_table fuel memok eve r x a s = (Inr b, s')"
    then show "?P b"
      by (auto simp: plan9_table_def Let_def kact_Inr_iff split: if_splits dest: lines)
  qed
qed

section \<open>A sample disk\<close>

text \<open>
  A disk of 64 sectors with a Plan 9 partition (sectors 2 to 21) and a FAT partition (22 to 31);
  the text is the table inside the Plan 9 partition.
\<close>

definition sample_mbr :: "u8 list" where
  "sample_mbr = replicate 446 0
     @ [0, 0, 0, 0, 0x39, 0, 0, 0, 2, 0, 0, 0, 20, 0, 0, 0]
     @ [0, 0, 0, 0, 0x0c, 0, 0, 0, 22, 0, 0, 0, 10, 0, 0, 0]
     @ replicate 32 0 @ [0x55, 0xaa]"

definition sample_disk :: "string \<Rightarrow> int \<Rightarrow> int \<Rightarrow> (unit, u8 list) kact" where
  "sample_disk t n off =
     kret (if off = 0 then sample_mbr else map byte_of t @ replicate (512 - length t) 0)"

definition sample_data :: part where
  "sample_data = (partclear ''eve'' 0)
     \<lparr>p_typ := Some 0, p_name := ''data'', p_e := 32768, p_size := 32768\<rparr>"

definition sample_table :: string where
  "sample_table = ''part fs 2 10'' @ [CHR 0x0A] @ ''part swap 10 20'' @ [CHR 0x0A]"

definition sample_parts :: "part list" where
  "sample_parts =
     (case partinit 16 (\<lambda>_. True) ''eve'' (sample_disk sample_table) 32768 sample_data () of
        (Inr ps, _) \<Rightarrow> ps | _ \<Rightarrow> [])"

lemma sample_run:
  "partinit 16 (\<lambda>_. True) ''eve'' (sample_disk sample_table) 32768 sample_data () =
     (Inr sample_parts, ())"
  by code_simp

lemma sample_names: "map p_name sample_parts = [''data'', ''plan9'', ''9fat'', ''fs'', ''swap'']"
  by code_simp

section \<open>Properties\<close>

text \<open>
  C1: Extents of the table.  For a disk smaller than \<open>2\<^sup>6\<^sup>2\<close> bytes, whatever the sectors read
  contain: when \<open>partinit\<close> returns, element 0 is still the whole disk; every partition from the
  boot record has \<open>0 \<le> s \<le> e \<le> size\<close> on sector boundaries and \<open>size = e - s\<close>; every other
  partition comes from an earlier Plan 9 partition, and unless its start wrapped to before that
  partition, the bytes \<open>[s, s + size)\<close> that input and output use are inside it.
\<close>

theorem partinit_extents:
  assumes "partinit fuel memok eve r sz data d = (Inr parts, d')" and "sz < DISKMAX"
  shows "parts \<noteq> [] \<and> hd parts = data \<and> part_table_ok sz parts"
  using partinit_inv [OF assms] by (simp add: table_inv_def)

theorem partinit_extents_witness:
  "sample_parts \<noteq> [] \<and> hd sample_parts = sample_data \<and> part_table_ok 32768 sample_parts"
  by (rule partinit_extents [OF sample_run]) simp

text \<open>
  C2: Pairs of boot-record partitions.  An accepted partition is disjoint from each earlier one,
  or lies strictly inside it: the overlap test of \<open>partcheck\<close> excludes every other overlap.
\<close>

theorem mbr_table_pairs:
  assumes "mbr_table fuel memok eve p sz [data] = Inr parts" and "p_name data = ''data''"
  shows "mbr_pairs_ok parts"
  using mbr_table_mbr_inv [OF assms] by (simp add: mbr_inv_def)

theorem mbr_table_pairs_witness:
  "\<exists>parts. mbr_table 8 (\<lambda>_. True) ''eve'' sample_mbr 32768 [sample_data] = Inr parts \<and>
     length parts = 3 \<and> mbr_pairs_ok parts"
proof -
  have "case mbr_table 8 (\<lambda>_. True) ''eve'' sample_mbr 32768 [sample_data] of
      Inr ps \<Rightarrow> length ps = 3 | Inl _ \<Rightarrow> False"
    by code_simp
  then obtain parts where "mbr_table 8 (\<lambda>_. True) ''eve'' sample_mbr 32768 [sample_data] = Inr parts"
    and "length parts = 3" by (auto split: sum.splits)
  with mbr_table_pairs [of 8 "\<lambda>_. True" "''eve''" sample_mbr 32768 sample_data parts]
  show ?thesis by (auto simp: sample_data_def)
qed

text \<open>
  C3: Names.  The names of the returned table are pairwise distinct, unless a name of the full 31
  characters is among them: only names cut off by the 32-byte field can collide.
\<close>

theorem partinit_names:
  assumes "partinit fuel memok eve r sz data d = (Inr parts, d')" and "p_name data = ''data''"
    and "\<forall>p\<in>set parts. length (p_name p) < NAMELEN - 1"
  shows "distinct (map p_name parts)"
  using partinit_names_inv [OF assms(1,2)] assms(3) by auto

theorem partinit_names_witness:
  "distinct (map p_name sample_parts) \<and> length sample_parts = 5"
proof
  have "\<forall>nm\<in>set (map p_name sample_parts). length nm < NAMELEN - 1"
    by (simp add: sample_names del: set_map)
  then show "distinct (map p_name sample_parts)"
    by (intro partinit_names [OF sample_run]) (simp_all add: sample_data_def)
  show "length sample_parts = 5"
    using arg_cong [OF sample_names, of length] by simp
qed

text \<open>
  C4: The search for a free name.  When the base name has at most 20 characters, as many rounds as there are
  partitions and one more find a name; it fits in the field and no other partition has it.  With a name of 31
  characters, the most that fit, that is taken, the search goes on for ever, whatever the number of rounds.
\<close>

theorem partgenname_total:
  assumes "length parts < fuel" and "fuel \<le> 2147483648" and "length first < NAMELEN"
  shows "(length nxt \<le> 20 \<longrightarrow>
      (\<exists>name. partgenname fuel parts first nxt = Inr name \<and> length name < NAMELEN \<and> \<not> haspartname parts name)) \<and>
    (length first = NAMELEN - 1 \<and> haspartname parts first \<longrightarrow> (\<forall>rounds. partgenname rounds parts first first = Inl Fuel))"
proof (intro conjI impI allI)
  assume "length nxt \<le> 20"
  with partgenname_returns [OF this assms(1,2), of first] assms(3)
  show "\<exists>name. partgenname fuel parts first nxt = Inr name \<and> length name < NAMELEN \<and> \<not> haspartname parts name"
    by (auto dest: partgenname_length partgenname_short)
next
  fix rounds
  assume "length first = NAMELEN - 1 \<and> haspartname parts first"
  then show "partgenname rounds parts first first = Inl Fuel"
    by (simp add: partgenname_def partgen_loop_stuck seprint_def)
qed

theorem partgenname_total_witness:
  "(\<exists>name. partgenname 6 sample_parts ''9fat'' ''dos'' = Inr name \<and> length name < NAMELEN \<and>
      \<not> haspartname sample_parts name) \<and>
   partgenname 1000 [sample_data\<lparr>p_name := replicate 31 CHR ''a''\<rparr>] (replicate 31 CHR ''a'') (replicate 31 CHR ''a'') = Inl Fuel"
proof
  show "\<exists>name. partgenname 6 sample_parts ''9fat'' ''dos'' = Inr name \<and> length name < NAMELEN \<and>
      \<not> haspartname sample_parts name"
    using partgenname_total [of sample_parts 6 "''9fat''" "''dos''"] arg_cong [OF sample_names, of length] by simp
  show "partgenname 1000 [sample_data\<lparr>p_name := replicate 31 CHR ''a''\<rparr>] (replicate 31 CHR ''a'') (replicate 31 CHR ''a'') = Inl Fuel"
    using partgenname_total [of "[sample_data\<lparr>p_name := replicate 31 CHR ''a''\<rparr>]" 2 "replicate 31 CHR ''a''"]
    by (simp add: haspartname_def)
qed

text \<open>
  Long names.  A 31-character name that is already taken makes the search run forever (every
  budget is used up), because the printed candidates are all cut to the same text; a longer name
  is silently cut and may repeat an existing one; the error for long names is never raised.
\<close>

theorem partgenname_long:
  assumes "length nm = NAMELEN - 1" and "haspartname parts nm"
    and "\<forall>p\<in>set parts. length (p_name p) < NAMELEN"
  shows "partgenname fuel parts nm nm = Inl Fuel
    \<and> partgenname fuel parts (nm @ [c]) nxt = Inr nm
    \<and> partgenname fuel parts first nxt' \<noteq> Inl (Error e)"
proof -
  have "\<not> haspartname parts (nm @ [c])"
  proof
    assume "haspartname parts (nm @ [c])"
    then obtain p where "p \<in> set parts" "p_name p = nm @ [c]" by (auto simp: haspartname_iff)
    with assms(1,3) show False by fastforce
  qed
  then show ?thesis
    using assms(1,2) partgen_loop_no_error
    by (auto simp: partgenname_def partgen_loop_stuck seprint_def Let_def)
qed

theorem partgenname_long_witness:
  "\<exists>parts. partgenname 1000 parts (replicate 31 CHR ''a'') (replicate 31 CHR ''a'') = Inl Fuel
    \<and> partgenname 1000 parts (replicate 31 CHR ''a'' @ ''b'') [] = Inr (replicate 31 CHR ''a'')
    \<and> partgenname 1000 parts [] [] \<noteq> Inl (Error Elongname)"
  by (rule exI [of _ "[sample_data\<lparr>p_name := replicate 31 CHR ''a''\<rparr>]"], rule partgenname_long)
    (simp_all add: haspartname_def)

text \<open>
  Tables that are accepted although they should not be.  In a Plan 9 partition at
  sectors 2 to 21: a start of \<open>2\<^sup>5\<^sup>5 - 2\<close> sectors wraps to a partition that begins at byte 0 of the
  disk; two identical lines are both accepted and select the same bytes; the recorded end of a
  partition over the relative sectors 0 and 1 is byte 12288, beyond its parent.
\<close>

theorem plan9_table_accepts:
  "(case partinit 16 (\<lambda>_. True) ''eve''
      (sample_disk (''part x 36028797018963966 4'' @ [CHR 0x0A])) 32768 sample_data () of
      (Inr ps, _) \<Rightarrow> p_s (ps ! 1) = 1024 \<and> p_s (ps ! 3) = 0 \<and> p_size (ps ! 3) = 3072
    | _ \<Rightarrow> False)
   \<and> (case partinit 16 (\<lambda>_. True) ''eve''
      (sample_disk (''part x 0 2'' @ [CHR 0x0A] @ ''part y 0 2'' @ [CHR 0x0A])) 32768
        sample_data () of
      (Inr ps, _) \<Rightarrow> p_s (ps ! 3) = 1024 \<and> p_size (ps ! 3) = 1024 \<and> p_e (ps ! 3) = 12288 \<and>
        p_s (ps ! 4) = 1024 \<and> p_size (ps ! 4) = 1024
    | _ \<Rightarrow> False)"
  by code_simp

end
