(* ===== verification/Rtc.thy ===== *)
theory Rtc
  imports Kw_Libc
begin

text \<open>
  \<open>devrtc.c\<close>: the real-time clock.  The conversions between seconds since 1970 and a calendar
  date, the packing of a date into the two BCD registers, and the read and write handlers of the
  device.  The state is the pair of registers \<open>RTCREG->time\<close> and \<open>RTCREG->date\<close>; the kernel's
  helper \<open>readnum\<close> and directory reads are parameters.
\<close>

section \<open>Dates\<close>

text \<open>\<open>Rtc\<close> also has a field \<open>wday\<close> that no function sets or reads; it is left out.\<close>

record rtc =
  r_sec :: int
  r_min :: int
  r_hour :: int
  r_mday :: int
  r_mon :: int
  r_year :: int

definition dmsize :: "int list" where
  "dmsize = [365, 31, 28, 31, 30, 31, 30, 31, 31, 30, 31, 30, 31]"

definition ldmsize :: "int list" where
  "ldmsize = [366, 31, 29, 31, 30, 31, 30, 31, 31, 30, 31, 30, 31]"

definition yrsize :: "int \<Rightarrow> int list" where
  "yrsize yr = (if yr smod 4 = 0 then ldmsize else dmsize)"

abbreviation SEC2MIN :: int where "SEC2MIN \<equiv> 60"
abbreviation SEC2HOUR :: int where "SEC2HOUR \<equiv> 3600"
abbreviation SEC2DAY :: int where "SEC2DAY \<equiv> 86400"

text \<open>The months before \<open>rtc->mon\<close>; the table has no entry after the twelfth.\<close>

definition month_secs :: "int list \<Rightarrow> int \<Rightarrow> u32 \<Rightarrow> exn + u32" where
  "month_secs d2m mon =
     efold (\<lambda>i secs. if i < length d2m then Inr (secs + of_int (d2m ! i * SEC2DAY))
                     else Inl (Fault ''dmsize'')) [1..<nat mon]"

definition rtc2sec :: "rtc \<Rightarrow> exn + u32" where
  "rtc2sec r =
     (let years = foldl (\<lambda>secs i. secs + of_int (yrsize i ! 0 * SEC2DAY)) 0 [1970..r_year r - 1] in
      ebind (month_secs (yrsize (r_year r)) (r_mon r) years) (\<lambda>secs.
      Inr (secs + of_int ((r_mday r - 1) * SEC2DAY) + of_int (r_hour r * SEC2HOUR)
             + of_int (r_min r * SEC2MIN) + of_int (r_sec r))))"

lemma yrsize_pos: "365 \<le> yrsize d ! 0" "yrsize d ! 0 \<le> 366"
  by (simp_all add: yrsize_def dmsize_def ldmsize_def)

text \<open>The loops that count whole years up from 1970, or down before it.\<close>

function year_up :: "int \<Rightarrow> int \<Rightarrow> int \<times> int" where
  "year_up d day = (if yrsize d ! 0 \<le> day then year_up (d + 1) (day - yrsize d ! 0) else (d, day))"
  by pat_completeness auto

termination
proof (relation "measure (\<lambda>(d, day). nat day)", goal_cases)
  case (2 d day)
  then show ?case using yrsize_pos(1) [of d] by simp
qed simp

function year_down :: "int \<Rightarrow> int \<Rightarrow> int \<times> int" where
  "year_down d day =
     (if day < 0 then year_down (d - 1) (day + yrsize (d - 1) ! 0) else (d, day))"
  by pat_completeness auto

termination
proof (relation "measure (\<lambda>(d, day). nat (- day))", goal_cases)
  case (2 d day)
  then show ?case using yrsize_pos(1) [of "d - 1"] by simp
qed simp

function month_up :: "int list \<Rightarrow> nat \<Rightarrow> int \<Rightarrow> exn + nat \<times> int" where
  "month_up d2m d day =
     (if length d2m \<le> d then Inl (Fault ''dmsize'')
      else if d2m ! d \<le> day then month_up d2m (d + 1) (day - d2m ! d) else Inr (d, day))"
  by pat_completeness auto

termination
  by (relation "measure (\<lambda>(d2m, d, day). length d2m - d)") auto

declare year_up.simps [simp del] year_down.simps [simp del] month_up.simps [simp del]

definition sec2rtc :: "u32 \<Rightarrow> exn + rtc" where
  "sec2rtc secs =
     (let hms0 = uint secs mod SEC2DAY; day0 = uint secs div SEC2DAY;
          (hms, day1) = (if hms0 < 0 then (hms0 + SEC2DAY, day0 - 1) else (hms0, day0));
          sec = hms smod 60; d = hms sdiv 60; mi = d smod 60; hour = d sdiv 60;
          (year, day) = (if 0 \<le> day1 then year_up 1970 day1 else year_down 1970 day1)
      in ebind (month_up (yrsize year) 1 day) (\<lambda>(mon, rest).
         Inr \<lparr>r_sec = sec, r_min = mi, r_hour = hour, r_mday = rest + 1, r_mon = int mon,
              r_year = year\<rparr>))"

section \<open>The registers\<close>

record rtcreg =
  rtc_time :: u32
  rtc_date :: u32

definition BITS :: "nat \<Rightarrow> nat \<Rightarrow> u32" where
  "BITS a b = push_bit (b + 1) 1 - push_bit a 1"

definition bcd2dec :: "u32 \<Rightarrow> int" where
  "bcd2dec bcd = uint ((drop_bit 4 bcd AND 0x0F) * 10 + (bcd AND 0x0F))"

definition dec2bcd :: "int \<Rightarrow> int" where
  "dec2bcd dec = push_bit 4 (dec sdiv 10) OR (dec smod 10)"

definition RTCHourPM :: u32 where "RTCHourPM = push_bit 21 1"
definition RTCHour12 :: u32 where "RTCHour12 = push_bit 22 1"

text \<open>The date \<open>rtctime\<close> reads from the registers before it converts it.\<close>

definition rtc_fields :: "rtcreg \<Rightarrow> rtc" where
  "rtc_fields s =
     (let t = rtc_time s; d = rtc_date s;
          hour = (if t AND RTCHour12 \<noteq> 0 then
                    bcd2dec (drop_bit 16 t AND (BITS 16 20 - 1))
                      + (if t AND RTCHourPM \<noteq> 0 then 12 else 0)
                  else bcd2dec (drop_bit 16 t AND (BITS 16 21 - 1)))
      in \<lparr>r_sec = bcd2dec (drop_bit 0 t AND (BITS 0 6 - 1)),
          r_min = bcd2dec (drop_bit 8 t AND (BITS 8 14 - 1)),
          r_hour = hour,
          r_mday = bcd2dec (drop_bit 0 d AND (BITS 0 5 - 1)),
          r_mon = bcd2dec (drop_bit 8 d AND (BITS 8 12 - 1)),
          r_year = bcd2dec (drop_bit 16 d AND (BITS 16 23 - 1)) + 2000\<rparr>)"

definition rtctime :: "rtcreg \<Rightarrow> exn + u32" where
  "rtctime s = rtc2sec (rtc_fields s)"

definition setrtc :: "rtc \<Rightarrow> rtcreg \<Rightarrow> rtcreg" where
  "setrtc r s = s\<lparr>
     rtc_time := word_of_int (push_bit 20 (dec2bcd (r_hour r sdiv 10))
       OR push_bit 16 (dec2bcd (r_hour r smod 10)) OR push_bit 8 (dec2bcd (r_min r))
       OR push_bit 0 (dec2bcd (r_sec r))),
     rtc_date := word_of_int (push_bit 16 (dec2bcd (r_year r - 2000))
       OR push_bit 8 (dec2bcd (r_mon r)) OR push_bit 0 (dec2bcd (r_mday r)))\<rparr>"

section \<open>The device\<close>

datatype rtc_qid = Qrtcdir | Qrtc | Qrtcother

abbreviation NUMSIZE :: nat where "NUMSIZE \<equiv> 12"

definition rtcread ::
  "(int \<Rightarrow> int \<Rightarrow> (rtcreg, u8 list) kact) \<Rightarrow> (int \<Rightarrow> int \<Rightarrow> u32 \<Rightarrow> nat \<Rightarrow> u8 list)
     \<Rightarrow> rtc_qid \<Rightarrow> int \<Rightarrow> int \<Rightarrow> (rtcreg, u8 list) kact" where
  "rtcread devdirread readnum q n off =
     (case q of
        Qrtcdir \<Rightarrow> devdirread n off
      | Qrtc \<Rightarrow> kbind (kget rtctime) (\<lambda>t. kbind (klift t) (\<lambda>v. kret (readnum off n v NUMSIZE)))
      | Qrtcother \<Rightarrow> kraise (Error Egreg))"

definition is_digit :: "char \<Rightarrow> bool" where
  "is_digit c \<longleftrightarrow> 48 \<le> (of_char c :: nat) \<and> (of_char c :: nat) \<le> 57"

definition rtcwrite :: "rtc_qid \<Rightarrow> u8 list \<Rightarrow> int \<Rightarrow> (rtcreg, int) kact" where
  "rtcwrite q buf off =
     (case q of
        Qrtc \<Rightarrow>
          kthen (kguard (\<not> ((of_int off :: u32) \<noteq> 0 \<or> 31 \<le> length buf)) Ebadarg)
          (let cp = dropWhile (\<lambda>c. \<not> is_digit c) (cstr buf);
               secs = strtoul 0 cp
           in kbind (klift (sec2rtc secs)) (\<lambda>r.
              kthen (kmod (setrtc r)) (kret (int (length buf)))))
      | _ \<Rightarrow> kraise (Error Egreg))"

section \<open>Years and months as sums\<close>

definition year_days :: "int \<Rightarrow> int \<Rightarrow> int" where
  "year_days a b = (\<Sum>i\<leftarrow>[a..b - 1]. yrsize i ! 0)"

definition month_days :: "int list \<Rightarrow> nat \<Rightarrow> nat \<Rightarrow> int" where
  "month_days d2m a b = (\<Sum>i\<leftarrow>[a..<b]. d2m ! i)"

definition rtc_total :: "rtc \<Rightarrow> int" where
  "rtc_total r =
     (year_days 1970 (r_year r) + month_days (yrsize (r_year r)) 1 (nat (r_mon r)) + r_mday r - 1)
       * SEC2DAY + r_hour r * SEC2HOUR + r_min r * SEC2MIN + r_sec r"

definition rtc_valid :: "rtc \<Rightarrow> bool" where
  "rtc_valid r \<longleftrightarrow>
     0 \<le> r_sec r \<and> r_sec r < 60 \<and> 0 \<le> r_min r \<and> r_min r < 60 \<and> 0 \<le> r_hour r \<and> r_hour r < 24 \<and>
     1 \<le> r_mon r \<and> r_mon r \<le> 12 \<and> 1970 \<le> r_year r \<and>
     1 \<le> r_mday r \<and> r_mday r \<le> yrsize (r_year r) ! nat (r_mon r)"

lemma yrsize_length [simp]: "length (yrsize y) = 13"
  by (simp add: yrsize_def dmsize_def ldmsize_def)

lemma year_days_step: "a < b \<Longrightarrow> year_days a b = yrsize a ! 0 + year_days (a + 1) b"
  by (simp add: year_days_def upto_rec1)

lemma year_days_empty [simp]: "year_days a a = 0"
  by (simp add: year_days_def)

lemma month_days_step: "a < b \<Longrightarrow> month_days m a b = m ! a + month_days m (Suc a) b"
  by (simp add: month_days_def upt_conv_Cons)

lemma month_days_empty [simp]: "month_days m a a = 0"
  by (simp add: month_days_def)

lemma foldl_of_int:
  "foldl (\<lambda>secs i. secs + of_int (f i * k)) (s :: u32) xs = s + of_int (sum_list (map f xs) * k)"
  by (induction xs arbitrary: s) (simp_all add: algebra_simps)

lemma month_secs_sum:
  "set is \<subseteq> {..<length m} \<Longrightarrow>
   efold (\<lambda>i secs. if i < length m then Inr (secs + of_int (m ! i * SEC2DAY))
                   else Inl (Fault ''dmsize'')) is (s :: u32)
     = Inr (s + of_int (sum_list (map ((!) m) is) * SEC2DAY))"
  by (induction "is" arbitrary: s) (simp_all add: algebra_simps)

lemma years_secs:
  "foldl (\<lambda>secs i. secs + of_int (yrsize i ! 0 * SEC2DAY)) (0 :: u32) [1970..y - 1]
     = of_int (year_days 1970 y * SEC2DAY)"
  by (simp only: foldl_of_int year_days_def add_0)

lemma month_secs_total:
  "mon \<le> 13 \<Longrightarrow>
   month_secs (yrsize y) mon s = Inr (s + of_int (month_days (yrsize y) 1 (nat mon) * SEC2DAY))"
  unfolding month_secs_def month_days_def by (rule month_secs_sum) auto

lemma rtc2sec_total: "r_mon r \<le> 13 \<Longrightarrow> rtc2sec r = Inr (of_int (rtc_total r))"
  by (simp only: rtc2sec_def Let_def years_secs month_secs_total ebind_simps)
    (simp add: rtc_total_def algebra_simps)

section \<open>The loops compute the inverse sums\<close>

lemma year_up_spec:
  "0 \<le> day \<Longrightarrow> year_up d day = (y, r) \<Longrightarrow>
     d \<le> y \<and> 0 \<le> r \<and> r < yrsize y ! 0 \<and> day = year_days d y + r"
proof (induction d day rule: year_up.induct)
  case (1 d day)
  show ?case
  proof (cases "yrsize d ! 0 \<le> day")
    case True
    with 1 have "d + 1 \<le> y \<and> 0 \<le> r \<and> r < yrsize y ! 0 \<and>
        day - yrsize d ! 0 = year_days (d + 1) y + r"
      by (simp add: year_up.simps [of d day])
    then show ?thesis using year_days_step [of d y] by simp
  next
    case False
    with 1 show ?thesis by (simp add: year_up.simps [of d day])
  qed
qed

lemma year_up_unique:
  assumes "0 \<le> r" "r < yrsize (d + int n) ! 0"
  shows "year_up d (year_days d (d + int n) + r) = (d + int n, r)"
  using assms
proof (induction n arbitrary: d)
  case 0
  then show ?case by (simp add: year_up.simps [of d])
next
  case (Suc n)
  have eq: "d + int (Suc n) = (d + 1) + int n" by simp
  have nn: "0 \<le> year_days (d + 1) (d + 1 + int n)"
    unfolding year_days_def by (rule sum_list_nonneg) (auto intro: order_trans [OF _ yrsize_pos(1)])
  have "year_days d (d + int (Suc n)) = yrsize d ! 0 + year_days (d + 1) (d + 1 + int n)"
    unfolding eq by (rule year_days_step) simp
  with Suc.prems nn Suc.IH [of "d + 1"] show ?case
    by (simp add: year_up.simps [of d] eq del: of_nat_Suc)
qed

text \<open>Any day of the year falls in one of the twelve months.\<close>

lemma month_up_spec:
  "0 \<le> day \<Longrightarrow> d \<le> 13 \<Longrightarrow> day < month_days m d 13 \<Longrightarrow> length m = 13 \<Longrightarrow>
     \<exists>mon r. month_up m d day = Inr (mon, r) \<and> d \<le> mon \<and> mon \<le> 12 \<and> 0 \<le> r \<and> r < m ! mon \<and>
       day = month_days m d mon + r"
proof (induction m d day rule: month_up.induct)
  case (1 m d day)
  then have d: "d < 13" by (cases "d = 13") auto
  show ?case
  proof (cases "m ! d \<le> day")
    case True
    with 1 d obtain mon r where rec: "month_up m (d + 1) (day - m ! d) = Inr (mon, r)" "d + 1 \<le> mon"
      "mon \<le> 12" "0 \<le> r" "r < m ! mon" "day - m ! d = month_days m (d + 1) mon + r"
      by (auto simp: month_days_step)
    with True d 1(5) show ?thesis
      by (auto simp: month_up.simps [of m d day] month_days_step)
  next
    case False
    with 1 d show ?thesis by (auto simp: month_up.simps [of m d day])
  qed
qed

lemma month_up_unique:
  assumes "length m = 13" "d + n < 13" "\<forall>i<13. 0 \<le> m ! i" "0 \<le> r" "r < m ! (d + n)"
  shows "month_up m d (month_days m d (d + n) + r) = Inr (d + n, r)"
  using assms
proof (induction n arbitrary: d)
  case 0
  then show ?case by (simp add: month_up.simps [of m d])
next
  case (Suc n)
  have nn: "0 \<le> month_days m (Suc d) (Suc d + n)"
    unfolding month_days_def using Suc.prems(2,3) by (intro sum_list_nonneg) auto
  have "month_days m d (d + Suc n) = m ! d + month_days m (Suc d) (Suc d + n)"
    by (simp add: month_days_step)
  with Suc.prems nn Suc.IH [of "Suc d"] show ?case
    by (simp add: month_up.simps [of m d])
qed

lemma year_months: "yrsize y ! 0 = month_days (yrsize y) 1 13"
  by (simp add: yrsize_def dmsize_def ldmsize_def month_days_def numeral_nat upt_rec)

lemma sec2rtc_form:
  "sec2rtc s =
     (let (year, day) = year_up 1970 (uint s div SEC2DAY); hms = uint s mod SEC2DAY in
      ebind (month_up (yrsize year) 1 day) (\<lambda>(mon, rest).
         Inr \<lparr>r_sec = hms mod 60, r_min = hms div 60 mod 60, r_hour = hms div 60 div 60,
              r_mday = rest + 1, r_mon = int mon, r_year = year\<rparr>))"
proof -
  define h where "h = uint s mod SEC2DAY"
  define day where "day = uint s div SEC2DAY"
  have "0 \<le> h" "0 \<le> day" by (simp_all add: h_def day_def pos_imp_zdiv_nonneg_iff)
  then show ?thesis
    unfolding sec2rtc_def h_def [symmetric] day_def [symmetric]
    by (simp add: Let_def smod_nonneg sdiv_nonneg not_less pos_imp_zdiv_nonneg_iff)
qed

lemma sec2rtc_spec:
  "\<exists>r. sec2rtc s = Inr r \<and> rtc_valid r \<and> rtc_total r = uint s"
proof -
  define hms where "hms = uint s mod SEC2DAY"
  obtain y day where yu: "year_up 1970 (uint s div SEC2DAY) = (y, day)"
    by (cases "year_up 1970 (uint s div SEC2DAY)")
  have "0 \<le> uint s div SEC2DAY" by (simp add: pos_imp_zdiv_nonneg_iff)
  from year_up_spec [OF this yu] have y: "1970 \<le> y" "0 \<le> day" "day < yrsize y ! 0"
    "uint s div SEC2DAY = year_days 1970 y + day" by auto
  from y(2,3) month_up_spec [of day 1 "yrsize y"] obtain mon rest where
    m: "month_up (yrsize y) 1 day = Inr (mon, rest)" "1 \<le> mon" "mon \<le> 12" "0 \<le> rest"
      "rest < yrsize y ! mon" "day = month_days (yrsize y) 1 mon + rest"
    unfolding year_months by auto
  let ?r = "\<lparr>r_sec = hms mod 60, r_min = hms div 60 mod 60, r_hour = hms div 60 div 60,
    r_mday = rest + 1, r_mon = int mon, r_year = y\<rparr>"
  have hms: "0 \<le> hms" "hms < SEC2DAY" by (simp_all add: hms_def)
  have "hms div 60 div 60 * SEC2HOUR + hms div 60 mod 60 * SEC2MIN + hms mod 60 = hms"
    by presburger
  then have "rtc_total ?r = uint s div SEC2DAY * SEC2DAY + hms"
    by (simp add: rtc_total_def y(4) m(6) algebra_simps)
  then have "rtc_total ?r = uint s" by (simp add: hms_def)
  moreover have "rtc_valid ?r"
    using hms y m by (auto simp: rtc_valid_def)
  moreover have "sec2rtc s = Inr ?r"
    using m(1) by (simp add: sec2rtc_form yu hms_def [symmetric])
  ultimately show ?thesis by blast
qed

lemma rtc_total_parts:
  assumes "rtc_valid r"
  shows "rtc_total r div SEC2DAY =
      year_days 1970 (r_year r) + month_days (yrsize (r_year r)) 1 (nat (r_mon r)) + r_mday r - 1"
    and "rtc_total r mod SEC2DAY = r_hour r * SEC2HOUR + r_min r * SEC2MIN + r_sec r"
proof -
  define hms where "hms = r_hour r * SEC2HOUR + r_min r * SEC2MIN + r_sec r"
  have hms: "0 \<le> hms" "hms < SEC2DAY" using assms by (auto simp: rtc_valid_def hms_def)
  define days where "days = year_days 1970 (r_year r)
    + month_days (yrsize (r_year r)) 1 (nat (r_mon r)) + r_mday r - 1"
  have "rtc_total r = days * SEC2DAY + hms" by (simp add: rtc_total_def days_def hms_def)
  with hms show "rtc_total r div SEC2DAY =
      year_days 1970 (r_year r) + month_days (yrsize (r_year r)) 1 (nat (r_mon r)) + r_mday r - 1"
    and "rtc_total r mod SEC2DAY = r_hour r * SEC2HOUR + r_min r * SEC2MIN + r_sec r"
    unfolding days_def [symmetric] hms_def [symmetric] by simp_all
qed

lemma yrsize_nonneg: "\<forall>i<13. 0 \<le> yrsize y ! i"
proof -
  have "\<forall>x\<in>set (yrsize y). 0 \<le> x" by (simp add: yrsize_def dmsize_def ldmsize_def)
  then show ?thesis by (metis nth_mem yrsize_length)
qed

lemma month_days_append: "a \<le> b \<Longrightarrow> b \<le> c \<Longrightarrow> month_days m a c = month_days m a b + month_days m b c"
  using upt_add_eq_append [of a b "c - b"] by (simp add: month_days_def)

lemma year_days_nonneg: "0 \<le> year_days a b"
  unfolding year_days_def by (rule sum_list_nonneg) (auto intro: order_trans [OF _ yrsize_pos(1)])

lemma month_days_nonneg: "b \<le> 13 \<Longrightarrow> 0 \<le> month_days (yrsize y) a b"
  unfolding month_days_def by (rule sum_list_nonneg) (auto simp: yrsize_nonneg)

text \<open>A day of a valid date is before the end of its year.\<close>

lemma month_day_bound:
  assumes "1 \<le> mon" "mon \<le> 12" "r < yrsize y ! mon"
  shows "month_days (yrsize y) 1 mon + r < yrsize y ! 0"
proof -
  have "month_days (yrsize y) 1 13 = month_days (yrsize y) 1 mon + month_days (yrsize y) mon 13"
    using assms by (intro month_days_append) simp_all
  also have "month_days (yrsize y) mon 13 = yrsize y ! mon + month_days (yrsize y) (Suc mon) 13"
    using assms by (intro month_days_step) simp
  finally have "yrsize y ! 0 =
      month_days (yrsize y) 1 mon + (yrsize y ! mon + month_days (yrsize y) (Suc mon) 13)"
    by (simp only: year_months)
  moreover have "0 \<le> month_days (yrsize y) (Suc mon) 13"
    by (rule month_days_nonneg) simp
  ultimately show ?thesis using assms(3) by simp
qed

lemma rtc_total_nonneg: "rtc_valid r \<Longrightarrow> 0 \<le> rtc_total r"
  using year_days_nonneg [of 1970 "r_year r"]
    month_days_nonneg [of "nat (r_mon r)" "r_year r" 1]
  by (auto simp: rtc_total_def rtc_valid_def nat_le_iff)

lemma hms_split:
  fixes h m x :: int
  assumes "0 \<le> m" "m < 60" "0 \<le> x" "x < 60"
  shows "(h * SEC2HOUR + m * SEC2MIN + x) mod 60 = x"
    and "(h * SEC2HOUR + m * SEC2MIN + x) div 60 mod 60 = m"
    and "(h * SEC2HOUR + m * SEC2MIN + x) div 60 div 60 = h"
proof -
  have step: "(q * 60 + r) mod 60 = r" "(q * 60 + r) div 60 = q" if "0 \<le> r" "r < 60" for q r :: int
    using that by simp_all
  have eq: "h * SEC2HOUR + m * SEC2MIN + x = (h * 60 + m) * 60 + x" by simp
  show "(h * SEC2HOUR + m * SEC2MIN + x) mod 60 = x"
    "(h * SEC2HOUR + m * SEC2MIN + x) div 60 mod 60 = m"
    "(h * SEC2HOUR + m * SEC2MIN + x) div 60 div 60 = h"
    unfolding eq by (simp_all only: step assms)
qed

lemma sec2rtc_total:
  assumes r: "rtc_valid r" and small: "rtc_total r < 4294967296"
  shows "sec2rtc (of_int (rtc_total r)) = Inr r"
proof -
  define mon where "mon = nat (r_mon r)"
  define y where "y = r_year r"
  define day where "day = month_days (yrsize y) 1 mon + (r_mday r - 1)"
  have u: "uint (of_int (rtc_total r) :: u32) = rtc_total r"
    using rtc_total_nonneg [OF r] small by (simp add: uint_word_of_int take_bit_int_eq_self)
  have bounds: "1 \<le> mon" "mon \<le> 12" "1970 \<le> y" "0 \<le> r_mday r - 1" "r_mday r - 1 < yrsize y ! mon"
    "int mon = r_mon r"
    using r by (auto simp: rtc_valid_def mon_def y_def)
  then have day: "0 \<le> day" "day < yrsize y ! 0"
    using month_day_bound month_days_nonneg [of mon y 1] by (auto simp: day_def)
  have "year_up 1970 (year_days 1970 (1970 + int (nat (y - 1970))) + day)
      = (1970 + int (nat (y - 1970)), day)"
    using day bounds by (intro year_up_unique) auto
  then have yu: "year_up 1970 (rtc_total r div SEC2DAY) = (y, day)"
    using bounds by (simp add: rtc_total_parts(1) [OF r] day_def mon_def y_def algebra_simps)
  have mu: "month_up (yrsize y) 1 day = Inr (mon, r_mday r - 1)"
    using month_up_unique [of "yrsize y" 1 "mon - 1" "r_mday r - 1"] bounds
    by (simp add: day_def yrsize_nonneg)
  have hms: "rtc_total r mod SEC2DAY mod 60 = r_sec r"
    "rtc_total r mod SEC2DAY div 60 mod 60 = r_min r"
    "rtc_total r mod SEC2DAY div 60 div 60 = r_hour r"
    unfolding rtc_total_parts(2) [OF r] using r by (simp_all add: rtc_valid_def hms_split)
  show ?thesis
    unfolding sec2rtc_form u yu using mu hms bounds(6) by (simp add: y_def)
qed

text \<open>Every date before 2106 fits in 32 bits.\<close>

lemma year_days_2106: "year_days 1970 2106 = 49674"
  by code_simp

lemma year_days_mono: "1970 \<le> y \<Longrightarrow> y \<le> 2105 \<Longrightarrow> year_days 1970 y + yrsize y ! 0 \<le> 49674"
proof -
  assume y: "1970 \<le> y" "y \<le> 2105"
  have "[1970..2105] = [1970..y - 1] @ y # [y + 1..2105]"
    using y upto_split2 [of 1970 y 2105] upto_rec2 [of 1970 y] by simp
  then have "year_days 1970 2106 = year_days 1970 y + (yrsize y ! 0 + year_days (y + 1) 2106)"
    by (simp add: year_days_def)
  with year_days_nonneg [of "y + 1" 2106] show ?thesis by (simp add: year_days_2106)
qed

lemma rtc_total_small:
  assumes r: "rtc_valid r" and y: "r_year r \<le> 2105"
  shows "rtc_total r < 4294967296"
proof -
  have "month_days (yrsize (r_year r)) 1 (nat (r_mon r)) + (r_mday r - 1) < yrsize (r_year r) ! 0"
    using r by (intro month_day_bound) (auto simp: rtc_valid_def)
  moreover have "year_days 1970 (r_year r) + yrsize (r_year r) ! 0 \<le> 49674"
    using r y by (intro year_days_mono) (auto simp: rtc_valid_def)
  ultimately have "rtc_total r div SEC2DAY < 49674" by (simp add: rtc_total_parts(1) [OF r])
  then show ?thesis by simp
qed

section \<open>The two registers, byte by byte\<close>

definition bcd8 :: "u8 \<Rightarrow> int" where
  "bcd8 b = uint (drop_bit 4 b) * 10 + uint (b AND 0x0F)"

definition bcd :: "int \<Rightarrow> u8" where
  "bcd n = word_of_int (dec2bcd n)"

lemma bcd2dec_byte: "bcd2dec x = bcd8 (ucast x)"
proof -
  have m: "(0x0F :: u32) = mask 4" "(0x0F :: u8) = mask 4" by (simp_all add: mask_eq_exp_minus_1)
  have lo: "uint (x AND 0x0F) = uint ((ucast x :: u8) AND 0x0F)"
    unfolding m by (rule bit_eqI) (auto simp: bit_simps)
  have hi: "uint (drop_bit 4 x AND 0x0F) = uint (drop_bit 4 (ucast x :: u8))"
    unfolding m by (rule bit_eqI) (auto simp: bit_simps)
  have "uint (drop_bit 4 x AND mask 4) < 16" "uint (x AND mask 4) < 16"
    using take_bit_int_less_exp [of 4 "uint (drop_bit 4 x)"] take_bit_int_less_exp [of 4 "uint x"]
    by (simp_all add: take_bit_eq_mask [symmetric] unsigned_take_bit_eq)
  then have "uint ((drop_bit 4 x AND mask 4) * 10 + (x AND mask 4))
      = uint (drop_bit 4 x AND mask 4) * 10 + uint (x AND mask 4)"
    by (simp add: uint_word_ariths)
  then show ?thesis unfolding bcd2dec_def bcd8_def m by (simp only: lo [unfolded m] hi [unfolded m])
qed

lemma bcd_small:
  assumes "0 \<le> n" "n < 100"
  shows "0 \<le> dec2bcd n \<and> dec2bcd n < 256 \<and> bcd8 (bcd n) = n"
proof -
  have "\<forall>n\<in>set [0..99]. 0 \<le> dec2bcd n \<and> dec2bcd n < 256 \<and> bcd8 (bcd n) = n" by code_simp
  with assms show ?thesis by auto
qed

lemma bcd_even:
  assumes "0 \<le> n" "n < 60"
  shows "bcd8 (bcd n AND 0x7E) = n - n mod 2"
proof -
  have "\<forall>n\<in>set [0..59]. bcd8 (bcd n AND 0x7E) = n - n mod 2" by code_simp
  with assms show ?thesis by auto
qed

lemma bcd_day:
  assumes "0 \<le> n" "n < 32"
  shows "bcd8 (bcd n AND 0x3E) = n - n mod 2"
proof -
  have "\<forall>n\<in>set [0..31]. bcd8 (bcd n AND 0x3E) = n - n mod 2" by code_simp
  with assms show ?thesis by auto
qed

lemma bcd_hour:
  assumes "0 \<le> h" "h < 24"
  shows "push_bit 20 (dec2bcd (h sdiv 10)) OR push_bit 16 (dec2bcd (h smod 10))
      = push_bit 16 (dec2bcd h) \<and> \<not> bit (bcd h) 6"
proof -
  have "\<forall>h\<in>set [0..23]. push_bit 20 (dec2bcd (h sdiv 10)) OR push_bit 16 (dec2bcd (h smod 10))
      = push_bit 16 (dec2bcd h) \<and> \<not> bit (bcd h) 6" by code_simp
  with assms show ?thesis by auto
qed

lemma pack_bytes:
  assumes "0 \<le> b" "b < 256" "0 \<le> c" "c < 256" "0 \<le> a" "a < 256"
  shows "word_of_int (push_bit 16 a OR push_bit 8 b OR c)
    = be32 0 (word_of_int a) (word_of_int b) (word_of_int c)"
proof -
  have "word_of_int (push_bit 16 (take_bit 8 a) OR push_bit 8 (take_bit 8 b) OR take_bit 8 c)
    = be32 0 (word_of_int a) (word_of_int b) (word_of_int c)"
    by (rule bit_word_eqI) (auto simp: be32_def bit_simps)
  with assms show ?thesis by (simp add: take_bit_int_eq_self)
qed

lemma ucast_and_mask: "(ucast (x AND m) :: u8) = ucast (x :: u32) AND ucast m"
  by (rule bit_word_eqI) (auto simp: bit_simps)

lemma reg_bytes:
  "bcd2dec (drop_bit 0 (be32 z a b c) AND m) = bcd8 (c AND ucast m)"
  "bcd2dec (drop_bit 8 (be32 z a b c) AND m) = bcd8 (b AND ucast m)"
  "bcd2dec (drop_bit 16 (be32 z a b c) AND m) = bcd8 (a AND ucast m)"
  by (simp_all add: bcd2dec_byte ucast_and_mask be32_bytes)

lemma rtc_masks:
  "(ucast (BITS 0 6 - 1) :: u8) = 0x7E" "(ucast (BITS 8 14 - 1) :: u8) = - 1"
  "(ucast (BITS 16 21 - 1) :: u8) = - 1" "(ucast (BITS 0 5 - 1) :: u8) = 0x3E"
  "(ucast (BITS 8 12 - 1) :: u8) = - 1" "(ucast (BITS 16 23 - 1) :: u8) = - 1"
  by code_simp+

text \<open>What a date becomes on its way through the registers: seconds and days lose bit 0.\<close>

definition rtc_rounded :: "rtc \<Rightarrow> rtc" where
  "rtc_rounded r = r\<lparr>r_sec := r_sec r - r_sec r mod 2, r_mday := r_mday r - r_mday r mod 2\<rparr>"

lemma rtc_fields_setrtc:
  assumes r: "rtc_valid r" and y: "2000 \<le> r_year r" "r_year r \<le> 2099"
  shows "rtc_fields (setrtc r s) = rtc_rounded r"
proof -
  have md: "r_mday r < 32"
  proof -
    have "r_mday r \<le> yrsize (r_year r) ! nat (r_mon r)" "1 \<le> nat (r_mon r)" "nat (r_mon r) \<le> 12"
      using r by (auto simp: rtc_valid_def)
    moreover have "\<forall>i\<in>set [1..<Suc 12]. yrsize (r_year r) ! i < 32"
      by (simp add: yrsize_def dmsize_def ldmsize_def upt_rec)
    ultimately show ?thesis
      by (metis atLeastLessThan_iff le_less_trans less_Suc_eq_le set_upt)
  qed
  have f: "0 \<le> r_sec r" "r_sec r < 60" "0 \<le> r_min r" "r_min r < 60" "0 \<le> r_hour r" "r_hour r < 24"
    "0 \<le> r_mon r" "r_mon r < 100" "0 \<le> r_mday r" "0 \<le> r_year r - 2000" "r_year r - 2000 < 100"
    using r y by (auto simp: rtc_valid_def)
  have hour: "push_bit 20 (dec2bcd (r_hour r sdiv 10)) OR push_bit 16 (dec2bcd (r_hour r smod 10)) OR x
      = push_bit 16 (dec2bcd (r_hour r)) OR x" for x
    using bcd_hour [OF f(5,6)] by (simp flip: or.assoc)
  have time: "rtc_time (setrtc r s) = be32 0 (bcd (r_hour r)) (bcd (r_min r)) (bcd (r_sec r))"
    using f bcd_small [of "r_hour r"] bcd_small [of "r_min r"] bcd_small [of "r_sec r"]
    by (simp add: setrtc_def hour pack_bytes bcd_def)
  have date: "rtc_date (setrtc r s) = be32 0 (bcd (r_year r - 2000)) (bcd (r_mon r)) (bcd (r_mday r))"
    using f md bcd_small [of "r_year r - 2000"] bcd_small [of "r_mon r"] bcd_small [of "r_mday r"]
    by (simp add: setrtc_def pack_bytes bcd_def)
  have h24: "rtc_time (setrtc r s) AND RTCHour12 = 0"
    unfolding time RTCHour12_def push_bit_of_1 and_exp_eq_0_iff_not_bit
    using conjunct2 [OF bcd_hour [OF f(5,6)]]
    by (auto simp: be32_def bit_simps dest: bit_imp_le_length)
  show ?thesis
    unfolding rtc_fields_def Let_def h24 unfolding time date reg_bytes rtc_masks
    using f md by (simp add: bcd_small bcd_even bcd_day rtc_rounded_def)
qed


lemma year_days_le: "1970 \<le> a \<Longrightarrow> a \<le> b \<Longrightarrow> year_days 1970 a \<le> year_days 1970 b"
proof -
  assume "1970 \<le> a" "a \<le> b"
  then have "year_days 1970 b = year_days 1970 a + year_days a b"
    using upto_split1 [of 1970 a "b - 1"] by (cases "a = b") (simp_all add: year_days_def)
  with year_days_nonneg [of a b] show ?thesis by simp
qed

lemma year_days_bounds: "year_days 1970 2000 = 10957" "year_days 1970 2100 = 47482"
  by code_simp+

lemma rtc_year_range:
  assumes r: "rtc_valid r"
  shows "946684800 \<le> rtc_total r \<Longrightarrow> 2000 \<le> r_year r"
    and "rtc_total r < 4102444800 \<Longrightarrow> r_year r \<le> 2099"
proof -
  let ?y = "r_year r"
  define k where "k = month_days (yrsize ?y) 1 (nat (r_mon r)) + (r_mday r - 1)"
  have y: "1970 \<le> ?y" using r by (simp add: rtc_valid_def)
  have div: "rtc_total r div SEC2DAY = year_days 1970 ?y + k"
    by (simp add: rtc_total_parts(1) [OF r] k_def)
  have k: "k < yrsize ?y ! 0" "0 \<le> k"
    unfolding k_def using r month_days_nonneg [of "nat (r_mon r)" ?y 1]
    by (auto simp: rtc_valid_def nat_le_iff intro!: month_day_bound [simplified])
  have next_year: "year_days 1970 (?y + 1) = year_days 1970 ?y + yrsize ?y ! 0"
    using y upto_rec2 [of 1970 ?y] by (simp add: year_days_def)
  show "2000 \<le> ?y" if "946684800 \<le> rtc_total r"
  proof (rule ccontr)
    assume "\<not> 2000 \<le> ?y"
    then have "year_days 1970 (?y + 1) \<le> 10957"
      using year_days_le [of "?y + 1" 2000] y by (simp add: year_days_bounds)
    with div k next_year that show False by simp
  qed
  show "?y \<le> 2099" if "rtc_total r < 4102444800"
  proof (rule ccontr)
    assume "\<not> ?y \<le> 2099"
    then have "47482 \<le> year_days 1970 ?y"
      using year_days_le [of 2100 ?y] by (simp add: year_days_bounds)
    with div k that show False by simp
  qed
qed

section \<open>Writing the clock\<close>

lemma udec_digits: "c \<in> set (udec n) \<Longrightarrow> is_digit c"
proof (induction n rule: udec.induct)
  case (1 n)
  then show ?case
    by (cases "n < 10") (auto simp: udec.simps [of n] is_digit_def of_char_dec_digit)
qed

lemma byte_of_digit: "is_digit c \<Longrightarrow> byte_of c \<noteq> 0"
proof
  assume "is_digit c" "byte_of c = 0"
  then have "c = chr_of 0" by (metis chr_of_byte_of)
  with \<open>is_digit c\<close> show False by (simp add: is_digit_def chr_of_def)
qed

lemma cstr_udec: "cstr (map byte_of (udec n)) = udec n"
proof -
  have "takeWhile (\<lambda>b. b \<noteq> 0) (map byte_of (udec n)) = map byte_of (udec n)"
    unfolding takeWhile_eq_all_conv using byte_of_digit udec_digits by auto
  note whole = this
  show ?thesis unfolding cstr_def whole by (simp add: comp_def)
qed

lemma skip_udec: "dropWhile (\<lambda>c. \<not> is_digit c) (udec n) = udec n"
  using udec_hd_digit [of n] udec_digits by (metis dropWhile_eq_self_iff hd_in_set)

lemma rtcwrite_udec:
  assumes "n < 4294967296"
  obtains r where "sec2rtc (of_nat n) = Inr r" "rtc_valid r" "rtc_total r = int n"
    "rtcwrite Qrtc (map byte_of (udec n)) 0 s = (Inr (int (length (udec n))), setrtc r s)"
proof -
  have "length (udec n) \<le> Suc 9" using assms by (intro udec_length) simp
  moreover have "strtoul 0 (udec n) = of_nat n"
    using assms by (simp add: strtoul_def strtou_udec)
  moreover obtain r where "sec2rtc (of_nat n) = Inr r" "rtc_valid r" "rtc_total r = int n"
    using sec2rtc_spec [of "of_nat n"] assms
    by (auto simp: unsigned_of_nat take_bit_nat_eq_self take_bit_int_eq_self)
  ultimately show ?thesis
    by (intro that [of r]) (simp_all add: rtcwrite_def cstr_udec skip_udec)
qed

section \<open>Properties\<close>

text \<open>
  C5: Seconds to date and back.  Every 32-bit number of seconds converts, without running off the
  month table, to a valid date, and that date converts back to the same number.
\<close>

theorem rtc2sec_sec2rtc:
  "\<exists>r. sec2rtc secs = Inr r \<and> rtc_valid r \<and> rtc2sec r = Inr secs"
proof -
  obtain r where r: "sec2rtc secs = Inr r" "rtc_valid r" "rtc_total r = uint secs"
    using sec2rtc_spec by blast
  then have "rtc2sec r = Inr (of_int (uint secs))"
    by (simp add: rtc2sec_total rtc_valid_def)
  with r show ?thesis by auto
qed

text \<open>
  C6: Date to seconds and back.  Every valid date from 1970 to 2105 is what its number of seconds
  converts to: the count does not wrap and no two dates share a number.
\<close>

theorem sec2rtc_rtc2sec:
  assumes "rtc_valid r" and "r_year r \<le> 2105"
  shows "ebind (rtc2sec r) sec2rtc = Inr r"
  using assms sec2rtc_total [OF assms(1) rtc_total_small [OF assms]]
  by (simp add: rtc2sec_total rtc_valid_def)

theorem sec2rtc_rtc2sec_witness:
  "ebind (rtc2sec \<lparr>r_sec = 59, r_min = 59, r_hour = 23, r_mday = 29, r_mon = 2, r_year = 2012\<rparr>) sec2rtc
     = Inr \<lparr>r_sec = 59, r_min = 59, r_hour = 23, r_mday = 29, r_mon = 2, r_year = 2012\<rparr>"
  by (rule sec2rtc_rtc2sec) (simp_all add: rtc_valid_def yrsize_def ldmsize_def smod_nonneg)

text \<open>
  Setting the clock and reading it.  Writing a number of seconds of the years 2000 to 2099 to
  the device succeeds, and reading the registers back gives the date of that number with bit 0 of
  the seconds and of the day of the month cleared, because the masks \<open>BITS(0, 6) - 1\<close> and
  \<open>BITS(0, 5) - 1\<close> drop it; the other fields survive.
\<close>

lemma rtcwrite_rtctime:
  assumes "946684800 \<le> n" and "n < 4102444800"
  shows "\<exists>r s'. sec2rtc (of_nat n) = Inr r \<and>
    rtcwrite Qrtc (map byte_of (udec n)) 0 s = (Inr (int (length (udec n))), s') \<and>
    rtctime s' = rtc2sec (r\<lparr>r_sec := r_sec r - r_sec r mod 2, r_mday := r_mday r - r_mday r mod 2\<rparr>)"
proof -
  from assms(2) have "n < 4294967296" by simp
  from rtcwrite_udec [OF this] obtain r where r: "sec2rtc (of_nat n) = Inr r" "rtc_valid r"
    "rtc_total r = int n"
    "rtcwrite Qrtc (map byte_of (udec n)) 0 s = (Inr (int (length (udec n))), setrtc r s)" by blast
  have "2000 \<le> r_year r" "r_year r \<le> 2099"
    using rtc_year_range [OF r(2)] assms r(3) by simp_all
  with r show ?thesis by (auto simp: rtctime_def rtc_fields_setrtc rtc_rounded_def)
qed

lemma rtcwrite_rtctime_witness:
  "\<exists>r s'. sec2rtc (of_nat 1325376001) = Inr r \<and>
    rtcwrite Qrtc (map byte_of (udec 1325376001)) 0 \<lparr>rtc_time = 0, rtc_date = 0\<rparr>
      = (Inr (int (length (udec 1325376001))), s') \<and>
    rtctime s' = rtc2sec (r\<lparr>r_sec := r_sec r - r_sec r mod 2, r_mday := r_mday r - r_mday r mod 2\<rparr>)"
  by (rule rtcwrite_rtctime) simp_all

end
