(* ===== verification/Sdcard.thy ===== *)
theory Sdcard
  imports Kw_Libc
begin

text \<open>
  \<open>sdcard.c\<close> and \<open>sdcard.h\<close>: the registers of an SD card.  A response is three 64-bit words, most
  significant first; \<open>bits\<close> extracts a field, and the parsers fill the structures from the fields.
  Structure members keep the width of their C type.  \<open>cidstr\<close>, \<open>csdstr\<close> and \<open>cardstr\<close> format them
  as text.
\<close>

section \<open>Fields of a register\<close>

text \<open>
  The loop of \<open>bits\<close>: the list holds the words from the least significant one, \<open>h\<close> and \<open>l\<close> are the
  bounds relative to the current word, \<open>k\<close> is the number of bits collected so far.
\<close>

fun bits_loop :: "u64 list \<Rightarrow> int \<Rightarrow> int \<Rightarrow> nat \<Rightarrow> u64 \<Rightarrow> u64" where
  "bits_loop [] h l k v = v"
| "bits_loop (w # ws) h l k v =
     (if l < h \<and> 0 \<le> l then
        (if l < 64 then
           (let n = nat (min h 63 - l + 1) in
            bits_loop ws (h - 64) (l + int n - 64) (k + n)
              (v OR push_bit k (drop_bit (nat l) w AND (push_bit n 1 - 1))))
         else bits_loop ws (h - 64) (l - 64) k v)
      else v)"

definition bits :: "u64 list \<Rightarrow> int \<Rightarrow> int \<Rightarrow> u32" where
  "bits r h l = ucast (bits_loop (rev r) h l 0 0)"

section \<open>Structures\<close>

record cid =
  cid_mid :: u32
  cid_oid :: "u8 list"
  cid_prodname :: "u8 list"
  cid_rev :: u32
  cid_serial :: u32
  cid_year :: int
  cid_mon :: int

record csd =
  csd_vers :: u8
  csd_taac :: u8
  csd_nsac :: u8
  csd_speed :: u8
  csd_ccc :: u16
  csd_rbl :: u8
  csd_rbpart :: u8
  csd_wbmalign :: u8
  csd_rbmalign :: u8
  csd_dsr :: u8
  csd_size :: u32
  csd_vddrmin :: u8
  csd_vddrmax :: u8
  csd_vddwmin :: u8
  csd_vddwmax :: u8
  csd_sizemult :: u8
  csd_eraseblk :: u8
  csd_erasesecsz :: u8
  csd_wpgrpsize :: u8
  csd_wpgrp :: u8
  csd_speedfactor :: u8
  csd_wbl :: u8
  csd_wbpart :: u8
  csd_ffgrp :: u8
  csd_copy :: u8
  csd_permwp :: u8
  csd_tmpwp :: u8
  csd_ff :: u8

record scr =
  scr_vers :: u8
  scr_spec :: u8
  scr_dataerased :: u8
  scr_sec :: u8
  scr_buswidth :: u8

record card =
  c_valid :: int
  c_cid :: cid
  c_csd :: csd
  c_bs :: u32
  c_size :: u64
  c_mmc :: int
  c_sd2 :: int
  c_sdhc :: int
  c_rca :: u32
  c_resp :: "u64 list"
  c_status :: u32

section \<open>Parsers\<close>

definition parsecid :: "u64 list \<Rightarrow> cid \<Rightarrow> int \<times> cid" where
  "parsecid r c =
     (0, c\<lparr>cid_mon := sint (bits r 11 8),
           cid_year := sint (2000 + bits r 19 16 * 10 + bits r 15 12),
           cid_serial := bits r 55 24,
           cid_rev := bits r 63 56,
           cid_prodname := map (\<lambda>i. ucast (bits r (104 - i * 8 - 1) (104 - i * 8 - 8))) [0, 1, 2, 3, 4]
             @ [0],
           cid_oid := [ucast (bits r 119 112), ucast (bits r 111 104), 0],
           cid_mid := bits r 127 120\<rparr>)"

text \<open>The part that depends on the version of the structure.\<close>

definition parsecsd_size :: "u64 list \<Rightarrow> csd \<Rightarrow> csd" where
  "parsecsd_size r c =
     (if csd_vers c = 0 then
        c\<lparr>csd_size := bits r 75 62,
          csd_vddrmin := ucast (bits r 61 59),
          csd_vddrmax := ucast (bits r 58 56),
          csd_vddwmin := ucast (bits r 55 53),
          csd_vddwmax := ucast (bits r 52 50),
          csd_sizemult := ucast (bits r 49 47)\<rparr>
      else c\<lparr>csd_size := bits r 69 48\<rparr>)"

definition parsecsd :: "u64 list \<Rightarrow> csd \<Rightarrow> int \<times> csd" where
  "parsecsd r c =
     (let c = c\<lparr>csd_vers := ucast (bits r 127 126)\<rparr> in
      if csd_vers c \<noteq> 0 \<and> csd_vers c \<noteq> 1 then (- 1, c)
      else
        (let c = c\<lparr>csd_taac := ucast (bits r 119 112),
                   csd_nsac := ucast (bits r 111 104),
                   csd_speed := ucast (bits r 103 96),
                   csd_ccc := ucast (bits r 95 84),
                   csd_rbl := ucast (bits r 83 80),
                   csd_rbpart := ucast (bits r 79 79),
                   csd_wbmalign := ucast (bits r 78 78),
                   csd_rbmalign := ucast (bits r 77 77),
                   csd_dsr := ucast (bits r 76 76)\<rparr>;
             c = parsecsd_size r c
         in (0, c\<lparr>csd_eraseblk := ucast (bits r 46 46),
                  csd_erasesecsz := ucast (bits r 45 39),
                  csd_wpgrpsize := ucast (bits r 38 32),
                  csd_wpgrp := ucast (bits r 31 31),
                  csd_speedfactor := ucast (bits r 28 26),
                  csd_wbl := ucast (bits r 25 22),
                  csd_wbpart := ucast (bits r 21 21),
                  csd_ffgrp := ucast (bits r 15 15),
                  csd_copy := ucast (bits r 14 14),
                  csd_permwp := ucast (bits r 13 13),
                  csd_tmpwp := ucast (bits r 12 12),
                  csd_ff := ucast (bits r 11 10)\<rparr>)))"

definition parsescr :: "u64 list \<Rightarrow> scr \<Rightarrow> int \<times> scr" where
  "parsescr r s =
     (0, s\<lparr>scr_vers := ucast (bits r 63 60),
           scr_spec := ucast (bits r 59 56),
           scr_dataerased := ucast (bits r 55 55),
           scr_sec := ucast (bits r 54 52),
           scr_buswidth := ucast (bits r 51 48)\<rparr>)"

definition cardtype :: "card \<Rightarrow> string" where
  "cardtype c = (if c_mmc c \<noteq> 0 then ''mmc'' else if c_sdhc c \<noteq> 0 then ''sdhc'' else ''sd'')"

section \<open>Text\<close>

definition cidstr :: "nat \<Rightarrow> string \<Rightarrow> cid \<Rightarrow> string" where
  "cidstr cap p c =
     seprint cap p
       (''product '' @ cstr (cid_prodname c) @ '', rev '' @ xhex (unat (cid_rev c))
        @ '', serial '' @ xhex (unat (cid_serial c)) @ '', made '' @ zeropad 4 (cid_year c) @ ''-''
        @ zeropad 2 (cid_mon c) @ '', oem '' @ cstr (cid_oid c) @ '', manufacturer ''
        @ xhex (unat (cid_mid c)) @ [CHR 0x0A])"

definition csd_versbuf :: "csd \<Rightarrow> string" where
  "csd_versbuf c =
     (if csd_vers c = 0 then
        seprint 128 [] (concat (map (\<lambda>(l, v). l @ '' '' @ uhex (unat v) @ [CHR 0x0A])
          [(''vddrmin'', csd_vddrmin c), (''vddrmax'', csd_vddrmax c), (''vddwmin'', csd_vddwmin c),
           (''vddwmax'', csd_vddwmax c), (''sizemult'', csd_sizemult c)]))
      else [])"

definition csd_line :: "string \<times> nat \<Rightarrow> string" where
  "csd_line = (\<lambda>(l, v). l @ '' '' @ uhex v @ [CHR 0x0A])"

definition csdstr :: "nat \<Rightarrow> string \<Rightarrow> csd \<Rightarrow> string" where
  "csdstr cap p c =
     seprint cap p
       (concat (map csd_line
          [(''version'', unat (csd_vers c)), (''taac'', unat (csd_taac c)), (''nsac'', unat (csd_nsac c)),
           (''transferspeed'', unat (csd_speed c)), (''card command classes'', unat (csd_ccc c)),
           (''readblocklength'', unat (csd_rbl c)), (''readblockpartial'', unat (csd_rbpart c)),
           (''writeblockmisalign'', unat (csd_wbmalign c)),
           (''readblockmisalign'', unat (csd_rbmalign c)), (''dsr'', unat (csd_dsr c)),
           (''devsize'', unat (csd_size c))])
        @ csd_versbuf c
        @ concat (map csd_line
          [(''eraseblockenable'', unat (csd_eraseblk c)), (''erasesectorsize'', unat (csd_erasesecsz c)),
           (''wpgroupsize'', unat (csd_wpgrpsize c)), (''wpgroupenable'', unat (csd_wpgrp c)),
           (''writespeedfactor'', unat (csd_speedfactor c)), (''writeblocklength'', unat (csd_wbl c)),
           (''writeblockpartial'', unat (csd_wbpart c)), (''fileformatgroup'', unat (csd_ffgrp c)),
           (''copy'', unat (csd_copy c)), (''permwriteprotect'', unat (csd_permwp c)),
           (''tmpwriteprotect'', unat (csd_tmpwp c)), (''fileformat'', unat (csd_ff c))]))"

definition cardstr :: "nat \<Rightarrow> string \<Rightarrow> card \<Rightarrow> string" where
  "cardstr cap p c =
     (let nl = [CHR 0x0A] in
      seprint cap p
        (''card '' @ cstr (cid_prodname (c_cid c)) @ nl @ ''type '' @ cardtype c @ nl
         @ ''size '' @ sdec (sint (c_size c)) @ '' bytes'' @ nl
         @ ''blocksize '' @ udec (unat (c_bs c)) @ nl
         @ ''manufactured '' @ sdec (cid_year (c_cid c)) @ ''-'' @ zeropad 2 (cid_mon (c_cid c)) @ nl
         @ ''rev '' @ xhex (unat (cid_rev (c_cid c))) @ nl
         @ ''serial '' @ xhex (unat (cid_serial (c_cid c))) @ nl))"

section \<open>The field extractor against the 192-bit register\<close>

definition reg192 :: "u64 list \<Rightarrow> 192 word" where
  "reg192 r = push_bit 128 (ucast (r ! 0)) OR push_bit 64 (ucast (r ! 1)) OR ucast (r ! 2)"

definition field192 :: "u64 list \<Rightarrow> nat \<Rightarrow> nat \<Rightarrow> u32" where
  "field192 r h l = ucast (take_bit (h - l + 1) (drop_bit l (reg192 r)))"

definition wbit :: "u64 list \<Rightarrow> nat \<Rightarrow> bool" where
  "wbit ws i \<longleftrightarrow> i div 64 < length ws \<and> bit (ws ! (i div 64)) (i mod 64)"

lemma wbit_Cons:
  "i < 64 \<Longrightarrow> wbit (w # ws) i = bit w i"
  "64 \<le> i \<Longrightarrow> wbit (w # ws) i = wbit ws (i - 64)"
  by (auto simp: wbit_def le_div_geq le_mod_geq)

lemma bits_loop_stop: "\<not> (l < h \<and> 0 \<le> l) \<Longrightarrow> bits_loop ws h l k v = v"
  by (cases ws) auto

lemma low_mask: "push_bit n 1 - 1 = (mask n :: u64)"
  by (simp add: mask_eq_exp_minus_1)

text \<open>The bit that is lost when the top bit is the lowest one of a word: the loop stops at \<open>h = l = 0\<close>.\<close>

definition lost :: "int \<Rightarrow> int" where "lost h = (if 64 dvd h then 1 else 0)"

lemma lost_simps [simp]: "lost (h - 64) = lost h" "lost 64 = 1"
  unfolding lost_def by presburger+

lemma bit_bits_loop:
  assumes "0 \<le> l" "l < h" "h < 64 * int (length ws)"
  shows "bit (bits_loop ws h l k v) i \<longleftrightarrow>
    bit v i \<or> k \<le> i \<and> i < 64 \<and> int (i - k) \<le> h - l - lost h \<and> wbit ws (nat l + (i - k))"
  using assms
proof (induction ws h l k v rule: bits_loop.induct)
  case (1 h l k v)
  then show ?case by simp
next
  case (2 w ws h l k v)
  show ?case
  proof (cases "l < 64")
    case False
    have w: "wbit (w # ws) (nat l + j) = wbit ws (nat (l - 64) + j)" for j
      using False by (simp add: wbit_Cons nat_diff_distrib)
    with False "2.prems" "2.IH"(2) show ?thesis by (simp add: w)
  next
    case l: True
    define n where "n = nat (min h 63 - l + 1)"
    define v' where "v' = v OR push_bit k (drop_bit (nat l) w AND (push_bit n 1 - 1))"
    have step: "bits_loop (w # ws) h l k v = bits_loop ws (h - 64) (l + int n - 64) (k + n) v'"
      using "2.prems" l by (simp add: n_def v'_def Let_def)
    have v': "bit v' i \<longleftrightarrow> bit v i \<or> k \<le> i \<and> i < 64 \<and> i - k < n \<and> bit w (nat l + (i - k))"
      unfolding v'_def low_mask by (auto simp: bit_simps)
    show ?thesis
    proof (cases "h < 64")
      case True
      then have n: "int n = h - l + 1" using "2.prems" by (simp add: n_def)
      then have "bits_loop (w # ws) h l k v = v'"
        unfolding step by (intro bits_loop_stop) simp
      moreover have "nat l + (i - k) < 64" if "int (i - k) \<le> h - l"
        using that True "2.prems"(1) by linarith
      moreover have "lost h = 0" using True "2.prems" zdvd_imp_le [of 64 h] by (auto simp: lost_def)
      ultimately show ?thesis using v' n by (auto simp: wbit_Cons)
    next
      case False
      then have n: "int n = 64 - l" using l "2.prems" by (simp add: n_def)
      then have nn: "n = nat (64 - l)" by simp
      have IH: "bit (bits_loop ws (h - 64) 0 (k + n) v') i \<longleftrightarrow>
          bit v' i \<or> k + n \<le> i \<and> i < 64 \<and> int (i - (k + n)) \<le> h - 64 - lost h \<and> wbit ws (i - (k + n))"
      proof (cases "h = 64")
        case True
        then show ?thesis by (simp add: bits_loop_stop)
      next
        case h: False
        then show ?thesis using "2.IH"(1) [of n, folded v'_def] "2.prems" l False n by (simp add: nn)
      qed
      have lo: "wbit (w # ws) (nat l + (i - k)) = bit w (nat l + (i - k))" if "i - k < n"
        using that n "2.prems"(1) by (intro wbit_Cons) linarith
      have hi: "wbit (w # ws) (nat l + (i - k)) = wbit ws (i - (k + n))" if "\<not> i - k < n" "k \<le> i"
      proof -
        have "nat l + (i - k) - 64 = i - (k + n)" "64 \<le> nat l + (i - k)"
          using that n "2.prems"(1) by linarith+
        then show ?thesis by (simp add: wbit_Cons)
      qed
      show ?thesis
      proof (cases "i - k < n")
        case True
        then have "int (i - k) \<le> h - l - lost h" using n False by (auto simp: lost_def)
        then show ?thesis unfolding step using n True IH v' lo by auto
      next
        case False
        then show ?thesis unfolding step using n IH v' hi by auto
      qed
    qed
  qed
qed

lemma wbit_reg192:
  assumes "length r = 3" and "i < 192"
  shows "wbit (rev r) i = bit (reg192 r) i"
proof -
  from assms(1) obtain a b c where r: "r = [a, b, c]"
    by (auto simp: length_Suc_conv numeral_3_eq_3)
  consider "i < 64" | "64 \<le> i" "i < 128" | "128 \<le> i" by linarith
  then show ?thesis
    by cases (use assms(2) in
      \<open>auto simp: r wbit_Cons reg192_def bit_simps dest: bit_imp_le_length\<close>)
qed

lemma bits_value:
  assumes "length r = 3" "l < h" "h < 192" "h - l < 32"
  shows "bits r (int h) (int l) = ucast (take_bit (if 64 dvd h then h - l else h - l + 1) (drop_bit l (reg192 r)))"
proof (rule bit_word_eqI)
  fix i
  assume i: "i < LENGTH(32)"
  have "lost (int h) = (if 64 dvd h then 1 else 0)" unfolding lost_def by presburger
  then have "bit (bits r (int h) (int l)) i \<longleftrightarrow>
      i < (if 64 dvd h then h - l else h - l + 1) \<and> wbit (rev r) (l + i)"
    using i assms bit_bits_loop [of "int l" "int h" "rev r" 0 0 i]
    by (auto simp: bits_def bit_simps)
  also have "\<dots> \<longleftrightarrow> i < (if 64 dvd h then h - l else h - l + 1) \<and> bit (reg192 r) (l + i)"
  proof (cases "i < h - l + 1")
    case True
    with assms have "l + i < 192" by linarith
    with True assms show ?thesis by (auto simp: wbit_reg192)
  qed (use assms in auto)
  also have "\<dots> \<longleftrightarrow> bit (ucast (take_bit (if 64 dvd h then h - l else h - l + 1) (drop_bit l (reg192 r))) :: u32) i"
    using i by (auto simp: bit_simps)
  finally show "bit (bits r (int h) (int l)) i =
      bit (ucast (take_bit (if 64 dvd h then h - l else h - l + 1) (drop_bit l (reg192 r))) :: u32) i" .
qed

lemma bits_field192:
  assumes "length r = 3" "l < h" "h < 192" "\<not> 64 dvd h" "h - l < 32"
  shows "bits r (int h) (int l) = field192 r h l"
  using bits_value [OF assms(1-3,5)] assms(4) by (simp add: field192_def)

lemma bits_single: "bits r h h = 0"
  by (simp add: bits_def bits_loop_stop)

lemma bits_num:
  assumes "length r = 3" "nat l < nat h" "nat h < 192" "\<not> 64 dvd nat h" "nat h - nat l < 32" "0 \<le> l"
  shows "bits r h l = field192 r (nat h) (nat l)"
  using bits_field192 [OF assms(1-5)] assms(2,6) by simp

lemmas bits_fields = bits_num [where h = "numeral h'" and l = "numeral l'" for h' l', simplified]

section \<open>Properties\<close>

text \<open>
  C7: Field extraction.  Read as one 192-bit number, a response yields for \<open>bits(r, h, l)\<close>, for every field of at
  most 32 bits, the width of the result, exactly the bits \<open>h\<close> down to \<open>l\<close>, with two exceptions the code
  makes: a field of one bit reads as 0, and a field whose top bit is the lowest bit of a word loses that bit.
\<close>

theorem bits_correct:
  assumes "length r = 3" and "l \<le> h" and "h < 192" and "h - l < 32"
  shows "bits r (int h) (int l) =
    (if h = l then 0
     else if 64 dvd h then ucast (take_bit (h - l) (drop_bit l (reg192 r)))
     else ucast (take_bit (h - l + 1) (drop_bit l (reg192 r))))"
  using bits_value [OF assms(1) _ assms(3,4)] assms(2) by (simp add: bits_single)

theorem bits_correct_witness:
  "bits [0x1122334455667788, 0x99AABBCCDDEEFF00, 0x0123456789ABCDEF] (int 75) (int 62) = 0x3C00 \<and>
   bits [0x1122334455667788, 0x99AABBCCDDEEFFFF, 0x8123456789ABCDEF] (int 64) (int 62) = 2"
proof -
  have "bits [0x1122334455667788, 0x99AABBCCDDEEFF00, 0x0123456789ABCDEF] (int 75) (int 62)
     = ucast (take_bit 14 (drop_bit 62 (reg192 [0x1122334455667788, 0x99AABBCCDDEEFF00, 0x0123456789ABCDEF])))"
    by (subst bits_correct) simp_all
  moreover have "bits [0x1122334455667788, 0x99AABBCCDDEEFFFF, 0x8123456789ABCDEF] (int 64) (int 62)
     = ucast (take_bit 2 (drop_bit 62 (reg192 [0x1122334455667788, 0x99AABBCCDDEEFFFF, 0x8123456789ABCDEF])))"
    by (subst bits_correct) simp_all
  ultimately show ?thesis by (simp add: reg192_def)
qed

text \<open>
  The card-specific data.  A register whose version field is 0 or 1 is accepted, any other is
  refused with -1 and only the version stored; an accepted one has the numeric fields of the
  register, the size field at the place its version says.
\<close>

theorem parsecsd_correct:
  assumes "length r = 3"
  shows "case parsecsd r c of (res, c') \<Rightarrow>
    csd_vers c' = ucast (field192 r 127 126) \<and>
    (if csd_vers c' = 0 \<or> csd_vers c' = 1 then
       res = 0 \<and> csd_taac c' = ucast (field192 r 119 112) \<and> csd_nsac c' = ucast (field192 r 111 104) \<and>
       csd_speed c' = ucast (field192 r 103 96) \<and> csd_ccc c' = ucast (field192 r 95 84) \<and>
       csd_rbl c' = ucast (field192 r 83 80) \<and> csd_wbl c' = ucast (field192 r 25 22) \<and>
       csd_erasesecsz c' = ucast (field192 r 45 39) \<and> csd_ff c' = ucast (field192 r 11 10) \<and>
       (if csd_vers c' = 0 then
          csd_size c' = field192 r 75 62 \<and> csd_sizemult c' = ucast (field192 r 49 47)
        else csd_size c' = field192 r 69 48)
     else res = - 1 \<and> c' = c\<lparr>csd_vers := ucast (field192 r 127 126)\<rparr>)"
  using assms by (simp add: parsecsd_def parsecsd_size_def Let_def bits_fields)

theorem parsecsd_correct_witness:
  "\<forall>c. fst (parsecsd [0, 0x400E00325B590000, 0x1DE77F800A400000] c) = 0"
proof
  fix c
  show "fst (parsecsd [0, 0x400E00325B590000, 0x1DE77F800A400000] c) = 0"
    using parsecsd_correct [of "[0, 0x400E00325B590000, 0x1DE77F800A400000]" c]
    by (simp add: field192_def reg192_def split: prod.splits)
qed

text \<open>
  One-bit fields.  \<open>bits(r, n, n)\<close> is 0 whatever the register holds, although the interval is
  meant to be inclusive; so every flag of an accepted card register reads as clear, the two
  write-protect flags among them.
\<close>

theorem one_bit_fields_clear:
  "bits r n n = 0 \<and>
   (case parsecsd r c of (res, c') \<Rightarrow> res = - 1 \<or>
      csd_rbpart c' = 0 \<and> csd_wbmalign c' = 0 \<and> csd_rbmalign c' = 0 \<and> csd_dsr c' = 0 \<and>
      csd_eraseblk c' = 0 \<and> csd_wpgrp c' = 0 \<and> csd_wbpart c' = 0 \<and> csd_ffgrp c' = 0 \<and>
      csd_copy c' = 0 \<and> csd_permwp c' = 0 \<and> csd_tmpwp c' = 0) \<and>
   scr_dataerased (snd (parsescr r sc)) = 0"
  by (simp add: parsecsd_def parsecsd_size_def parsescr_def Let_def bits_single)

end
