(* ===== verification/Uimage.thy ===== *)
theory Uimage
  imports Kw_Libc
begin

text \<open>
  \<open>mkuimage/\<close>: the tool that wraps a kernel in a U-Boot image.  The CRC-32 table and the
  table-driven checksum, the big-endian header, the option tables, and \<open>main\<close> as a function from
  the options, the arguments, the time and the file system to the bytes written.  The option
  letters arrive split from their values, as the \<open>ARGBEGIN\<close> macro delivers them.
\<close>

section \<open>Checksum\<close>

definition Poly :: u32 where "Poly = 0xedb88320"

definition crc_shift :: "u32 \<Rightarrow> u32" where
  "crc_shift c = (if c AND 1 \<noteq> 0 then Poly XOR drop_bit 1 c else drop_bit 1 c)"

definition crc32tab :: "u32 list" where
  "crc32tab = map (\<lambda>i. (crc_shift ^^ 8) (of_nat i)) [0..<256]"

definition crc32_step :: "u32 list \<Rightarrow> u32 \<Rightarrow> u8 \<Rightarrow> u32" where
  "crc32_step tab crc b = tab ! unat ((crc XOR ucast b) AND 0xff) XOR drop_bit 8 crc"

definition crc32 :: "u32 \<Rightarrow> u8 list \<Rightarrow> u32" where
  "crc32 crc buf = foldl (crc32_step crc32tab) (crc XOR 0xffffffff) buf XOR 0xffffffff"

section \<open>Interface: a checksum table\<close>

text \<open>
  What the checksum loop relies on: entry \<open>i\<close> is \<open>i\<close> after eight steps of the shift register.
  The lemma, proved here once, is that one table lookup does the work of eight one-bit steps.
\<close>

definition bit_step :: "u32 \<Rightarrow> bool \<Rightarrow> u32" where
  "bit_step c b = (if bit c 0 \<noteq> b then Poly XOR drop_bit 1 c else drop_bit 1 c)"

definition byte_bits :: "u8 \<Rightarrow> bool list" where
  "byte_bits b = map (bit b) [0..<8]"

lemma crc_shift_bit: "crc_shift c = (if bit c 0 then Poly XOR drop_bit 1 c else drop_bit 1 c)"
  by (simp add: crc_shift_def and_one_eq bit_0 odd_iff_mod_2_eq_one)

lemma crc_shift_xor: "crc_shift (a XOR b) = crc_shift a XOR crc_shift b"
proof -
  have cancel: "(Poly XOR x) XOR (Poly XOR y) = x XOR y" for x y
    by (rule bit_word_eqI) (auto simp: bit_simps)
  have d: "drop_bit 1 (a XOR b) = drop_bit 1 a XOR drop_bit 1 b"
    by (rule bit_word_eqI) (auto simp: bit_simps)
  show ?thesis
    using cancel [of "drop_bit 1 a" "drop_bit 1 b"]
    by (cases "bit a 0"; cases "bit b 0")
      (simp_all only: crc_shift_bit bit_xor_iff d if_True if_False simp_thms
        xor.assoc xor.left_commute)
qed

lemma crc_shift_iter_xor: "(crc_shift ^^ n) (a XOR b) = (crc_shift ^^ n) a XOR (crc_shift ^^ n) b"
  by (induction n arbitrary: a b) (simp_all add: crc_shift_xor funpow_swap1)

lemma crc_shift_iter_zero:
  "(\<And>i. i < n \<Longrightarrow> \<not> bit c i) \<Longrightarrow> (crc_shift ^^ n) c = drop_bit n c"
proof (induction n arbitrary: c)
  case 0
  then show ?case by simp
next
  case (Suc n)
  then have "\<not> bit c 0" by blast
  then have "crc_shift c = drop_bit 1 c" by (simp add: crc_shift_bit)
  moreover have "(crc_shift ^^ n) (drop_bit 1 c) = drop_bit n (drop_bit 1 c)"
    using Suc.prems by (intro Suc.IH) (auto simp: bit_simps)
  ultimately show ?case by (simp add: funpow_swap1 ac_simps del: funpow.simps) (simp add: funpow_swap1)
qed

text \<open>Feeding the bits of a byte one by one is shifting after the byte was added in.\<close>

lemma bit_steps_shift:
  "n \<le> 8 \<Longrightarrow> foldl bit_step c (map (bit b) [0..<n]) = (crc_shift ^^ n) (c XOR take_bit n (ucast (b::u8)))"
proof (induction n)
  case 0
  then show ?case by simp
next
  case (Suc n)
  let ?t = "take_bit n (ucast b) :: u32"
  let ?x = "(if bit b n then push_bit n 1 else 0) :: u32"
  have split: "take_bit (Suc n) (ucast b) = ?t XOR ?x"
    using Suc.prems by (intro bit_word_eqI) (auto simp: bit_simps less_Suc_eq bit_1_iff)
  have "(crc_shift ^^ n) ?x = drop_bit n ?x"
    by (intro crc_shift_iter_zero) (auto simp: bit_simps)
  also have "\<dots> = (if bit b n then 1 else 0)"
    using Suc.prems by (intro bit_word_eqI) (auto simp: bit_simps bit_1_iff)
  finally have x: "(crc_shift ^^ n) ?x = (if bit b n then 1 else 0)" .
  have one: "bit_step d (bit b n) = crc_shift (d XOR (if bit b n then 1 else 0))" for d
    by (auto simp: bit_step_def crc_shift_bit bit_simps)
  show ?case
    using Suc by (simp add: one split x crc_shift_iter_xor flip: xor.assoc)
qed

locale crc_table =
  fixes tab :: "u32 list"
  assumes tab_shift: "i < 256 \<Longrightarrow> tab ! i = (crc_shift ^^ 8) (of_nat i)"
begin

lemma table_step: "crc32_step tab c b = foldl bit_step c (byte_bits b)"
proof -
  let ?y = "c XOR ucast b"
  have "tab ! unat (z AND 0xff) = (crc_shift ^^ 8) (take_bit 8 z)" for z
  proof -
    have "z AND 0xff = take_bit 8 z" by (simp add: take_bit_eq_mask mask_eq_exp_minus_1)
    moreover have "unat (take_bit 8 z) < 2 ^ 8"
      unfolding unsigned_take_bit_eq by (rule take_bit_nat_less_exp)
    ultimately show ?thesis by (simp add: tab_shift)
  qed
  note lo = this [of ?y]
  have hi: "(crc_shift ^^ 8) (push_bit 8 (drop_bit 8 ?y)) = drop_bit 8 (push_bit 8 (drop_bit 8 ?y))"
    by (rule crc_shift_iter_zero) (auto simp: bit_simps)
  also have "\<dots> = drop_bit 8 c"
    by (rule bit_word_eqI) (auto simp: bit_simps dest: bit_imp_le_length)
  finally have hi: "(crc_shift ^^ 8) (push_bit 8 (drop_bit 8 ?y)) = drop_bit 8 c" .
  have "z = take_bit 8 z XOR push_bit 8 (drop_bit 8 z)" for z :: u32
  proof (rule bit_word_eqI)
    fix n
    assume "n < LENGTH(32)"
    then show "bit z n = bit (take_bit 8 z XOR push_bit 8 (drop_bit 8 z)) n"
      by (cases "8 \<le> n") (auto simp: bit_simps)
  qed
  from this [of ?y]
  have "(crc_shift ^^ 8) ?y = (crc_shift ^^ 8) (take_bit 8 ?y) XOR drop_bit 8 c"
    by (metis crc_shift_iter_xor hi)
  moreover have "take_bit 8 (ucast b) = (ucast b :: u32)"
    by (rule bit_word_eqI) (auto simp: bit_simps dest: bit_imp_le_length)
  ultimately show ?thesis
    using bit_steps_shift [of 8 c b] by (simp add: crc32_step_def byte_bits_def lo)
qed

lemma table_fold: "foldl (crc32_step tab) c bs = foldl bit_step c (concat (map byte_bits bs))"
  by (induction bs arbitrary: c) (simp_all add: table_step)

end

interpretation uimage_crc: crc_table crc32tab
  by unfold_locales (simp add: crc32tab_def)

section \<open>Option names\<close>

definition archs :: "string list" where
  "archs = [''invalid'', ''alpha'', ''arm'', ''386'', ''ia64'', ''mips'', ''mips64'', ''ppc'', ''s390'',
     ''sh'', ''sparc'', ''sparc64'', ''m68k'', ''nios'', ''microblaze'', ''nios2'', ''blackfin'',
     ''avr32'', ''st200'']"

definition compressions :: "string list" where
  "compressions = [''none'', ''gzip'', ''bzip2'']"

definition types :: "string list" where
  "types = [''invalid'', ''standalone'', ''kernel'', ''ramdisk'', ''multi'', ''firmware'', ''script'',
     ''filesystem'', ''flatdt'']"

definition oses :: "string list" where
  "oses = [''invalid'', ''openbsd'', ''netbsd'', ''freebsd'', ''44bsd'', ''linux'', ''srv4'', ''esix'',
     ''solaris'', ''irix'', ''sco'', ''dell'', ''ncr'', ''lynxos'', ''vxworks'', ''psos'', ''qnx'',
     ''u-boot'', ''rtems'', ''artos'', ''unity'']"

definition Aarm :: u8 where "Aarm = 2"
definition Tkernel :: u8 where "Tkernel = 2"
definition Cnone :: u8 where "Cnone = 0"
definition Oopenbsd :: u8 where "Oopenbsd = 1"

fun find_from :: "nat \<Rightarrow> string list \<Rightarrow> string \<Rightarrow> exn + nat" where
  "find_from i [] s = Inl (Panic (''value '' @ s @ '' not found''))"
| "find_from i (x # xs) s = (if s = x then Inr i else find_from (Suc i) xs s)"

definition find_opt :: "string list \<Rightarrow> string \<Rightarrow> exn + u8" where
  "find_opt opts s = ebind (find_from 0 opts s) (\<lambda>i. Inr (of_nat i))"

section \<open>The header\<close>

definition UIMAGE_MAGIC :: u32 where "UIMAGE_MAGIC = 0x27051956"
abbreviation UIMAGE_NAMELEN :: nat where "UIMAGE_NAMELEN \<equiv> 32"
abbreviation UIMAGE_HDRSIZE :: nat where "UIMAGE_HDRSIZE \<equiv> 64"

record uhdr =
  u_magic :: u32
  u_hcrc :: u32
  u_time :: u32
  u_size :: u32
  u_load :: u32
  u_entry :: u32
  u_dcrc :: u32
  u_os :: u8
  u_arch :: u8
  u_type :: u8
  u_comp :: u8
  u_name :: "u8 list"

definition p32_uimage :: "u32 \<Rightarrow> u8 list" where
  "p32_uimage v = [ucast (drop_bit 24 v), ucast (drop_bit 16 v), ucast (drop_bit 8 v), ucast v]"

definition pack :: "uhdr \<Rightarrow> u8 list" where
  "pack h =
     p32_uimage (u_magic h) @ p32_uimage (u_hcrc h) @ p32_uimage (u_time h) @ p32_uimage (u_size h) @
     p32_uimage (u_load h) @ p32_uimage (u_entry h) @ p32_uimage (u_dcrc h) @
     [u_os h, u_arch h, u_type h, u_comp h] @ strncpy UIMAGE_NAMELEN (u_name h)"

section \<open>main\<close>

definition uhdr_init :: uhdr where
  "uhdr_init = \<lparr>u_magic = UIMAGE_MAGIC, u_hcrc = 0, u_time = 0, u_size = 0, u_load = 0, u_entry = 0,
     u_dcrc = 0, u_os = Oopenbsd, u_arch = Aarm, u_type = Tkernel, u_comp = Cnone, u_name = []\<rparr>"

definition usage :: exn where "usage = Panic ''usage''"

definition uimage_option :: "char \<times> string \<Rightarrow> uhdr \<Rightarrow> exn + uhdr" where
  "uimage_option opt h =
     (case opt of (c, v) \<Rightarrow>
        if c = CHR ''A'' then ebind (find_opt archs v) (\<lambda>x. Inr (h\<lparr>u_arch := x\<rparr>))
        else if c = CHR ''T'' then ebind (find_opt types v) (\<lambda>x. Inr (h\<lparr>u_type := x\<rparr>))
        else if c = CHR ''C'' then ebind (find_opt compressions v) (\<lambda>x. Inr (h\<lparr>u_comp := x\<rparr>))
        else if c = CHR ''O'' then ebind (find_opt oses v) (\<lambda>x. Inr (h\<lparr>u_os := x\<rparr>))
        else Inl usage)"

text \<open>
  A file is its directory length, if \<open>dirfstat\<close> succeeds, what \<open>readn\<close> returns for a count, and whether
  \<open>close\<close> succeeds; \<open>memok\<close> says whether the allocation of that many bytes succeeds, and \<open>put\<close> what the
  first and the second \<open>write\<close> return.  The result is everything written to standard output when the
  program succeeds.
\<close>

type_synonym ufile = "int option \<times> (u32 \<Rightarrow> u8 list) \<times> bool"

definition mkuimage_main ::
  "(string \<Rightarrow> ufile option) \<Rightarrow> (u32 \<Rightarrow> bool) \<Rightarrow> (nat \<Rightarrow> u8 list \<Rightarrow> u32) \<Rightarrow> u32 \<Rightarrow> (char \<times> string) list \<Rightarrow> string list
     \<Rightarrow> exn + u8 list" where
  "mkuimage_main open_file memok put now opts args =
     ebind (efold uimage_option opts uhdr_init) (\<lambda>h.
     if length args \<noteq> 3 \<and> length args \<noteq> 4 then Inl usage
     else
       (let image = args ! 2;
            name = (if length args = 4 then args ! 3 else image);
            h = h\<lparr>u_load := strtoul 0 (args ! 0), u_entry := strtoul 0 (args ! 1),
                  u_name := strncpy UIMAGE_NAMELEN (map byte_of name), u_time := now\<rparr>
        in case open_file image of
             None \<Rightarrow> Inl (Panic (''open '' @ image))
           | Some (None, readn, closed) \<Rightarrow> Inl (Panic ''dirfstat'')
           | Some (Some len, readn, closed) \<Rightarrow>
               (let h = h\<lparr>u_size := of_int len\<rparr> in
                if \<not> memok (u_size h) then Inl (Panic ''malloc'')
                else
                  (let data = readn (u_size h) in
                   if of_nat (length data) \<noteq> u_size h then Inl (Panic ''failed/short read'')
                   else
                     (let h = h\<lparr>u_dcrc := crc32 0 data, u_hcrc := 0\<rparr>;
                          hdrbuf = pack h;
                          h = h\<lparr>u_hcrc := crc32 0 hdrbuf\<rparr>
                      in if put 0 (pack h) \<noteq> of_nat UIMAGE_HDRSIZE then Inl (Panic ''writing header'')
                         else if put 1 data \<noteq> u_size h then Inl (Panic ''writing image'')
                         else if \<not> closed then Inl (Panic ''close'')
                         else Inr (pack h @ data))))))"

section \<open>The encoding of a number\<close>

interpretation uimage_p32: byte_codec 4 p32_uimage get_be32
proof
  show "length (p32_uimage x) = 4" for x by (simp add: p32_uimage_def)
  show "get_be32 (p32_uimage x @ rest) = x" for x rest
    by (simp add: p32_uimage_def get_be32_def be32_split)
qed

lemma pack_length [simp]: "length (pack h) = 64"
  by (simp add: pack_def uimage_p32.enc_length)

lemma pack_field:
  "get_be32 (pack h) = u_magic h" "get_be32 (drop 4 (pack h)) = u_hcrc h"
  "get_be32 (drop 8 (pack h)) = u_time h" "get_be32 (drop 12 (pack h)) = u_size h"
  "get_be32 (drop 16 (pack h)) = u_load h" "get_be32 (drop 20 (pack h)) = u_entry h"
  "get_be32 (drop 24 (pack h)) = u_dcrc h"
  by (simp_all add: pack_def uimage_p32.enc_length uimage_p32.dec_enc)

lemma pack_tail:
  "drop 28 (pack h) = [u_os h, u_arch h, u_type h, u_comp h] @ strncpy UIMAGE_NAMELEN (u_name h)"
  by (simp add: pack_def uimage_p32.enc_length)

lemma pack_hcrc: "take 4 (pack h) @ p32_uimage v @ drop 8 (pack h) = pack (h\<lparr>u_hcrc := v\<rparr>)"
  by (simp add: pack_def uimage_p32.enc_length)

lemma xor_ones: "(x :: u32) XOR 0xffffffff = NOT x"
proof -
  have "(0xffffffff :: u32) = - 1" by simp
  then show ?thesis by (simp only:) (rule bit_word_eqI, simp add: bit_simps)
qed

lemma mkuimage_main_Inr:
  assumes "mkuimage_main open_file memok put now opts args = Inr out"
  obtains h len readn where
    "open_file (args ! 2) = Some (Some len, readn, True)" "put 0 (take 64 out) = 64"
    "put 1 (readn (of_int len)) = of_int len" "u_magic h = UIMAGE_MAGIC" "u_time h = now"
    "u_size h = of_int len" "of_nat (length (readn (of_int len))) = (of_int len :: u32)"
    "u_load h = strtoul 0 (args ! 0)" "u_entry h = strtoul 0 (args ! 1)"
    "u_dcrc h = crc32 0 (readn (of_int len))"
    "u_hcrc h = crc32 0 (pack (h\<lparr>u_hcrc := 0\<rparr>))" "out = pack h @ readn (of_int len)"
proof -
  have magic: "u_magic h = UIMAGE_MAGIC" if "efold uimage_option opts uhdr_init = Inr h" for h
    using that
    by (rule efold_inv [where P = "\<lambda>h. u_magic h = UIMAGE_MAGIC"])
      (auto simp: uhdr_init_def uimage_option_def ebind_Inr split: if_splits)
  from assms obtain h len readn where
    h: "efold uimage_option opts uhdr_init = Inr h" and f: "open_file (args ! 2) = Some (Some len, readn, True)"
    by (auto simp: mkuimage_main_def ebind_Inr Let_def split: if_splits option.splits prod.splits)
  let ?data = "readn (of_int len)"
  define h' where "h' = h\<lparr>u_load := strtoul 0 (args ! 0), u_entry := strtoul 0 (args ! 1),
    u_name := strncpy UIMAGE_NAMELEN
      (map byte_of (if length args = 4 then args ! 3 else args ! 2)), u_time := now,
    u_size := of_int len, u_dcrc := crc32 0 ?data, u_hcrc := 0\<rparr>"
  from assms h f have "of_nat (length ?data) = (of_int len :: u32)"
    and "out = pack (h'\<lparr>u_hcrc := crc32 0 (pack h')\<rparr>) @ ?data"
    and "put 0 (pack (h'\<lparr>u_hcrc := crc32 0 (pack h')\<rparr>)) = 64" "put 1 ?data = of_int len"
    by (auto simp: mkuimage_main_def Let_def h'_def split: if_splits)
  with f magic [OF h] show ?thesis
    by (intro that [of len readn "h'\<lparr>u_hcrc := crc32 0 (pack h')\<rparr>"]) (simp_all add: h'_def)
qed

section \<open>Properties\<close>

text \<open>
  The checksum.  The table-driven CRC-32 equals the one-bit-at-a-time shift register over the
  bits of the data, least significant bit of each byte first, with the register inverted at both
  ends; and a checksum can be continued over a second buffer.
\<close>

theorem crc32_bitwise:
  "crc32 crc buf = NOT (foldl bit_step (NOT crc) (concat (map byte_bits buf))) \<and>
   crc32 (crc32 crc buf) buf' = crc32 crc (buf @ buf')"
  by (simp add: crc32_def xor_ones uimage_crc.table_fold)

text \<open>
  The header layout.  A packed header has 64 bytes; its big-endian words, in order, are the
  magic number, the two checksums and the other numbers, then come the four one-byte codes and the
  name, cut or padded with zeros to 32 bytes.
\<close>

theorem pack_layout:
  "length (pack h) = UIMAGE_HDRSIZE \<and>
   map (\<lambda>k. get_be32 (drop (4 * k) (pack h))) [0, 1, 2, 3, 4, 5, 6]
     = [u_magic h, u_hcrc h, u_time h, u_size h, u_load h, u_entry h, u_dcrc h] \<and>
   drop 28 (pack h) = [u_os h, u_arch h, u_type h, u_comp h] @ strncpy 32 (u_name h)"
  by (simp add: pack_field pack_tail)

text \<open>
  C8: An image verifies.  Whatever options, file and time \<open>mkuimage\<close> runs with, when it succeeds,
  which takes a file that opens, stats, reads and closes and writes that take everything, its output is a 64-byte header and the file, and the checks a boot loader makes hold: the magic
  number, the header checksum over the header with that field zeroed, the length and the checksum
  of the data; the load and entry addresses are the parsed arguments.
\<close>

theorem mkuimage_verifies:
  assumes "mkuimage_main open_file memok put now opts args = Inr out"
  shows "\<exists>len readn. open_file (args ! 2) = Some (Some len, readn, True) \<and>
    put 0 (take 64 out) = 64 \<and> put 1 (drop 64 out) = of_int len \<and>
    drop 64 out = readn (of_int len) \<and> get_be32 out = UIMAGE_MAGIC \<and>
    get_be32 (drop 4 out) = crc32 0 (take 4 out @ [0, 0, 0, 0] @ take 56 (drop 8 out)) \<and>
    get_be32 (drop 12 out) = of_nat (length (drop 64 out)) \<and>
    get_be32 (drop 16 out) = strtoul 0 (args ! 0) \<and> get_be32 (drop 20 out) = strtoul 0 (args ! 1) \<and>
    get_be32 (drop 24 out) = crc32 0 (drop 64 out)"
proof -
  from mkuimage_main_Inr [OF assms] obtain h len readn where
    f: "open_file (args ! 2) = Some (Some len, readn, True)" "put 0 (take 64 out) = 64"
      "put 1 (readn (of_int len)) = of_int len" and
    h: "u_magic h = UIMAGE_MAGIC" "u_size h = of_int len" "u_load h = strtoul 0 (args ! 0)"
      "u_entry h = strtoul 0 (args ! 1)" "u_dcrc h = crc32 0 (readn (of_int len))"
      "u_hcrc h = crc32 0 (pack (h\<lparr>u_hcrc := 0\<rparr>))" and
    len: "of_nat (length (readn (of_int len))) = (of_int len :: u32)" and
    out: "out = pack h @ readn (of_int len)" by metis
  have z: "p32_uimage 0 = [0, 0, 0, 0]" by (simp add: p32_uimage_def)
  have field: "get_be32 (drop k out) = get_be32 (drop k (pack h))" if "k \<le> 60" for k
  proof -
    have "i < 64 - k" if "i < 4" for i using that \<open>k \<le> 60\<close> by linarith
    then show ?thesis using that by (simp add: out get_be32_def nth_append)
  qed
  have "take 4 out @ [0, 0, 0, 0] @ take 56 (drop 8 out) = pack (h\<lparr>u_hcrc := 0\<rparr>)"
    by (simp add: out flip: pack_hcrc [of h 0, unfolded z])
  then show ?thesis
    using f h len field [of 0] by (simp add: field pack_field) (simp add: out)
qed

definition sample_file :: "string \<Rightarrow> ufile option" where
  "sample_file nm = (if nm = ''ipaq'' then Some (Some 3, \<lambda>n. [1, 2, 3], True) else None)"

theorem mkuimage_verifies_witness:
  "\<exists>out len readn. mkuimage_main sample_file (\<lambda>_. True) (\<lambda>k d. of_nat (length d)) 7 [(CHR ''T'', ''ramdisk'')]
     [''0x800000'', ''0x800020'', ''ipaq''] = Inr out \<and>
   sample_file ''ipaq'' = Some (Some len, readn, True) \<and> drop 64 out = readn (of_int len)"
proof -
  obtain out where out: "mkuimage_main sample_file (\<lambda>_. True) (\<lambda>k d. of_nat (length d)) 7 [(CHR ''T'', ''ramdisk'')]
     [''0x800000'', ''0x800020'', ''ipaq''] = Inr out"
    by (simp add: mkuimage_main_def Let_def sample_file_def uimage_option_def find_opt_def types_def)
  from mkuimage_verifies [OF out] out show ?thesis by auto
qed

text \<open>
  Option names.  Each name of the four tables is found at its own position, so the tables and
  the enumerations of the header file agree on the codes; the defaults are the codes of arm,
  kernel, none and openbsd; an unknown name ends the program.
\<close>

theorem find_opt_codes:
  "map (find_opt archs) archs = map (\<lambda>i. Inr (of_nat i)) [0..<19] \<and>
   map (find_opt types) types = map (\<lambda>i. Inr (of_nat i)) [0..<9] \<and>
   map (find_opt compressions) compressions = map (\<lambda>i. Inr (of_nat i)) [0..<3] \<and>
   map (find_opt oses) oses = map (\<lambda>i. Inr (of_nat i)) [0..<21] \<and>
   find_opt archs ''arm'' = Inr Aarm \<and> find_opt types ''kernel'' = Inr Tkernel \<and>
   find_opt compressions ''none'' = Inr Cnone \<and> find_opt oses ''openbsd'' = Inr Oopenbsd \<and>
   find_opt oses ''plan9'' = Inl (Panic ''value plan9 not found'')"
  by (intro conjI) code_simp+

end
