(* ===== verification/Ether.thy ===== *)
theory Ether
  imports Kw_Libc
begin

text \<open>
  \<open>devether.c\<close> and \<open>etherif.h\<close>: the ethernet device between the wire and the connections.  The
  generic network code (\<open>netif*\<close>), the queues and the interrupt-time block allocator are outside
  the repository: a queue is a parameter type with its operations \<open>qpass\<close>, \<open>qwindow\<close> and
  \<open>qbwrite\<close>, the allocator an oracle that says whether its n-th call succeeds, and \<open>netif\<close>
  operations are actions on the interface.  A block is the list of its bytes from \<open>rp\<close> to \<open>wp\<close>.
\<close>

section \<open>Data\<close>

abbreviation MaxEther :: nat where "MaxEther \<equiv> 1"
abbreviation Ntypes :: nat where "Ntypes \<equiv> 8"
abbreviation Eaddrlen :: nat where "Eaddrlen \<equiv> 6"
abbreviation ETHERMINTU :: int where "ETHERMINTU \<equiv> 60"
abbreviation ETHERMAXTU :: int where "ETHERMAXTU \<equiv> 1514"

record 'q netfile =
  nf_type :: int
  nf_prom :: int
  nf_bridge :: int
  nf_headersonly :: int
  nf_in :: 'q

record 'q ether =
  e_lock :: rwlock
  e_ctlrno :: nat
  e_ea :: "u8 list"
  e_addr :: "u8 list"
  e_bcast :: "u8 list"
  e_minmtu :: int
  e_maxmtu :: int
  e_mbps :: int
  e_fullduplex :: int
  e_prom :: int
  e_f :: "'q netfile option list"
  e_oq :: 'q
  e_inpackets :: nat
  e_outpackets :: nat
  e_soverflows :: nat
  e_allocs :: nat                \<comment> \<open>calls of \<open>iallocb\<close> so far\<close>
  e_frees :: nat                 \<comment> \<open>calls of \<open>freeb\<close> so far\<close>

record 'q netenv =
  env_qpass :: "'q \<Rightarrow> u8 list \<Rightarrow> 'q \<times> int"
  env_qwindow :: "'q \<Rightarrow> int"
  env_qbwrite :: "'q \<Rightarrow> u8 list \<Rightarrow> exn + 'q"
  env_iallocb :: "nat \<Rightarrow> int \<Rightarrow> bool"
  env_activemulti :: "u8 list \<Rightarrow> bool"
  env_ticks :: "nat \<Rightarrow> u32"

section \<open>Packets from the wire\<close>

definition pkt_d :: "u8 list \<Rightarrow> u8 list" where "pkt_d p = take Eaddrlen p"
definition pkt_s :: "u8 list \<Rightarrow> u8 list" where "pkt_s p = take Eaddrlen (drop Eaddrlen p)"

definition pkt_type :: "u8 list \<Rightarrow> u16" where
  "pkt_type p = push_bit 8 (ucast (p ! 12)) OR ucast (p ! 13)"

definition freeb :: "'q ether \<Rightarrow> 'q ether" where
  "freeb s = s\<lparr>e_frees := Suc (e_frees s)\<rparr>"

text \<open>Hand a block to connection \<open>i\<close>; a refused block counts as an overflow.\<close>

definition pass_to :: "'q netenv \<Rightarrow> nat \<Rightarrow> u8 list \<Rightarrow> bool \<Rightarrow> 'q ether \<Rightarrow> 'q ether" where
  "pass_to env i b count s =
     (case e_f s ! i of
        None \<Rightarrow> s
      | Some f \<Rightarrow>
          (case env_qpass env (nf_in f) b of
             (q, r) \<Rightarrow>
               (let s = s\<lparr>e_f := (e_f s)[i := Some (f\<lparr>nf_in := q\<rparr>)]\<rparr> in
                if r < 0 \<and> count then s\<lparr>e_soverflows := Suc (e_soverflows s)\<rparr> else s)))"

text \<open>The first 58 bytes (fewer when the packet is short), the length and the time.\<close>

definition trace_block :: "u8 list \<Rightarrow> u8 list \<Rightarrow> u32 \<Rightarrow> u8 list" where
  "trace_block stale pkt t =
     (let len = length pkt; n = (if 58 < len then 58 else len) in
      take n pkt @ take (58 - n) stale
        @ [of_nat (len div 256), of_nat len, ucast (drop_bit 24 t), ucast (drop_bit 16 t),
           ucast (drop_bit 8 t), ucast t])"

definition etherrtrace :: "'q netenv \<Rightarrow> u8 list \<Rightarrow> nat \<Rightarrow> u8 list \<Rightarrow> 'q ether \<Rightarrow> 'q ether" where
  "etherrtrace env stale i pkt s =
     (case e_f s ! i of
        None \<Rightarrow> s
      | Some f \<Rightarrow>
          if env_qwindow env (nf_in f) \<le> 0 then s
          else
            (let ok = env_iallocb env (e_allocs s) 64; s = s\<lparr>e_allocs := Suc (e_allocs s)\<rparr> in
             if \<not> ok then s
             else pass_to env i (trace_block stale pkt (env_ticks env (e_allocs s))) False s))"

definition wants :: "bool \<Rightarrow> bool \<Rightarrow> bool \<Rightarrow> bool \<Rightarrow> u16 \<Rightarrow> 'q netfile \<Rightarrow> bool" where
  "wants tome multi fromme fromwire type f \<longleftrightarrow>
     (nf_type f = uint type \<or> nf_type f < 0) \<and>
     (tome \<or> multi \<or> nf_prom f \<noteq> 0) \<and>
     \<not> (nf_bridge f \<noteq> 0 \<and> \<not> fromwire \<and> \<not> fromme)"

text \<open>A copy of the packet for connection \<open>i\<close>; no memory counts as an overflow.\<close>

definition copy_to :: "'q netenv \<Rightarrow> nat \<Rightarrow> u8 list \<Rightarrow> 'q ether \<Rightarrow> 'q ether" where
  "copy_to env i pkt s =
     (let ok = env_iallocb env (e_allocs s) (int (length pkt));
          s = s\<lparr>e_allocs := Suc (e_allocs s)\<rparr>
      in if ok then pass_to env i pkt True s else s\<lparr>e_soverflows := Suc (e_soverflows s)\<rparr>)"

text \<open>
  The body of the loop over the connections.  \<open>fx\<close> is the connection that gets the block itself
  rather than a copy.
\<close>

definition iq_step ::
  "'q netenv \<Rightarrow> u8 list \<Rightarrow> u8 list \<Rightarrow> bool \<Rightarrow> bool \<Rightarrow> bool \<Rightarrow> bool
     \<Rightarrow> nat option \<times> 'q ether \<Rightarrow> nat \<Rightarrow> nat option \<times> 'q ether" where
  "iq_step env stale pkt tome multi fromme fromwire st i =
     (case st of (fx, s) \<Rightarrow>
        case e_f s ! i of
          None \<Rightarrow> (fx, s)
        | Some f \<Rightarrow>
            if \<not> wants tome multi fromme fromwire (pkt_type pkt) f then (fx, s)
            else if nf_headersonly f = 0 then
              (if fromwire \<and> fx = None then (Some i, s) else (fx, copy_to env i pkt s))
            else (fx, etherrtrace env stale i pkt s))"

definition multi_dropped :: "'q netenv \<Rightarrow> u8 list \<Rightarrow> 'q ether \<Rightarrow> bool" where
  "multi_dropped env pkt s \<longleftrightarrow>
     (pkt ! 0) AND 1 \<noteq> 0 \<and> pkt_d pkt \<noteq> e_bcast s \<and> e_prom s = 0 \<and> \<not> env_activemulti env (pkt_d pkt)"

definition etheriq ::
  "'q netenv \<Rightarrow> u8 list \<Rightarrow> u8 list \<Rightarrow> bool \<Rightarrow> 'q ether \<Rightarrow> u8 list option \<times> 'q ether" where
  "etheriq env stale bp fromwire s =
     (let s = s\<lparr>e_inpackets := Suc (e_inpackets s)\<rparr>;
          multi = (bp ! 0) AND 1 \<noteq> 0
      in
      if multi_dropped env bp s then
        (if fromwire then (None, freeb s) else (Some bp, s))
      else
        (let tome = (pkt_d bp = e_ea s); fromme = (pkt_s bp = e_ea s);
             (fx, s) = foldl (iq_step env stale bp tome multi fromme fromwire) (None, s) [0..<Ntypes]
         in case fx of
              Some i \<Rightarrow> (None, pass_to env i bp True s)
            | None \<Rightarrow> if fromwire then (None, freeb s) else (Some bp, s)))"

section \<open>Packets to the wire\<close>

text \<open>\<open>transmit\<close> is the driver's function; \<open>None\<close> when the driver has none.\<close>

definition etheroq ::
  "'q netenv \<Rightarrow> u8 list \<Rightarrow> ('q ether, unit) kact option \<Rightarrow> u8 list \<Rightarrow> ('q ether, int) kact" where
  "etheroq env stale transmit bp =
     kbind (kget (\<lambda>s. (e_ea s, e_bcast s, e_prom s))) (\<lambda>(ea, bcast, prom).
     let loopback = (pkt_d bp = ea) in
     kthen (kmod (\<lambda>s. s\<lparr>e_outpackets := Suc (e_outpackets s)\<rparr>))
     (kthen (if loopback \<or> pkt_d bp = bcast \<or> prom \<noteq> 0
             then kmod (\<lambda>s. snd (etheriq env stale bp False s)) else kret ())
     (kthen (if loopback then kmod freeb
             else kthen
               (kbind (kget (\<lambda>s. env_qbwrite env (e_oq s) bp)) (\<lambda>r.
                kbind (klift r) (\<lambda>q. kmod (\<lambda>s. s\<lparr>e_oq := q\<rparr>))))
               (case transmit of None \<Rightarrow> kret () | Some t \<Rightarrow> t))
     (kret (int (length bp))))))"

section \<open>The device operations\<close>

definition put_elock :: "rwlock \<Rightarrow> 'q ether \<Rightarrow> 'q ether" where
  "put_elock x s = s\<lparr>e_lock := x\<rparr>"

text \<open>\<open>rlock(ether); if(waserror()){ runlock(ether); nexterror(); } \<dots> poperror(); runlock(ether);\<close>\<close>

definition with_ether :: "('q ether, 'a) kact \<Rightarrow> ('q ether, 'a) kact" where
  "with_ether body = kbracket (rlock e_lock put_elock) (runlock e_lock put_elock) body"

text \<open>The controller number of an attach specifier.\<close>

definition ether_ctlrno :: "string option \<Rightarrow> exn + nat" where
  "ether_ctlrno spec =
     (case spec of
        None \<Rightarrow> Inr 0
      | Some s \<Rightarrow>
          if s = [] then Inr 0
          else
            (let n = strtoul 0 s; p = strtou_end 0 s in
             if n = 0 \<and> p = s \<or> p \<noteq> [] \<or> MaxEther \<le> unat n then Inl (Error Ebadarg)
             else Inr (unat n)))"

definition etherattach ::
  "bool list \<Rightarrow> ('q ether, 'c) kact \<Rightarrow> ('q ether, unit) kact option \<Rightarrow> string option
     \<Rightarrow> ('q ether, 'c) kact" where
  "etherattach present devattach attach spec =
     kbind (klift (ether_ctlrno spec)) (\<lambda>ctlrno.
     kthen (kguard (present ! ctlrno) Enodev)
     (with_ether
        (kbind devattach (\<lambda>chan.
         kthen (case attach of None \<Rightarrow> kret () | Some a \<Rightarrow> a) (kret chan)))))"

definition etherwalk :: "('q ether, 'w) kact \<Rightarrow> ('q ether, 'w) kact" where
  "etherwalk netifwalk = with_ether netifwalk"

definition etherstat :: "('q ether, int) kact \<Rightarrow> ('q ether, int) kact" where
  "etherstat netifstat = with_ether netifstat"

definition etheropen :: "('q ether, 'c) kact \<Rightarrow> ('q ether, 'c) kact" where
  "etheropen netifopen = with_ether netifopen"

definition etherclose :: "('q ether, unit) kact \<Rightarrow> ('q ether, unit) kact" where
  "etherclose netifclose = with_ether netifclose"

definition etherbread :: "('q ether, 'b) kact \<Rightarrow> ('q ether, 'b) kact" where
  "etherbread netifbread = with_ether netifbread"

definition etherwstat :: "('q ether, int) kact \<Rightarrow> ('q ether, int) kact" where
  "etherwstat netifwstat = with_ether netifwstat"

datatype nettype = Ndataqid | Nifstatqid | Nstatqid | Netother

definition etherread ::
  "(int \<Rightarrow> u32 \<Rightarrow> ('q ether, 'r) kact) \<Rightarrow> (int \<Rightarrow> u32 \<Rightarrow> ('q ether, 'r) kact) option
     \<Rightarrow> bool \<Rightarrow> nettype \<Rightarrow> int \<Rightarrow> int \<Rightarrow> ('q ether, 'r) kact" where
  "etherread netifread ifstat isdir q n off =
     (let offset = (of_int off :: u32) in
      with_ether
        (case ifstat of
           Some st \<Rightarrow>
             if \<not> isdir \<and> q = Nifstatqid then st n offset
             else if \<not> isdir \<and> q = Nstatqid then kbind (st 0 offset) (\<lambda>_. netifread n offset)
             else netifread n offset
         | None \<Rightarrow> netifread n offset))"

text \<open>
  A write to a control file goes to \<open>netifwrite\<close> first; what that refuses is tried as
  \<open>nonblocking\<close>, then given to the driver.
\<close>

definition etherwrite_ctl ::
  "(u8 list \<Rightarrow> ('q ether, int) kact) \<Rightarrow> (u8 list \<Rightarrow> ('q ether, string list) kact)
     \<Rightarrow> (int \<Rightarrow> ('q ether, unit) kact) \<Rightarrow> (u8 list \<Rightarrow> ('q ether, int) kact) option
     \<Rightarrow> u8 list \<Rightarrow> ('q ether, int) kact" where
  "etherwrite_ctl netifwrite parsecmd qnoblock ctl buf =
     kbind (netifwrite buf) (\<lambda>l.
     if 0 \<le> l then kret l
     else
       kbind (parsecmd buf) (\<lambda>f.
       if f \<noteq> [] \<and> hd f = ''nonblocking'' then
         kthen (qnoblock (if length f \<le> 1 then 1 else i32 (sint (strtoul 10 (f ! 1))))) (kret l)
       else
         (case ctl of
            Some c \<Rightarrow> c buf
          | None \<Rightarrow> kraise (Error Ebadctl))))"

definition etherwrite_data ::
  "'q netenv \<Rightarrow> u8 list \<Rightarrow> ('q ether, unit) kact option \<Rightarrow> u8 list \<Rightarrow> ('q ether, int) kact" where
  "etherwrite_data env stale transmit buf =
     kbind (kget (\<lambda>s. (e_minmtu s, e_maxmtu s, e_ea s))) (\<lambda>(minmtu, maxmtu, ea).
     kthen (kguard (\<not> maxmtu < int (length buf)) Etoobig)
     (kthen (kguard (\<not> int (length buf) < minmtu) Etoosmall)
     (etheroq env stale transmit (take Eaddrlen buf @ ea @ drop (2 * Eaddrlen) buf))))"

definition etherwrite ::
  "'q netenv \<Rightarrow> u8 list \<Rightarrow> ('q ether, unit) kact option \<Rightarrow> ('q ether, int) kact
     \<Rightarrow> nettype \<Rightarrow> u8 list \<Rightarrow> ('q ether, int) kact" where
  "etherwrite env stale transmit ctlwrite q buf =
     with_ether (if q \<noteq> Ndataqid then ctlwrite else etherwrite_data env stale transmit buf)"

definition etherbwrite ::
  "'q netenv \<Rightarrow> u8 list \<Rightarrow> ('q ether, unit) kact option \<Rightarrow> ('q ether, int) kact
     \<Rightarrow> nettype \<Rightarrow> u8 list \<Rightarrow> ('q ether, int) kact" where
  "etherbwrite env stale transmit ctlwrite q bp =
     (if q \<noteq> Ndataqid then
        kbind (kcatch (etherwrite env stale transmit ctlwrite q bp)
                 (\<lambda>e. kthen (kmod freeb) (kraise (Error e))))
          (\<lambda>n. kthen (kmod freeb) (kret n))
      else
        with_ether
          (kbind (kget (\<lambda>s. (e_minmtu s, e_maxmtu s))) (\<lambda>(minmtu, maxmtu).
           if maxmtu < int (length bp) then kthen (kmod freeb) (kraise (Error Etoobig))
           else if int (length bp) < minmtu then kthen (kmod freeb) (kraise (Error Etoosmall))
           else etheroq env stale transmit bp)))"

section \<open>Addresses and checksum\<close>

fun parseether_loop :: "nat \<Rightarrow> u8 list \<Rightarrow> string \<Rightarrow> int \<times> u8 list" where
  "parseether_loop 0 to p = (0, to)"
| "parseether_loop (Suc n) to [] = (- 1, to)"
| "parseether_loop (Suc n) to [c] = (- 1, to)"
| "parseether_loop (Suc n) to (c # d # p) =
     parseether_loop n (to @ [ucast (strtoul 16 [c, d])])
       (if p \<noteq> [] \<and> hd p = CHR '':'' then tl p else p)"

definition parseether :: "string \<Rightarrow> int \<times> u8 list" where
  "parseether from = parseether_loop Eaddrlen [] from"

definition ethercrc_bit :: "u32 \<times> u32 \<Rightarrow> u32 \<times> u32" where
  "ethercrc_bit st =
     (case st of (crc, b) \<Rightarrow>
        (drop_bit 1 crc XOR (if (crc XOR b) AND 1 \<noteq> 0 then 0xedb88320 else 0), drop_bit 1 b))"

definition ethercrc :: "u8 list \<Rightarrow> u32" where
  "ethercrc p = foldl (\<lambda>crc b. fst ((ethercrc_bit ^^ 8) (crc, ucast b))) 0xffffffff p"

section \<open>Start-up and power\<close>

text \<open>
  One controller: \<open>archether\<close> has filled in the type and the options, \<open>cards\<close> are the registered
  drivers with their reset functions.  The result is the interface to install, if any.
\<close>

definition ether_opt :: "'q ether \<Rightarrow> string \<Rightarrow> 'q ether" where
  "ether_opt s opt =
     (if cistrcmp_eq (take 3 opt) ''ea='' then
        (case parseether (drop 3 opt) of
           (r, ea) \<Rightarrow> s\<lparr>e_ea := (if r = - 1 then replicate Eaddrlen 0 else ea)\<rparr>)
      else if cistrcmp_eq opt ''fullduplex'' \<or> cistrcmp_eq opt ''10BASE-TFD'' then s\<lparr>e_fullduplex := 1\<rparr>
      else if cistrcmp_eq opt ''100BASE-TXFD'' then s\<lparr>e_mbps := 100\<rparr>
      else s)"

fun try_cards ::
  "(int \<Rightarrow> 'q) \<Rightarrow> string \<Rightarrow> string list \<Rightarrow> (string \<times> ('q ether \<Rightarrow> int \<times> 'q ether)) list
     \<Rightarrow> 'q ether \<Rightarrow> 'q ether option" where
  "try_cards qopen type opts [] s = None"
| "try_cards qopen type opts ((t, reset) # cards) s =
     (if \<not> cistrcmp_eq t type then try_cards qopen type opts cards s
      else
        (case reset (foldl ether_opt s opts) of
           (r, s) \<Rightarrow>
             if r \<noteq> 0 then None
             else Some (s\<lparr>e_f := replicate Ntypes None,
                          e_oq := qopen (if e_mbps s = 100 then 256 * 1024 else 64 * 1024),
                          e_addr := e_ea s, e_bcast := replicate Eaddrlen 0xFF\<rparr>)))"

definition ether_zero :: "'q \<Rightarrow> nat \<Rightarrow> 'q ether" where
  "ether_zero noq ctlrno =
     \<lparr>e_lock = rw_free, e_ctlrno = ctlrno, e_ea = replicate Eaddrlen 0, e_addr = replicate Eaddrlen 0,
      e_bcast = replicate Eaddrlen 0, e_minmtu = ETHERMINTU, e_maxmtu = ETHERMAXTU, e_mbps = 10,
      e_fullduplex = 0, e_prom = 0, e_f = [], e_oq = noq, e_inpackets = 0, e_outpackets = 0,
      e_soverflows = 0, e_allocs = 0, e_frees = 0\<rparr>"

definition etherreset ::
  "(int \<Rightarrow> 'q) \<Rightarrow> 'q \<Rightarrow> (nat \<Rightarrow> 'q ether \<Rightarrow> (int \<times> string \<times> string list) \<times> 'q ether)
     \<Rightarrow> (string \<times> ('q ether \<Rightarrow> int \<times> 'q ether)) list \<Rightarrow> 'q ether option" where
  "etherreset qopen noq archether cards =
     (case archether 0 (ether_zero noq 0) of
        ((found, type, opts), s) \<Rightarrow>
          if found \<le> 0 then None else try_cards qopen type opts cards s)"

text \<open>The table of drivers has room for one more than are accepted; \<open>ncard\<close> is its length here.\<close>

definition addethercard :: "string \<Rightarrow> 'r \<Rightarrow> (string \<times> 'r) list \<Rightarrow> exn + (string \<times> 'r) list" where
  "addethercard t r cards =
     (if length cards = MaxEther then Inl (Panic ''too many ether cards'') else Inr (cards @ [(t, r)]))"

text \<open>\<open>etherkirkwoodlink\<close> of \<open>etherkirkwood.c\<close>.\<close>

definition etherkirkwoodlink :: "'r \<Rightarrow> (string \<times> 'r) list \<Rightarrow> exn + (string \<times> 'r) list" where
  "etherkirkwoodlink reset cards = addethercard ''kirkwood'' reset cards"

text \<open>Every installed interface with a \<open>detach\<close> function is detached.\<close>

definition ethershutdown :: "('e \<Rightarrow> ('e \<Rightarrow> 'e) option) \<Rightarrow> 'e option list \<Rightarrow> 'e option list" where
  "ethershutdown detach xs = map (map_option (\<lambda>e. case detach e of None \<Rightarrow> e | Some d \<Rightarrow> d e)) xs"

text \<open>\<open>canrlock\<close> takes the read lock when it is free and says whether it did.\<close>

definition canrlock :: "('q ether, bool) kact" where
  "canrlock s = (if rw_writer (e_lock s) then (Inr False, s)
                 else (Inr True, put_elock ((e_lock s)\<lparr>rw_readers := Suc (rw_readers (e_lock s))\<rparr>) s))"

definition etherpower :: "(int \<Rightarrow> ('q ether, unit) kact) option \<Rightarrow> int \<Rightarrow> ('q ether, unit) kact" where
  "etherpower powerfn on =
     (case powerfn of
        None \<Rightarrow> kret ()
      | Some pw \<Rightarrow>
          if on \<noteq> 0 then
            kbind canrlock (\<lambda>got. if got then kret () else kthen (pw on) (wunlock e_lock put_elock))
          else
            kbind canrlock (\<lambda>got. if \<not> got then kret ()
              else kthen (wlock e_lock put_elock) (pw on)))"

section \<open>What one connection receives\<close>

definition deliver :: "'q netenv \<Rightarrow> u8 list \<Rightarrow> u8 list \<Rightarrow> bool \<Rightarrow> u32 \<Rightarrow> 'q netfile \<Rightarrow> 'q netfile" where
  "deliver env stale pkt w t f =
     (if \<not> w then f
      else if nf_headersonly f = 0 then f\<lparr>nf_in := fst (env_qpass env (nf_in f) pkt)\<rparr>
      else if env_qwindow env (nf_in f) \<le> 0 then f
      else f\<lparr>nf_in := fst (env_qpass env (nf_in f) (trace_block stale pkt t))\<rparr>)"

text \<open>The parts of the interface that the input path leaves alone.\<close>

definition frame :: "'q ether \<Rightarrow> rwlock \<times> u8 list \<times> u8 list \<times> int \<times> int \<times> int \<times> 'q \<times> nat \<times> nat" where
  "frame s = (e_lock s, e_ea s, e_bcast s, e_minmtu s, e_maxmtu s, e_prom s, e_oq s, e_outpackets s,
     e_frees s)"

lemma frame_counters [simp]:
  "frame (s\<lparr>e_allocs := n\<rparr>) = frame s" "frame (s\<lparr>e_soverflows := n\<rparr>) = frame s"
  "frame (s\<lparr>e_inpackets := n\<rparr>) = frame s" "frame (s\<lparr>e_f := fs\<rparr>) = frame s"
  by (simp_all add: frame_def)

lemma pass_to_frame [simp]: "frame (pass_to env i b c s) = frame s"
  by (simp add: pass_to_def Let_def split: option.splits prod.splits)

lemma pass_to_f:
  "e_f s ! i = Some f \<Longrightarrow>
   e_f (pass_to env i b c s) = (e_f s)[i := Some (f\<lparr>nf_in := fst (env_qpass env (nf_in f) b)\<rparr>)]"
  by (auto simp: pass_to_def Let_def split: prod.splits)

lemma etherrtrace_frame [simp]: "frame (etherrtrace env stale i pkt s) = frame s"
  by (simp add: etherrtrace_def Let_def split: option.splits)

lemma copy_to_frame [simp]: "frame (copy_to env i pkt s) = frame s"
  by (cases "env_iallocb env (e_allocs s) (int (length pkt))") (simp_all add: copy_to_def Let_def)

lemma iq_step_frame: "frame (snd (iq_step env stale pkt tm mu fm fw st i)) = frame (snd st)"
  by (cases st) (simp add: iq_step_def split: option.split)

text \<open>One round of the loop, when the allocator succeeds.\<close>

definition iq_round ::
  "'q netenv \<Rightarrow> u8 list \<Rightarrow> u8 list \<Rightarrow> bool \<Rightarrow> bool \<Rightarrow> bool \<Rightarrow> bool
     \<Rightarrow> 'q netfile option \<Rightarrow> 'q netfile option \<Rightarrow> bool" where
  "iq_round env stale pkt tm mu fm fw f f' \<longleftrightarrow>
     (\<exists>t. f' = map_option (\<lambda>f. deliver env stale pkt (wants tm mu fm fw (pkt_type pkt) f) t f) f)"

definition takes_block :: "bool \<Rightarrow> bool \<Rightarrow> bool \<Rightarrow> bool \<Rightarrow> u8 list \<Rightarrow> 'q netfile option \<Rightarrow> bool" where
  "takes_block tm mu fm fw pkt f \<longleftrightarrow>
     fw \<and> (\<exists>g. f = Some g \<and> wants tm mu fm fw (pkt_type pkt) g \<and> nf_headersonly g = 0)"

lemma iq_step_cases:
  assumes alloc: "\<forall>n k. env_iallocb env n k" and i: "i < length (e_f s)"
    and run: "iq_step env stale pkt tm mu fm fw (fx, s) i = (fx', s')"
  obtains "fx = None" "takes_block tm mu fm fw pkt (e_f s ! i)" "fx' = Some i" "e_f s' = e_f s"
  | f' where "\<not> (fx = None \<and> takes_block tm mu fm fw pkt (e_f s ! i))" "fx' = fx"
      "e_f s' = (e_f s)[i := f']" "iq_round env stale pkt tm mu fm fw (e_f s ! i) f'"
proof (cases "e_f s ! i")
  case None
  with run have "s' = s" "fx' = fx" by (auto simp: iq_step_def)
  moreover have "(e_f s)[i := None] = e_f s" using None by (metis list_update_id)
  ultimately show ?thesis
    using None by (intro that(2) [of None]) (simp_all add: iq_round_def takes_block_def)
next
  case (Some f)
  let ?w = "wants tm mu fm fw (pkt_type pkt) f"
  let ?s = "s\<lparr>e_allocs := Suc (e_allocs s)\<rparr>"
  show ?thesis
  proof (cases "?w \<and> nf_headersonly f = 0 \<and> fw \<and> fx = None")
    case True
    with run Some that(1) show ?thesis by (auto simp: iq_step_def takes_block_def)
  next
    case False
    have upd: "\<exists>t. e_f s' = (e_f s)[i := Some (deliver env stale pkt ?w t f)]"
    proof (cases "\<not> ?w \<or> nf_headersonly f \<noteq> 0 \<and> env_qwindow env (nf_in f) \<le> 0")
      case True
      with run Some i have "s' = s"
        by (auto simp: iq_step_def etherrtrace_def split: if_splits)
      moreover have "(e_f s)[i := Some f] = e_f s" using Some by (metis list_update_id)
      moreover have "deliver env stale pkt ?w 0 f = f" using True by (auto simp: deliver_def)
      ultimately show ?thesis by metis
    next
      case w: False
      then show ?thesis
      proof (cases "nf_headersonly f = 0")
        case True
        with w run Some False alloc have "s' = pass_to env i pkt True ?s"
          by (auto simp: iq_step_def copy_to_def Let_def)
        with True w Some show ?thesis
          by (auto simp: deliver_def pass_to_f intro!: exI [of _ 0])
      next
        case h: False
        with w run Some False alloc
        have "s' = pass_to env i (trace_block stale pkt (env_ticks env (e_allocs ?s))) False ?s"
          by (auto simp: iq_step_def etherrtrace_def Let_def)
        with h w Some show ?thesis
          by (intro exI [of _ "env_ticks env (e_allocs ?s)"]) (auto simp: deliver_def pass_to_f)
      qed
    qed
    have fx: "fx' = fx"
      using run Some False by (auto simp: iq_step_def Let_def split: if_splits)
    from upd obtain t where "e_f s' = (e_f s)[i := Some (deliver env stale pkt ?w t f)]" ..
    with fx Some False show ?thesis
      by (intro that(2) [of "Some (deliver env stale pkt ?w t f)"])
        (auto simp: iq_round_def takes_block_def)
  qed
qed

text \<open>
  The loop after \<open>n\<close> rounds: a connection that takes the block itself is unchanged and is the
  first of its kind; every other one before \<open>n\<close> has had its delivery, the rest are untouched.
\<close>

definition iq_inv ::
  "'q netenv \<Rightarrow> u8 list \<Rightarrow> u8 list \<Rightarrow> bool \<Rightarrow> bool \<Rightarrow> bool \<Rightarrow> bool \<Rightarrow> 'q ether \<Rightarrow> nat
     \<Rightarrow> nat option \<times> 'q ether \<Rightarrow> bool" where
  "iq_inv env stale pkt tm mu fm fw s0 n st \<longleftrightarrow>
     (case st of (fx, s) \<Rightarrow>
        frame s = frame s0 \<and> length (e_f s) = length (e_f s0) \<and>
        (\<forall>i < length (e_f s0).
           if i < n \<and> fx \<noteq> Some i then iq_round env stale pkt tm mu fm fw (e_f s0 ! i) (e_f s ! i)
           else e_f s ! i = e_f s0 ! i) \<and>
        (case fx of
           None \<Rightarrow> (\<forall>i<n. i < length (e_f s0) \<longrightarrow> \<not> takes_block tm mu fm fw pkt (e_f s0 ! i))
         | Some i \<Rightarrow> i < n \<and> takes_block tm mu fm fw pkt (e_f s0 ! i)))"

lemma iq_inv_step:
  assumes alloc: "\<forall>n k. env_iallocb env n k" and n: "n < length (e_f s0)"
    and inv: "iq_inv env stale pkt tm mu fm fw s0 n st"
  shows "iq_inv env stale pkt tm mu fm fw s0 (Suc n) (iq_step env stale pkt tm mu fm fw st n)"
proof -
  obtain fx s where st: "st = (fx, s)" by (cases st)
  obtain fx' s' where run: "iq_step env stale pkt tm mu fm fw (fx, s) n = (fx', s')"
    by (cases "iq_step env stale pkt tm mu fm fw (fx, s) n")
  have fr: "frame s' = frame s"
    using iq_step_frame [of env stale pkt tm mu fm fw "(fx, s)" n] run by simp
  have len: "length (e_f s) = length (e_f s0)" and same: "e_f s ! n = e_f s0 ! n"
    using inv n by (auto simp: iq_inv_def st split: option.splits if_splits)
  from len n have "n < length (e_f s)" by simp
  from alloc this run show ?thesis
  proof (cases rule: iq_step_cases)
    case 1
    with inv n fr same show ?thesis
      unfolding st run by (auto simp: iq_inv_def less_Suc_eq)
  next
    case (2 f')
    have rounds: "if i < Suc n \<and> fx \<noteq> Some i
        then iq_round env stale pkt tm mu fm fw (e_f s0 ! i) (e_f s' ! i)
        else e_f s' ! i = e_f s0 ! i" if "i < length (e_f s0)" for i
    proof (cases "i = n")
      case True
      have "fx \<noteq> Some n" using inv by (auto simp: iq_inv_def st)
      with 2(3,4) True that len same show ?thesis by simp
    next
      case False
      with inv that have "if i < n \<and> fx \<noteq> Some i
          then iq_round env stale pkt tm mu fm fw (e_f s0 ! i) (e_f s ! i)
          else e_f s ! i = e_f s0 ! i" by (simp add: iq_inv_def st)
      with 2(3) False show ?thesis by (simp add: less_Suc_eq)
    qed
    moreover have p: "frame s' = frame s0" "length (e_f s') = length (e_f s0)"
      using inv fr 2(3) by (simp_all add: iq_inv_def st)
    moreover have "case fx of
           None \<Rightarrow> (\<forall>i<Suc n. i < length (e_f s0) \<longrightarrow> \<not> takes_block tm mu fm fw pkt (e_f s0 ! i))
         | Some i \<Rightarrow> i < Suc n \<and> takes_block tm mu fm fw pkt (e_f s0 ! i)"
      using inv 2(1) same by (auto simp: iq_inv_def st less_Suc_eq split: option.splits)
    ultimately show ?thesis
      unfolding st run iq_inv_def prod.case 2(2) using p by blast
  qed
qed

lemma iq_loop_inv:
  assumes "\<forall>n k. env_iallocb env n k" and "n \<le> length (e_f s0)"
  shows "iq_inv env stale pkt tm mu fm fw s0 n
    (foldl (iq_step env stale pkt tm mu fm fw) (None, s0) [0..<n])"
  using assms(2)
proof (induction n)
  case 0
  then show ?case by (simp add: iq_inv_def)
next
  case (Suc n)
  then show ?case using iq_inv_step [OF assms(1), of n s0] by simp
qed

text \<open>The input path as a whole.\<close>

lemma etheriq_spec:
  assumes alloc: "\<forall>n k. env_iallocb env n k" and len: "length (e_f s) = Ntypes"
    and keep: "\<not> multi_dropped env bp s"
    and run: "etheriq env stale bp fw s = (r, s')" and i: "i < Ntypes"
  defines "tm \<equiv> pkt_d bp = e_ea s" and "mu \<equiv> (bp ! 0) AND 1 \<noteq> 0" and "fm \<equiv> pkt_s bp = e_ea s"
  shows "iq_round env stale bp tm mu fm fw (e_f s ! i) (e_f s' ! i)"
    and "r = (if fw then None else Some bp)"
    and "e_frees s' = e_frees s
      + (if fw \<and> (\<forall>j<Ntypes. \<not> takes_block tm mu fm fw bp (e_f s ! j)) then 1 else 0)"
proof -
  let ?s1 = "s\<lparr>e_inpackets := Suc (e_inpackets s)\<rparr>"
  obtain fx s2 where loop:
    "foldl (iq_step env stale bp tm mu fm fw) (None, ?s1) [0..<Ntypes] = (fx, s2)"
    by (cases "foldl (iq_step env stale bp tm mu fm fw) (None, ?s1) [0..<Ntypes]")
  have inv: "iq_inv env stale bp tm mu fm fw ?s1 Ntypes (fx, s2)"
    using iq_loop_inv [OF alloc, of Ntypes ?s1 stale bp tm mu fm fw] len loop by simp
  have md: "\<not> multi_dropped env bp ?s1" using keep by (simp add: multi_dropped_def)
  have out: "(r, s') = (case fx of
      Some i \<Rightarrow> (None, pass_to env i bp True s2)
    | None \<Rightarrow> if fw then (None, freeb s2) else (Some bp, s2))"
    using run md loop by (simp add: etheriq_def Let_def tm_def mu_def fm_def del: upt_Suc)
  have fr: "e_frees s2 = e_frees s" using inv by (simp add: iq_inv_def frame_def)
  have each: "if fx \<noteq> Some j then iq_round env stale bp tm mu fm fw (e_f s ! j) (e_f s2 ! j)
      else e_f s2 ! j = e_f s ! j" if "j < Ntypes" for j
    using inv that len by (simp add: iq_inv_def cong: if_cong)
  show "iq_round env stale bp tm mu fm fw (e_f s ! i) (e_f s' ! i)"
  proof (cases fx)
    case None
    then have "e_f s' = e_f s2" using out by (auto simp: freeb_def split: if_splits)
    with each [OF i] None show ?thesis by simp
  next
    case (Some j)
    with inv have j: "j < Ntypes" "takes_block tm mu fm fw bp (e_f s ! j)"
      by (auto simp: iq_inv_def)
    from j(2) obtain g where g: "e_f s ! j = Some g" "nf_headersonly g = 0"
      "wants tm mu fm fw (pkt_type bp) g" by (auto simp: takes_block_def)
    from each [OF j(1)] Some g have "e_f s2 ! j = Some g" by simp
    from pass_to_f [OF this] out Some
    have s': "e_f s' = (e_f s2)[j := Some (g\<lparr>nf_in := fst (env_qpass env (nf_in g) bp)\<rparr>)]" by simp
    have len2: "length (e_f s2) = Ntypes" using inv len by (simp add: iq_inv_def)
    show ?thesis
    proof (cases "i = j")
      case True
      with s' g j len2 show ?thesis by (simp add: iq_round_def deliver_def)
    next
      case False
      with s' each [OF i] Some show ?thesis by simp
    qed
  qed
  show "r = (if fw then None else Some bp)"
  proof (cases fx)
    case (Some j)
    with inv have "fw" by (auto simp: iq_inv_def takes_block_def)
    with out Some show ?thesis by simp
  qed (use out in \<open>auto split: if_splits\<close>)
  show "e_frees s' = e_frees s
      + (if fw \<and> (\<forall>j<Ntypes. \<not> takes_block tm mu fm fw bp (e_f s ! j)) then 1 else 0)"
  proof (cases fx)
    case None
    then have "\<forall>j<Ntypes. \<not> takes_block tm mu fm fw bp (e_f s ! j)"
      using inv len by (simp add: iq_inv_def)
    with None out fr show ?thesis by (auto simp: freeb_def split: if_splits)
  next
    case (Some j)
    with inv have j: "j < Ntypes" "takes_block tm mu fm fw bp (e_f s ! j)"
      by (auto simp: iq_inv_def)
    have "frame s' = frame s2" using out Some by simp
    with fr j show ?thesis by (auto simp: frame_def)
  qed
qed

lemma iq_fold_frame:
  "frame (snd (foldl (iq_step env stale pkt tm mu fm fw) st xs)) = frame (snd st)"
  by (induction xs arbitrary: st) (simp_all add: iq_step_frame)

lemma etheriq_frame:
  "e_oq (snd (etheriq env stale bp fw s)) = e_oq s \<and> e_lock (snd (etheriq env stale bp fw s)) = e_lock s
   \<and> e_ea (snd (etheriq env stale bp fw s)) = e_ea s
   \<and> e_outpackets (snd (etheriq env stale bp fw s)) = e_outpackets s"
proof -
  let ?s1 = "s\<lparr>e_inpackets := Suc (e_inpackets s)\<rparr>"
  define tm where "tm = (pkt_d bp = e_ea ?s1)"
  define fm where "fm = (pkt_s bp = e_ea ?s1)"
  define mu where "mu = ((bp ! 0) AND 1 \<noteq> 0)"
  obtain fx s2 where loop:
    "foldl (iq_step env stale bp tm mu fm fw) (None, ?s1) [0..<Ntypes] = (fx, s2)"
    by (cases "foldl (iq_step env stale bp tm mu fm fw) (None, ?s1) [0..<Ntypes]")
  have "frame s2 = frame s"
    using iq_fold_frame [of env stale bp tm mu fm fw "(None, ?s1)" "[0..<Ntypes]"]
    unfolding loop by simp
  moreover have "frame (pass_to env i bp True s2) = frame s2" for i by simp
  moreover have "etheriq env stale bp fw s =
      (if multi_dropped env bp ?s1 then (if fw then (None, freeb ?s1) else (Some bp, ?s1))
       else case fx of Some i \<Rightarrow> (None, pass_to env i bp True s2)
            | None \<Rightarrow> if fw then (None, freeb s2) else (Some bp, s2))"
    unfolding etheriq_def Let_def tm_def [symmetric] fm_def [symmetric] mu_def [symmetric] loop
    by simp
  ultimately show ?thesis
    by (auto simp: frame_def freeb_def split: option.splits)
qed








section \<open>Locking\<close>

interpretation ether_lock: rw_lens e_lock put_elock e_lock
  by unfold_locales (simp_all add: put_elock_def)

lemma with_ether_balanced: "balanced e_lock body \<Longrightarrow> balanced e_lock (with_ether body)"
  unfolding with_ether_def by (rule ether_lock.reader.bracket_balanced)

lemma freeb_balanced: "balanced e_lock (kmod freeb)"
  by (rule balanced_mod) (simp add: freeb_def)

lemma etheroq_balanced:
  assumes "\<And>t. tr = Some t \<Longrightarrow> balanced e_lock t"
  shows "balanced e_lock (etheroq env stale tr bp)"
proof -
  have "balanced e_lock (kmod (\<lambda>s. snd (etheriq env stale bp False s)))"
    by (rule balanced_mod) (simp add: etheriq_frame)
  moreover have "balanced e_lock (kmod (\<lambda>s. s\<lparr>e_outpackets := Suc (e_outpackets s)\<rparr>))"
    "balanced e_lock (kmod (\<lambda>s. s\<lparr>e_oq := q\<rparr>))" for q
    by (rule balanced_mod, simp)+
  moreover have "balanced e_lock (case tr of None \<Rightarrow> kret () | Some t \<Rightarrow> t)"
    by (cases tr) (auto intro: balanced_rule assms)
  ultimately show ?thesis
    unfolding etheroq_def
    by (intro balanced_bind balanced_then balanced_prim balanced_if balanced_prod balanced_let
        freeb_balanced)
qed

section \<open>Addresses\<close>

text \<open>An address as it is printed, with or without colons.\<close>

fun addr_text :: "string \<Rightarrow> u8 list \<Rightarrow> string" where
  "addr_text sep [] = []"
| "addr_text sep [b] = hex2 b"
| "addr_text sep (b # bs) = hex2 b @ sep @ addr_text sep bs"

lemma hex_digit_val: "n < 16 \<Longrightarrow> digit_val (hex_digit n) = n"
  by (auto simp: digit_val_def hex_digit_def Let_def)

lemma hex_digit_char:
  "n < 16 \<Longrightarrow> hex_digit n \<noteq> CHR '':'' \<and> \<not> is_space (hex_digit n) \<and> hex_digit n \<noteq> CHR ''-'' \<and>
     hex_digit n \<noteq> CHR ''+'' \<and> hex_digit n \<noteq> CHR ''x'' \<and> hex_digit n \<noteq> CHR ''X''"
proof -
  assume "n < 16"
  moreover have "\<forall>n\<in>set [0..<16]. hex_digit n \<noteq> CHR '':'' \<and> \<not> is_space (hex_digit n) \<and>
      hex_digit n \<noteq> CHR ''-'' \<and> hex_digit n \<noteq> CHR ''+'' \<and> hex_digit n \<noteq> CHR ''x'' \<and>
      hex_digit n \<noteq> CHR ''X''" by code_simp
  ultimately show ?thesis by simp
qed

lemma strtou_hex:
  assumes "h < 16" "l < 16"
  shows "strtou 32 16 [hex_digit h, hex_digit l] = int (h * 16 + l)"
proof -
  have "h * 16 + l < 256" using assms by linarith
  with assms hex_digit_char [OF assms(1)] hex_digit_char [OF assms(2)] show ?thesis
    by (simp add: strtou_def Let_def hex_digit_val)
qed

lemma strtoul_hex2: "ucast (strtoul 16 (hex2 b)) = b"
proof -
  have "unat b < 256" using unsigned_less [of b] by simp
  then have "unat b div 16 < 16" "unat b mod 16 < 16" by (simp_all add: less_mult_imp_div_less)
  from strtou_hex [OF this] have "strtou 32 16 (hex2 b) = int (unat b)"
    by (simp only: hex2_def div_mult_mod_eq)
  moreover have "ucast (ucast b :: u32) = b" by (rule bit_word_eqI) (auto simp: bit_simps)
  ultimately show ?thesis by (simp add: strtoul_def uint_nat [symmetric])
qed

lemma parseether_loop_text:
  assumes "sep = [] \<or> sep = '':''"
  shows "parseether_loop (length bs + n) to (addr_text sep bs) = parseether_loop n (to @ bs) []"
proof (induction bs arbitrary: to)
  case Nil
  then show ?case by simp
next
  case (Cons b bs)
  obtain c d where cd: "hex2 b = [c, d]" by (simp add: hex2_def)
  then have b: "ucast (strtoul 16 [c, d]) = b" using strtoul_hex2 [of b] by simp
  show ?case
  proof (cases bs)
    case Nil
    then show ?thesis using cd b by simp
  next
    case (Cons b' bs')
    then have at: "addr_text sep (b # bs) = c # d # sep @ addr_text sep bs" using cd by simp
    have "hd (addr_text sep bs) \<noteq> CHR '':''"
    proof -
      have "unat b' < 256" using unsigned_less [of b'] by simp
      then have "hex_digit (unat b' div 16) \<noteq> CHR '':''"
        by (intro hex_digit_char [THEN conjunct1]) (simp add: less_mult_imp_div_less)
      moreover have "hd (addr_text sep bs) = hex_digit (unat b' div 16)"
        using Cons by (cases bs') (simp_all add: hex2_def)
      ultimately show ?thesis by simp
    qed
    with assms at b Cons.IH show ?thesis by auto
  qed
qed

section \<open>A sample interface\<close>

text \<open>
  Queues are lists of blocks that accept everything; the three connections want every packet,
  IP packets only, and the headers of every packet.
\<close>

definition sample_env :: "u8 list list netenv" where
  "sample_env = \<lparr>env_qpass = (\<lambda>q b. (q @ [b], 0)), env_qwindow = (\<lambda>_. 1),
     env_qbwrite = (\<lambda>q b. Inr (q @ [b])), env_iallocb = (\<lambda>_ _. True),
     env_activemulti = (\<lambda>_. False), env_ticks = (\<lambda>_. 5)\<rparr>"

definition sample_ether :: "u8 list list ether" where
  "sample_ether = (ether_zero [] 0)
     \<lparr>e_ea := [2, 0, 0, 0, 0, 1], e_bcast := replicate 6 0xFF,
      e_f := [Some \<lparr>nf_type = - 1, nf_prom = 0, nf_bridge = 0, nf_headersonly = 0, nf_in = []\<rparr>,
              Some \<lparr>nf_type = 0x0800, nf_prom = 0, nf_bridge = 0, nf_headersonly = 0, nf_in = []\<rparr>,
              Some \<lparr>nf_type = - 1, nf_prom = 0, nf_bridge = 0, nf_headersonly = 1, nf_in = []\<rparr>]
             @ replicate 5 None\<rparr>"

definition sample_frame :: "u8 list" where
  "sample_frame = [2, 0, 0, 0, 0, 1] @ [2, 0, 0, 0, 0, 9] @ [8, 0] @ replicate 46 7"

section \<open>Properties\<close>

text \<open>
  C9: Delivery of a packet.  When memory suffices and the multicast filter lets the packet
  pass, every connection that wants it (type, address or promiscuous mode, bridging rule) has it
  put on its input queue exactly once, as a whole or, for a header-only connection with room, as
  the trace record; every other connection is unchanged.  The caller keeps the block unless it
  came from the wire, and then it is freed exactly when no connection took it over.
\<close>

theorem etheriq_delivers:
  assumes "\<forall>n k. env_iallocb env n k" and "length (e_f s) = Ntypes"
    and "\<not> multi_dropped env bp s" and "etheriq env stale bp fw s = (r, s')"
  shows "(\<forall>i<Ntypes. \<exists>t. e_f s' ! i = map_option (\<lambda>f. deliver env stale bp
            (wants (pkt_d bp = e_ea s) ((bp ! 0) AND 1 \<noteq> 0) (pkt_s bp = e_ea s) fw (pkt_type bp) f)
            t f) (e_f s ! i)) \<and>
    r = (if fw then None else Some bp) \<and>
    e_frees s' = e_frees s +
      (if fw \<and> (\<forall>j<Ntypes. \<not> takes_block (pkt_d bp = e_ea s) ((bp ! 0) AND 1 \<noteq> 0)
                 (pkt_s bp = e_ea s) fw bp (e_f s ! j)) then 1 else 0)"
proof -
  have z: "0 < Ntypes" by simp
  show ?thesis
    using etheriq_spec(1) [OF assms] etheriq_spec(2) [OF assms z] etheriq_spec(3) [OF assms z]
    unfolding iq_round_def by blast
qed

theorem etheriq_delivers_witness:
  "\<exists>s'. etheriq sample_env [] sample_frame True sample_ether = (None, s') \<and>
    e_frees s' = e_frees sample_ether \<and>
    (\<exists>t. e_f s' ! 1 = map_option (\<lambda>f. deliver sample_env [] sample_frame True t f) (e_f sample_ether ! 1))"
proof -
  obtain r s' where run: "etheriq sample_env [] sample_frame True sample_ether = (r, s')"
    by (cases "etheriq sample_env [] sample_frame True sample_ether")
  have hyps: "\<forall>n k. env_iallocb sample_env n k" "length (e_f sample_ether) = Ntypes"
    "\<not> multi_dropped sample_env sample_frame sample_ether"
    by (simp_all add: sample_env_def sample_ether_def multi_dropped_def sample_frame_def)
  have facts: "pkt_d sample_frame = e_ea sample_ether" "pkt_type sample_frame = 0x0800"
    "e_f sample_ether ! 1 = Some \<lparr>nf_type = 0x0800, nf_prom = 0, nf_bridge = 0,
      nf_headersonly = 0, nf_in = []\<rparr>"
    by code_simp+
  have takes: "takes_block True mu fm True sample_frame (e_f sample_ether ! 0)" for mu fm
    by (simp add: takes_block_def wants_def sample_ether_def)
  have "\<exists>j<Ntypes. takes_block True mu fm True sample_frame (e_f sample_ether ! j)" for mu fm
    by (rule exI [of _ 0]) (simp add: takes)
  with etheriq_delivers [OF hyps run] facts have "r = None" "e_frees s' = e_frees sample_ether"
    by (auto split: if_splits)
  moreover have "\<exists>t. e_f s' ! 1
      = map_option (\<lambda>f. deliver sample_env [] sample_frame True t f) (e_f sample_ether ! 1)"
    using conjunct1 [OF etheriq_delivers [OF hyps run]] facts
    by (auto simp: wants_def dest!: spec [of _ 1])
  ultimately show ?thesis using run by blast
qed

text \<open>
  The multicast filter.  A multicast packet that is not a broadcast, whose address no
  connection has asked for, on an interface that is not promiscuous, reaches no connection: all
  queues stay as they are, and a block from the wire is freed.
\<close>

theorem etheriq_multicast:
  assumes "multi_dropped env bp s"
  shows "etheriq env stale bp fw s =
    (if fw then None else Some bp,
     s\<lparr>e_inpackets := Suc (e_inpackets s), e_frees := e_frees s + (if fw then 1 else 0)\<rparr>)"
  using assms by (simp add: etheriq_def Let_def multi_dropped_def freeb_def)

theorem etheriq_multicast_witness:
  "etheriq sample_env [] ([1, 0, 94, 0, 0, 1] @ replicate 54 0) True sample_ether =
    (None, sample_ether\<lparr>e_inpackets := Suc (e_inpackets sample_ether),
       e_frees := e_frees sample_ether + 1\<rparr>)"
proof -
  have "multi_dropped sample_env ([1, 0, 94, 0, 0, 1] @ replicate 54 0) sample_ether" by code_simp
  from etheriq_multicast [OF this, of "[]" True] show ?thesis by simp
qed



text \<open>
  Locks of the device operations.  Every operation returns or raises an error with the
  interface lock as it found it, provided the network code and the driver functions it calls do.
\<close>

theorem ether_ops_balanced:
  assumes op: "balanced e_lock op" and opn: "\<And>n off. balanced e_lock (opn n off)"
    and tr: "\<And>t. tr = Some t \<Longrightarrow> balanced e_lock t" and att: "\<And>a. att = Some a \<Longrightarrow> balanced e_lock a"
    and ifs: "\<And>f n off. ifstat = Some f \<Longrightarrow> balanced e_lock (f n off)"
    and ctl: "balanced e_lock ctl"
  shows "balanced e_lock (etherattach present op att spec) \<and> balanced e_lock (etherwalk op) \<and>
    balanced e_lock (etherread opn ifstat isdir q n off) \<and>
    balanced e_lock (etherwrite env stale tr ctl q buf) \<and>
    balanced e_lock (etherbwrite env stale tr ctl q buf)"
proof (intro conjI)
  show "balanced e_lock (etherattach present op att spec)"
    unfolding etherattach_def by (intro balanced_rule with_ether_balanced op att)
  show "balanced e_lock (etherwalk op)"
    unfolding etherwalk_def by (intro with_ether_balanced op)
  show "balanced e_lock (etherread opn ifstat isdir q n off)"
    unfolding etherread_def Let_def
    by (intro with_ether_balanced balanced_option balanced_if balanced_bind ifs opn)
  have data: "balanced e_lock (etherwrite_data env stale tr b)" for b
    unfolding etherwrite_data_def by (intro balanced_rule etheroq_balanced tr)
  show wr: "balanced e_lock (etherwrite env stale tr ctl q buf)"
    unfolding etherwrite_def by (intro with_ether_balanced balanced_if ctl data)
  show "balanced e_lock (etherbwrite env stale tr ctl q buf)"
    unfolding etherbwrite_def
    by (intro balanced_rule with_ether_balanced freeb_balanced etheroq_balanced wr tr)
qed

theorem ether_ops_balanced_witness:
  "balanced e_lock (etherbwrite sample_env [] None (kret 0) Ndataqid sample_frame)"
  using ether_ops_balanced [of "kret (0::int)" "\<lambda>n off. kret (0::int)" None None None "kret 0"
      "[]" None False Ndataqid 0 0 sample_env "[]" sample_frame]
  by (auto intro: balanced_rule)

text \<open>
  Parsing an address.  \<open>parseether\<close> reads back every address printed as six two-digit
  hexadecimal numbers, with colons between them or without, and refuses a text that ends early.
\<close>

lemma parseether_text:
  assumes "length ea = Eaddrlen"
  shows "parseether (addr_text '':'' ea) = (0, ea) \<and> parseether (addr_text [] ea) = (0, ea) \<and>
    fst (parseether (addr_text '':'' (take 5 ea))) = - 1"
proof -
  have "parseether (addr_text sep ea) = (0, ea)" if "sep = [] \<or> sep = '':''" for sep
    using parseether_loop_text [OF that, of ea 0 "[]"] assms by (simp add: parseether_def)
  moreover have "fst (parseether (addr_text '':'' (take 5 ea))) = - 1"
    using parseether_loop_text [of "'':''" "take 5 ea" 1 "[]"] assms by (simp add: parseether_def)
  ultimately show ?thesis by simp
qed

lemma parseether_text_witness:
  "parseether (addr_text '':'' [0, 0x50, 0x43, 1, 2, 0xfe]) = (0, [0, 0x50, 0x43, 1, 2, 0xfe])"
  using parseether_text [of "[0, 0x50, 0x43, 1, 2, 0xfe]"] by simp

text \<open>
  Power changes.  With a driver that has a power function and the interface idle: switching
  off takes a read lock and then waits for the write lock that its own read lock blocks, so it
  never returns; switching on does not call the driver and leaves the read lock taken.
\<close>

lemma etherpower_stuck:
  assumes "e_lock s = rw_free"
  shows "fst (etherpower (Some pw) 0 s) = Inl Blocked \<and>
    etherpower (Some pw) 1 s = (Inr (), s\<lparr>e_lock := rw_free\<lparr>rw_readers := 1\<rparr>\<rparr>)"
  using assms
  by (simp add: etherpower_def canrlock_def kthen_def kbind_def wlock_def put_elock_def rw_free_def)

lemma etherpower_stuck_witness:
  "fst (etherpower (Some (\<lambda>on. kret ())) 0 sample_ether) = Inl Blocked"
  using etherpower_stuck [of sample_ether "\<lambda>on. kret ()"] by (simp add: sample_ether_def ether_zero_def)

end
