(* ===== verification/Blockstore.thy ===== *)
theory Blockstore
  imports Part
begin

text \<open>
  \<open>devbs.c\<close> and \<open>bs.h\<close>: the block storage device.  The state holds the table of stores, the locks
  (the one of the table and the one in each store, by its number), the result buffers of raw
  channels and the state of the hardware.  A store's driver functions (\<open>init\<close>, \<open>devinit\<close>, \<open>rctl\<close>,
  \<open>wctl\<close>, \<open>io\<close>, \<open>raw\<close>) are parameters, as are the kernel's generic device helpers, the permission
  check, the identity of the caller and the allocator.
\<close>

section \<open>State\<close>

record store =
  st_vers :: int
  st_ready :: int
  st_num :: int
  st_name :: string
  st_alignmask :: u32
  st_descr :: string
  st_devtype :: string
  st_parts :: "part list"       \<comment> \<open>the first \<open>nparts\<close> elements of \<open>parts\<close>\<close>
  st_size :: int

record rawbuf =
  rb_n :: int
  rb_a :: "u8 list option"

record 'h bs =
  bs_lock :: rwlock
  bs_slocks :: "nat \<Rightarrow> rwlock"
  bs_disks :: "store option list"
  bs_maxdisk :: int
  bs_aux :: "nat \<Rightarrow> rawbuf option"
  bs_hw :: 'h

text \<open>
  A driver function \<open>io\<close> gets the buffer, its count is the length; it returns a count and the
  buffer afterwards.
\<close>

record 'h devops =
  dv_init :: "('h bs, unit) kact"
  dv_devinit :: "('h bs, unit) kact"
  dv_rctl :: "int \<Rightarrow> int \<Rightarrow> ('h bs, u8 list) kact"
  dv_wctl :: "u8 list \<Rightarrow> ('h bs, int) kact"
  dv_io :: "bool \<Rightarrow> u8 list \<Rightarrow> int \<Rightarrow> ('h bs, int \<times> u8 list) kact"
  dv_raw :: "(u8 list \<Rightarrow> int \<Rightarrow> ('h bs, int \<times> u8 list option) kact) option"

record 'h bsenv =
  be_eve :: string
  be_iseve :: bool
  be_perm :: "string \<Rightarrow> u32 \<Rightarrow> int \<Rightarrow> exn + unit"
  be_memok :: "nat \<Rightarrow> bool"
  be_fuel :: nat
  be_parsecmd :: "u8 list \<Rightarrow> exn + string list"
  be_ops :: "nat \<Rightarrow> 'h devops"

section \<open>Paths\<close>

datatype qtype =
    Qdir | Qbsctl | Qbsevent
  | Qdiskdir | Qdiskctl | Qdiskdevctl | Qdiskevent | Qdiskraw | Qdiskpart

definition qtypes :: "qtype list" where
  "qtypes = [Qdir, Qbsctl, Qbsevent, Qdiskdir, Qdiskctl, Qdiskdevctl, Qdiskevent, Qdiskraw, Qdiskpart]"

definition qnum :: "qtype \<Rightarrow> u64" where
  "qnum q = (case q of Qdir \<Rightarrow> 0 | Qbsctl \<Rightarrow> 1 | Qbsevent \<Rightarrow> 2 | Qdiskdir \<Rightarrow> 3 | Qdiskctl \<Rightarrow> 4
     | Qdiskdevctl \<Rightarrow> 5 | Qdiskevent \<Rightarrow> 6 | Qdiskraw \<Rightarrow> 7 | Qdiskpart \<Rightarrow> 8)"

definition QTYPE :: "u64 \<Rightarrow> int" where "QTYPE v = uint (drop_bit 0 v AND 0xff)"
definition QDISK :: "u64 \<Rightarrow> int" where "QDISK v = uint (drop_bit 8 v AND 0xff)"
definition QPART :: "u64 \<Rightarrow> int" where "QPART v = uint (drop_bit 16 v AND 0xff)"

definition QPATH :: "u64 \<Rightarrow> u64 \<Rightarrow> u64 \<Rightarrow> u64" where
  "QPATH p d t = push_bit 16 p OR push_bit 8 d OR push_bit 0 t"

definition qtype_of :: "u64 \<Rightarrow> qtype option" where
  "qtype_of path = (let n = QTYPE path in if n < 9 then Some (qtypes ! nat n) else None)"

record bschan =
  ch_id :: nat
  ch_path :: u64
  ch_vers :: int
  ch_open :: bool

section \<open>The table of stores\<close>

definition sget :: "nat \<Rightarrow> (store \<Rightarrow> 'a) \<Rightarrow> ('h bs, 'a) kact" where
  "sget i f = kget (\<lambda>s. f (the (bs_disks s ! i)))"

definition supd :: "nat \<Rightarrow> (store \<Rightarrow> store) \<Rightarrow> ('h bs, unit) kact" where
  "supd i f = kmod (\<lambda>s. s\<lparr>bs_disks := (bs_disks s)[i := map_option f (bs_disks s ! i)]\<rparr>)"

definition diskget :: "int \<Rightarrow> 'h bs \<Rightarrow> exn + nat option" where
  "diskget num s =
     (if 0 \<le> num \<and> num \<le> bs_maxdisk s then
        (if nat num < length (bs_disks s) then
           (case bs_disks s ! nat num of Some d \<Rightarrow> Inr (Some (nat num)) | None \<Rightarrow> Inr None)
         else Inl (Fault ''bs.disks''))
      else Inr None)"

text \<open>\<open>d = diskget(num)\<close> followed by \<open>if(d == nil) error(Enodisk)\<close>.\<close>

definition diskfind :: "int \<Rightarrow> ('h bs, nat) kact" where
  "diskfind num =
     kbind (kget (diskget num)) (\<lambda>r. kbind (klift r) (\<lambda>d.
     case d of Some i \<Rightarrow> kret i | None \<Rightarrow> kraise (Error Enodisk)))"

definition put_bslock :: "rwlock \<Rightarrow> 'h bs \<Rightarrow> 'h bs" where
  "put_bslock x s = s\<lparr>bs_lock := x\<rparr>"

definition get_slock :: "nat \<Rightarrow> 'h bs \<Rightarrow> rwlock" where
  "get_slock i s = bs_slocks s i"

definition put_slock :: "nat \<Rightarrow> rwlock \<Rightarrow> 'h bs \<Rightarrow> 'h bs" where
  "put_slock i x s = s\<lparr>bs_slocks := (bs_slocks s)(i := x)\<rparr>"

abbreviation rlock_bs :: "('h bs, unit) kact" where "rlock_bs \<equiv> rlock bs_lock put_bslock"
abbreviation runlock_bs :: "('h bs, unit) kact" where "runlock_bs \<equiv> runlock bs_lock put_bslock"
abbreviation wlock_bs :: "('h bs, unit) kact" where "wlock_bs \<equiv> wlock bs_lock put_bslock"
abbreviation wunlock_bs :: "('h bs, unit) kact" where "wunlock_bs \<equiv> wunlock bs_lock put_bslock"
abbreviation rlock_d :: "nat \<Rightarrow> ('h bs, unit) kact" where
  "rlock_d i \<equiv> rlock (get_slock i) (put_slock i)"
abbreviation runlock_d :: "nat \<Rightarrow> ('h bs, unit) kact" where
  "runlock_d i \<equiv> runlock (get_slock i) (put_slock i)"
abbreviation wlock_d :: "nat \<Rightarrow> ('h bs, unit) kact" where
  "wlock_d i \<equiv> wlock (get_slock i) (put_slock i)"
abbreviation wunlock_d :: "nat \<Rightarrow> ('h bs, unit) kact" where
  "wunlock_d i \<equiv> wunlock (get_slock i) (put_slock i)"

definition lock_d :: "bool \<Rightarrow> nat \<Rightarrow> ('h bs, unit) kact" where
  "lock_d wl i = (if wl then wlock_d i else rlock_d i)"

definition unlock_d :: "bool \<Rightarrow> nat \<Rightarrow> ('h bs, unit) kact" where
  "unlock_d wl i = (if wl then wunlock_d i else runlock_d i)"

definition diskgetlock :: "int \<Rightarrow> bool \<Rightarrow> ('h bs, nat) kact" where
  "diskgetlock num wl =
     kthen rlock_bs
       (kbind (kget (diskget num)) (\<lambda>r. kbind (klift r) (\<lambda>d.
        case d of
          None \<Rightarrow> kthen runlock_bs (kraise (Error Enodisk))
        | Some i \<Rightarrow> kthen (lock_d wl i) (kthen runlock_bs (kret i)))))"

text \<open>\<open>d = diskgetlock(num, wl); if(waserror()){ unlock; nexterror(); } \<dots>; poperror(); unlock;\<close>\<close>

definition with_disk :: "int \<Rightarrow> bool \<Rightarrow> (nat \<Rightarrow> ('h bs, 'a) kact) \<Rightarrow> ('h bs, 'a) kact" where
  "with_disk num wl body =
     kbind (diskgetlock num wl) (\<lambda>i. kbracket (kret ()) (unlock_d wl i) (body i))"

definition with_bs :: "bool \<Rightarrow> ('h bs, 'a) kact \<Rightarrow> ('h bs, 'a) kact" where
  "with_bs wl body =
     (if wl then kbracket wlock_bs wunlock_bs body else kbracket rlock_bs runlock_bs body)"

definition with_store :: "bool \<Rightarrow> nat \<Rightarrow> ('h bs, 'a) kact \<Rightarrow> ('h bs, 'a) kact" where
  "with_store wl i body = kbracket (lock_d wl i) (unlock_d wl i) body"

section \<open>Partitions of a store\<close>

definition partdata :: "string \<Rightarrow> int \<Rightarrow> part" where
  "partdata eve sz =
     \<lparr>p_index = 0, p_typ = Some 0, p_name = ''data'', p_s = 0, p_e = sz, p_size = sz,
      p_uid = eve, p_perm = 432 \<comment> \<open>\<open>0660\<close>\<close>, p_isopen = 0\<rparr>"

definition partget :: "store \<Rightarrow> int \<Rightarrow> part option" where
  "partget d i =
     (if i < 0 \<or> int (length (st_parts d)) \<le> i then None else Some (st_parts d ! nat i))"

definition xpartget :: "nat \<Rightarrow> int \<Rightarrow> ('h bs, part) kact" where
  "xpartget i j =
     kbind (sget i (\<lambda>d. d)) (\<lambda>d.
     kthen (kguard (st_ready d \<noteq> 0) Enodisk)
     (case partget d j of Some p \<Rightarrow> kret p | None \<Rightarrow> kraise (Error Enopart)))"

text \<open>What \<open>partinit\<close> reads with: the driver's \<open>io\<close> into a buffer of the requested size.\<close>

definition disk_reader :: "'h devops \<Rightarrow> int \<Rightarrow> int \<Rightarrow> ('h bs, u8 list) kact" where
  "disk_reader ops n off =
     kbind (dv_io ops False (replicate (nat n) 0) off) (\<lambda>(xn, buf). kret (take (nat xn) buf))"

definition scan_parts :: "'h bsenv \<Rightarrow> nat \<Rightarrow> ('h bs, unit) kact" where
  "scan_parts env i =
     kbind (sget i (\<lambda>d. d)) (\<lambda>d.
     kbind (partinit (be_fuel env) (be_memok env) (be_eve env) (disk_reader (be_ops env i))
              (st_size d) (hd (st_parts d)))
       (\<lambda>parts. supd i (\<lambda>d. d\<lparr>st_parts := parts\<rparr>)))"

definition diskinit :: "'h bsenv \<Rightarrow> nat \<Rightarrow> ('h bs, unit) kact" where
  "diskinit env i =
     kthen (supd i (\<lambda>d. d\<lparr>st_ready := 0, st_parts := [], st_vers := i32 (st_vers d + 1)\<rparr>))
     (kthen (dv_devinit (be_ops env i))
     (kbind (sget i (\<lambda>d. d)) (\<lambda>d.
      kthen (kguard (st_size d AND uint (st_alignmask d) = 0) (Emsg ''misaligned size''))
      (if \<not> be_memok env 1 then kraise (Fault ''d->parts'')
       else
         kthen (supd i (\<lambda>d. d\<lparr>st_parts := [partdata (be_eve env) (st_size d)], st_ready := 1\<rparr>))
           (kcatch (scan_parts env i) (\<lambda>e. kret ()))))))"

section \<open>Input and output on a partition\<close>

text \<open>
  \<open>~d->alignmask\<close> is a 32-bit number, which the arithmetic on offsets extends with zeros.  The
  request is clipped to the partition and, when it is not aligned, goes through a zeroed buffer
  for the aligned range around it.
\<close>

record ioreq =
  rq_s :: int
  rq_n :: int
  rq_xs :: int
  rq_xn :: int

definition io_request :: "u32 \<Rightarrow> part \<Rightarrow> int \<Rightarrow> int \<Rightarrow> ioreq" where
  "io_request amask p n off =
     (let s = off; e = i64 (off + n);
          s = (if p_size p < s then p_size p else s);
          e = (if p_size p < e then p_size p else e);
          s = i64 (s + p_s p); e = i64 (e + p_s p);
          n = i32 (e - s);
          xs = s AND uint (NOT amask);
          xn = i32 (i64 (n + (s AND uint amask) + uint amask) AND uint (NOT amask))
      in \<lparr>rq_s = s, rq_n = n, rq_xs = xs, rq_xn = xn\<rparr>)"

text \<open>
  The bytes to hand back from the bounce buffer: the count, and the offset in the buffer, which is
  an address computation and wraps at 32 bits.
\<close>

definition io_result :: "ioreq \<Rightarrow> int \<Rightarrow> u8 list \<Rightarrow> u8 list \<Rightarrow> exn + int \<times> u8 list" where
  "io_result rq got bounce orig =
     (let xn = i32 (got - (rq_s rq - rq_xs rq));
          xn = (if xn < 0 then 0 else xn);
          xn = (if rq_n rq < xn then rq_n rq else xn);
          o' = unat (of_int (rq_s rq - rq_xs rq) :: u32)
      in if xn < 0 \<or> length bounce < o' + nat xn then Inl (Fault ''memmove'')
         else Inr (xn, take (nat xn) (drop o' bounce) @ drop (nat xn) orig))"

definition bs_io ::
  "'h bsenv \<Rightarrow> nat \<Rightarrow> part \<Rightarrow> bool \<Rightarrow> u8 list \<Rightarrow> int \<Rightarrow> int \<Rightarrow> ('h bs, int \<times> u8 list) kact" where
  "bs_io env i p iswrite buf n off =
     kbind (sget i (\<lambda>d. d)) (\<lambda>d.
     let amask = st_alignmask d in
     kthen (kguard (st_ready d \<noteq> 0) Enodisk)
     (kthen (kguard (0 \<le> off \<and> 0 \<le> n) Ebadarg)
     (kthen (kguard (\<not> (iswrite \<and> (off AND uint amask \<noteq> 0 \<or> n AND uint amask \<noteq> 0))) Ebadalign)
     (let rq = io_request amask p n off in
      if rq_xs rq \<noteq> rq_s rq \<or> rq_xn rq \<noteq> rq_n rq then
        kbind (dv_io (be_ops env i) iswrite (replicate (nat (rq_xn rq)) 0) (rq_xs rq)) (\<lambda>(got, bounce).
        klift (io_result rq got bounce buf))
      else
        kbind (dv_io (be_ops env i) iswrite (take (nat (rq_xn rq)) buf) (rq_xs rq)) (\<lambda>(got, b).
        kret (got, b @ drop (length b) buf))))))"

section \<open>Directory entries\<close>

record dirent =
  de_path :: u64
  de_isdir :: bool
  de_name :: string
  de_length :: int
  de_uid :: string
  de_perm :: u32

text \<open>The static table: name, whether a directory, permissions.\<close>

definition bstab :: "qtype \<Rightarrow> string \<times> bool \<times> u32" where
  "bstab q =
     (case q of
        Qdir \<Rightarrow> (''.'', True, 365)
      | Qbsctl \<Rightarrow> (''bsctl'', False, 432)
      | Qbsevent \<Rightarrow> (''bsevent'', False, 288)
      | Qdiskdir \<Rightarrow> (''xxx'', True, 365)
      | Qdiskctl \<Rightarrow> (''ctl'', False, 432)
      | Qdiskdevctl \<Rightarrow> (''devctl'', False, 432)
      | Qdiskevent \<Rightarrow> (''event'', False, 288)
      | Qdiskraw \<Rightarrow> (''raw'', False, 432)
      | Qdiskpart \<Rightarrow> (''xxx'', False, 432))"

definition tab_entry :: "string \<Rightarrow> u64 \<Rightarrow> qtype \<Rightarrow> dirent" where
  "tab_entry eve path q =
     (case bstab q of (name, isdir, perm) \<Rightarrow>
        \<lparr>de_path = path, de_isdir = isdir, de_name = name, de_length = 0, de_uid = eve,
         de_perm = perm\<rparr>)"

abbreviation DEVDOTDOT :: int where "DEVDOTDOT \<equiv> - 1"

definition bsgen_top :: "'h bsenv \<Rightarrow> int \<Rightarrow> ('h bs, int \<times> dirent option) kact" where
  "bsgen_top env i =
     (if i = 0 \<or> i = 1 then
        (let q = qtypes ! nat (1 + i) in kret (1, Some (tab_entry (be_eve env) (qnum q) q)))
      else
        kbind (kget (\<lambda>s. (bs_maxdisk s, diskget (i - 2) s))) (\<lambda>(m, r).
        if m < i - 2 then kret (- 1, None)
        else
          kbind (klift r) (\<lambda>d.
          case d of
            None \<Rightarrow> kret (0, None)
          | Some k \<Rightarrow>
              kthen (rlock_d k)
              (kbind (sget k (\<lambda>d. d)) (\<lambda>d.
               kthen (runlock_d k)
               (kret (1, Some ((tab_entry (be_eve env)
                   (QPATH 0 (of_int (st_num d)) (qnum Qdiskdir)) Qdiskdir)
                 \<lparr>de_name := st_name d\<rparr>))))))))"

definition bsgen_disk :: "'h bsenv \<Rightarrow> u64 \<Rightarrow> qtype \<Rightarrow> int \<Rightarrow> ('h bs, int \<times> dirent option) kact" where
  "bsgen_disk env path qt i =
     kbind (kget (diskget (QDISK path))) (\<lambda>r. kbind (klift r) (\<lambda>d.
     case d of
       None \<Rightarrow> kret (- 1, None)
     | Some k \<Rightarrow>
         kbind (sget k (\<lambda>d. d)) (\<lambda>d.
         if st_ready d = 0 \<and> qt = Qdiskpart then kret (- 1, None)
         else if 0 \<le> i \<and> i < 4 then
           (let q = qtypes ! nat (4 + i) in
            kret (1, Some (tab_entry (be_eve env) (QPATH 0 (of_int (st_num d)) (qnum q)) q)))
         else if int (length (st_parts d)) \<le> i - 4 then kret (- 1, None)
         else if i < 0 then kraise (Fault ''d->parts[i]'')
         else
           (let p = st_parts d ! nat (i - 4) in
            kret (1, Some \<lparr>de_path = QPATH (of_int (i - 4)) (of_int (st_num d)) (qnum Qdiskpart),
              de_isdir = False, de_name = p_name p, de_length = p_size p, de_uid = p_uid p,
              de_perm = p_perm p\<rparr>)))))"

definition bsgen :: "'h bsenv \<Rightarrow> u64 \<Rightarrow> int \<Rightarrow> ('h bs, int \<times> dirent option) kact" where
  "bsgen env path i =
     (case qtype_of path of
        None \<Rightarrow> kraise (Panic ''bsgen on non-dir qid.path'')
      | Some qt \<Rightarrow>
          if i = DEVDOTDOT then
            (if qt = Qdir \<or> qt = Qdiskdir then kret (1, Some (tab_entry (be_eve env) (qnum Qdir) Qdir))
             else kraise (Panic ''devdotdot on non-dir qid.path''))
          else if qt \<in> {Qdir, Qbsctl, Qbsevent} then bsgen_top env i
          else bsgen_disk env path qt i)"

section \<open>Initialisation and registration\<close>

definition bsinit_one :: "'h bsenv \<Rightarrow> int \<Rightarrow> ('h bs, unit) kact" where
  "bsinit_one env num =
     kbind (kget (diskget num)) (\<lambda>r. kbind (klift r) (\<lambda>d.
     case d of
       None \<Rightarrow> kret ()
     | Some i \<Rightarrow>
         kbind (sget i st_ready) (\<lambda>ready.
         if ready \<noteq> 0 then kret ()
         else kcatch (with_store True i (kthen (dv_init (be_ops env i)) (diskinit env i)))
                (\<lambda>e. kret ()))))"

definition bsinit :: "'h bsenv \<Rightarrow> ('h bs, unit) kact" where
  "bsinit env =
     with_bs True
       (kbind (kget bs_maxdisk) (\<lambda>m. kfor [0..m] (bsinit_one env)))"

text \<open>
  Registration of a store.  Growing the table writes \<open>nil\<close> from the old highest index up to the
  new one, the new one excluded.
\<close>

definition zeropad2 :: "int \<Rightarrow> string" where
  "zeropad2 n = (let t = sdec n in if length t < 2 then CHR ''0'' # t else t)"

definition grow_disks :: "int \<Rightarrow> 'h bs \<Rightarrow> 'h bs" where
  "grow_disks num s =
     s\<lparr>bs_disks := map (\<lambda>i. if int i < bs_maxdisk s then bs_disks s ! i else None) [0..<Suc (nat num)],
       bs_maxdisk := num\<rparr>"

definition blockstoreadd :: "'h bsenv \<Rightarrow> store \<Rightarrow> ('h bs, unit) kact" where
  "blockstoreadd env d =
     kthen wlock_bs
     (if 99 < st_num d then kraise (Panic ''bad block store num'')
      else
        kbind (kget (diskget (st_num d))) (\<lambda>r. kbind (klift r) (\<lambda>old.
        if old \<noteq> None then kraise (Panic ''disk.num already registered'')
        else
          kbind (kget bs_maxdisk) (\<lambda>m.
          kthen
            (if m < st_num d then
               (if \<not> be_memok env (nat (st_num d + 1)) then kraise (Panic ''no memory'')
                else kmod (grow_disks (st_num d)))
             else kret ())
          (if st_num d < 0 then kraise (Fault ''bs.disks[d->num]'')
           else
             kthen (kmod (\<lambda>s. s\<lparr>bs_disks := (bs_disks s)[nat (st_num d) :=
                 Some (d\<lparr>st_name := seprint 5 [] (''bs'' @ zeropad2 (st_num d))\<rparr>)]\<rparr>))
             wunlock_bs)))))"

section \<open>File operations\<close>

definition storelock :: "u64 \<Rightarrow> bool" where
  "storelock path \<longleftrightarrow> QTYPE path \<ge> 3"

text \<open>
  The shape of walk, stat and directory reads: the table lock, the store's lock for a path below a
  store, and the kernel's generic helper, which walks the entries with \<open>bsgen\<close>.
\<close>

definition bs_generic :: "u64 \<Rightarrow> ('h bs, 'a) kact \<Rightarrow> ('h bs, 'a) kact" where
  "bs_generic path dev =
     with_bs False
       (if storelock path then kbind (diskfind (QDISK path)) (\<lambda>i. with_store False i dev) else dev)"

definition bswalk :: "u64 \<Rightarrow> ('h bs, 'w) kact \<Rightarrow> ('h bs, 'w) kact" where
  "bswalk path devwalk = bs_generic path devwalk"

definition bsstat :: "u64 \<Rightarrow> ('h bs, int) kact \<Rightarrow> ('h bs, int) kact" where
  "bsstat path devstat = bs_generic path devstat"

text \<open>\<open>p->isopen++\<close>: \<open>p\<close> is nil for the partition with index 0.\<close>

definition part_opened :: "nat \<Rightarrow> int \<Rightarrow> ('h bs, unit) kact" where
  "part_opened i j =
     kbind (sget i (\<lambda>d. d)) (\<lambda>d.
     if p_index (st_parts d ! nat j) = 0 then kraise (Fault ''p->isopen'')
     else supd i (\<lambda>d. d\<lparr>st_parts := (st_parts d)[nat j :=
            (st_parts d ! nat j)\<lparr>p_isopen := i32 (p_isopen (st_parts d ! nat j) + 1)\<rparr>]\<rparr>))"

definition bsopen_store :: "bschan \<Rightarrow> ('h bs, bschan) kact \<Rightarrow> nat \<Rightarrow> ('h bs, bschan) kact" where
  "bsopen_store c devopen i =
     kbind
       (if qtype_of (ch_path c) = Some Qdiskpart then
          kbind (xpartget i (QPART (ch_path c))) (\<lambda>p.
          kthen (kguard (\<not> (p_index p \<noteq> 0 \<and> p_isopen p \<noteq> 0)) Einuse)
          (kbind devopen (\<lambda>c'. kthen (part_opened i (QPART (ch_path c))) (kret c'))))
        else devopen)
       (\<lambda>c. kbind (sget i st_vers) (\<lambda>v. kret (c\<lparr>ch_vers := v\<rparr>)))"

definition bsopen :: "bschan \<Rightarrow> ('h bs, bschan) kact \<Rightarrow> ('h bs, bschan) kact" where
  "bsopen c devopen =
     with_bs False
       (if storelock (ch_path c) then
          kbind (diskfind (QDISK (ch_path c))) (\<lambda>i.
          with_store (qtype_of (ch_path c) = Some Qdiskdir) i (bsopen_store c devopen i))
        else devopen)"

text \<open>The fields of the new status; \<open>None\<close> for the values that mean no change.\<close>

record dirchange =
  dc_uid :: "string option"
  dc_mode :: "u32 option"
  dc_other :: bool

definition bswstat ::
  "'h bsenv \<Rightarrow> (u8 list \<Rightarrow> int \<Rightarrow> dirchange option) \<Rightarrow> u64 \<Rightarrow> u8 list \<Rightarrow> int \<Rightarrow> ('h bs, int) kact" where
  "bswstat env convM2D path dp n =
     kthen (kguard (qtype_of path = Some Qdiskpart) Eperm)
     (case convM2D dp n of
        None \<Rightarrow> kraise (Error Eshortstat)
      | Some dir \<Rightarrow>
          kthen (kguard (\<not> dc_other dir) Eperm)
          (with_disk (QDISK path) True (\<lambda>i.
             kbind (xpartget i 0) (\<lambda>p.
             kthen (if be_iseve env then kret () else klift (be_perm env (p_uid p) (p_perm p) 1))
             (kthen (supd i (\<lambda>d. d\<lparr>st_parts := (st_parts d)[0 := (st_parts d ! 0)
                  \<lparr>p_uid := (case dc_uid dir of Some u \<Rightarrow> u | None \<Rightarrow> p_uid (st_parts d ! 0)),
                   p_perm := (case dc_mode dir of Some m \<Rightarrow> m AND 438 \<comment> \<open>\<open>0666\<close>\<close>
                              | None \<Rightarrow> p_perm (st_parts d ! 0))\<rparr>]\<rparr>))
             (kret n))))))"

definition part_closed :: "bschan \<Rightarrow> nat \<Rightarrow> ('h bs, unit) kact" where
  "part_closed c i =
     kbind (sget i st_vers) (\<lambda>v.
     if ch_vers c = v then
       kbind (xpartget i (QPART (ch_path c))) (\<lambda>p.
       if p_isopen p \<noteq> 1 then kraise (Panic ''devclose on part.isopen != 1'')
       else supd i (\<lambda>d. d\<lparr>st_parts := (st_parts d)[nat (QPART (ch_path c)) :=
              (st_parts d ! nat (QPART (ch_path c)))\<lparr>p_isopen := 0\<rparr>]\<rparr>))
     else kret ())"

definition bsclose :: "bschan \<Rightarrow> ('h bs, unit) kact" where
  "bsclose c =
     kthen
       (if qtype_of (ch_path c) = Some Qdiskpart \<and> ch_open c \<and> QPART (ch_path c) \<noteq> 0 then
          with_disk (QDISK (ch_path c)) True (part_closed c)
        else kret ())
       (if qtype_of (ch_path c) = Some Qdiskraw then
          kmod (\<lambda>s. s\<lparr>bs_aux := (bs_aux s)(ch_id c := None)\<rparr>) else kret ())"

section \<open>Reading\<close>

abbreviation READSTR :: nat where "READSTR \<equiv> 8192"

text \<open>The text of a store's ctl file.\<close>

definition diskctl_text :: "store \<Rightarrow> string" where
  "diskctl_text d =
     (let nl = [CHR 0x0A];
          s = seprint READSTR [] (''devtype '' @ qfmt (st_devtype d) @ nl)
      in if st_ready d = 0 then s
         else
           foldl (\<lambda>s p. seprint READSTR s
               (''part '' @ qfmt (p_name p) @ '' '' @ sdec (p_s p) @ '' '' @ sdec (p_e p) @ nl))
             (seprint READSTR s (''descr '' @ qfmt (st_descr d) @ nl @ ''align ''
                @ udec (unat (st_alignmask d + 1)) @ nl @ ''size '' @ sdec (st_size d) @ nl))
             (drop 1 (st_parts d)))"

text \<open>The check of a non-owner against the permissions of the whole-disk partition.\<close>

definition owner_check :: "'h bsenv \<Rightarrow> nat \<Rightarrow> int \<Rightarrow> ('h bs, unit) kact" where
  "owner_check env i omode =
     (if be_iseve env then kret ()
      else kbind (xpartget i 0) (\<lambda>p. klift (be_perm env (p_uid p) (p_perm p) omode)))"

definition fresh_check :: "bschan \<Rightarrow> nat \<Rightarrow> ('h bs, unit) kact" where
  "fresh_check c i = kbind (sget i st_vers) (\<lambda>v. kguard (ch_vers c = v) Estale)"

definition bsdevread :: "'h bsenv \<Rightarrow> bschan \<Rightarrow> u8 list \<Rightarrow> int \<Rightarrow> ('h bs, int \<times> u8 list) kact" where
  "bsdevread env c buf off =
     (let n = int (length buf) in
      with_disk (QDISK (ch_path c)) False (\<lambda>i.
        kthen (fresh_check c i)
        (case qtype_of (ch_path c) of
           Some Qdiskctl \<Rightarrow>
             if \<not> be_memok env READSTR then kraise (Error Enomem)
             else
               kbind (sget i diskctl_text) (\<lambda>t.
               let r = readstr off n t in kret (int (length r), r @ drop (length r) buf))
         | Some Qdiskdevctl \<Rightarrow>
             kthen (owner_check env i 0)
             (kbind (dv_rctl (be_ops env i) n off) (\<lambda>r.
              kret (int (length r), r @ drop (length r) buf)))
         | Some Qdiskpart \<Rightarrow>
             kbind (xpartget i (QPART (ch_path c))) (\<lambda>p. bs_io env i p False buf n off)
         | _ \<Rightarrow> kraise (Panic ''bsdevread, qtype unhandled''))))"

text \<open>The text of the bsctl file, which is read with the table locked but not the stores.\<close>

definition bsctl_line :: "store \<Rightarrow> string" where
  "bsctl_line d =
     (if st_ready d \<noteq> 0 then
        qfmt (st_name d) @ '', devtype '' @ qfmt (st_devtype d) @ '', size '' @ sdec (st_size d)
          @ '', partitions '' @ sdec (int (length (st_parts d)) - 1) @ [CHR 0x0A]
      else qfmt (st_name d) @ '', devtype '' @ qfmt (st_devtype d) @ [CHR 0x0A])"

definition bsctl_text :: "'h bs \<Rightarrow> exn + string" where
  "bsctl_text s =
     (if int (length (bs_disks s)) \<le> bs_maxdisk s then Inl (Fault ''bs.disks'')
      else Inr (foldl (\<lambda>t d. case d of None \<Rightarrow> t | Some d \<Rightarrow> seprint READSTR t (bsctl_line d)) []
             (take (nat (bs_maxdisk s + 1)) (bs_disks s))))"

definition bsread_raw :: "bschan \<Rightarrow> u8 list \<Rightarrow> int \<Rightarrow> ('h bs, int \<times> u8 list) kact" where
  "bsread_raw c buf off =
     kbind (kget (\<lambda>s. bs_aux s (ch_id c))) (\<lambda>aux.
     case aux of
       None \<Rightarrow> kraise (Error (Emsg ''no command executed''))
     | Some b \<Rightarrow>
         (let off = (if rb_n b < off then rb_n b else off);
              n = int (length buf);
              n = (if rb_n b < i64 (off + n) then i32 (rb_n b - off) else n)
          in case rb_a b of
               None \<Rightarrow> if n = 0 then kret (0, buf) else kraise (Fault ''memmove from b->a'')
             | Some a \<Rightarrow>
                 if off < 0 \<or> n < 0 \<or> int (length a) < off + n then kraise (Fault ''memmove'')
                 else kret (n, take (nat n) (drop (nat off) a) @ drop (nat n) buf)))"

definition bsread ::
  "'h bsenv \<Rightarrow> ('h bs, int \<times> u8 list) kact \<Rightarrow> bschan \<Rightarrow> u8 list \<Rightarrow> int
     \<Rightarrow> ('h bs, int \<times> u8 list) kact" where
  "bsread env devdirread c buf off =
     (case qtype_of (ch_path c) of
        Some Qdir \<Rightarrow> bs_generic (ch_path c) devdirread
      | Some Qdiskdir \<Rightarrow> bs_generic (ch_path c) devdirread
      | Some Qbsctl \<Rightarrow>
          with_bs False
            (kbind (kget bsctl_text) (\<lambda>t. kbind (klift t) (\<lambda>t.
             let r = readstr off (int (length buf)) t in
             kret (int (length r), r @ drop (length r) buf))))
      | Some Qbsevent \<Rightarrow> kraise (Error (Emsg ''not yet''))
      | Some Qdiskctl \<Rightarrow> bsdevread env c buf off
      | Some Qdiskdevctl \<Rightarrow> bsdevread env c buf off
      | Some Qdiskpart \<Rightarrow> bsdevread env c buf off
      | Some Qdiskevent \<Rightarrow> kraise (Error (Emsg ''not yet''))
      | Some Qdiskraw \<Rightarrow> bsread_raw c buf off
      | None \<Rightarrow> kret (0, buf))"

section \<open>Writing\<close>

definition bswrite_raw :: "'h bsenv \<Rightarrow> bschan \<Rightarrow> u8 list \<Rightarrow> int \<Rightarrow> nat \<Rightarrow> ('h bs, int) kact" where
  "bswrite_raw env c buf off i =
     kbind (sget i st_ready) (\<lambda>ready.
     kthen (kguard (ready \<noteq> 0) Enodisk)
     (kthen (owner_check env i 1)
     (case dv_raw (be_ops env i) of
        None \<Rightarrow> kraise (Error (Emsg ''raw commands not implemented by device''))
      | Some raw \<Rightarrow>
          kthen (kmod (\<lambda>s. s\<lparr>bs_aux := (bs_aux s)(ch_id c :=
              (case bs_aux s (ch_id c) of
                 Some b \<Rightarrow> Some (b\<lparr>rb_a := None\<rparr>)
               | None \<Rightarrow> Some \<lparr>rb_n = 0, rb_a = None\<rparr>))\<rparr>))
          (kbind (raw buf off) (\<lambda>(m, a).
           kthen (kmod (\<lambda>s. s\<lparr>bs_aux := (bs_aux s)(ch_id c := Some \<lparr>rb_n = m, rb_a = a\<rparr>)\<rparr>))
           (kret (if m < 0 then m else int (length buf))))))))"

definition bsdevwrite :: "'h bsenv \<Rightarrow> bschan \<Rightarrow> u8 list \<Rightarrow> int \<Rightarrow> ('h bs, int) kact" where
  "bsdevwrite env c buf off =
     with_disk (QDISK (ch_path c)) False (\<lambda>i.
       kthen (fresh_check c i)
       (case qtype_of (ch_path c) of
          Some Qdiskdevctl \<Rightarrow>
            kthen (kguard (off = 0) Ebadarg)
            (kthen (owner_check env i 1) (dv_wctl (be_ops env i) buf))
        | Some Qdiskraw \<Rightarrow> bswrite_raw env c buf off i
        | Some Qdiskpart \<Rightarrow>
            kbind (xpartget i (QPART (ch_path c))) (\<lambda>p.
            kbind (bs_io env i p True buf (int (length buf)) off) (\<lambda>(xn, b). kret xn))
        | _ \<Rightarrow> kraise (Panic ''bsdevwrite, qtype unhandled'')))"

definition bsctl :: "(nat \<times> string \<times> nat) list" where
  "bsctl = [(0, ''init'', 2)]"

definition bsdiskctl :: "(nat \<times> string \<times> nat) list" where
  "bsdiskctl = [(0, ''init'', 1), (1, ''partinit'', 1)]"

definition bswrite_bsctl :: "'h bsenv \<Rightarrow> u8 list \<Rightarrow> ('h bs, unit) kact" where
  "bswrite_bsctl env buf =
     kthen (kguard (be_iseve env) Eperm)
     (with_bs True
       (kbind (klift (be_parsecmd env buf)) (\<lambda>f.
        kbind (klift (lookupcmd bsctl f)) (\<lambda>ct.
        kbind (diskfind (atoi (f ! 1))) (\<lambda>i. with_store True i (diskinit env i))))))"

definition repartition :: "'h bsenv \<Rightarrow> nat \<Rightarrow> ('h bs, unit) kact" where
  "repartition env i =
     kbind (sget i st_ready) (\<lambda>ready.
     kthen (kguard (ready \<noteq> 0) Enodisk)
     (if \<not> be_memok env 1 then kraise (Fault ''d->parts'')
      else
        kthen (supd i (\<lambda>d. d\<lparr>st_parts := take 1 (st_parts d), st_vers := i32 (st_vers d + 1)\<rparr>))
          (scan_parts env i)))"

definition bswrite_diskctl :: "'h bsenv \<Rightarrow> bschan \<Rightarrow> u8 list \<Rightarrow> ('h bs, unit) kact" where
  "bswrite_diskctl env c buf =
     with_bs True
       (kbind (diskfind (QDISK (ch_path c))) (\<lambda>i.
        with_store True i
          (kthen (fresh_check c i)
          (kthen (owner_check env i 1)
          (kbind (klift (be_parsecmd env buf)) (\<lambda>f.
           kbind (klift (lookupcmd bsdiskctl f)) (\<lambda>ct.
           if ct = 0 then diskinit env i else repartition env i)))))))"

definition bswrite :: "'h bsenv \<Rightarrow> bschan \<Rightarrow> u8 list \<Rightarrow> int \<Rightarrow> ('h bs, int) kact" where
  "bswrite env c buf off =
     (case qtype_of (ch_path c) of
        Some Qbsctl \<Rightarrow> kthen (bswrite_bsctl env buf) (kret (int (length buf)))
      | Some Qbsevent \<Rightarrow> kraise (Error (Emsg ''not yet''))
      | Some Qdiskctl \<Rightarrow> kthen (bswrite_diskctl env c buf) (kret (int (length buf)))
      | Some Qdiskdevctl \<Rightarrow> bsdevwrite env c buf off
      | Some Qdiskraw \<Rightarrow> bsdevwrite env c buf off
      | Some Qdiskpart \<Rightarrow> bsdevwrite env c buf off
      | _ \<Rightarrow> kraise (Error Ebadusefd))"

section \<open>The locks\<close>

definition bs_locks :: "'h bs \<Rightarrow> rwlock \<times> (nat \<Rightarrow> rwlock)" where
  "bs_locks s = (bs_lock s, bs_slocks s)"

interpretation bs_table: rw_lens bs_lock put_bslock bs_locks
  by unfold_locales (simp_all add: put_bslock_def bs_locks_def)

interpretation bs_store: rw_lens "get_slock i" "put_slock i" bs_locks for i
  by unfold_locales (simp_all add: put_slock_def get_slock_def bs_locks_def)

interpretation bs_any: lock_pair "lock_d wl i" "unlock_d wl i" bs_locks for wl i
proof (unfold_locales, goal_cases)
  case (1 s)
  then show ?case
    using bs_store.reader.acq_run [of i s] bs_store.writer.acq_run [of i s]
    by (cases wl) (simp_all add: lock_d_def)
next
  case (2 s s1 s2)
  then show ?case
    using bs_store.reader.rel_undoes [of i s s1 s2] bs_store.writer.rel_undoes [of i s s1 s2]
    by (cases wl) (simp_all add: lock_d_def unlock_d_def)
qed

lemma with_bs_balanced [balanced_rule]: "balanced bs_locks m \<Longrightarrow> balanced bs_locks (with_bs wl m)"
  unfolding with_bs_def
  by (cases wl) (simp_all add: bs_table.reader.bracket_balanced bs_table.writer.bracket_balanced)

lemma with_store_balanced [balanced_rule]:
  "balanced bs_locks m \<Longrightarrow> balanced bs_locks (with_store wl i m)"
  unfolding with_store_def by (rule bs_any.bracket_balanced)

text \<open>
  \<open>diskgetlock\<close> takes the store's lock while it holds the table's: on success only the store's lock
  is held afterwards, so it is the acquire of a bracket.
\<close>

lemma diskgetlock_run:
  assumes "diskgetlock num wl s = (Inr i, s')"
  shows "lock_d wl i s = (Inr (), s')"
proof -
  from assms have free: "\<not> rw_writer (bs_lock s)"
    by (auto simp: diskgetlock_def kthen_def kbind_def rlock_def)
  let ?s1 = "put_bslock ((bs_lock s)\<lparr>rw_readers := Suc (rw_readers (bs_lock s))\<rparr>) s"
  have rl: "rlock bs_lock put_bslock s = (Inr (), ?s1)" using free by (simp add: rlock_def)
  have slock: "lock_d wl k ?s1
      = (fst (lock_d wl k s), put_bslock ((bs_lock s)\<lparr>rw_readers := Suc (rw_readers (bs_lock s))\<rparr>)
           (snd (lock_d wl k s)))" for k
    by (simp add: lock_d_def rlock_def wlock_def get_slock_def put_slock_def put_bslock_def)
  from assms rl obtain k where run: "lock_d wl k ?s1 = (Inr (), put_bslock
        ((bs_lock s)\<lparr>rw_readers := Suc (rw_readers (bs_lock s))\<rparr>) (snd (lock_d wl k s)))"
    "fst (lock_d wl k s) = Inr ()" "i = k"
    and s': "(Inr (), s') = runlock bs_lock put_bslock (put_bslock
        ((bs_lock s)\<lparr>rw_readers := Suc (rw_readers (bs_lock s))\<rparr>) (snd (lock_d wl k s)))"
    by (auto simp: diskgetlock_def kthen_def kbind_def slock split: option.splits sum.splits prod.splits)
  have "bs_lock (snd (lock_d wl k s)) = bs_lock s"
    by (simp add: lock_d_def rlock_def wlock_def put_slock_def)
  then have "s' = snd (lock_d wl k s)"
    using s' by (simp add: runlock_def put_bslock_def)
  with run show ?thesis by (metis prod.collapse)
qed

lemma diskgetlock_error: "diskgetlock num wl s = (Inl (Error e), s') \<Longrightarrow> s' = s \<and> e = Enodisk"
proof -
  assume run: "diskgetlock num wl s = (Inl (Error e), s')"
  then have free: "\<not> rw_writer (bs_lock s)"
    by (auto simp: diskgetlock_def kthen_def kbind_def rlock_def)
  have blocked: "lock_d wl k t \<noteq> (Inl (Error e), u)" for k t u
    by (simp add: lock_d_def rlock_def wlock_def)
  from run free blocked show ?thesis
    by (auto simp: diskgetlock_def kthen_def kbind_def rlock_def runlock_def put_bslock_def
        diskget_def split: option.splits sum.splits prod.splits if_splits)
qed

lemma with_disk_run:
  "with_disk num wl body s =
     (case diskgetlock num wl s of
        (Inr i, s') \<Rightarrow> kbracket (lock_d wl i) (unlock_d wl i) (body i) s
      | (Inl e, s') \<Rightarrow> (Inl e, s'))"
proof (cases "diskgetlock num wl s")
  case (Pair r s')
  show ?thesis
  proof (cases r)
    case (Inl e)
    with Pair show ?thesis by (simp add: with_disk_def kbind_def)
  next
    case (Inr i)
    with Pair have "lock_d wl i s = (Inr (), s')" by (auto dest: diskgetlock_run)
    with Pair Inr show ?thesis by (simp add: with_disk_def kbracket_def kbind_def kthen_def)
  qed
qed

lemma with_disk_balanced [balanced_rule]:
  assumes "\<And>i. balanced bs_locks (body i)"
  shows "balanced bs_locks (with_disk num wl body)"
proof -
  have "bs_locks s' = bs_locks s"
    if "with_disk num wl body s = (r, s')" "(\<exists>x. r = Inr x) \<or> (\<exists>e. r = Inl (Error e))" for s r s'
  proof (cases "diskgetlock num wl s")
    case (Pair q t)
    show ?thesis
    proof (cases q)
      case (Inl e)
      with Pair that have "r = Inl e" "s' = t" by (simp_all add: with_disk_run)
      with that(2) Pair Inl show ?thesis by (auto dest: diskgetlock_error)
    next
      case (Inr i)
      with Pair that(1) have "kbracket (lock_d wl i) (unlock_d wl i) (body i) s = (r, s')"
        by (simp add: with_disk_run)
      with bs_any.bracket_balanced [OF assms, of wl i] that(2) show ?thesis
        unfolding balanced_def by blast
    qed
  qed
  then show ?thesis unfolding balanced_def by blast
qed

lemma supd_balanced [balanced_rule]: "balanced bs_locks (supd i f)"
  unfolding supd_def by (rule balanced_mod) (simp add: bs_locks_def)

lemma sget_balanced [balanced_rule]: "balanced bs_locks (sget i f)"
  unfolding sget_def by (rule balanced_prim)

lemma aux_balanced [balanced_rule]: "balanced bs_locks (kmod (\<lambda>s. s\<lparr>bs_aux := f s\<rparr>))"
  by (rule balanced_mod) (simp add: bs_locks_def)

section \<open>The invariant of the stores\<close>

text \<open>
  A store that is ready has a whole-disk partition that starts at 0 and has the size of the
  device, which is a multiple of the alignment.
\<close>

definition store_ok :: "store \<Rightarrow> bool" where
  "store_ok d \<longleftrightarrow> (st_ready d \<noteq> 0 \<longrightarrow>
     st_parts d \<noteq> [] \<and> p_s (hd (st_parts d)) = 0 \<and> p_size (hd (st_parts d)) = st_size d \<and>
     p_index (hd (st_parts d)) = 0 \<and> st_size d AND uint (st_alignmask d) = 0)"

definition bs_inv :: "'h bs \<Rightarrow> bool" where
  "bs_inv s \<longleftrightarrow> (\<forall>d. Some d \<in> set (bs_disks s) \<longrightarrow> store_ok d)"

lemma supd_inv:
  assumes "\<And>d. store_ok d \<Longrightarrow> store_ok (f d)"
  shows "kinv bs_inv (supd i f)"
proof (rule kinvI)
  fix s r s'
  assume inv: "bs_inv s" and "supd i f s = (r, s')"
  then have s': "bs_disks s' = (bs_disks s)[i := map_option f (bs_disks s ! i)]"
    by (auto simp: supd_def)
  show "bs_inv s'"
    unfolding bs_inv_def
  proof (intro allI impI)
    fix d
    assume d: "Some d \<in> set (bs_disks s')"
    show "store_ok d"
    proof (cases "i < length (bs_disks s)")
      case False
      with s' have "bs_disks s' = bs_disks s" by (simp add: list_update_beyond)
      with d inv show ?thesis by (simp add: bs_inv_def)
    next
      case True
      from d s' have "Some d \<in> insert (map_option f (bs_disks s ! i)) (set (bs_disks s))"
        using set_update_subset_insert by fastforce
      then consider e where "bs_disks s ! i = Some e" "d = f e" | "Some d \<in> set (bs_disks s)"
        by (cases "bs_disks s ! i") auto
      then show ?thesis
      proof cases
        case 1
        with True have "Some e \<in> set (bs_disks s)" by (metis nth_mem)
        with inv 1 assms show ?thesis by (auto simp: bs_inv_def)
      qed (use inv in \<open>simp add: bs_inv_def\<close>)
    qed
  qed
qed

lemma sget_inv [kinv_rule]: "kinv I (sget i f)"
  unfolding sget_def by (rule kinv_prim)

text \<open>Locks and raw buffers are not part of the invariant.\<close>

lemma lock_inv [kinv_rule]:
  "kinv bs_inv rlock_bs" "kinv bs_inv runlock_bs" "kinv bs_inv wlock_bs" "kinv bs_inv wunlock_bs"
  "kinv bs_inv (rlock_d i)" "kinv bs_inv (runlock_d i)" "kinv bs_inv (wlock_d i)"
  "kinv bs_inv (wunlock_d i)"
  by (auto simp: kinv_def bs_inv_def rlock_def runlock_def wlock_def wunlock_def put_bslock_def
      put_slock_def)

lemma lock_d_inv [kinv_rule]: "kinv bs_inv (lock_d wl i)" "kinv bs_inv (unlock_d wl i)"
  by (simp_all add: lock_d_def unlock_d_def kinv_rule)

lemma aux_inv [kinv_rule]: "kinv bs_inv (kmod (\<lambda>s. s\<lparr>bs_aux := f s\<rparr>))"
  by (rule kinv_mod) (simp add: bs_inv_def)

lemma bracket_inv [kinv_rule]:
  "kinv bs_inv a \<Longrightarrow> kinv bs_inv r \<Longrightarrow> kinv bs_inv m \<Longrightarrow> kinv bs_inv (kbracket a r m)"
  unfolding kbracket_def by (intro kinv_rule)

lemma with_bs_inv [kinv_rule]: "kinv bs_inv m \<Longrightarrow> kinv bs_inv (with_bs wl m)"
  unfolding with_bs_def by (intro kinv_rule)

lemma with_store_inv [kinv_rule]: "kinv bs_inv m \<Longrightarrow> kinv bs_inv (with_store wl i m)"
  unfolding with_store_def by (intro kinv_rule)

lemma with_disk_inv [kinv_rule]:
  "(\<And>i. kinv bs_inv (b i)) \<Longrightarrow> kinv bs_inv (with_disk num wl b)"
  unfolding with_disk_def diskgetlock_def by (intro kinv_rule)

section \<open>Interface: the driver of a store\<close>

text \<open>
  What this device asks of a driver: its functions release what they lock; input, output and
  control leave the table of stores alone; \<open>init\<close> keeps the invariant, and so does \<open>devinit\<close>, which
  sets the size and the description of the store, as long as the store is marked as not ready.
\<close>

definition not_ready :: "nat \<Rightarrow> 'h bs \<Rightarrow> bool" where
  "not_ready i s \<longleftrightarrow> (\<forall>d. bs_disks s ! i = Some d \<longrightarrow> i < length (bs_disks s) \<longrightarrow> st_ready d = 0)"

locale bs_driver =
  fixes env :: "'h bsenv"
  assumes init_locks: "balanced bs_locks (dv_init (be_ops env i))"
    and devinit_locks: "balanced bs_locks (dv_devinit (be_ops env i))"
    and rctl_locks: "balanced bs_locks (dv_rctl (be_ops env i) n off)"
    and wctl_locks: "balanced bs_locks (dv_wctl (be_ops env i) buf)"
    and io_locks: "balanced bs_locks (dv_io (be_ops env i) w buf off)"
    and raw_locks: "dv_raw (be_ops env i) = Some raw \<Longrightarrow> balanced bs_locks (raw buf off)"
    and init_keeps: "kinv bs_inv (dv_init (be_ops env i))"
    and devinit_keeps: "bs_inv s \<Longrightarrow> not_ready i s \<Longrightarrow> bs_inv (snd (dv_devinit (be_ops env i) s))"
    and rctl_disks: "bs_disks (snd (dv_rctl (be_ops env i) n off s)) = bs_disks s"
    and wctl_disks: "bs_disks (snd (dv_wctl (be_ops env i) buf s)) = bs_disks s"
    and io_disks: "bs_disks (snd (dv_io (be_ops env i) w buf off s)) = bs_disks s"
    and raw_disks: "dv_raw (be_ops env i) = Some raw \<Longrightarrow> bs_disks (snd (raw buf off s)) = bs_disks s"
begin

lemma io_keeps: "kinv bs_inv (dv_io (be_ops env i) w buf off)"
  by (auto simp: kinv_def bs_inv_def io_disks)

lemma rctl_keeps: "kinv bs_inv (dv_rctl (be_ops env i) n off)"
  by (auto simp: kinv_def bs_inv_def rctl_disks)

lemma wctl_keeps: "kinv bs_inv (dv_wctl (be_ops env i) buf)"
  by (auto simp: kinv_def bs_inv_def wctl_disks)

lemma raw_keeps: "dv_raw (be_ops env i) = Some raw \<Longrightarrow> kinv bs_inv (raw buf off)"
  by (auto simp: kinv_def bs_inv_def raw_disks)

lemma reader_locks: "balanced bs_locks (disk_reader (be_ops env i) n off)"
  unfolding disk_reader_def by (intro balanced_rule io_locks)

lemma reader_disks: "kinv (\<lambda>s. bs_disks s = D) (disk_reader (be_ops env i) n off)"
proof -
  have "kinv (\<lambda>s. bs_disks s = D) (dv_io (be_ops env i) w buf off)" for w buf
    by (simp add: kinv_def io_disks)
  then show ?thesis unfolding disk_reader_def by (intro kinv_rule)
qed

lemma scan_locks: "balanced bs_locks (scan_parts env i)"
  unfolding scan_parts_def by (intro balanced_rule partinit_balanced reader_locks)

lemma scan_keeps: "kinv bs_inv (scan_parts env i)"
proof (rule kinvI)
  fix s r s'
  assume inv: "bs_inv s" and run: "scan_parts env i s = (r, s')"
  let ?d = "the (bs_disks s ! i)"
  let ?scan = "partinit (be_fuel env) (be_memok env) (be_eve env) (disk_reader (be_ops env i))
    (st_size ?d) (hd (st_parts ?d))"
  obtain q t where scan: "?scan s = (q, t)" by (cases "?scan s")
  have "kinv (\<lambda>u. bs_disks u = bs_disks s) ?scan" by (intro partinit_kinv reader_disks)
  with scan have t: "bs_disks t = bs_disks s" by (auto dest: kinvD)
  show "bs_inv s'"
  proof (cases q)
    case (Inl e)
    with run scan have "s' = t" by (simp add: scan_parts_def sget_def kbind_def)
    with inv t show ?thesis by (simp add: bs_inv_def)
  next
    case (Inr parts)
    with scan have hd: "parts \<noteq> []" "hd parts = hd (st_parts ?d)" by (auto dest: partinit_hd)
    have s': "s' = snd (supd i (\<lambda>d. d\<lparr>st_parts := parts\<rparr>) t)"
      using run scan Inr by (simp add: scan_parts_def sget_def kbind_def)
    have "bs_disks s' = (bs_disks s)[i := map_option (\<lambda>d. d\<lparr>st_parts := parts\<rparr>) (bs_disks s ! i)]"
      by (simp add: s' supd_def t)
    also have "\<dots> = bs_disks (snd (supd i (\<lambda>d. if d = ?d then d\<lparr>st_parts := parts\<rparr> else d) s))"
      by (cases "bs_disks s ! i") (simp_all add: supd_def)
    finally have same: "bs_disks s' = \<dots>" .
    have "bs_inv (snd (supd i (\<lambda>d. if d = ?d then d\<lparr>st_parts := parts\<rparr> else d) s))"
      by (rule kinv_snd [OF supd_inv inv]) (use hd in \<open>auto simp: store_ok_def\<close>)
    then show ?thesis by (simp add: bs_inv_def same)
  qed
qed

lemma diskinit_locks: "balanced bs_locks (diskinit env i)"
  unfolding diskinit_def by (intro balanced_rule devinit_locks scan_locks)

lemma mark_ready_keeps:
  assumes "kinv bs_inv m"
  shows "kinv bs_inv (kbind (sget i (\<lambda>d. d)) (\<lambda>d.
      kthen (kguard (st_size d AND uint (st_alignmask d) = 0) e)
      (if c then kraise x
       else kthen (supd i (\<lambda>d. d\<lparr>st_parts := [partdata eve (st_size d)], st_ready := 1\<rparr>)) m)))"
    (is "kinv bs_inv ?m")
proof (rule kinvI)
  fix s r s'
  assume inv: "bs_inv s" and run: "?m s = (r, s')"
  let ?d = "the (bs_disks s ! i)"
  let ?f = "\<lambda>d. d\<lparr>st_parts := [partdata eve (st_size d)], st_ready := 1\<rparr>"
  show "bs_inv s'"
  proof (cases "st_size ?d AND uint (st_alignmask ?d) = 0 \<and> \<not> c")
    case False
    with run have "s' = s" by (auto simp: sget_def split: if_splits)
    with inv show ?thesis by simp
  next
    case True
    let ?t = "snd (supd i ?f s)"
    have "bs_disks ?t = bs_disks (snd (supd i (\<lambda>d. if d = ?d then ?f d else d) s))"
      by (cases "bs_disks s ! i") (simp_all add: supd_def)
    moreover have "bs_inv (snd (supd i (\<lambda>d. if d = ?d then ?f d else d) s))"
      by (rule kinv_snd [OF supd_inv inv]) (use True in \<open>auto simp: store_ok_def partdata_def\<close>)
    ultimately have "bs_inv ?t" by (simp add: bs_inv_def)
    moreover have "m ?t = (r, s')"
      using run True by (simp add: sget_def supd_def)
    ultimately show ?thesis using assms by (auto dest: kinvD)
  qed
qed

end

context bs_driver begin

lemma diskinit_keeps: "kinv bs_inv (diskinit env i)"
proof (rule kinvI)
  fix s r s'
  assume inv: "bs_inv s" and run: "diskinit env i s = (r, s')"
  let ?f = "\<lambda>d. d\<lparr>st_ready := 0, st_parts := [], st_vers := i32 (st_vers d + 1)\<rparr>"
  let ?t = "snd (supd i ?f s)"
  let ?rest = "kbind (sget i (\<lambda>d. d)) (\<lambda>d.
      kthen (kguard (st_size d AND uint (st_alignmask d) = 0) (Emsg ''misaligned size''))
      (if \<not> be_memok env 1 then kraise (Fault ''d->parts'')
       else
         kthen (supd i (\<lambda>d. d\<lparr>st_parts := [partdata (be_eve env) (st_size d)], st_ready := 1\<rparr>))
           (kcatch (scan_parts env i) (\<lambda>e. kret ()))))"
  have t: "bs_inv ?t" by (rule kinv_snd [OF supd_inv inv]) (simp add: store_ok_def)
  have "not_ready i ?t" by (cases "bs_disks s ! i") (auto simp: not_ready_def supd_def)
  with t have u: "bs_inv (snd (dv_devinit (be_ops env i) ?t))" by (rule devinit_keeps)
  have rest: "kinv bs_inv ?rest" by (intro mark_ready_keeps kinv_catch scan_keeps kinv_prim)
  obtain q v where dv: "dv_devinit (be_ops env i) ?t = (q, v)" by (cases "dv_devinit (be_ops env i) ?t")
  have "diskinit env i s = kthen (dv_devinit (be_ops env i)) ?rest ?t"
    by (simp add: diskinit_def supd_def)
  with run dv u rest show "bs_inv s'"
    by (cases q) (auto simp: kthen_def kbind_def dest: kinvD)
qed

lemma bs_io_locks: "balanced bs_locks (bs_io env i p w buf n off)"
  unfolding bs_io_def by (intro balanced_rule io_locks)

lemma bs_io_keeps: "kinv bs_inv (bs_io env i p w buf n off)"
  unfolding bs_io_def by (intro kinv_rule io_keeps)

lemma xpartget_locks: "balanced bs_locks (xpartget i j)"
  unfolding xpartget_def by (intro balanced_rule)

lemma xpartget_keeps: "kinv bs_inv (xpartget i j)"
  unfolding xpartget_def by (intro kinv_rule)

lemma checks_locks: "balanced bs_locks (owner_check env i m)" "balanced bs_locks (fresh_check c i)"
  "balanced bs_locks (diskfind num)"
  unfolding owner_check_def fresh_check_def diskfind_def
  by (intro balanced_rule xpartget_locks)+

lemma checks_keep: "kinv bs_inv (owner_check env i m)" "kinv bs_inv (fresh_check c i)"
  "kinv bs_inv (diskfind num)"
  unfolding owner_check_def fresh_check_def diskfind_def
  by (intro kinv_rule xpartget_keeps)+

lemma bsinit_locks: "balanced bs_locks (bsinit env)"
  unfolding bsinit_def bsinit_one_def by (intro balanced_rule init_locks diskinit_locks)

lemma bsinit_keeps: "kinv bs_inv (bsinit env)"
  unfolding bsinit_def bsinit_one_def by (intro kinv_rule init_keeps diskinit_keeps)

lemma devread_locks: "balanced bs_locks (bsdevread env c buf off)"
  unfolding bsdevread_def Let_def
  by (intro balanced_rule checks_locks)
    (auto split: option.split qtype.split
      intro!: balanced_rule checks_locks xpartget_locks bs_io_locks rctl_locks)

lemma devread_keeps: "kinv bs_inv (bsdevread env c buf off)"
  unfolding bsdevread_def Let_def
  by (intro kinv_rule checks_keep)
    (auto split: option.split qtype.split
      intro!: kinv_rule checks_keep xpartget_keeps bs_io_keeps rctl_keeps)

lemma raw_write_locks: "balanced bs_locks (bswrite_raw env c buf off i)"
  unfolding bswrite_raw_def by (intro balanced_rule checks_locks raw_locks)

lemma raw_write_keeps: "kinv bs_inv (bswrite_raw env c buf off i)"
  unfolding bswrite_raw_def by (intro kinv_rule checks_keep raw_keeps)

lemma devwrite_locks: "balanced bs_locks (bsdevwrite env c buf off)"
  unfolding bsdevwrite_def
  by (intro balanced_rule checks_locks)
    (auto split: option.split qtype.split intro!: balanced_rule checks_locks xpartget_locks
      bs_io_locks wctl_locks raw_write_locks)

lemma devwrite_keeps: "kinv bs_inv (bsdevwrite env c buf off)"
  unfolding bsdevwrite_def
  by (intro kinv_rule checks_keep)
    (auto split: option.split qtype.split intro!: kinv_rule checks_keep xpartget_keeps
      bs_io_keeps wctl_keeps raw_write_keeps)

lemma repartition_locks: "balanced bs_locks (repartition env i)"
  unfolding repartition_def by (intro balanced_rule scan_locks)

lemma repartition_keeps: "kinv bs_inv (repartition env i)"
  unfolding repartition_def
  by (intro kinv_rule scan_keeps supd_inv) (auto simp: store_ok_def)

lemma write_locks: "balanced bs_locks (bswrite env c buf off)"
  unfolding bswrite_def bswrite_bsctl_def bswrite_diskctl_def
  by (auto split: option.split qtype.split intro!: balanced_rule checks_locks diskinit_locks
      repartition_locks devwrite_locks)

lemma write_keeps: "kinv bs_inv (bswrite env c buf off)"
  unfolding bswrite_def bswrite_bsctl_def bswrite_diskctl_def
  by (auto split: option.split qtype.split intro!: kinv_rule checks_keep diskinit_keeps
      repartition_keeps devwrite_keeps)

lemma generic_locks: "balanced bs_locks dev \<Longrightarrow> balanced bs_locks (bs_generic path dev)"
  unfolding bs_generic_def by (intro balanced_rule checks_locks)

lemma generic_keeps: "kinv bs_inv dev \<Longrightarrow> kinv bs_inv (bs_generic path dev)"
  unfolding bs_generic_def by (intro kinv_rule checks_keep)

lemma read_locks: "balanced bs_locks dev \<Longrightarrow> balanced bs_locks (bsread env dev c buf off)"
  unfolding bsread_def bsread_raw_def Let_def
  by (auto split: option.split qtype.split intro!: balanced_rule generic_locks devread_locks)

lemma read_keeps: "kinv bs_inv dev \<Longrightarrow> kinv bs_inv (bsread env dev c buf off)"
  unfolding bsread_def bsread_raw_def Let_def
  by (auto split: option.split qtype.split intro!: kinv_rule generic_keeps devread_keeps)

lemma open_locks: "balanced bs_locks dev \<Longrightarrow> balanced bs_locks (bsopen c dev)"
  unfolding bsopen_def bsopen_store_def part_opened_def
  by (intro balanced_rule checks_locks xpartget_locks)

lemma part_update_ok:
  assumes "store_ok d" and "p_s p' = p_s (st_parts d ! j)" "p_size p' = p_size (st_parts d ! j)"
    "p_index p' = p_index (st_parts d ! j)"
  shows "store_ok (d\<lparr>st_parts := (st_parts d)[j := p']\<rparr>)"
  using assms by (cases j; cases "st_parts d") (auto simp: store_ok_def)

lemma open_keeps: "kinv bs_inv dev \<Longrightarrow> kinv bs_inv (bsopen c dev)"
  unfolding bsopen_def bsopen_store_def part_opened_def
  by (intro kinv_rule checks_keep xpartget_keeps supd_inv part_update_ok) simp_all

lemma close_locks: "balanced bs_locks (bsclose c)"
  unfolding bsclose_def part_closed_def by (intro balanced_rule xpartget_locks)

lemma close_keeps: "kinv bs_inv (bsclose c)"
  unfolding bsclose_def part_closed_def
  by (intro kinv_rule xpartget_keeps supd_inv part_update_ok) simp_all

lemma wstat_locks: "balanced bs_locks (bswstat env conv path dp n)"
  unfolding bswstat_def by (intro balanced_rule xpartget_locks)

lemma wstat_keeps: "kinv bs_inv (bswstat env conv path dp n)"
  unfolding bswstat_def by (intro kinv_rule xpartget_keeps supd_inv part_update_ok) simp_all

end

section \<open>A driver for a disk in memory\<close>

definition ram_io :: "bool \<Rightarrow> u8 list \<Rightarrow> int \<Rightarrow> (u8 list bs, int \<times> u8 list) kact" where
  "ram_io w buf off s =
     (let n = length buf in
      if off < 0 \<or> length (bs_hw s) < nat off + n then (Inl (Error (Emsg ''i/o error'')), s)
      else if w then
        (Inr (int n, buf), s\<lparr>bs_hw := take (nat off) (bs_hw s) @ buf @ drop (nat off + n) (bs_hw s)\<rparr>)
      else (Inr (int n, take n (drop (nat off) (bs_hw s))), s))"

definition ram_ops :: "u8 list devops" where
  "ram_ops = \<lparr>dv_init = kret (), dv_devinit = kret (), dv_rctl = (\<lambda>n off. kret []),
     dv_wctl = (\<lambda>b. kret (int (length b))), dv_io = ram_io, dv_raw = None\<rparr>"

definition ram_env :: "u8 list bsenv" where
  "ram_env = \<lparr>be_eve = ''eve'', be_iseve = True, be_perm = (\<lambda>_ _ _. Inr ()), be_memok = (\<lambda>_. True),
     be_fuel = 16, be_parsecmd = (\<lambda>b. Inr (tokenize 4 (cstr b))), be_ops = (\<lambda>i. ram_ops)\<rparr>"

text \<open>One ready store of eight sectors with a second partition over sectors 2 to 5.\<close>

definition ram_part :: part where
  "ram_part = (partclear ''eve'' 1)\<lparr>p_typ := Some 0x39, p_name := ''plan9'', p_s := 1024,
     p_e := 3072, p_size := 2048\<rparr>"

definition ram_store :: store where
  "ram_store = \<lparr>st_vers = 1, st_ready = 1, st_num = 0, st_name = ''bs00'', st_alignmask = 511,
     st_descr = ''ram'', st_devtype = ''ram'', st_parts = [partdata ''eve'' 4096, ram_part],
     st_size = 4096\<rparr>"

definition ram_bs :: "u8 list bs" where
  "ram_bs = \<lparr>bs_lock = rw_free, bs_slocks = (\<lambda>_. rw_free), bs_disks = [Some ram_store],
     bs_maxdisk = 0, bs_aux = (\<lambda>_. None), bs_hw = replicate 1024 0 @ replicate 3072 7\<rparr>"

lemma ram_io_frame: "bs_disks (snd (ram_io w buf off s)) = bs_disks s"
  "bs_locks (snd (ram_io w buf off s)) = bs_locks s"
  by (auto simp: ram_io_def Let_def bs_locks_def)

lemma ram_driver: "bs_driver ram_env"
proof -
  have "balanced bs_locks (ram_io w buf off)" for w buf off
    unfolding balanced_def by (metis ram_io_frame(2) snd_conv)
  then show ?thesis
    by unfold_locales
      (simp_all add: ram_env_def ram_ops_def ram_io_frame balanced_rule kinv_rule)
qed

section \<open>Properties\<close>

text \<open>
  Locks.  With a driver that keeps its side of the contract, every operation of the device,
  from initialisation to reads and writes of every kind of file, returns or raises an error with
  the table lock and all store locks as it found them.
\<close>

theorem bs_ops_balanced:
  assumes "bs_driver env" and "balanced bs_locks dev" and "balanced bs_locks open_dev"
    and "balanced bs_locks rd"
  shows "balanced bs_locks (bsinit env) \<and> balanced bs_locks (bs_generic path dev) \<and>
    balanced bs_locks (bsopen c open_dev) \<and> balanced bs_locks (bsclose c) \<and>
    balanced bs_locks (bswstat env conv path dp n) \<and> balanced bs_locks (bsread env rd c buf off) \<and>
    balanced bs_locks (bswrite env c buf off)"
proof (intro conjI)
  show "balanced bs_locks (bsinit env)" by (rule bs_driver.bsinit_locks [OF assms(1)])
  show "balanced bs_locks (bs_generic path dev)"
    by (rule bs_driver.generic_locks [OF assms(1,2)])
  show "balanced bs_locks (bsopen c open_dev)" by (rule bs_driver.open_locks [OF assms(1,3)])
  show "balanced bs_locks (bsclose c)" by (rule bs_driver.close_locks [OF assms(1)])
  show "balanced bs_locks (bswstat env conv path dp n)" by (rule bs_driver.wstat_locks [OF assms(1)])
  show "balanced bs_locks (bsread env rd c buf off)" by (rule bs_driver.read_locks [OF assms(1,4)])
  show "balanced bs_locks (bswrite env c buf off)" by (rule bs_driver.write_locks [OF assms(1)])
qed

theorem bs_ops_balanced_witness:
  "\<forall>c buf off. balanced bs_locks (bswrite ram_env c buf off)"
proof (intro allI)
  fix c buf off
  have "balanced bs_locks (kret (0::int) :: (u8 list bs, int) kact)"
    "balanced bs_locks (kret c :: (u8 list bs, bschan) kact)"
    "balanced bs_locks (kret (0, []) :: (u8 list bs, int \<times> u8 list) kact)"
    by (intro balanced_rule)+
  from bs_ops_balanced [OF ram_driver this] show "balanced bs_locks (bswrite ram_env c buf off)"
    by blast
qed

text \<open>
  C13: Stores stay well formed.  Whatever sequence of operations runs, with a driver that keeps its
  side of the contract, a store that is marked ready has its whole-disk partition at index 0,
  starting at byte 0 with the size of the device, and that size is a multiple of the alignment.
\<close>

theorem bs_ops_invariant:
  assumes "bs_driver env" and "kinv bs_inv dev" and "kinv bs_inv open_dev" and "kinv bs_inv rd"
    and "bs_inv s"
  shows "bs_inv (snd (bsinit env s)) \<and> bs_inv (snd (bs_generic path dev s)) \<and>
    bs_inv (snd (bsopen c open_dev s)) \<and> bs_inv (snd (bsclose c s)) \<and>
    bs_inv (snd (bswstat env conv path dp n s)) \<and> bs_inv (snd (bsread env rd c buf off s)) \<and>
    bs_inv (snd (bswrite env c buf off s))"
  using kinv_snd [OF bs_driver.bsinit_keeps [OF assms(1)] assms(5)]
    kinv_snd [OF bs_driver.generic_keeps [OF assms(1,2)] assms(5)]
    kinv_snd [OF bs_driver.open_keeps [OF assms(1,3)] assms(5)]
    kinv_snd [OF bs_driver.close_keeps [OF assms(1)] assms(5)]
    kinv_snd [OF bs_driver.wstat_keeps [OF assms(1)] assms(5)]
    kinv_snd [OF bs_driver.read_keeps [OF assms(1,4)] assms(5)]
    kinv_snd [OF bs_driver.write_keeps [OF assms(1)] assms(5)]
  by blast

theorem bs_ops_invariant_witness:
  "\<forall>c buf off. bs_inv (snd (bswrite ram_env c buf off ram_bs))"
proof (intro allI)
  fix c buf off
  have "bs_inv ram_bs"
    by (simp add: bs_inv_def ram_bs_def store_ok_def ram_store_def partdata_def)
  moreover have "kinv bs_inv (kret (0::int) :: (u8 list bs, int) kact)"
    "kinv bs_inv (kret c :: (u8 list bs, bschan) kact)"
    "kinv bs_inv (kret (0, []) :: (u8 list bs, int \<times> u8 list) kact)"
    by (intro kinv_rule)+
  ultimately show "bs_inv (snd (bswrite ram_env c buf off ram_bs))"
    using bs_ops_invariant [OF ram_driver] by blast
qed

end
