(* ===== verification/Blockstore_Chan.thy ===== *)
theory Blockstore_Chan
  imports Blockstore
begin

text \<open>
  Channels of the block device (\<open>devbs.c\<close>): what runs when the locks are free, the version check of
  stale channels, and the exclusive use of partitions from open to close.
\<close>

section \<open>Running under locks that are free\<close>

text \<open>The state with the store's lock taken, and the locks that \<open>diskgetlock\<close> needs.\<close>

definition took :: "bool \<Rightarrow> nat \<Rightarrow> 'h bs \<Rightarrow> 'h bs" where
  "took wl i s = snd (lock_d wl i s)"

definition locks_free :: "'h bs \<Rightarrow> nat \<Rightarrow> bool" where
  "locks_free s i \<longleftrightarrow> bs_lock s = rw_free \<and> bs_slocks s i = rw_free"

lemma took_simps [simp]:
  "bs_disks (took wl i s) = bs_disks s" "bs_maxdisk (took wl i s) = bs_maxdisk s"
  "bs_aux (took wl i s) = bs_aux s" "bs_hw (took wl i s) = bs_hw s"
  "bs_lock (took wl i s) = bs_lock s"
  by (simp_all add: took_def lock_d_def rlock_def wlock_def put_slock_def)

lemma lock_d_free: "bs_slocks s i = rw_free \<Longrightarrow> lock_d wl i s = (Inr (), took wl i s)"
  by (simp add: took_def lock_d_def rlock_def wlock_def get_slock_def rw_free_def)

lemma unlock_took:
  assumes "bs_slocks s i = rw_free"
  shows "unlock_d wl i ((took wl i s)\<lparr>bs_disks := D\<rparr>) = (Inr (), s\<lparr>bs_disks := D\<rparr>)"
    and "unlock_d wl i (took wl i s) = (Inr (), s)"
proof -
  have "(bs_slocks s)(i := bs_slocks s i) = bs_slocks s" by simp
  then show "unlock_d wl i ((took wl i s)\<lparr>bs_disks := D\<rparr>) = (Inr (), s\<lparr>bs_disks := D\<rparr>)"
    and "unlock_d wl i (took wl i s) = (Inr (), s)"
    using assms
    by (cases wl; simp add: took_def lock_d_def unlock_d_def rlock_def wlock_def runlock_def
        wunlock_def get_slock_def put_slock_def rw_free_def)+
qed

lemma with_store_error:
  assumes "bs_slocks s i = rw_free" and "body (took wl i s) = (Inl (Error e), took wl i s)"
  shows "with_store wl i body s = (Inl (Error e), s)"
  using assms
  by (simp add: with_store_def kbracket_def kthen_def kbind_def kcatch_def lock_d_free unlock_took)

lemma with_store_return:
  assumes "bs_slocks s i = rw_free"
    and "body (took wl i s) = (Inr x, (took wl i s)\<lparr>bs_disks := D\<rparr>)"
  shows "with_store wl i body s = (Inr x, s\<lparr>bs_disks := D\<rparr>)"
  using assms
  by (simp add: with_store_def kbracket_def kthen_def kbind_def kcatch_def lock_d_free unlock_took)

lemma diskgetlock_free:
  assumes "locks_free s i" and "diskget num s = Inr (Some i)"
  shows "diskgetlock num wl s = (Inr i, took wl i s)"
proof -
  have "diskget num (put_bslock x s) = diskget num s" for x
    by (simp add: diskget_def put_bslock_def)
  moreover have "lock_d wl i (put_bslock x s) = (Inr (), put_bslock x (took wl i s))" for x
    using assms(1)
    by (simp add: locks_free_def took_def lock_d_def rlock_def wlock_def get_slock_def
        put_slock_def put_bslock_def rw_free_def)
  moreover have "put_bslock rw_free (took wl i s) = took wl i s"
    using assms(1) by (simp add: put_bslock_def locks_free_def took_def lock_d_def rlock_def
        wlock_def put_slock_def)
  ultimately show ?thesis
    using assms
    by (simp add: diskgetlock_def kthen_def kbind_def rlock_def runlock_def locks_free_def
        put_bslock_def rw_free_def)
qed

lemma with_disk_free:
  assumes "locks_free s i" and "diskget num s = Inr (Some i)"
  shows "with_disk num wl body s = with_store wl i (body i) s"
  using assms
  by (simp add: with_disk_run diskgetlock_free with_store_def)

lemma with_bs_error:
  assumes "bs_lock s = rw_free"
    and "\<And>x. body (put_bslock x s) = (Inl (Error e), put_bslock x s)"
  shows "with_bs wl body s = (Inl (Error e), s)"
  using assms
  by (cases wl; simp add: with_bs_def kbracket_def kthen_def kbind_def kcatch_def rlock_def
      runlock_def wlock_def wunlock_def rw_free_def put_bslock_def)

lemma with_bs_return:
  assumes "bs_lock s = rw_free"
    and "\<And>x. body (put_bslock x s) = (Inr y, (put_bslock x s)\<lparr>bs_disks := D\<rparr>)"
  shows "with_bs wl body s = (Inr y, s\<lparr>bs_disks := D\<rparr>)"
  using assms
  by (cases wl; simp add: with_bs_def kbracket_def kthen_def kbind_def kcatch_def rlock_def
      runlock_def wlock_def wunlock_def rw_free_def put_bslock_def)

lemma put_bslock_simps [simp]:
  "bs_maxdisk (put_bslock x s) = bs_maxdisk s"
  "bs_disks (put_bslock x s) = bs_disks s" "bs_slocks (put_bslock x s) = bs_slocks s"
  "diskget num (put_bslock x s) = diskget num s"
  by (simp_all add: put_bslock_def diskget_def)

lemma diskget_Some:
  "diskget num s = Inr (Some i) \<Longrightarrow> i = nat num \<and> i < length (bs_disks s) \<and> (\<exists>d. bs_disks s ! i = Some d)"
  by (auto simp: diskget_def split: if_splits option.splits)

lemma qtype_storelock: "qtype_of path = Some Qdiskpart \<Longrightarrow> storelock path"
  by (auto simp: qtype_of_def Let_def storelock_def qtypes_def nth_Cons' split: if_splits)

definition sample_chan :: bschan where
  "sample_chan = \<lparr>ch_id = 0, ch_path = QPATH 1 0 8, ch_vers = 1, ch_open = False\<rparr>"

lemma sample_chan_paths:
  "QDISK (QPATH 1 0 8) = 0" "QPART (QPATH 1 0 8) = 1" "qtype_of (QPATH 1 0 8) = Some Qdiskpart"
  by (simp_all add: QDISK_def QPART_def QPATH_def qtype_of_def QTYPE_def qtypes_def)

lemma diskfind_run: "diskget num s = Inr (Some i) \<Longrightarrow> kbind (diskfind num) f s = f i s"
  by (simp add: diskfind_def kbind_def)

lemma fresh_check_stale:
  "st_vers (the (bs_disks s ! i)) \<noteq> ch_vers c \<Longrightarrow> kthen (fresh_check c i) m s = (Inl (Error Estale), s)"
  by (simp add: fresh_check_def sget_def kthen_def kbind_def kguard_def)

lemma bsdev_stale:
  assumes "locks_free s i" and "diskget (QDISK (ch_path c)) s = Inr (Some i)"
    and "st_vers (the (bs_disks s ! i)) \<noteq> ch_vers c"
  shows "bsdevread env c buf off s = (Inl (Error Estale), s)"
    and "bsdevwrite env c buf off s = (Inl (Error Estale), s)"
proof -
  have "bs_slocks s i = rw_free" using assms(1) by (simp add: locks_free_def)
  then show "bsdevread env c buf off s = (Inl (Error Estale), s)"
    and "bsdevwrite env c buf off s = (Inl (Error Estale), s)"
    using assms
    by (auto simp: bsdevread_def bsdevwrite_def Let_def with_disk_free fresh_check_stale intro!: with_store_error)
qed

lemma bswrite_diskctl_stale:
  assumes "locks_free s i" and "diskget (QDISK (ch_path c)) s = Inr (Some i)"
    and "st_vers (the (bs_disks s ! i)) \<noteq> ch_vers c"
  shows "bswrite_diskctl env c buf s = (Inl (Error Estale), s)"
  unfolding bswrite_diskctl_def
proof (rule with_bs_error)
  show "bs_lock s = rw_free" using assms(1) by (simp add: locks_free_def)
  fix x
  show "kbind (diskfind (QDISK (ch_path c))) (\<lambda>i. with_store True i
      (kthen (fresh_check c i) (kthen (owner_check env i 1) (kbind (klift (be_parsecmd env buf)) (\<lambda>f.
       kbind (klift (lookupcmd bsdiskctl f)) (\<lambda>ct. if ct = 0 then diskinit env i else repartition env i))))))
      (put_bslock x s) = (Inl (Error Estale), put_bslock x s)"
    using assms by (subst diskfind_run) (auto simp: locks_free_def fresh_check_stale intro!: with_store_error)
qed

text \<open>
  C15: Stale channels.  When the store has been initialised or partitioned again since a channel was opened, reading
  the files ctl, devctl and those of partitions, and writing these and raw, fails with \<open>Estale\<close> and changes nothing,
  whatever the driver would have done.  Reading raw is the exception: it returns the result of the last raw
  command of the channel, without the locks and whatever the version.
\<close>

theorem bs_stale:
  assumes "locks_free s i" and "diskget (QDISK (ch_path c)) s = Inr (Some i)"
    and "st_vers (the (bs_disks s ! i)) \<noteq> ch_vers c"
  shows "(qtype_of (ch_path c) \<in> Some ` {Qdiskctl, Qdiskdevctl, Qdiskpart} \<longrightarrow>
      bsread env dirread c buf off s = (Inl (Error Estale), s)) \<and>
    (qtype_of (ch_path c) \<in> Some ` {Qdiskctl, Qdiskdevctl, Qdiskraw, Qdiskpart} \<longrightarrow>
      bswrite env c buf off s = (Inl (Error Estale), s)) \<and>
    (qtype_of (ch_path c) = Some Qdiskraw \<longrightarrow>
      bsread env dirread c buf off s = bsread env dirread (c\<lparr>ch_vers := st_vers (the (bs_disks s ! i))\<rparr>) buf off s)"
  using bsdev_stale [OF assms] bswrite_diskctl_stale [OF assms]
  by (auto simp: bsread_def bswrite_def bsread_raw_def kthen_def kbind_def)

lemma ram_free: "locks_free ram_bs i" "diskget 0 ram_bs = Inr (Some 0)"
  by (simp_all add: locks_free_def ram_bs_def diskget_def)

theorem bs_stale_witness:
  "bswrite ram_env (sample_chan\<lparr>ch_vers := 0\<rparr>) [1, 2] 0 ram_bs = (Inl (Error Estale), ram_bs)"
proof -
  have "QDISK (ch_path (sample_chan\<lparr>ch_vers := 0\<rparr>)) = 0" "qtype_of (ch_path (sample_chan\<lparr>ch_vers := 0\<rparr>)) = Some Qdiskpart"
    by (simp_all add: sample_chan_def sample_chan_paths)
  then show ?thesis
    using bs_stale [of ram_bs 0 "sample_chan\<lparr>ch_vers := 0\<rparr>" ram_env "kret (0, [])" "[1, 2]" 0] ram_free
    by (simp add: sample_chan_def ram_bs_def ram_store_def)
qed

definition set_open :: "nat \<Rightarrow> nat \<Rightarrow> int \<Rightarrow> 'h bs \<Rightarrow> 'h bs" where
  "set_open i j n s = s\<lparr>bs_disks := (bs_disks s)[i := map_option (\<lambda>d. d\<lparr>st_parts :=
     (st_parts d)[j := (st_parts d ! j)\<lparr>p_isopen := n\<rparr>]\<rparr>) (bs_disks s ! i)]\<rparr>"

lemma bsopen_part_run:
  assumes "locks_free s i" and "diskget (QDISK (ch_path c)) s = Inr (Some i)"
    and "qtype_of (ch_path c) = Some Qdiskpart"
    and "\<And>x. bsopen_store c dev i (took False i (put_bslock x s))
      = (Inr y, (took False i (put_bslock x s))\<lparr>bs_disks := D\<rparr>)"
  shows "bsopen c dev s = (Inr y, s\<lparr>bs_disks := D\<rparr>)"
proof -
  have "bs_slocks (put_bslock x s) i = rw_free" for x using assms(1) by (simp add: locks_free_def)
  then have "with_store False i (bsopen_store c dev i) (put_bslock x s)
      = (Inr y, (put_bslock x s)\<lparr>bs_disks := D\<rparr>)" for x
    using assms(4) by (intro with_store_return)
  then show ?thesis
    using assms unfolding bsopen_def
    by (intro with_bs_return) (simp_all add: locks_free_def qtype_storelock diskfind_run)
qed

lemma bsopen_part_error:
  assumes "locks_free s i" and "diskget (QDISK (ch_path c)) s = Inr (Some i)"
    and "qtype_of (ch_path c) = Some Qdiskpart"
    and "\<And>x. bsopen_store c dev i (took False i (put_bslock x s))
      = (Inl (Error e), took False i (put_bslock x s))"
  shows "bsopen c dev s = (Inl (Error e), s)"
proof -
  have "bs_slocks (put_bslock x s) i = rw_free" for x using assms(1) by (simp add: locks_free_def)
  then have "with_store False i (bsopen_store c dev i) (put_bslock x s)
      = (Inl (Error e), put_bslock x s)" for x
    using assms(4) by (intro with_store_error)
  then show ?thesis
    using assms unfolding bsopen_def
    by (intro with_bs_error) (simp_all add: locks_free_def qtype_storelock diskfind_run)
qed

lemma bs_open_run:
  assumes "locks_free s i" and "diskget (QDISK (ch_path c)) s = Inr (Some i)"
    and "qtype_of (ch_path c) = Some Qdiskpart" and "QPART (ch_path c) = int j"
    and "bs_disks s ! i = Some d" and "st_ready d \<noteq> 0" and "j < length (st_parts d)"
    and "p_index (st_parts d ! j) \<noteq> 0"
  shows "bsopen c (kret c') s =
    (if p_isopen (st_parts d ! j) \<noteq> 0 then (Inl (Error Einuse), s)
     else (Inr (c'\<lparr>ch_vers := st_vers d\<rparr>), set_open i j 1 s))"
proof (cases "p_isopen (st_parts d ! j) = 0")
  case False
  then have "bsopen_store c (kret c') i (took False i (put_bslock x s))
      = (Inl (Error Einuse), took False i (put_bslock x s))" for x
    using assms by (simp add: bsopen_store_def xpartget_def sget_def partget_def kthen_def kbind_def)
  with assms(1-3) have "bsopen c (kret c') s = (Inl (Error Einuse), s)" by (rule bsopen_part_error)
  with False show ?thesis by simp
next
  case True
  have i: "i < length (bs_disks s)" using assms(2) by (auto dest: diskget_Some)
  have "bsopen_store c (kret c') i (took False i (put_bslock x s))
      = (Inr (c'\<lparr>ch_vers := st_vers d\<rparr>),
         (took False i (put_bslock x s))\<lparr>bs_disks := bs_disks (set_open i j 1 s)\<rparr>)" for x
    using assms True i
    by (simp add: bsopen_store_def xpartget_def sget_def partget_def kthen_def kbind_def
        part_opened_def supd_def set_open_def i32_id)
  from bsopen_part_run [OF assms(1-3) this]
  have "bsopen c (kret c') s = (Inr (c'\<lparr>ch_vers := st_vers d\<rparr>), set_open i j 1 s)"
    by (simp add: set_open_def)
  with True show ?thesis by simp
qed

text \<open>
  C14: Exclusive use of a partition.  Opening the file of a partition other than the whole disk fails
  with \<open>Einuse\<close> while it is open, and changes nothing; otherwise it marks the partition open and
  stamps the channel with the store's version.
\<close>

theorem bs_open_exclusive:
  assumes "locks_free s i" and "diskget (QDISK (ch_path c)) s = Inr (Some i)"
    and "qtype_of (ch_path c) = Some Qdiskpart" and "QPART (ch_path c) = int j"
    and "bs_disks s ! i = Some d" and "st_ready d \<noteq> 0" and "j < length (st_parts d)"
    and "p_index (st_parts d ! j) \<noteq> 0"
  shows "bsopen c (kret c') s =
    (if p_isopen (st_parts d ! j) \<noteq> 0 then (Inl (Error Einuse), s)
     else (Inr (c'\<lparr>ch_vers := st_vers d\<rparr>), set_open i j 1 s))"
  by (rule bs_open_run [OF assms])

theorem bs_open_exclusive_witness:
  "bsopen sample_chan (kret sample_chan) ram_bs = (Inr sample_chan, set_open 0 1 1 ram_bs)"
proof -
  have path: "QDISK (ch_path sample_chan) = 0" "QPART (ch_path sample_chan) = int 1"
    "qtype_of (ch_path sample_chan) = Some Qdiskpart"
    by (simp_all add: sample_chan_def sample_chan_paths)
  have "bs_disks ram_bs ! 0 = Some ram_store" by (simp add: ram_bs_def)
  with path ram_free show ?thesis
    using bs_open_exclusive [of ram_bs 0 sample_chan 1 ram_store sample_chan]
    by (simp add: ram_store_def ram_part_def partclear_def sample_chan_def)
qed

text \<open>
  Close undoes open.  A partition other than the whole disk that was closed, opened and closed
  through the channel that open returned is as it was, and so is everything else.
\<close>

theorem bs_open_close:
  assumes "locks_free s i" and "diskget (QDISK (ch_path c)) s = Inr (Some i)"
    and "qtype_of (ch_path c) = Some Qdiskpart" and "QPART (ch_path c) = int j"
    and "bs_disks s ! i = Some d" and "st_ready d \<noteq> 0" and "j < length (st_parts d)"
    and "p_index (st_parts d ! j) \<noteq> 0" and "j \<noteq> 0" and "p_isopen (st_parts d ! j) = 0"
  shows "kbind (bsopen c (kret (c\<lparr>ch_open := True\<rparr>))) bsclose s = (Inr (), s)"
proof -
  let ?t = "set_open i j 1 s"
  let ?d = "d\<lparr>st_parts := (st_parts d)[j := (st_parts d ! j)\<lparr>p_isopen := 1\<rparr>]\<rparr>"
  have i: "i < length (bs_disks s)" using assms(2) by (auto dest: diskget_Some)
  have d': "bs_disks ?t ! i = Some ?d" "bs_disks ?t = (bs_disks s)[i := Some ?d]"
    using assms i by (simp_all add: set_open_def)
  have free: "locks_free ?t i" using assms(1) by (simp add: locks_free_def set_open_def)
  have get: "diskget (QDISK (ch_path c)) ?t = Inr (Some i)"
    using assms(2,5) i by (auto simp: diskget_def set_open_def split: if_splits option.splits)
  have parts: "(st_parts ?d)[j := (st_parts ?d ! j)\<lparr>p_isopen := 0\<rparr>] = st_parts d"
  proof -
    have "(st_parts d ! j)\<lparr>p_isopen := 0\<rparr> = st_parts d ! j" using assms(10) by simp
    then show ?thesis using assms(7) by simp
  qed
  have restored: "(bs_disks ?t)[i := Some (?d\<lparr>st_parts := st_parts d\<rparr>)] = bs_disks s"
    using list_update_id [of "bs_disks s" i] assms(5) by (simp add: d')
  have "with_store True i (part_closed (c\<lparr>ch_open := True, ch_vers := st_vers d\<rparr>) i) ?t
      = (Inr (), ?t\<lparr>bs_disks := bs_disks s\<rparr>)"
  proof (rule with_store_return)
    show "bs_slocks ?t i = rw_free" using free by (simp add: locks_free_def)
    show "part_closed (c\<lparr>ch_open := True, ch_vers := st_vers d\<rparr>) i (took True i ?t)
        = (Inr (), (took True i ?t)\<lparr>bs_disks := bs_disks s\<rparr>)"
      using assms d' parts restored
      by (simp add: part_closed_def sget_def xpartget_def partget_def kthen_def kbind_def supd_def)
  qed
  moreover have "?t\<lparr>bs_disks := bs_disks s\<rparr> = s" by (simp add: set_open_def)
  ultimately have close: "with_disk (QDISK (ch_path c)) True
      (part_closed (c\<lparr>ch_open := True, ch_vers := st_vers d\<rparr>)) ?t = (Inr (), s)"
    by (simp add: with_disk_free [OF free get])
  have opened: "bsopen c (kret (c\<lparr>ch_open := True\<rparr>)) s
      = (Inr (c\<lparr>ch_open := True, ch_vers := st_vers d\<rparr>), ?t)"
    using bs_open_run [OF assms(1-8)] assms(10) by simp
  show ?thesis
    using assms by (simp add: kbind_def opened bsclose_def kthen_def close)
qed

theorem bs_open_close_witness:
  "kbind (bsopen sample_chan (kret (sample_chan\<lparr>ch_open := True\<rparr>))) bsclose ram_bs = (Inr (), ram_bs)"
proof -
  have path: "QDISK (ch_path sample_chan) = 0" "QPART (ch_path sample_chan) = int 1"
    "qtype_of (ch_path sample_chan) = Some Qdiskpart"
    by (simp_all add: sample_chan_def sample_chan_paths)
  have "bs_disks ram_bs ! 0 = Some ram_store" by (simp add: ram_bs_def)
  with path ram_free show ?thesis
    using bs_open_close [of ram_bs 0 sample_chan 1 ram_store]
    by (simp add: ram_store_def ram_part_def partclear_def)
qed

section \<open>Two opens at once\<close>

text \<open>
  \<open>bsopen\<close> holds the locks of the table and of the store for reading only, so two opens of one partition can overlap.
  The check and the mark, which the model of the whole operation runs in one piece, taken apart:
\<close>

definition open_check :: "bschan \<Rightarrow> nat \<Rightarrow> ('h bs, unit) kact" where
  "open_check c i =
     kbind (xpartget i (QPART (ch_path c))) (\<lambda>p. kguard (\<not> (p_index p \<noteq> 0 \<and> p_isopen p \<noteq> 0)) Einuse)"

lemma bsopen_store_split:
  "qtype_of (ch_path c) = Some Qdiskpart \<Longrightarrow>
    bsopen_store c devopen i =
      kthen (open_check c i)
        (kbind (kbind devopen (\<lambda>c'. kthen (part_opened i (QPART (ch_path c))) (kret c')))
          (\<lambda>c. kbind (sget i st_vers) (\<lambda>v. kret (c\<lparr>ch_vers := v\<rparr>))))"
  by (rule ext) (auto simp: bsopen_store_def open_check_def kthen_def kbind_def split: sum.splits prod.splits)

text \<open>Both pass the check, the count becomes 2, and closing either channel panics.\<close>

lemma bs_open_race:
  assumes "QPART (ch_path c) = int j" and "i < length (bs_disks s)" and "bs_disks s ! i = Some d" and "st_ready d \<noteq> 0"
    and "j < length (st_parts d)" and "p_index (st_parts d ! j) \<noteq> 0" and "p_isopen (st_parts d ! j) = 0"
    and "ch_vers c = st_vers d"
  shows "\<exists>t. kthen (open_check c i) (kthen (open_check c i)
      (kthen (part_opened i (QPART (ch_path c))) (part_opened i (QPART (ch_path c))))) s = (Inr (), t) \<and>
    fst (part_closed c i t) = Inl (Panic ''devclose on part.isopen != 1'')"
  using assms
  by (simp add: open_check_def xpartget_def partget_def part_opened_def part_closed_def sget_def supd_def kthen_def kbind_def
      i32_id)

section \<open>Two limits of the registration and of the whole-disk file\<close>

text \<open>
  Registering a store above the highest number so far clears the entry of the store that had the
  highest number: \<open>diskget\<close> no longer finds it.
\<close>

lemma blockstoreadd_forgets:
  assumes "bs_lock s = rw_free" and "bs_maxdisk s < st_num d" and "st_num d \<le> 99"
    and "0 \<le> bs_maxdisk s" and "be_memok env (nat (st_num d + 1))"
  shows "\<exists>s'. blockstoreadd env d s = (Inr (), s') \<and> diskget (bs_maxdisk s) s' = Inr None \<and>
    diskget (st_num d) s' = Inr (Some (nat (st_num d)))"
proof -
  have "diskget (st_num d) (put_bslock x s) = Inr None" for x
    using assms by (simp add: diskget_def)
  then show ?thesis
    using assms
    by (simp add: blockstoreadd_def wlock_def wunlock_def rw_free_def put_bslock_def kthen_def
        kbind_def grow_disks_def diskget_def nth_append)
qed

text \<open>Opening the file of the whole disk goes through the nil pointer its check left behind.\<close>

lemma bs_open_whole_faults:
  assumes "locks_free s i" and "diskget (QDISK (ch_path c)) s = Inr (Some i)"
    and "qtype_of (ch_path c) = Some Qdiskpart" and "QPART (ch_path c) = int j"
    and "bs_disks s ! i = Some d" and "st_ready d \<noteq> 0" and "j < length (st_parts d)"
    and "p_index (st_parts d ! j) = 0"
  shows "fst (bsopen c (kret c') s) = Inl (Fault ''p->isopen'')"
proof -
  let ?x = "rw_free\<lparr>rw_readers := 1\<rparr>"
  let ?t = "put_bslock ?x s"
  have "bsopen_store c (kret c') i (took False i ?t) = (Inl (Fault ''p->isopen''), took False i ?t)"
    using assms by (simp add: bsopen_store_def xpartget_def sget_def partget_def kthen_def kbind_def
        part_opened_def)
  moreover have "lock_d False i ?t = (Inr (), took False i ?t)"
    using assms(1) by (intro lock_d_free) (simp add: locks_free_def)
  ultimately have "with_store False i (bsopen_store c (kret c') i) ?t
      = (Inl (Fault ''p->isopen''), took False i ?t)"
    by (simp add: with_store_def kbracket_def kthen_def kbind_def kcatch_def)
  moreover have "rlock bs_lock put_bslock s = (Inr (), ?t)"
    using assms(1) by (simp add: rlock_def locks_free_def rw_free_def)
  ultimately show ?thesis
    using assms
    by (simp add: bsopen_def with_bs_def kbracket_def kthen_def kbind_def kcatch_def
        qtype_storelock diskfind_def)
qed

end
