(* ===== verification/Blockstore_Io.thy ===== *)
theory Blockstore_Io
  imports Blockstore
begin

text \<open>
  Input and output on a partition of a store (\<open>io\<close> in \<open>devbs.c\<close>): the arithmetic of the aligned
  request, what a read and a write transfer below 4 GiB, and what happens from 4 GiB on.
\<close>

section \<open>Rounding with the alignment mask\<close>

lemma and_uint_mask:
  assumes "k \<le> 32"
  shows "x AND uint (mask k :: u32) = x mod 2 ^ k"
proof -
  have "x AND uint (mask k :: u32) = take_bit k x"
    using assms by (intro bit_eqI) (auto simp: bit_simps)
  then show ?thesis by (simp add: take_bit_eq_mod)
qed

lemma bit_below_32: "0 \<le> x \<Longrightarrow> x < 4294967296 \<Longrightarrow> bit (x :: int) n \<Longrightarrow> n < 32"
proof -
  assume "0 \<le> x" "x < 4294967296" "bit x n"
  then have "bit (take_bit 32 x) n" by (simp add: take_bit_int_eq_self)
  then show ?thesis by (simp add: bit_simps)
qed

lemma and_uint_not_mask:
  assumes "0 \<le> x" "x < 4294967296"
  shows "x AND uint (NOT (mask k :: u32)) = x div 2 ^ k * 2 ^ k"
proof -
  have "x AND uint (NOT (mask k :: u32)) = push_bit k (drop_bit k x)"
    using bit_below_32 [OF assms] by (intro bit_eqI) (auto simp: bit_simps)
  then show ?thesis by (simp add: drop_bit_eq_div push_bit_eq_mult)
qed

text \<open>Above 4 GiB the offset of the aligned request keeps only its low 32 bits.\<close>

lemma and_uint_not_mask_high:
  "x AND uint (NOT (mask k :: u32)) = (x mod 4294967296) div 2 ^ k * 2 ^ k"
proof -
  have "x AND uint (NOT (mask k :: u32)) = take_bit 32 x AND uint (NOT (mask k :: u32))"
    by (rule bit_eqI) (auto simp: bit_simps)
  also have "take_bit 32 x = x mod 4294967296" by (simp add: take_bit_eq_mod)
  finally show ?thesis by (simp add: and_uint_not_mask)
qed

section \<open>Requests below 4 GiB\<close>

definition rd_start :: "part \<Rightarrow> int \<Rightarrow> int" where
  "rd_start p off = p_s p + min off (p_size p)"

definition rd_count :: "part \<Rightarrow> int \<Rightarrow> int \<Rightarrow> int" where
  "rd_count p n off = min (off + n) (p_size p) - min off (p_size p)"

lemma round_up:
  fixes K :: int
  assumes K: "0 < K" and n: "0 \<le> n" and s: "0 \<le> s"
  defines "xs \<equiv> s div K * K" and "xn \<equiv> (n + s mod K + (K - 1)) div K * K"
  shows "s + n \<le> xs + xn" and "xs + xn < s + n + K" and "0 \<le> xn" and "xs = s - s mod K"
    and "K dvd sz \<Longrightarrow> s + n \<le> sz \<Longrightarrow> xs + xn \<le> sz"
proof -
  define a where "a = n + s mod K + (K - 1)"
  have m: "0 \<le> s mod K" "s mod K < K" using K by simp_all
  have xs: "xs = s - s mod K" by (simp add: xs_def minus_mod_eq_div_mult)
  have xn: "xn = a - a mod K" by (simp add: xn_def a_def minus_mod_eq_div_mult)
  have am: "0 \<le> a mod K" "a mod K < K" using K by simp_all
  show "xs = s - s mod K" by (rule xs)
  show le: "s + n \<le> xs + xn" "xs + xn < s + n + K" using am unfolding xs xn a_def by linarith+
  show "0 \<le> xn" using le(1) m n unfolding xs by linarith
  show "xs + xn \<le> sz" if "K dvd sz" "s + n \<le> sz"
  proof (rule ccontr)
    assume "\<not> xs + xn \<le> sz"
    then have gt: "sz < xs + xn" by simp
    have "K dvd xs + xn - sz" using that(1) by (simp add: xs_def xn_def)
    then have "K \<le> xs + xn - sz" using gt by (simp add: zdvd_imp_le)
    with that(2) le(2) show False by linarith
  qed
qed

lemma io_request_below:
  assumes k: "k \<le> 16" and p: "0 \<le> p_s p" "0 \<le> p_size p" "p_s p + p_size p < 4294967296"
    and off: "0 \<le> off" "off < DISKMAX" and n: "0 \<le> n" "n < 2147352576"
  shows "io_request (mask k) p n off =
    \<lparr>rq_s = rd_start p off, rq_n = rd_count p n off,
     rq_xs = rd_start p off div 2 ^ k * 2 ^ k,
     rq_xn = (rd_count p n off + rd_start p off mod 2 ^ k + (2 ^ k - 1)) div 2 ^ k * 2 ^ k\<rparr>"
proof -
  define K where "K = (2::int) ^ k"
  define s where "s = rd_start p off"
  define c where "c = rd_count p n off"
  have K: "0 < K" "K \<le> 65536"
    using power_increasing [OF k, of "2::int"] by (simp_all add: K_def)
  have s: "0 \<le> s" "s < 4294967296" using p off by (auto simp: s_def rd_start_def)
  have c: "0 \<le> c" "c \<le> n" using p off n by (auto simp: c_def rd_count_def)
  have m: "0 \<le> s mod K" "s mod K < K" using K by simp_all
  define a where "a = c + s mod K + (K - 1)"
  have a: "0 \<le> a" "a < 2147483648" unfolding a_def using c m K n by linarith+
  have "a div K * K + a mod K = a" by (rule div_mult_mod_eq)
  moreover have "0 \<le> a mod K" using K by simp
  ultimately have r: "0 \<le> a div K * K" "a div K * K \<le> a"
    using a K by (simp add: pos_imp_zdiv_nonneg_iff, linarith)
  have w: "i64 (off + n) = off + n" using off n by (intro i64_id) simp_all
  have w2: "i64 ((if p_size p < off then p_size p else off) + p_s p) = s"
    using p off s by (subst i64_id) (auto simp: s_def rd_start_def)
  have w3: "i64 ((if p_size p < off + n then p_size p else off + n) + p_s p) = s + c"
    using p off n s c by (subst i64_id) (auto simp: s_def c_def rd_start_def rd_count_def)
  have w4: "i32 (s + c - s) = c" using c n by (intro trans [OF i32_id]) simp_all
  have mk: "uint (mask k :: u32) = K - 1"
    using k and_uint_mask [of k "- 1"] by (simp add: K_def zmod_minus1)
  have am: "s AND uint (mask k :: u32) = s mod K"
    using and_uint_mask [of k s] k by (simp add: K_def)
  have w5: "i64 (c + (s AND uint (mask k :: u32)) + uint (mask k :: u32)) = a"
    unfolding am unfolding mk using a by (subst i64_id) (auto simp: a_def)
  show ?thesis
    unfolding io_request_def Let_def w w2 w3 w4
    using s a r k w5
    by (simp add: s_def [symmetric] c_def [symmetric] and_uint_not_mask K_def [symmetric]
        a_def [symmetric] i32_id)
qed

text \<open>
  What a device promises of an aligned read inside it, of at most \<open>lim\<close> bytes: the bytes of its
  content, and a state with the property \<open>P\<close>.
\<close>

definition dev_reads ::
  "'h devops \<Rightarrow> (int \<Rightarrow> u8) \<Rightarrow> int \<Rightarrow> u32 \<Rightarrow> int \<Rightarrow> ('h bs \<Rightarrow> bool) \<Rightarrow> 'h bs \<Rightarrow> bool" where
  "dev_reads ops content sz amask lim P s \<longleftrightarrow>
     (\<forall>buf off. 0 \<le> off \<and> off + int (length buf) \<le> sz \<and> off AND uint amask = 0 \<and>
        int (length buf) AND uint amask = 0 \<and> int (length buf) \<le> lim \<longrightarrow>
        (\<exists>t. dv_io ops False buf off s
           = (Inr (int (length buf), map content [off..off + int (length buf) - 1]), t) \<and> P t))"

lemma drop_upto: "0 \<le> k \<Longrightarrow> drop (nat k) [a..b] = [a + k..b]"
proof -
  assume "0 \<le> k"
  have "drop n [a..b] = [a + int n..b]" for n
  proof (induction n arbitrary: a)
    case (Suc n)
    then show ?case
      by (cases "a \<le> b") (simp_all add: upto_rec1 add.assoc)
  qed simp
  from this [of "nat k"] \<open>0 \<le> k\<close> show ?thesis by simp
qed

lemma take_upto: "0 \<le> k \<Longrightarrow> a + k \<le> b + 1 \<Longrightarrow> take (nat k) [a..b] = [a..a + k - 1]"
proof -
  assume k: "0 \<le> k" "a + k \<le> b + 1"
  then have "[a..b] = [a..a + k - 1] @ [a + k..b]"
    using upto_split1 [of a "a + k" b] by (cases "a + k = b + 1") auto
  moreover have "length [a..a + k - 1] = nat k" using k by simp
  ultimately show ?thesis by (metis append_eq_conv_conj)
qed

lemma bs_io_read_below:
  assumes d: "bs_disks s ! i = Some d" "st_ready d \<noteq> 0" "st_alignmask d = mask k" "k \<le> 16"
    and sz: "2 ^ k dvd st_size d" "st_size d < 4294967296"
    and p: "0 \<le> p_s p" "0 \<le> p_size p" "p_s p + p_size p \<le> st_size d"
    and off: "0 \<le> off" "off < DISKMAX" and n: "int (length buf) < 2147352576"
    and lim: "int (length buf) + 2 * 2 ^ k \<le> lim"
    and dev: "dev_reads (be_ops env i) content (st_size d) (st_alignmask d) lim P s"
  defines "c \<equiv> rd_count p (int (length buf)) off"
  shows "\<exists>t. bs_io env i p False buf (int (length buf)) off s =
    (Inr (c, map content [rd_start p off..rd_start p off + c - 1] @ drop (nat c) buf), t) \<and> P t"
proof -
  define K where "K = (2::int) ^ k"
  define st where "st = rd_start p off"
  define xs where "xs = st div K * K"
  define xn where "xn = (c + st mod K + (K - 1)) div K * K"
  have K: "0 < K" "K \<le> 65536"
    using power_increasing [OF d(4), of "2::int"] by (simp_all add: K_def)
  have pb: "p_s p + p_size p < 4294967296" using p sz by simp
  have st: "0 \<le> st" "st + c \<le> p_s p + p_size p"
    using p off by (auto simp: st_def rd_start_def c_def rd_count_def)
  have c: "0 \<le> c" "c \<le> int (length buf)" using p off by (auto simp: c_def rd_count_def)
  note ru = round_up [OF K(1) c(1) st(1), folded xs_def xn_def]
  have inside: "xs + xn \<le> st_size d" using ru(5) [of "st_size d"] sz st p by (simp add: K_def)
  have xs: "0 \<le> xs" "xs \<le> st"
  proof -
    show "0 \<le> xs" using st K by (simp add: xs_def pos_imp_zdiv_nonneg_iff)
    show "xs \<le> st" using ru(4) pos_mod_sign [OF K(1), of st] by linarith
  qed
  have rq: "io_request (mask k) p (int (length buf)) off
      = \<lparr>rq_s = st, rq_n = c, rq_xs = xs, rq_xn = xn\<rparr>"
    using io_request_below [OF d(4) p(1,2) pb off _ n]
    by (simp add: d(3) st_def c_def xs_def xn_def K_def)
  have al: "x AND uint (st_alignmask d) = x mod K" for x
    using and_uint_mask [of k x] d(3,4) by (simp add: K_def)
  have small: "xn \<le> lim"
    using ru(2,4) pos_mod_bound [OF K(1), of st] c lim [folded K_def] by linarith
  have read: "\<exists>t. dv_io (be_ops env i) False b xs s = (Inr (xn, map content [xs..xs + xn - 1]), t) \<and> P t"
    if "length b = nat xn" for b
    using dev [unfolded dev_reads_def, THEN spec [of _ b], THEN spec [of _ xs]] inside xs ru(3) small that
    by (simp add: al) (simp add: xs_def xn_def)
  have guard: "0 \<le> off" "0 \<le> int (length buf)" using off by simp_all
  show ?thesis
  proof (cases "xs = st \<and> xn = c")
    case True
    then have "length (take (nat xn) buf) = nat xn" using c by simp
    from read [OF this] obtain t where
      "dv_io (be_ops env i) False (take (nat xn) buf) xs s = (Inr (xn, map content [xs..xs + xn - 1]), t)" "P t"
      by blast
    with True show ?thesis
      using d guard c by (simp add: bs_io_def sget_def Let_def rq kbind_def st_def [symmetric])
  next
    case False
    have d1: "0 \<le> st - xs" "st - xs < K" "st - xs < 4294967296"
      using xs ru(4) K pos_mod_bound [OF K(1), of st] by linarith+
    have got: "i32 (xn - (st - xs)) = xn - (st - xs)"
      using ru c d1 n K by (intro i32_id) linarith+
    have ge: "c \<le> xn - (st - xs)" using ru(1) by linarith
    have o': "unat (of_int (st - xs) :: u32) = nat (st - xs)"
      using d1 by (intro unat_of_int_u32)
    have part: "take (nat c) (drop (nat (st - xs)) (map content [xs..xs + xn - 1]))
        = map content [st..st + c - 1]"
    proof -
      have "drop (nat (st - xs)) [xs..xs + xn - 1] = [st..xs + xn - 1]"
        using drop_upto [OF d1(1), of xs] by simp
      then show ?thesis using take_upto [OF c(1), of st "xs + xn - 1"] ru(1)
        by (simp add: drop_map take_map)
    qed
    have res: "io_result \<lparr>rq_s = st, rq_n = c, rq_xs = xs, rq_xn = xn\<rparr> xn
        (map content [xs..xs + xn - 1]) buf
      = Inr (c, map content [st..st + c - 1] @ drop (nat c) buf)"
    proof -
      have pos: "\<not> xn - (st - xs) < 0" using ge c by linarith
      have cut: "(if c < xn - (st - xs) then c else xn - (st - xs)) = c" using ge by auto
      have fits: "\<not> (c < 0 \<or> length (map content [xs..xs + xn - 1]) < nat (st - xs) + nat c)"
        using ge c d1 by auto
      show ?thesis
        unfolding io_result_def Let_def ioreq.select_convs got if_not_P [OF pos] cut o'
          if_not_P [OF fits] part ..
    qed
    have "length (replicate (nat xn) (0::u8)) = nat xn" by simp
    from read [OF this] obtain t where
      "dv_io (be_ops env i) False (replicate (nat xn) 0) xs s = (Inr (xn, map content [xs..xs + xn - 1]), t)" "P t"
      by blast
    with False res show ?thesis
      using d guard by (auto simp: bs_io_def sget_def Let_def rq kbind_def st_def [symmetric])
  qed
qed

lemma round_multiple:
  fixes K :: int
  assumes "0 < K" and "K dvd c"
  shows "(c + (K - 1)) div K * K = c"
proof -
  obtain q where q: "c = K * q" using assms(2) by (metis dvd_def)
  have "K \<noteq> 0" using assms(1) by simp
  from div_mult_self2 [OF this, of "K - 1" q] have "(K - 1 + K * q) div K = q + (K - 1) div K" .
  moreover have "(K - 1) div K = 0" using assms(1) by simp
  ultimately show ?thesis using q by (simp add: add.commute mult.commute)
qed

lemma bs_io_write_below:
  assumes d: "bs_disks s ! i = Some d" "st_ready d \<noteq> 0" "st_alignmask d = mask k" "k \<le> 16"
    and p: "0 \<le> p_s p" "0 \<le> p_size p" "p_s p + p_size p < 4294967296"
    and al: "2 ^ k dvd p_s p" "2 ^ k dvd p_size p" "2 ^ k dvd off" "2 ^ k dvd int (length buf)"
    and off: "0 \<le> off" "off < DISKMAX" and n: "int (length buf) < 2147352576"
  defines "c \<equiv> rd_count p (int (length buf)) off"
  shows "bs_io env i p True buf (int (length buf)) off s =
    kbind (dv_io (be_ops env i) True (take (nat c) buf) (rd_start p off))
      (\<lambda>(got, b). kret (got, b @ drop (length b) buf)) s"
proof -
  define K where "K = (2::int) ^ k"
  have K: "0 < K" by (simp add: K_def)
  have dvd: "K dvd rd_start p off" "K dvd c"
    using al by (auto simp: K_def rd_start_def c_def rd_count_def min_def)
  then have "rd_start p off mod K = 0" "rd_start p off div K * K = rd_start p off" by simp_all
  moreover have "(c + 0 + (K - 1)) div K * K = c" using round_multiple [OF K dvd(2)] by simp
  ultimately have rq: "io_request (mask k) p (int (length buf)) off
      = \<lparr>rq_s = rd_start p off, rq_n = c, rq_xs = rd_start p off, rq_xn = c\<rparr>"
    using io_request_below [OF d(4) p off _ n] by (simp add: c_def K_def)
  have amask: "off AND uint (mask k :: u32) = 0" "int (length buf) AND uint (mask k :: u32) = 0"
    using and_uint_mask [of k off] and_uint_mask [of k "int (length buf)"] d(4) al(3,4)
    by (simp_all add: mod_eq_0_iff_dvd)
  show ?thesis
    using d off by (simp add: bs_io_def sget_def Let_def rq amask)
qed

text \<open>
  C40: Reading and writing above 4 GiB.  The mask that aligns the start of a request has 32 bits, so
  an aligned request at an offset of 4 GiB or more does not reach its own offset: the driver gets one
  for the offset modulo 4 GiB with a buffer of zeros.  A read returns the wrong sectors; a write
  overwrites those sectors with zeros, and reports that all bytes were written.
\<close>

theorem bs_io_above_4g:
  assumes d: "bs_disks s ! i = Some d" "st_ready d \<noteq> 0" "st_alignmask d = mask k" "k \<le> 16"
    and p: "p_s p = 0" "off + int (length buf) \<le> p_size p" "p_size p < DISKMAX"
    and al: "2 ^ k dvd off" "2 ^ k dvd int (length buf)"
    and off: "4294967296 \<le> off" and n: "int (length buf) < 2147352576"
    and dev: "dv_io (be_ops env i) w (replicate (length buf) 0) (off mod 4294967296) s
      = (Inr (int (length buf), b), s')" and b: "length b = length buf"
  shows "bs_io env i p w buf (int (length buf)) off s = (Inr (int (length buf), b), s')"
proof -
  define K where "K = (2::int) ^ k"
  define m where "m = int (length buf)"
  have K: "0 < K" "K \<le> 65536"
    using power_increasing [OF d(4), of "2::int"] by (simp_all add: K_def)
  have m: "0 \<le> m" "m < 2147352576" "K dvd m" using al n by (simp_all add: m_def K_def)
  have K32: "K dvd 4294967296"
    using le_imp_power_dvd [of k 32 "2::int"] d(4) by (simp add: K_def)
  have dvd: "K dvd off" "K dvd off mod 4294967296"
    using al K32 by (simp_all add: K_def dvd_mod)
  have xs: "off AND uint (NOT (mask k :: u32)) = off mod 4294967296"
    using dvd by (simp add: and_uint_not_mask_high K_def)
  have offmask: "x AND uint (mask k :: u32) = x mod K" for x
    using and_uint_mask [of k x] d(4) by (simp add: K_def)
  have mk: "uint (mask k :: u32) = K - 1"
    using d(4) and_uint_mask [of k "- 1"] by (simp add: K_def zmod_minus1)
  have round: "(m + (K - 1)) div K * K = m" by (rule round_multiple [OF K(1) m(3)])
  have xn: "(m + (K - 1)) AND uint (NOT (mask k :: u32)) = m"
    using m K round by (subst and_uint_not_mask) (simp_all add: K_def)
  have w: "i64 (off + m) = off + m" "i64 (off + 0) = off" "i64 (off + m + 0) = off + m"
    using p off m by (auto intro!: i64_id simp: m_def)
  have clip: "\<not> p_size p < off" "\<not> p_size p < off + m" using p m by (auto simp: m_def)
  have w2: "i32 (off + m - off) = m" "i64 (m + 0 + (K - 1)) = m + (K - 1)" "i32 m = m"
    using m K by (auto intro!: i32_id i64_id)
  have rq: "io_request (mask k) p m off
      = \<lparr>rq_s = off, rq_n = m, rq_xs = off mod 4294967296, rq_xn = m\<rparr>"
    unfolding io_request_def Let_def w(1) if_not_P [OF clip(1)] if_not_P [OF clip(2)] p(1) w(2,3) w2(1)
      xs offmask
    using dvd xn w2 unfolding mk [symmetric] by (simp add: mk)
  have ne: "off mod 4294967296 \<noteq> off" using off by (metis not_less pos_mod_bound zero_less_numeral)
  have diff: "off - off mod 4294967296 = off div 4294967296 * 4294967296"
    by (simp add: minus_mod_eq_div_mult)
  have got: "i32 (m - (off - off mod 4294967296)) = m"
  proof -
    have "take_bit 32 (m - off div 4294967296 * 4294967296) = take_bit 32 m"
      by (simp add: take_bit_eq_mod mod_diff_eq [symmetric])
    then have "i32 (m - off div 4294967296 * 4294967296) = i32 m"
      by (simp add: i32_def signed_take_bit_eq_iff_take_bit_eq numeral_eq_Suc)
    then show ?thesis by (simp add: diff w2)
  qed
  have o': "unat (of_int (off - off mod 4294967296) :: u32) = 0"
  proof -
    have "(of_int (off div 4294967296 * 4294967296) :: u32)
        = of_int (off div 4294967296) * of_int 4294967296" by (rule of_int_mult)
    also have "(of_int 4294967296 :: u32) = 0" by simp
    finally show ?thesis unfolding diff by simp
  qed
  have res: "io_result \<lparr>rq_s = off, rq_n = m, rq_xs = off mod 4294967296, rq_xn = m\<rparr> m b buf
      = Inr (m, b)"
    unfolding io_result_def Let_def ioreq.select_convs got o' using m b by (simp add: m_def)
  have am: "off mod K = 0" "m mod K = 0" using dvd m by simp_all
  show ?thesis
    using d off dev ne res [unfolded m_def]
    by (simp add: bs_io_def sget_def Let_def rq [unfolded m_def] kbind_def offmask am [unfolded m_def])
qed

section \<open>Properties\<close>

lemma bs_io_read_at:
  assumes "bs_disks s ! i = Some d" "st_ready d \<noteq> 0" "st_alignmask d = mask k" "k \<le> 16"
    and "2 ^ k dvd st_size d" "st_size d < 4294967296"
    and "0 \<le> p_s p" "0 \<le> p_size p" "p_s p + p_size p \<le> st_size d"
    and "0 \<le> off" "off < DISKMAX" "int (length buf) < 2147352576" "int (length buf) + 2 * 2 ^ k \<le> lim"
    and "dev_reads (be_ops env i) content (st_size d) (st_alignmask d) lim P s"
  shows "\<exists>t. bs_io env i p False buf (int (length buf)) off s =
    (let c = min (off + int (length buf)) (p_size p) - min off (p_size p)
     in (Inr (c, map (\<lambda>j. content (p_s p + min off (p_size p) + j)) [0..c - 1] @ drop (nat c) buf), t))
    \<and> P t"
proof -
  have shift: "map content [a..a + c - 1] = map (\<lambda>j. content (a + j)) [0..c - 1]" for a c
    by (intro nth_equalityI) auto
  show ?thesis
    using bs_io_read_below [OF assms, unfolded shift]
    by (simp add: rd_count_def rd_start_def Let_def)
qed

text \<open>The sample device meets its contract for reads.\<close>

lemma ram_reads:
  assumes "int (length (bs_hw s)) = sz"
  shows "dev_reads ram_ops (\<lambda>o'. bs_hw s ! nat o') sz amask lim (\<lambda>t. t = s) s"
proof -
  have "take n (drop (nat off) (bs_hw s)) = map (\<lambda>o'. bs_hw s ! nat o') [off..off + int n - 1]"
    if "0 \<le> off" "off + int n \<le> sz" for off n
    using that assms by (intro nth_equalityI) (auto simp: nat_add_distrib)
  then show ?thesis
    using assms by (auto simp: dev_reads_def ram_ops_def ram_io_def Let_def)
qed

text \<open>
  C12: Reading refines a file of bytes.  On a store of less than 4 GiB whose driver reads aligned
  ranges of up to \<open>lim\<close> bytes correctly, a read of a partition at any offset and of any length that
  fits with its alignment into \<open>lim\<close>, aligned or not, returns exactly the bytes of the device that the
  partition shows in that range, clipped at the end of the partition, and leaves the rest of the
  buffer alone.  The bytes before and after the range that the aligned request also fetches are
  never returned, and the state is one the driver promises.
\<close>

theorem bs_io_read:
  assumes "bs_disks s ! i = Some d" "st_ready d \<noteq> 0" "st_alignmask d = mask k" "k \<le> 16"
    and "2 ^ k dvd st_size d" "st_size d < 4294967296"
    and "0 \<le> p_s p" "0 \<le> p_size p" "p_s p + p_size p \<le> st_size d"
    and "0 \<le> off" "off < DISKMAX" "int (length buf) < 2147352576" "int (length buf) + 2 * 2 ^ k \<le> lim"
    and "dev_reads (be_ops env i) content (st_size d) (st_alignmask d) lim P s"
  shows "\<exists>t. bs_io env i p False buf (int (length buf)) off s =
    (let c = min (off + int (length buf)) (p_size p) - min off (p_size p)
     in (Inr (c, map (\<lambda>j. content (p_s p + min off (p_size p) + j)) [0..c - 1] @ drop (nat c) buf), t))
    \<and> P t"
  using bs_io_read_at [OF assms] .

theorem bs_io_read_witness:
  "bs_io ram_env 0 ram_part False [9, 9, 9] 3 100 ram_bs
    = (Inr (3, [7, 7, 7]), ram_bs)"
proof -
  have reads: "dev_reads (be_ops ram_env 0) (\<lambda>o'. bs_hw ram_bs ! nat o') (st_size ram_store)
      (st_alignmask ram_store) 4096 (\<lambda>t. t = ram_bs) ram_bs"
    unfolding ram_env_def bsenv.select_convs
    by (rule ram_reads) (simp add: ram_bs_def ram_store_def)
  have "\<exists>t. bs_io ram_env 0 ram_part False [9, 9, 9] (int (length [9, 9, 9 :: u8])) 100 ram_bs
    = (let c = min (100 + int (length [9, 9, 9 :: u8])) (p_size ram_part) - min 100 (p_size ram_part)
     in (Inr (c, map (\<lambda>j. bs_hw ram_bs ! nat (p_s ram_part + min 100 (p_size ram_part) + j)) [0..c - 1]
          @ drop (nat c) [9, 9, 9]), t)) \<and> t = ram_bs"
    by (rule bs_io_read [where d = ram_store and k = 9, OF _ _ _ _ _ _ _ _ _ _ _ _ _ reads])
      (simp_all add: ram_bs_def ram_store_def ram_part_def partclear_def mask_numeral)
  then show ?thesis
    by (simp add: ram_part_def partclear_def ram_bs_def upto_rec1 nth_append)
qed

text \<open>A device of 8 GiB, of which the sample backs the first four kilobytes.\<close>

definition big_store :: store where
  "big_store = ram_store\<lparr>st_size := 8589934592, st_parts := [partdata ''eve'' 8589934592]\<rparr>"

theorem bs_io_above_4g_witness:
  "bs_io ram_env 0 (partdata ''eve'' 8589934592) True (replicate 512 5) 512 (4294967296 + 1024)
     (ram_bs\<lparr>bs_disks := [Some big_store]\<rparr>)
   = (Inr (512, replicate 512 0),
      ram_bs\<lparr>bs_disks := [Some big_store], bs_hw := replicate 1536 0 @ replicate 2560 7\<rparr>)"
proof -
  let ?s = "ram_bs\<lparr>bs_disks := [Some big_store]\<rparr>"
  let ?t = "ram_bs\<lparr>bs_disks := [Some big_store], bs_hw := replicate 1536 0 @ replicate 2560 7\<rparr>"
  have "replicate 1024 (0::u8) @ replicate 512 0 = replicate 1536 0"
    by (simp flip: replicate_add)
  then have io: "dv_io (be_ops ram_env 0) True (replicate (length (replicate 512 (5::u8))) 0)
      ((4294967296 + 1024) mod 4294967296) ?s
    = (Inr (int (length (replicate 512 (5::u8))), replicate 512 0), ?t)"
    by (simp add: ram_env_def ram_ops_def ram_io_def Let_def ram_bs_def flip: append_assoc)
  have "bs_io ram_env 0 (partdata ''eve'' 8589934592) True (replicate 512 5)
      (int (length (replicate 512 (5::u8)))) (4294967296 + 1024) ?s
    = (Inr (int (length (replicate 512 (5::u8))), replicate 512 0), ?t)"
    by (rule bs_io_above_4g [where d = big_store and k = 9, OF _ _ _ _ _ _ _ _ _ _ _ io])
      (simp_all add: big_store_def ram_store_def ram_bs_def partdata_def mask_numeral)
  then show ?thesis by simp
qed

end
