(* ===== verification/Kwsdio.thy ===== *)
theory Kwsdio
  imports Sdcard Blockstore
begin

text \<open>
  \<open>kwsdio.c\<close>: the driver of the SD host controller, which provides the block store \<open>bs02\<close>.  The
  hardware is a parameter: what the controller and the card make of a command that was written to
  the registers, and what a read of the busy register \<open>hoststate\<close> returns.  The state holds the
  driver's lock, the card's data, the options, the registers, the memory the controller reads and writes
  by DMA, and the state of the hardware.
\<close>

section \<open>Constants\<close>

abbreviation SDOk :: int where "SDOk \<equiv> 0"
abbreviation SDTimeout :: int where "SDTimeout \<equiv> - 1"
abbreviation SDCardbusy :: int where "SDCardbusy \<equiv> - 2"
abbreviation SDError :: int where "SDError \<equiv> - 3"
abbreviation SDInterrupted :: int where "SDInterrupted \<equiv> - 4"
abbreviation SDBadstatus :: int where "SDBadstatus \<equiv> - 5"

datatype rtype = R0 | R1 | R1b | R2 | R3 | R6 | R7

text \<open>The flags of a command, as the bits of \<open>fl\<close>.\<close>

record sdflags =
  f_app :: bool
  f_appdata :: bool
  f_dmad2h :: bool
  f_dmah2d :: bool
  f_multi :: bool

definition no_flags :: sdflags where
  "no_flags = \<lparr>f_app = False, f_appdata = False, f_dmad2h = False, f_dmah2d = False, f_multi = False\<rparr>"

abbreviation Scmdcomplete :: u32 where "Scmdcomplete \<equiv> 0x1"
abbreviation Sdmaintr :: u32 where "Sdmaintr \<equiv> 0x8"
abbreviation Sunexpresp :: u32 where "Sunexpresp \<equiv> 0x4000"
abbreviation Serror :: u32 where "Serror \<equiv> 0x8000"
abbreviation Ecmdtimeout :: u32 where "Ecmdtimeout \<equiv> 0x1"
abbreviation HScmdinhibit :: u32 where "HScmdinhibit \<equiv> 0x1"
abbreviation HScardbusy :: u32 where "HScardbusy \<equiv> 0x2"
abbreviation HChighspeed :: u32 where "HChighspeed \<equiv> 0x400"
abbreviation TMdatawrite :: u32 where "TMdatawrite \<equiv> 0x2"
abbreviation TMautocmd12 :: u32 where "TMautocmd12 \<equiv> 0x4"
abbreviation TMxfertohost :: u32 where "TMxfertohost \<equiv> 0x10"
abbreviation CMDdatacrccheck :: u32 where "CMDdatacrccheck \<equiv> 0x4"
abbreviation CMDcmdcrccheck :: u32 where "CMDcmdcrccheck \<equiv> 0x8"
abbreviation CMDcmdindexcheck :: u32 where "CMDcmdindexcheck \<equiv> 0x10"
abbreviation CMDdatapresent :: u32 where "CMDdatapresent \<equiv> 0x20"
abbreviation CMDunexpresp :: u32 where "CMDunexpresp \<equiv> 0x80"
abbreviation SDappcmd :: u32 where "SDappcmd \<equiv> 0x20"
abbreviation CMD8pattern :: u32 where "CMD8pattern \<equiv> 0xAA"
abbreviation CMD8voltage :: u32 where "CMD8voltage \<equiv> 0x100"
abbreviation ACMD41voltagewindow :: u32 where "ACMD41voltagewindow \<equiv> 0xFF8000"
abbreviation ACMD41sdhcsupported :: u32 where "ACMD41sdhcsupported \<equiv> 0x40000000"
abbreviation ACMD41ready :: u32 where "ACMD41ready \<equiv> 0x80000000"

text \<open>\<open>1<<3|1<<13|1<<14|1<<15|1<<16|MASK(13)<<19\<close>.\<close>

definition SDbad :: u32 where
  "SDbad = 0x8 OR 0x2000 OR 0x4000 OR 0x8000 OR 0x10000 OR push_bit 19 (mask 13)"

definition resptypes :: "rtype \<Rightarrow> u32" where
  "resptypes rt = (case rt of R0 \<Rightarrow> 0 | R2 \<Rightarrow> 1 | R1b \<Rightarrow> 3 | _ \<Rightarrow> 2)"

section \<open>State\<close>

record sdreg =
  sr_dmaaddrlo :: u32
  sr_dmaaddrhi :: u32
  sr_blksize :: u32
  sr_blkcount :: u32
  sr_arglo :: u32
  sr_arghi :: u32
  sr_mode :: u32
  sr_cmd :: u32
  sr_resp :: "u32 list"
  sr_crc7 :: u32
  sr_hostctl :: u32
  sr_swreset :: u32
  sr_st :: u32
  sr_est :: u32
  sr_stena :: u32
  sr_estena :: u32
  sr_stirq :: u32
  sr_estirq :: u32
  sr_acmd12st :: u32
  sr_acmd12arglo :: u32
  sr_acmd12arghi :: u32
  sr_acmd12idx :: u32
  sr_clockdiv :: u32

record 'w sdio =
  sd_lock :: bool
  sd_card :: card
  sd_preerase :: int
  sd_debug :: int
  sd_reg :: sdreg
  sd_mem :: "u32 \<Rightarrow> u8"         \<comment> \<open>the memory the controller transfers to and from\<close>
  sd_reads :: nat
  sd_cmds :: nat
  sd_w :: 'w

text \<open>
  \<open>se_run\<close> is the effect of a command: the registers and the memory when the driver wakes up, from the
  registers, the memory and the state of the hardware when the command was given.  \<open>se_interrupted\<close> says whether the process is interrupted while it waits.
\<close>

record 'w sdenv =
  se_run :: "sdreg \<Rightarrow> (u32 \<Rightarrow> u8) \<Rightarrow> 'w \<Rightarrow> (sdreg \<times> (u32 \<Rightarrow> u8)) \<times> 'w"
  se_hoststate :: "nat \<Rightarrow> u32"
  se_interrupted :: "nat \<Rightarrow> bool"
  se_addr :: u32                  \<comment> \<open>the address of the buffer of a request\<close>
  se_parsecmd :: "u8 list \<Rightarrow> exn + string list"

definition put_sdlock :: "bool \<Rightarrow> 'w sdio \<Rightarrow> 'w sdio" where "put_sdlock x s = s\<lparr>sd_lock := x\<rparr>"

abbreviation upd_sdreg :: "(sdreg \<Rightarrow> sdreg) \<Rightarrow> 'w sdio \<Rightarrow> 'w sdio" where
  "upd_sdreg f s \<equiv> s\<lparr>sd_reg := f (sd_reg s)\<rparr>"

abbreviation upd_card :: "(card \<Rightarrow> card) \<Rightarrow> ('w sdio, unit) kact" where
  "upd_card f \<equiv> kmod (\<lambda>s. s\<lparr>sd_card := f (sd_card s)\<rparr>)"

text \<open>\<open>qlock; if(waserror()){ qunlock; nexterror(); } \<dots>; poperror(); qunlock;\<close>\<close>

definition with_sdio :: "('w sdio, 'a) kact \<Rightarrow> ('w sdio, 'a) kact" where
  "with_sdio body = kbracket (ilock sd_lock put_sdlock) (iunlock put_sdlock) body"

section \<open>Text of the status\<close>

definition statusstrs :: "string list" where
  "statusstrs = [''cmdcomplete'', ''xfercomplete'', ''blockgapevent'', ''dmaintr'', ''txready'',
     ''rxready'', [], [], ''cardintr'', ''readwaiton'', ''fifo8wfull'', ''fifo8wavail'', ''suspended'',
     ''autocmd12done'', ''unexpresp'', ''errorintr'']"

definition errstatusstrs :: "string list" where
  "errstatusstrs = [''cmdtimeout'', ''cmdcrc'', ''cmdendbit'', ''cmdindex'', ''datatimeout'',
     ''rddatacrc'', ''rddataend'', [], ''autocmd12'', ''cmdstartbit'', ''xfersize'', ''resptbit'',
     ''crcendbit'', ''crcstartbit'', ''crcstatus'']"

definition mkstr :: "nat \<Rightarrow> string \<Rightarrow> u32 \<Rightarrow> string list \<Rightarrow> string" where
  "mkstr cap p v s =
     foldl (\<lambda>p i. if bit v i then seprint cap p ('' '' @ qfmt (s ! i)) else p) p [0..<length s]"

definition statusstr :: "nat \<Rightarrow> string \<Rightarrow> u32 \<Rightarrow> string" where
  "statusstr cap p v = mkstr cap p v statusstrs"

definition errstatusstr :: "nat \<Rightarrow> string \<Rightarrow> u32 \<Rightarrow> string" where
  "errstatusstr cap p v = mkstr cap p v errstatusstrs"

definition acmd12ststrs :: "string list" where
  "acmd12ststrs = [''acmd12notexe'', ''acmd12timeout'', ''acmd12crcerr'', ''acmd12endbiterr'',
     ''acmd12indexerr'', ''acmd12resptbi'', ''acmd12respstartbiterr'']"

definition sdstatusstrs :: "string list" where
  "sdstatusstrs = [''tm0'', ''tm1'', ''apprsvd'', ''akeseqerr'', ''sdiorsvd'', ''appcmd'', ''rsvd6'',
     ''rsvd7'', ''readyfordata'', ''st9'', ''st10'', ''st11'', ''st12'', ''erasereset'', ''noecc'',
     ''wperaseskip'', ''csdoverwrite'', ''rsvd17'', ''rsvd18'', ''error'', ''ccerror'', ''eccfail'',
     ''badcmd'', ''cmdcrcerr'', ''lockerr'', ''locked'', ''wpviolation'', ''eraseparam'',
     ''eraseseqerr'', ''blocklenerr'', ''addrerr'', ''outofrange'']"

definition acmd12ststr :: "nat \<Rightarrow> string \<Rightarrow> u32 \<Rightarrow> string" where
  "acmd12ststr cap p v = mkstr cap p v acmd12ststrs"

definition sdstatusstr :: "nat \<Rightarrow> string \<Rightarrow> u32 \<Rightarrow> string" where
  "sdstatusstr cap p v = mkstr cap p v sdstatusstrs"

definition errstrs :: "string list" where
  "errstrs = [''success'', ''timeout'', ''card busy'', ''error'', ''interrupted'', ''badstatus'']"

abbreviation ERRMAX :: nat where "ERRMAX \<equiv> 128"

definition errorsd_text :: "string \<Rightarrow> int \<Rightarrow> u32 \<Rightarrow> string" where
  "errorsd_text m v status =
     (let p = seprint ERRMAX [] m;
          p = (if v \<noteq> SDOk then seprint ERRMAX p ('': '' @ errstrs ! nat (- v)) else p);
          p = (if v = SDBadstatus
               then seprint ERRMAX p ('' (r1status '' @ xhex (unat status) @ '')'') else p)
      in if v = SDError then
           seprint ERRMAX (errstatusstr ERRMAX (seprint ERRMAX p ('' (est '' @ xhex (unat status))) status)
             '')''
         else p)"

definition errorsd :: "string \<Rightarrow> int \<Rightarrow> ('w sdio, 'a) kact" where
  "errorsd m v = kbind (kget (\<lambda>s. c_status (sd_card s))) (\<lambda>st. kraise (Error (Emsg (errorsd_text m v st))))"

section \<open>Commands\<close>

text \<open>Waiting for the card: 51 looks at \<open>hoststate\<close>, with a pause after each but the last.\<close>

primrec wait_ready :: "'w sdenv \<Rightarrow> nat \<Rightarrow> ('w sdio, bool) kact" where
  "wait_ready env 0 = kret False"
| "wait_ready env (Suc n) =
     kbind (kget (\<lambda>s. se_hoststate env (sd_reads s))) (\<lambda>v.
     kthen (kmod (\<lambda>s. s\<lparr>sd_reads := Suc (sd_reads s)\<rparr>))
     (if v AND (HScmdinhibit OR HScardbusy) = 0 then kret True else wait_ready env n))"

definition cmd_mode :: "sdflags \<Rightarrow> u32" where
  "cmd_mode fl = (if f_dmad2h fl then TMxfertohost else 0) OR (if f_dmah2d fl then TMdatawrite else 0)
     OR (if f_multi fl then TMautocmd12 else 0)"

definition cmd_opts :: "rtype \<Rightarrow> sdflags \<Rightarrow> u32" where
  "cmd_opts rt fl = CMDunexpresp
     OR (if f_dmad2h fl \<or> f_dmah2d fl then CMDdatapresent else 0)
     OR (if f_dmad2h fl then CMDdatacrccheck else 0)
     OR (if rt \<noteq> R0 \<and> rt \<noteq> R3 then CMDcmdcrccheck else 0)
     OR (if rt \<noteq> R0 \<and> rt \<noteq> R2 \<and> rt \<noteq> R3 then CMDcmdindexcheck else 0)"

definition cmd_need :: "sdflags \<Rightarrow> u32" where
  "cmd_need fl = (if f_dmad2h fl \<or> f_dmah2d fl then Sdmaintr else Scmdcomplete)"

text \<open>The registers of a command, in the order they are written.\<close>

definition cmd_regs :: "u32 \<Rightarrow> u32 \<Rightarrow> rtype \<Rightarrow> sdflags \<Rightarrow> sdreg \<Rightarrow> sdreg" where
  "cmd_regs cmd arg rt fl r =
     (let r = r\<lparr>sr_st := - 1, sr_est := - 1, sr_acmd12st := - 1,
                sr_arglo := arg AND 0xFFFF, sr_arghi := drop_bit 16 arg AND 0xFFFF\<rparr>;
          r = (if f_multi fl then r\<lparr>sr_acmd12arglo := 0, sr_acmd12arghi := 0, sr_acmd12idx := 0xC03\<rparr>
               else r)
      in r\<lparr>sr_mode := cmd_mode fl, sr_cmd := push_bit 8 cmd OR cmd_opts rt fl OR resptypes rt,
           sr_stirq := cmd_need fl OR Sunexpresp OR Serror, sr_estirq := - 1\<rparr>)"

definition run_cmd :: "'w sdenv \<Rightarrow> ('w sdio, bool) kact" where
  "run_cmd env s =
     (case se_run env (sd_reg s) (sd_mem s) (sd_w s) of ((r, m), w) \<Rightarrow>
        (Inr (se_interrupted env (sd_cmds s)),
         s\<lparr>sd_reg := r, sd_mem := m, sd_w := w, sd_cmds := Suc (sd_cmds s)\<rparr>))"

text \<open>The response registers hold the bits from the top, 16 to a register.\<close>

definition resp136 :: "sdreg \<Rightarrow> u64 list" where
  "resp136 r =
     (let f = (\<lambda>i. ucast (sr_resp r ! i) :: u64) in
      [drop_bit 10 (f 0),
       drop_bit 10 (f 4) OR push_bit 6 (f 3) OR push_bit 22 (f 2) OR push_bit 38 (f 1) OR push_bit 54 (f 0),
       ucast (push_bit 1 (sr_crc7 r)) OR push_bit 8 (f 7 AND mask 14) OR push_bit 22 (f 6)
         OR push_bit 38 (f 5) OR push_bit 54 (f 4)])"

definition resp48 :: "sdreg \<Rightarrow> u64 list" where
  "resp48 r =
     (let f = (\<lambda>i. ucast (sr_resp r ! i) :: u64) in
      [0, 0, ucast (push_bit 1 (sr_crc7 r)) OR push_bit 8 (f 2 AND mask 6) OR push_bit 14 (f 1)
         OR push_bit 30 (f 0)])"

definition resp_of :: "rtype \<Rightarrow> sdreg \<Rightarrow> u64 list" where
  "resp_of rt r = (case rt of R0 \<Rightarrow> [0, 0, 0] | R2 \<Rightarrow> resp136 r | _ \<Rightarrow> resp48 r)"

definition c_word :: "card \<Rightarrow> u32" where "c_word c = ucast (drop_bit 8 (c_resp c ! 2))"

text \<open>A command without the check that it is an application command.\<close>

definition sdcmd_plain :: "'w sdenv \<Rightarrow> u32 \<Rightarrow> u32 \<Rightarrow> rtype \<Rightarrow> sdflags \<Rightarrow> ('w sdio, int) kact" where
  "sdcmd_plain env cmd arg rt fl =
     kthen (kmod (upd_sdreg (cmd_regs cmd arg rt fl)))
     (kbind (run_cmd env) (\<lambda>intr.
      if intr then kret SDInterrupted
      else
        kbind (kget sd_reg) (\<lambda>r.
        if sr_st r AND (Sunexpresp OR Serror) \<noteq> 0 then
          kthen (upd_card (\<lambda>c. c\<lparr>c_status := sr_est r\<rparr>))
            (kret (if sr_est r AND Ecmdtimeout \<noteq> 0 then SDTimeout else SDError))
        else if sr_st r AND cmd_need fl = 0 then kret SDTimeout
        else
          kthen (upd_card (\<lambda>c. c\<lparr>c_resp := resp_of rt r\<rparr>))
          (if rt = R1 \<or> rt = R1b then
             kthen (upd_card (\<lambda>c. c\<lparr>c_status := c_word c\<rparr>))
             (kbind (kget (\<lambda>s. c_status (sd_card s))) (\<lambda>st.
              kret (if st AND SDbad \<noteq> 0 then SDBadstatus else 0)))
           else kret 0))))"

text \<open>The nested command of an application command has no flags, so the recursion is one level deep.\<close>

definition sdcmd_app :: "'w sdenv \<Rightarrow> u32 \<Rightarrow> ('w sdio, int) kact" where
  "sdcmd_app env acmd =
     kbind (wait_ready env 51) (\<lambda>ok.
     if \<not> ok then kret SDCardbusy
     else
       kbind (kget (\<lambda>s. c_rca (sd_card s))) (\<lambda>rca.
       kbind (sdcmd_plain env acmd (push_bit 16 rca) R1 no_flags) (\<lambda>s.
       if s < 0 then kret s
       else kbind (kget sd_card) (\<lambda>c. kret (if c_word c AND SDappcmd = 0 then SDBadstatus else 0)))))"

definition sdcmd :: "'w sdenv \<Rightarrow> u32 \<Rightarrow> u32 \<Rightarrow> rtype \<Rightarrow> sdflags \<Rightarrow> ('w sdio, int) kact" where
  "sdcmd env cmd arg rt fl =
     kbind (wait_ready env 51) (\<lambda>ok.
     if \<not> ok then kret SDCardbusy
     else
       kbind (if f_app fl \<or> f_appdata fl then sdcmd_app env (if f_appdata fl then 56 else 55) else kret 0)
         (\<lambda>s. if s < 0 then kret s else sdcmd_plain env cmd arg rt fl))"

definition sdcmddma ::
  "'w sdenv \<Rightarrow> u32 \<Rightarrow> u32 \<Rightarrow> u32 \<Rightarrow> u32 \<Rightarrow> u32 \<Rightarrow> rtype \<Rightarrow> sdflags \<Rightarrow> ('w sdio, int) kact" where
  "sdcmddma env cmd arg addr blsz nbl rt fl =
     kthen (kmod (upd_sdreg (\<lambda>r. r\<lparr>sr_dmaaddrlo := addr AND 0xFFFF,
         sr_dmaaddrhi := drop_bit 16 addr AND 0xFFFF, sr_blksize := blsz, sr_blkcount := nbl\<rparr>)))
     (sdcmd env cmd arg rt fl)"

definition sdclock :: "u32 \<Rightarrow> ('w sdio, unit) kact" where
  "sdclock v = kmod (upd_sdreg (\<lambda>r. r\<lparr>sr_clockdiv := 100000000 div v - 1\<rparr>))"

text \<open>\<open>if(s < 0) errorsd(msg, s)\<close> after a command.\<close>

definition sdcmd_ok :: "'w sdenv \<Rightarrow> string \<Rightarrow> u32 \<Rightarrow> u32 \<Rightarrow> rtype \<Rightarrow> sdflags \<Rightarrow> ('w sdio, unit) kact" where
  "sdcmd_ok env msg cmd arg rt fl =
     kbind (sdcmd env cmd arg rt fl) (\<lambda>s. if s < 0 then errorsd msg s else kret ())"

section \<open>Initialisation of a card\<close>

abbreviation emsg :: "string \<Rightarrow> ('w sdio, 'a) kact" where "emsg m \<equiv> kraise (Error (Emsg m))"

definition sdinit_if :: "'w sdenv \<Rightarrow> ('w sdio, unit) kact" where
  "sdinit_if env =
     kbind (sdcmd env 8 (CMD8voltage OR CMD8pattern) R7 no_flags) (\<lambda>s.
     if s = SDOk then
       kthen (upd_card (\<lambda>c. c\<lparr>c_sd2 := 1\<rparr>))
       (kbind (kget (\<lambda>s. c_word (sd_card s))) (\<lambda>v.
        if v AND mask 8 \<noteq> CMD8pattern then emsg ''check pattern mismatch''
        else if v AND push_bit 8 (mask 4) \<noteq> CMD8voltage then emsg ''voltage not supported''
        else kret ()))
     else if s = SDTimeout \<or> s = SDError then sdcmd_ok env ''reset failed'' 0 0 R0 no_flags
     else errorsd ''voltage exchange failed'' s)"

definition app_flags :: sdflags where "app_flags = no_flags\<lparr>f_app := True\<rparr>"

text \<open>At most 101 rounds of \<open>ACMD41\<close>.\<close>

primrec sdinit_power :: "'w sdenv \<Rightarrow> nat \<Rightarrow> ('w sdio, unit) kact" where
  "sdinit_power env 0 = emsg ''sd card failed to power up''"
| "sdinit_power env (Suc n) =
     kbind (kget (\<lambda>s. c_sd2 (sd_card s))) (\<lambda>sd2.
     kbind (sdcmd env 41 (ACMD41voltagewindow OR (if sd2 \<noteq> 0 then ACMD41sdhcsupported else 0)) R3 app_flags)
       (\<lambda>s.
        if s < 0 then
          kthen (if s = SDTimeout \<and> sd2 = 0 then upd_card (\<lambda>c. c\<lparr>c_mmc := 1\<rparr>) else kret ())
            (errorsd ''exchange voltage/sdhc support info'' s)
        else
          kbind (kget (\<lambda>s. c_word (sd_card s))) (\<lambda>v.
          if v AND ACMD41voltagewindow = 0 then emsg ''voltage not supported''
          else if v AND ACMD41ready \<noteq> 0 then
            upd_card (\<lambda>c. c\<lparr>c_sdhc := (if v AND ACMD41sdhcsupported \<noteq> 0 then 1 else 0)\<rparr>)
          else sdinit_power env n)))"

text \<open>At most 11 rounds of \<open>CMD3\<close>.\<close>

primrec sdinit_rca :: "'w sdenv \<Rightarrow> nat \<Rightarrow> ('w sdio, unit) kact" where
  "sdinit_rca env 0 = emsg ''card insists on invalid rca 0''"
| "sdinit_rca env (Suc n) =
     kthen (sdcmd_ok env ''getting relative address'' 3 0 R6 no_flags)
     (kthen (upd_card (\<lambda>c. c\<lparr>c_rca := ucast (drop_bit 24 (c_resp c ! 2) AND mask 16)\<rparr>))
     (kbind (kget (\<lambda>s. c_rca (sd_card s))) (\<lambda>rca.
      if rca \<noteq> 0 then kret () else sdinit_rca env n)))"

definition card_size :: "card \<Rightarrow> card" where
  "card_size c =
     (if csd_vers (c_csd c) = 0 then
        c\<lparr>c_bs := push_bit (unat (csd_rbl (c_csd c))) 1,
          c_size := ucast (csd_size (c_csd c) + 1)
            * of_int (i32 (2 ^ (unat (csd_sizemult (c_csd c)) + 2)))
            * of_int (i32 (2 ^ unat (csd_rbl (c_csd c))))\<rparr>
      else c\<lparr>c_bs := 512, c_size := ucast (csd_size (c_csd c) + 1) * 512 * 1024\<rparr>)"

definition sdinit_regs :: "'w sdenv \<Rightarrow> ('w sdio, unit) kact" where
  "sdinit_regs env =
     kthen (sdcmd_ok env ''card identification'' 2 0 R2 no_flags)
     (kbind (kget (\<lambda>s. parsecid (c_resp (sd_card s)) (c_cid (sd_card s)))) (\<lambda>(r, cid).
      kthen (upd_card (\<lambda>c. c\<lparr>c_cid := cid\<rparr>))
      (kthen (if r < 0 then emsg ''bad cid register'' else kret ())
      (kthen (sdinit_rca env 11)
      (kbind (kget (\<lambda>s. c_rca (sd_card s))) (\<lambda>rca.
       kthen (sdcmd_ok env ''get csd'' 9 (push_bit 16 rca) R2 no_flags)
       (kbind (kget (\<lambda>s. parsecsd (c_resp (sd_card s)) (c_csd (sd_card s)))) (\<lambda>(r, csd).
        kthen (upd_card (\<lambda>c. c\<lparr>c_csd := csd\<rparr>))
        (kthen (if r < 0 then emsg ''bad csd register'' else kret ())
          (upd_card card_size))))))))))"

definition sdinit_select :: "'w sdenv \<Rightarrow> ('w sdio, unit) kact" where
  "sdinit_select env =
     kbind (kget sd_card) (\<lambda>c.
     kthen
       (if c_sdhc c \<noteq> 0 then
          kthen (kmod (upd_sdreg (\<lambda>r. r\<lparr>sr_hostctl := sr_hostctl r OR HChighspeed\<rparr>))) (sdclock 50000000)
        else sdclock 25000000)
     (kthen (sdcmd_ok env ''selecting card'' 7 (push_bit 16 (c_rca c)) R1b no_flags)
     (kthen (sdcmd_ok env ''setting buswidth to 4-bit'' 6 2 R1 app_flags)
     (kthen (sdcmd_ok env ''setting 512 byte blocksize'' 16 512 R1 no_flags)
       (upd_card (\<lambda>c. c\<lparr>c_valid := 1\<rparr>))))))"

definition sdinit :: "'w sdenv \<Rightarrow> ('w sdio, unit) kact" where
  "sdinit env =
     kthen (kmod (upd_sdreg (\<lambda>r. r\<lparr>sr_hostctl := sr_hostctl r AND NOT HChighspeed\<rparr>)))
     (kthen (sdclock 400000)
     (kthen (sdcmd_ok env ''reset failed'' 0 0 R0 no_flags)
     (kthen (upd_card (\<lambda>c. c\<lparr>c_mmc := 0, c_sd2 := 0, c_sdhc := 0, c_rca := 0\<rparr>))
     (kthen (sdinit_if env)
     (kthen (sdinit_power env 101)
     (kbind (kget (\<lambda>s. c_mmc (sd_card s))) (\<lambda>mmc.
      if mmc \<noteq> 0 then emsg ''possibly mmc card, not yet supported''
      else kthen (sdinit_regs env) (sdinit_select env))))))))"

text \<open>Two functions of the file that nothing calls.\<close>

definition sdstatus :: "'w sdenv \<Rightarrow> u32 \<Rightarrow> ('w sdio, int) kact" where
  "sdstatus env addr = sdcmddma env 13 0 addr 64 1 R1 (app_flags\<lparr>f_dmad2h := True\<rparr>)"

definition erase :: "'w sdenv \<Rightarrow> int \<Rightarrow> int \<Rightarrow> ('w sdio, int) kact" where
  "erase env off n =
     kbind (kget (\<lambda>s. c_sdhc (sd_card s))) (\<lambda>sdhc.
     let e = i64 (off + n);
         (off, e) = (if sdhc \<noteq> 0 then (off sdiv 512, i64 (e - 512) sdiv 512) else (off, i64 (e - 1)))
     in kbind (sdcmd env 32 (of_int off) R1 no_flags) (\<lambda>s.
        kbind (if 0 \<le> s then sdcmd env 33 (of_int e) R1 no_flags else kret s) (\<lambda>s.
        if 0 \<le> s then sdcmd env 38 0 R1b no_flags else kret s)))"

section \<open>Input and output\<close>

abbreviation MAXXFER :: u32 where "MAXXFER \<equiv> 524288"

definition dma_flags :: "bool \<Rightarrow> sdflags" where
  "dma_flags w = no_flags\<lparr>f_dmad2h := \<not> w, f_dmah2d := w, f_multi := True\<rparr>"

text \<open>
  The buffer of a request is the memory at \<open>se_addr\<close>; \<open>put_buf\<close> and \<open>get_buf\<close> go between that memory and
  the list of its bytes.
\<close>

definition put_buf :: "u32 \<Rightarrow> u8 list \<Rightarrow> (u32 \<Rightarrow> u8) \<Rightarrow> u32 \<Rightarrow> u8" where
  "put_buf a buf m = (\<lambda>x. if unat (x - a) < length buf then buf ! unat (x - a) else m x)"

definition get_buf :: "u32 \<Rightarrow> nat \<Rightarrow> (u32 \<Rightarrow> u8) \<Rightarrow> u8 list" where
  "get_buf a n m = map (\<lambda>k. m (a + of_nat k)) [0..<n]"

text \<open>
  One transfer of the loop: \<open>nn\<close> bytes at offset \<open>h\<close> of the buffer.  The count is taken from the whole
  request, not from what is left of it; a transfer that goes past the end of the buffer is a \<open>Fault\<close>.
  What the buffer holds afterwards is what the controller left in the memory.
\<close>

definition xfer_count :: "u32 \<Rightarrow> u32" where
  "xfer_count n = (if MAXXFER < n then MAXXFER else n)"

definition xfer_arg :: "card \<Rightarrow> int \<Rightarrow> u32 \<Rightarrow> u32" where
  "xfer_arg c off h = (if c_sdhc c \<noteq> 0 then of_int (i64 (off + uint h) sdiv 512) else of_int (i64 (off + uint h)))"

definition sdioio_xfer :: "'w sdenv \<Rightarrow> bool \<Rightarrow> int \<Rightarrow> u32 \<Rightarrow> u8 list \<Rightarrow> ('w sdio, u8 list) kact" where
  "sdioio_xfer env w off h buf =
     (let n = of_nat (length buf); nn = xfer_count n; h' = unat h; n' = unat nn in
      kbind (kget sd_card) (\<lambda>c.
      kbind (kget sd_preerase) (\<lambda>pre.
      kthen (if w \<and> pre \<noteq> 0 then sdcmd_ok env ''erase before write'' 23 (nn div 512) R1 app_flags else kret ())
      (if length buf < h' + n' then kraise (Fault ''dma past the end of the buffer'')
       else
         kthen (kmod (\<lambda>s. s\<lparr>sd_mem := put_buf (se_addr env) buf (sd_mem s)\<rparr>))
         (kbind (sdcmddma env (if w then 25 else 18) (xfer_arg c off h) (se_addr env + h)
                  512 (nn div 512) R1 (dma_flags w)) (\<lambda>s.
          if s < 0 then errorsd ''io'' s
          else kget (\<lambda>s. get_buf (se_addr env) (length buf) (sd_mem s))))))))"

text \<open>Every round moves \<open>h\<close> forward, so there are never more rounds than bytes plus one; the lock is given up
  and taken again between two rounds.\<close>

primrec sdioio_loop :: "'w sdenv \<Rightarrow> bool \<Rightarrow> int \<Rightarrow> nat \<Rightarrow> u32 \<Rightarrow> u8 list \<Rightarrow> ('w sdio, u8 list) kact" where
  "sdioio_loop env w off 0 h buf = kraise Fuel"
| "sdioio_loop env w off (Suc k) h buf =
     kbind (sdioio_xfer env w off h buf) (\<lambda>buf.
     let h = h + xfer_count (of_nat (length buf)) in
     if of_nat (length buf) \<le> h then kret buf
     else
       kthen (iunlock put_sdlock) (kthen (ilock sd_lock put_sdlock) (sdioio_loop env w off k h buf)))"

definition sdioio :: "'w sdenv \<Rightarrow> bool \<Rightarrow> u8 list \<Rightarrow> int \<Rightarrow> ('w sdio, int \<times> u8 list) kact" where
  "sdioio env w buf off =
     with_sdio
       (kbind (kget (\<lambda>s. c_valid (sd_card s))) (\<lambda>v.
        kthen (kguard (v \<noteq> 0) Enocard)
        (kthen (kguard (se_addr env mod 4 = 0) (Emsg ''bad buffer alignment...''))
        (kthen (kguard (off AND 511 = 0) (Emsg ''not sector aligned''))
        (kthen (kguard (length buf mod 512 = 0) (Emsg ''not multiple of sector size''))
        (kbind (sdioio_loop env w off (length buf + 2) 0 buf) (\<lambda>buf. kret (int (length buf), buf))))))))"

section \<open>Interrupts and the functions of the store\<close>

text \<open>\<open>intrclear\<close>, \<open>intrenable\<close> and \<open>intrdisable\<close> act on the interrupt controller.\<close>

definition sdiointr :: "'w sdio \<Rightarrow> 'w sdio" where
  "sdiointr = upd_sdreg (\<lambda>r. r\<lparr>sr_stirq := 0, sr_estirq := 0\<rparr>)"

definition sdioreset :: "'w sdio \<Rightarrow> 'w sdio" where
  "sdioreset = upd_sdreg (\<lambda>r. r\<lparr>sr_stirq := 0, sr_estirq := 0\<rparr>)"

definition sdiodone :: "u32 \<Rightarrow> 'w sdio \<Rightarrow> bool \<times> 'w sdio" where
  "sdiodone v s =
     (if sr_st (sd_reg s) AND v \<noteq> 0 then (True, upd_sdreg (\<lambda>r. r\<lparr>sr_stirq := 0\<rparr>) s) else (False, s))"

definition sdioinit0 :: "('w sdio, unit) kact" where
  "sdioinit0 =
     kthen (upd_card (\<lambda>c. c\<lparr>c_valid := 0\<rparr>))
     (kthen (kmod (upd_sdreg (\<lambda>r. r\<lparr>sr_swreset := 0x100\<rparr>)))
     (kthen (sdclock 100000)
       (kmod (upd_sdreg (\<lambda>r. r\<lparr>sr_hostctl := 0x1 OR 0x8 OR 0x200 OR push_bit 11 15 OR 0x8000,
          sr_st := - 1, sr_est := - 1, sr_stena := NOT (0x10 OR 0x800), sr_estena := - 1,
          sr_stirq := 0, sr_estirq := 0\<rparr>)))))"

definition sdioinit :: "('w sdio, unit) kact" where
  "sdioinit = with_sdio sdioinit0"

definition sdiorctl_text :: "'w sdio \<Rightarrow> string" where
  "sdiorctl_text s =
     (let p = seprint READSTR [] (''debug '' @ sdec (sd_debug s) @ [CHR 0x0A]);
          p = cardstr READSTR p (sd_card s);
          p = seprint READSTR p (''cid:'' @ [CHR 0x0A]);
          p = cidstr READSTR p (c_cid (sd_card s));
          p = seprint READSTR p (''csd:'' @ [CHR 0x0A])
      in csdstr READSTR p (c_csd (sd_card s)))"

definition sdiorctl :: "int \<Rightarrow> int \<Rightarrow> ('w sdio, u8 list) kact" where
  "sdiorctl n off =
     with_sdio
       (kbind (kget (\<lambda>s. c_valid (sd_card s))) (\<lambda>v.
        kthen (kguard (v \<noteq> 0) Enocard)
        (kbind (kget sdiorctl_text) (\<lambda>t. kret (readstr off n t)))))"

definition sdioctl :: "(nat \<times> string \<times> nat) list" where
  "sdioctl = [(0, ''debug'', 2), (1, ''preerase'', 2)]"

definition sdiowctl :: "'w sdenv \<Rightarrow> u8 list \<Rightarrow> ('w sdio, int) kact" where
  "sdiowctl env buf =
     kbind (klift (se_parsecmd env buf)) (\<lambda>f.
     kbind (klift (lookupcmd sdioctl f)) (\<lambda>ct.
     kthen
       (if ct = 0 then kmod (\<lambda>s. s\<lparr>sd_debug := atoi (f ! 1)\<rparr>)
        else with_ilock sd_lock put_sdlock (kmod (\<lambda>s. s\<lparr>sd_preerase := atoi (f ! 1)\<rparr>)))
     (kret (int (length buf)))))"

section \<open>The store\<close>

text \<open>The driver's functions as functions of the block device: they run on its hardware state.\<close>

definition on_hw :: "('w sdio, 'a) kact \<Rightarrow> ('w sdio bs, 'a) kact" where
  "on_hw m s = (case m (bs_hw s) of (r, h) \<Rightarrow> (r, s\<lparr>bs_hw := h\<rparr>))"

definition sdio_descr :: "card \<Rightarrow> string" where
  "sdio_descr c =
     ''product '' @ qfmt (cstr (cid_prodname (c_cid c))) @ '', serial '' @ xhex (unat (cid_serial (c_cid c)))
     @ '', rev '' @ xhex (unat (cid_rev (c_cid c))) @ '', '' @ sdec (cid_year (c_cid c)) @ ''-''
     @ sdec (cid_mon (c_cid c)) @ '', sdhc '' @ sdec (c_sdhc c)"

definition sdiodevinit :: "'w sdenv \<Rightarrow> nat \<Rightarrow> ('w sdio bs, unit) kact" where
  "sdiodevinit env i =
     kbind (on_hw (with_sdio (kthen sdioinit0 (kthen (sdinit env) (kget sd_card))))) (\<lambda>c.
     supd i (\<lambda>d. d\<lparr>st_size := sint (c_size c), st_descr := sdio_descr c\<rparr>))"

definition sdio_ops :: "'w sdenv \<Rightarrow> nat \<Rightarrow> 'w sdio devops" where
  "sdio_ops env i =
     \<lparr>dv_init = on_hw sdioinit, dv_devinit = sdiodevinit env i,
      dv_rctl = (\<lambda>n off. on_hw (sdiorctl n off)), dv_wctl = (\<lambda>b. on_hw (sdiowctl env b)),
      dv_io = (\<lambda>w buf off. on_hw (sdioio env w buf off)), dv_raw = None\<rparr>"

definition sdiodisk :: store where
  "sdiodisk = \<lparr>st_vers = 0, st_ready = 0, st_num = 0, st_name = [], st_alignmask = 512 - 1,
     st_descr = [], st_devtype = ''sdcard'', st_parts = [], st_size = 0\<rparr>"

definition kwsdiolink :: "'w sdio bsenv \<Rightarrow> ('w sdio bs, unit) kact" where
  "kwsdiolink env =
     kthen (on_hw (kmod sdioreset)) (blockstoreadd env (sdiodisk\<lparr>st_num := 2\<rparr>))"

end
