(* ===== verification/Kwsdio_Io.thy ===== *)
theory Kwsdio_Io
  imports Kwsdio Blockstore_Io
begin

text \<open>
  What the SD driver guarantees: its functions keep the contract of the block device (the locale
  \<open>bs_driver\<close>) and the driver's lock, a card that answers is read correctly in transfers of at most
  512 KiB, a partition read through the block device returns the bytes of the card, and what holds of
  a card whose initialisation succeeded.
\<close>

section \<open>The driver keeps the contract of the block device\<close>

lemma on_hw_disks: "bs_disks (snd (on_hw m s)) = bs_disks s" "bs_locks (snd (on_hw m s)) = bs_locks s"
  by (simp_all add: on_hw_def bs_locks_def split: prod.splits)

lemma on_hw_balanced [balanced_rule]: "balanced bs_locks (on_hw m)"
  unfolding balanced_def by (metis on_hw_disks(2) snd_conv)

lemma on_hw_inv [kinv_rule]: "kinv bs_inv (on_hw m)"
  by (simp add: kinv_def bs_inv_def on_hw_disks)

lemma supd_not_ready:
  assumes "bs_inv s" and "not_ready i s" and "\<And>d. st_ready (f d) = st_ready d"
  shows "bs_inv (snd (supd i f s))"
proof -
  let ?g = "\<lambda>d. if st_ready d = 0 then f d else d"
  have "bs_disks (snd (supd i f s)) = bs_disks (snd (supd i ?g s))"
    using assms(2) by (cases "i < length (bs_disks s)"; cases "bs_disks s ! i")
      (simp_all add: supd_def not_ready_def list_update_beyond)
  moreover have "bs_inv (snd (supd i ?g s))"
    by (rule kinv_snd [OF supd_inv assms(1)]) (simp add: store_ok_def assms(3))
  ultimately show ?thesis by (simp add: bs_inv_def)
qed

lemma sdiodevinit_keeps:
  assumes "bs_inv s" and "not_ready i s"
  shows "bs_inv (snd (sdiodevinit env i s))"
proof -
  obtain r t where t: "on_hw (with_sdio (kthen sdioinit0 (kthen (sdinit env) (kget sd_card)))) s = (r, t)"
    by (cases "on_hw (with_sdio (kthen sdioinit0 (kthen (sdinit env) (kget sd_card)))) s")
  then have "bs_disks t = bs_disks s" by (metis on_hw_disks(1) snd_conv)
  with assms have inv: "bs_inv t" "not_ready i t" by (simp_all add: bs_inv_def not_ready_def)
  show ?thesis
  proof (cases r)
    case (Inl e)
    with t inv show ?thesis by (simp add: sdiodevinit_def kbind_def)
  next
    case (Inr c)
    have "bs_inv (snd (supd i (\<lambda>d. d\<lparr>st_size := sint (c_size c), st_descr := sdio_descr c\<rparr>) t))"
      by (rule supd_not_ready [OF inv]) simp
    with t Inr show ?thesis by (simp add: sdiodevinit_def kbind_def)
  qed
qed

lemma sdiodevinit_balanced [balanced_rule]: "balanced bs_locks (sdiodevinit env i)"
  unfolding sdiodevinit_def by (intro balanced_rule)

interpretation sdio_store: bs_driver "b\<lparr>be_ops := sdio_ops env\<rparr>" for b env
  by unfold_locales
    (simp_all add: sdio_ops_def on_hw_disks balanced_rule kinv_rule sdiodevinit_keeps)

section \<open>The driver's lock\<close>

interpretation sd_q: spin_lens sd_lock put_sdlock sd_lock
  by unfold_locales (simp_all add: put_sdlock_def)

text \<open>Code that runs with the lock held, and gives it up only to take it again.\<close>

definition holds :: "('w sdio, 'a) kact \<Rightarrow> bool" where
  "holds m \<longleftrightarrow> (\<forall>s r s'. m s = (r, s') \<longrightarrow> sd_lock s \<longrightarrow>
     (\<exists>x. r = Inr x) \<or> (\<exists>e. r = Inl (Error e)) \<longrightarrow> sd_lock s')"

lemma holdsI: "balanced sd_lock m \<Longrightarrow> holds m"
  by (auto simp: holds_def balanced_def)

lemma holds_bind: "holds m \<Longrightarrow> (\<And>x. holds (f x)) \<Longrightarrow> holds (kbind m f)"
  unfolding holds_def kbind_def by (fastforce split: prod.splits sum.splits)

lemma holds_then: "holds m \<Longrightarrow> holds n \<Longrightarrow> holds (kthen m n)"
  unfolding kthen_def by (rule holds_bind)

lemma holds_if: "holds a \<Longrightarrow> holds b \<Longrightarrow> holds (if c then a else b)"
  by simp

lemma with_sdio_balanced:
  assumes "holds body"
  shows "balanced sd_lock (with_sdio body)"
  using assms unfolding balanced_def holds_def with_sdio_def kbracket_def
  by (fastforce simp: kthen_def kbind_def kcatch_def ilock_def iunlock_def put_sdlock_def
      split: prod.splits sum.splits exn.splits if_splits)

lemma upd_balanced [balanced_rule]:
  "balanced sd_lock (upd_card f)" "balanced sd_lock (kmod (upd_sdreg g))"
  "balanced sd_lock (kmod (\<lambda>s. s\<lparr>sd_reads := h s\<rparr>))"
  "balanced sd_lock (kmod (\<lambda>s. s\<lparr>sd_mem := k s\<rparr>))" "balanced sd_lock (run_cmd env)"
  by (auto simp: balanced_def run_cmd_def split: prod.splits)

lemma errorsd_balanced [balanced_rule]: "balanced sd_lock (errorsd m v)"
  unfolding errorsd_def by (intro balanced_rule)

lemma wait_ready_balanced [balanced_rule]: "balanced sd_lock (wait_ready env n)"
proof (induction n)
  case 0
  show ?case unfolding wait_ready.simps by (intro balanced_rule)
next
  case (Suc n)
  show ?case unfolding wait_ready.simps by (intro balanced_rule Suc.IH)
qed

lemma sdcmd_balanced [balanced_rule]: "balanced sd_lock (sdcmd env cmd arg rt fl)"
  unfolding sdcmd_def sdcmd_app_def sdcmd_plain_def by (intro balanced_rule)

lemma sdcmd_ok_balanced [balanced_rule]: "balanced sd_lock (sdcmd_ok env m cmd arg rt fl)"
  unfolding sdcmd_ok_def by (intro balanced_rule)

lemma sdcmddma_balanced [balanced_rule]: "balanced sd_lock (sdcmddma env cmd arg a bs n rt fl)"
  unfolding sdcmddma_def by (intro balanced_rule)

lemma sdclock_balanced [balanced_rule]: "balanced sd_lock (sdclock v)"
  unfolding sdclock_def by (intro balanced_rule)

lemma sdinit_power_balanced [balanced_rule]: "balanced sd_lock (sdinit_power env n)"
proof (induction n)
  case 0
  show ?case unfolding sdinit_power.simps by (intro balanced_rule)
next
  case (Suc n)
  show ?case unfolding sdinit_power.simps by (intro balanced_rule Suc.IH)
qed

lemma sdinit_rca_balanced [balanced_rule]: "balanced sd_lock (sdinit_rca env n)"
proof (induction n)
  case 0
  show ?case unfolding sdinit_rca.simps by (intro balanced_rule)
next
  case (Suc n)
  show ?case unfolding sdinit_rca.simps by (intro balanced_rule Suc.IH)
qed

lemma sdinit_balanced [balanced_rule]: "balanced sd_lock (sdinit env)"
  unfolding sdinit_def sdinit_if_def sdinit_regs_def sdinit_select_def by (intro balanced_rule)

lemma sdioinit0_balanced [balanced_rule]: "balanced sd_lock sdioinit0"
  unfolding sdioinit0_def by (intro balanced_rule)

lemma sdioio_xfer_balanced [balanced_rule]: "balanced sd_lock (sdioio_xfer env w off h buf)"
  unfolding sdioio_xfer_def Let_def by (intro balanced_rule)

lemma relock_holds: "holds m \<Longrightarrow> holds (kthen (iunlock put_sdlock) (kthen (ilock sd_lock put_sdlock) m))"
  by (auto simp: holds_def kthen_def kbind_def ilock_def iunlock_def put_sdlock_def)

lemma sdioio_loop_holds: "holds (sdioio_loop env w off n h buf)"
proof (induction n arbitrary: h buf)
  case 0
  then show ?case by (simp add: holds_def)
next
  case (Suc n)
  have "holds (sdioio_xfer env w off h buf)" by (intro holdsI balanced_rule)
  moreover have "holds (kret b)" for b by (intro holdsI balanced_rule)
  ultimately show ?case
    unfolding sdioio_loop.simps Let_def by (intro holds_bind holds_if relock_holds Suc.IH)
qed

lemma sdioio_balanced: "balanced sd_lock (sdioio env w buf off)"
  unfolding sdioio_def
  by (intro with_sdio_balanced holds_bind holds_then sdioio_loop_holds holdsI balanced_rule)

text \<open>
  The driver's lock.  Whatever the card answers, \<open>init\<close>, \<open>rctl\<close>, \<open>wctl\<close>, \<open>io\<close> and the initialisation of
  a card return or raise an error with the lock as they found it, although \<open>io\<close> gives it up between
  transfers.
\<close>

theorem sdio_lock_balanced:
  "balanced sd_lock (sdioio env w buf off) \<and> balanced sd_lock sdioinit \<and>
   balanced sd_lock (sdiorctl n off) \<and>
   balanced sd_lock (with_sdio (kthen sdioinit0 (kthen (sdinit env) (kget sd_card))))"
proof (intro conjI)
  show "balanced sd_lock (sdioio env w buf off)" by (rule sdioio_balanced)
  show "balanced sd_lock sdioinit"
    unfolding sdioinit_def by (intro with_sdio_balanced holdsI balanced_rule)
  show "balanced sd_lock (sdiorctl n off)"
    unfolding sdiorctl_def by (intro with_sdio_balanced holdsI balanced_rule)
  show "balanced sd_lock (with_sdio (kthen sdioinit0 (kthen (sdinit env) (kget sd_card))))"
    by (intro with_sdio_balanced holdsI balanced_rule)
qed

section \<open>A card that reads\<close>

text \<open>
  The hardware answers every command that reads blocks: when the registers give a block size of 512, a
  transfer to the host and the stop command after the last block, there are no errors, the transfer is
  finished, the status is good, and the memory at the DMA address holds as many blocks as the block
  count says, those of the card from the block of the argument on; the rest of the memory is as before.
\<close>

definition read_cmd :: u32 where
  "read_cmd = push_bit 8 18 OR cmd_opts R1 (dma_flags False) OR resptypes R1"

definition reg_arg :: "sdreg \<Rightarrow> u32" where "reg_arg r = push_bit 16 (sr_arghi r) OR sr_arglo r"

definition reg_dma :: "sdreg \<Rightarrow> u32" where "reg_dma r = push_bit 16 (sr_dmaaddrhi r) OR sr_dmaaddrlo r"

definition read_regs :: "sdreg \<Rightarrow> bool" where
  "read_regs r \<longleftrightarrow> sr_cmd r = read_cmd \<and> sr_blksize r = 512 \<and> sr_mode r = TMxfertohost OR TMautocmd12"

definition card_bytes :: "(int \<Rightarrow> u8) \<Rightarrow> int \<Rightarrow> nat \<Rightarrow> u8 list" where
  "card_bytes content off n = map (\<lambda>k. content (off + int k)) [0..<n]"

lemma card_bytes_length [simp]: "length (card_bytes content off n) = n"
  by (simp add: card_bytes_def)

definition hw_reads :: "'w sdenv \<Rightarrow> (int \<Rightarrow> u8) \<Rightarrow> bool" where
  "hw_reads env content \<longleftrightarrow>
     (\<forall>n. se_hoststate env n AND (HScmdinhibit OR HScardbusy) = 0) \<and> (\<forall>n. \<not> se_interrupted env n) \<and>
     (\<forall>r m w. read_regs r \<longrightarrow>
        (case se_run env r m w of ((r', m'), w') \<Rightarrow>
           sr_st r' AND (Sunexpresp OR Serror) = 0 \<and> sr_st r' AND Sdmaintr \<noteq> 0 \<and>
           ucast (drop_bit 8 (resp48 r' ! 2)) AND SDbad = 0 \<and>
           m' = put_buf (reg_dma r)
             (card_bytes content (512 * uint (reg_arg r)) (512 * unat (sr_blkcount r))) m))"

lemma half_words:
  "push_bit 16 (drop_bit 16 a) AND 0xFFFF0000 OR a AND 0xFFFF = (a :: u32)"
proof -
  have "push_bit 16 (drop_bit 16 a AND mask 16) OR (a AND mask 16) = a"
    by (rule bit_word_eqI) (auto simp: bit_simps)
  then show ?thesis by (simp add: mask_numeral)
qed

lemma reg_arg_cmd: "reg_arg (cmd_regs cmd arg rt fl r) = arg"
  by (simp add: reg_arg_def cmd_regs_def Let_def half_words)

text \<open>The part of the state that a read goes by.\<close>

definition sd_same :: "'w sdio \<Rightarrow> 'w sdio \<Rightarrow> bool" where
  "sd_same s t \<longleftrightarrow> sd_lock t = sd_lock s \<and> c_valid (sd_card t) = c_valid (sd_card s) \<and>
     c_sdhc (sd_card t) = c_sdhc (sd_card s)"

lemma hw_reads_run:
  assumes "hw_reads env content" and "read_regs r" and "se_run env r m w = ((r', m'), w')"
  shows "sr_st r' AND (Sunexpresp OR Serror) = 0 \<and> sr_st r' AND Sdmaintr \<noteq> 0 \<and>
    ucast (drop_bit 8 (resp48 r' ! 2)) AND SDbad = 0 \<and>
    m' = put_buf (reg_dma r) (card_bytes content (512 * uint (reg_arg r)) (512 * unat (sr_blkcount r))) m"
proof -
  from assms(1) have "\<forall>r m w. read_regs r \<longrightarrow>
    (case se_run env r m w of ((r', m'), w') \<Rightarrow>
       sr_st r' AND (Sunexpresp OR Serror) = 0 \<and> sr_st r' AND Sdmaintr \<noteq> 0 \<and>
       ucast (drop_bit 8 (resp48 r' ! 2)) AND SDbad = 0 \<and>
       m' = put_buf (reg_dma r)
         (card_bytes content (512 * uint (reg_arg r)) (512 * unat (sr_blkcount r))) m)"
    unfolding hw_reads_def by (elim conjE)
  from this [THEN spec, THEN spec, THEN spec, THEN mp, OF assms(2), of m w] assms(3)
  show ?thesis by simp
qed

lemma sdcmddma_read:
  assumes hw: "hw_reads env content"
  shows "\<exists>t. sdcmddma env 18 arg a 512 nb R1 (dma_flags False) s = (Inr 0, t) \<and> sd_same s t \<and>
    sd_mem t = put_buf a (card_bytes content (512 * uint arg) (512 * unat nb)) (sd_mem s)"
proof -
  let ?s1 = "upd_sdreg (\<lambda>r. r\<lparr>sr_dmaaddrlo := a AND 0xFFFF, sr_dmaaddrhi := drop_bit 16 a AND 0xFFFF,
    sr_blksize := 512, sr_blkcount := nb\<rparr>) s"
  let ?s2 = "?s1\<lparr>sd_reads := Suc (sd_reads s)\<rparr>"
  let ?r = "cmd_regs 18 arg R1 (dma_flags False) (sd_reg ?s2)"
  obtain r' m w' where run: "se_run env ?r (sd_mem s) (sd_w s) = ((r', m), w')"
    by (cases "se_run env ?r (sd_mem s) (sd_w s)") (metis prod.collapse)
  have "read_regs ?r" "sr_blkcount ?r = nb" "reg_dma ?r = a"
    by (simp_all add: read_regs_def cmd_regs_def Let_def read_cmd_def cmd_mode_def dma_flags_def
        no_flags_def reg_dma_def half_words)
  with hw_reads_run [OF hw _ run] have good: "sr_st r' AND (Sunexpresp OR Serror) = 0"
    "sr_st r' AND Sdmaintr \<noteq> 0" "ucast (drop_bit 8 (resp48 r' ! 2)) AND SDbad = 0"
    "m = put_buf a (card_bytes content (512 * uint arg) (512 * unat nb)) (sd_mem s)"
    by (simp_all add: reg_arg_cmd)
  let ?c = "(sd_card s)\<lparr>c_resp := resp48 r'\<rparr>"
  let ?t = "?s2\<lparr>sd_reg := r', sd_mem := m, sd_w := w', sd_cmds := Suc (sd_cmds s),
    sd_card := ?c\<lparr>c_status := c_word ?c\<rparr>\<rparr>"
  have flags: "\<not> f_app (dma_flags False)" "\<not> f_appdata (dma_flags False)"
    "cmd_need (dma_flags False) = Sdmaintr"
    by (simp_all add: dma_flags_def no_flags_def cmd_need_def)
  have idle: "se_hoststate env n AND (HScmdinhibit OR HScardbusy) = 0" "\<not> se_interrupted env n" for n
    using hw by (simp_all add: hw_reads_def)
  have wait: "wait_ready env 51 ?s1 = (Inr True, ?s2)"
  proof -
    have "wait_ready env (Suc n) ?s1 = (Inr True, ?s2)" for n
      using idle(1) by (simp add: kthen_def kbind_def)
    from this [of 50] show ?thesis by (simp only: Suc_numeral Num.add_num_simps semiring_norm)
  qed
  have plain: "sdcmd_plain env 18 arg R1 (dma_flags False) ?s2 = (Inr 0, ?t)"
    unfolding sdcmd_plain_def
    using good(1-3) idle flags run
    by (simp add: run_cmd_def kthen_def kbind_def resp_of_def c_word_def)
  have "sdcmddma env 18 arg a 512 nb R1 (dma_flags False) s = (Inr 0, ?t)"
    unfolding sdcmddma_def sdcmd_def using wait plain flags by (simp add: kthen_def kbind_def)
  moreover have "sd_same s ?t" by (simp add: sd_same_def)
  ultimately show ?thesis using good(4) by auto
qed

section \<open>Reading through the transfers\<close>

lemma unat_xfer: "n < 4294967296 \<Longrightarrow> unat (xfer_count (of_nat n)) = min n 524288"
proof -
  assume n: "n < 4294967296"
  have u: "unat (of_nat n :: u32) = n" using n by (intro unat_of_nat_u32) simp
  have "MAXXFER < of_nat n \<longleftrightarrow> 524288 < n" using u by (simp add: word_less_nat_alt)
  then show ?thesis using u by (simp add: xfer_count_def)
qed

lemma buf_over:
  assumes "h + length d \<le> length buf" and "length buf < 4294967296"
  shows "get_buf a (length buf) (put_buf (a + of_nat h) d (put_buf a buf m))
    = take h buf @ d @ drop (h + length d) buf"
proof (rule nth_equalityI)
  show "length (get_buf a (length buf) (put_buf (a + of_nat h) d (put_buf a buf m)))
      = length (take h buf @ d @ drop (h + length d) buf)"
    using assms by (simp add: get_buf_def)
  fix k assume "k < length (get_buf a (length buf) (put_buf (a + of_nat h) d (put_buf a buf m)))"
  then have k: "k < length buf" by (simp add: get_buf_def)
  have u: "unat (of_nat k :: u32) = k" "unat (of_nat h :: u32) = h"
    using k assms by (intro unat_of_nat_u32; simp)+
  have in_d: "unat (of_nat k - of_nat h :: u32) < length d \<longleftrightarrow> h \<le> k \<and> k < h + length d"
    and at_d: "h \<le> k \<Longrightarrow> unat (of_nat k - of_nat h :: u32) = k - h"
    using u k assms by (auto simp: unat_sub_if_size word_size)
  have "a + of_nat k - (a + of_nat h) = (of_nat k - of_nat h :: u32)" by simp
  then show "get_buf a (length buf) (put_buf (a + of_nat h) d (put_buf a buf m)) ! k
      = (take h buf @ d @ drop (h + length d) buf) ! k"
    using k in_d at_d u assms by (auto simp: get_buf_def put_buf_def nth_append)
qed

lemma card_bytes_append:
  "card_bytes content off a @ card_bytes content (off + int a) b = card_bytes content off (a + b)"
proof -
  have "[0..<a + b] = [0..<a] @ [a..<a + b]" by (rule upt_add_eq_append) simp
  moreover have "[a..<a + b] = map (\<lambda>k. k + a) [0..<b]"
    by (subst map_add_upt) (simp only: add.commute)
  ultimately show ?thesis by (simp add: card_bytes_def o_def ac_simps)
qed

lemma xfer_arg_block:
  assumes "c_sdhc c \<noteq> 0" and "0 \<le> off" and "512 dvd off" and "512 dvd h"
    and "off + int h < 2199023255552" and "h < 4294967296"
  shows "512 * uint (xfer_arg c off (of_nat h)) = off + int h"
proof -
  have h: "uint (of_nat h :: u32) = int h" using assms(6) by (rule uint_of_nat_u32)
  have "i64 (off + int h) = off + int h" using assms by (intro i64_id) simp_all
  moreover have "(off + int h) sdiv 512 = (off + int h) div 512" using assms by (intro sdiv_nonneg) simp_all
  moreover have "uint (of_int ((off + int h) div 512) :: u32) = (off + int h) div 512"
    using assms by (intro uint_of_int_u32) simp_all
  moreover have "512 * ((off + int h) div 512) = off + int h"
    using assms by (intro dvd_mult_div_cancel dvd_add) (simp_all add: int_dvd_int_iff [of 512, simplified])
  ultimately show ?thesis using assms(1) by (simp add: xfer_arg_def h)
qed

lemma xfer_read:
  assumes hw: "hw_reads env content" and sdhc: "c_sdhc (sd_card s) \<noteq> 0"
    and off: "0 \<le> off" "512 dvd off" "off + int (length buf) < 2199023255552"
    and n: "length buf < 2147483648" "512 dvd length buf" and h: "512 dvd h"
  defines "c \<equiv> min (length buf) 524288"
  shows "if h + c \<le> length buf
    then \<exists>t. sdioio_xfer env False off (of_nat h) buf s
      = (Inr (take h buf @ card_bytes content (off + int h) c @ drop (h + c) buf), t) \<and> sd_same s t
    else h \<le> length buf \<longrightarrow>
      (\<exists>t. sdioio_xfer env False off (of_nat h) buf s = (Inl (Fault ''dma past the end of the buffer''), t))"
proof -
  have c: "unat (xfer_count (of_nat (length buf))) = c" using n by (simp add: unat_xfer c_def)
  have nb: "512 * unat (xfer_count (of_nat (length buf)) div 512) = c"
  proof -
    have "512 dvd c" using n by (simp add: c_def min_def)
    then show ?thesis by (simp add: unat_div c)
  qed
  have hu: "unat (of_nat h :: u32) = h" if "h \<le> length buf"
    using that n by (intro unat_of_nat_u32) simp
  show ?thesis
  proof (cases "h + c \<le> length buf")
    case True
    then have hl: "h \<le> length buf" by simp
    have arg: "512 * uint (xfer_arg (sd_card s) off (of_nat h)) = off + int h"
      using hl n off sdhc h by (intro xfer_arg_block) simp_all
    let ?s = "s\<lparr>sd_mem := put_buf (se_addr env) buf (sd_mem s)\<rparr>"
    let ?d = "card_bytes content (off + int h) c"
    obtain t where t: "sdcmddma env 18 (xfer_arg (sd_card s) off (of_nat h)) (se_addr env + of_nat h) 512
        (xfer_count (of_nat (length buf)) div 512) R1 (dma_flags False) ?s = (Inr 0, t)"
      "sd_same ?s t" "sd_mem t = put_buf (se_addr env + of_nat h) ?d (sd_mem ?s)"
      using sdcmddma_read [OF hw, of "xfer_arg (sd_card s) off (of_nat h)" "se_addr env + of_nat h"
          "xfer_count (of_nat (length buf)) div 512" ?s]
      by (auto simp: arg nb)
    have "get_buf (se_addr env) (length buf) (sd_mem t) = take h buf @ ?d @ drop (h + c) buf"
      using buf_over [of h ?d buf] True n by (simp add: t(3))
    moreover have "sd_same s t" using t(2) by (simp add: sd_same_def)
    ultimately show ?thesis
      using True t(1) hu [OF hl] c
      by (auto simp: sdioio_xfer_def Let_def kthen_def kbind_def intro!: exI [of _ t])
  next
    case False
    then show ?thesis using hu c by (simp add: sdioio_xfer_def Let_def kthen_def kbind_def)
  qed
qed

text \<open>The loop from offset \<open>h\<close> with \<open>q\<close> whole transfers of \<open>c\<close> bytes and \<open>r\<close> bytes to go.\<close>

lemma loop_read:
  assumes hw: "hw_reads env content"
    and off: "0 \<le> off" "512 dvd off" "off + int n < 2199023255552" and n: "n < 2147483648" "512 dvd n"
  defines "c \<equiv> min n 524288"
  assumes "n = h + q * c + r" and "r < c \<or> c = 0" and "512 dvd h" and "length buf = n"
    and "take h buf = card_bytes content off h" and "0 < q \<or> 0 < r" and "q < k"
    and "c_sdhc (sd_card s) \<noteq> 0" and "sd_lock s"
  shows "if r = 0 then \<exists>t. sdioio_loop env False off k (of_nat h) buf s = (Inr (card_bytes content off n), t) \<and> sd_lock t
    else \<exists>t. sdioio_loop env False off k (of_nat h) buf s = (Inl (Fault ''dma past the end of the buffer''), t)"
  using assms(8-)
proof (induction q arbitrary: h buf k s)
  case 0
  from "0.prems"(7) obtain k' where k: "k = Suc k'" by (cases k) auto
  have "c = 0 \<Longrightarrow> n = 0" by (simp add: c_def min_def split: if_splits)
  then have "r < c" "n < h + c" "h \<le> n" using "0.prems"(1,2,6) by auto
  then have "\<not> h + min (length buf) 524288 \<le> length buf" "h \<le> length buf"
    unfolding "0.prems"(4) c_def by simp_all
  then obtain t where "sdioio_xfer env False off (of_nat h) buf s = (Inl (Fault ''dma past the end of the buffer''), t)"
    using xfer_read [OF hw "0.prems"(8) off(1,2), of buf h] off(3) n "0.prems"(3) unfolding "0.prems"(4)
    by auto
  then show ?case using "0.prems"(6) by (simp add: k kbind_def)
next
  case (Suc q)
  from Suc.prems(7) obtain k' where k: "k = Suc k'" "q < k'" by (cases k) auto
  let ?b = "card_bytes content off (h + c) @ drop (h + c) buf"
  have hn: "h + c \<le> n" using Suc.prems(1) by simp
  then have hc: "h + min (length buf) 524288 \<le> length buf" unfolding Suc.prems(4) c_def .
  then obtain t where t: "sdioio_xfer env False off (of_nat h) buf s
      = (Inr (take h buf @ card_bytes content (off + int h) c @ drop (h + c) buf), t)" "sd_same s t"
    using xfer_read [OF hw Suc.prems(8) off(1,2), of buf h] off(3) n Suc.prems(3)
    unfolding Suc.prems(4) c_def by auto
  have b: "take h buf @ card_bytes content (off + int h) c @ drop (h + c) buf = ?b"
    using Suc.prems(5) card_bytes_append [of content off h c] by simp
  have lenb: "length ?b = n" using hn Suc.prems(4) by simp
  have next_h: "(of_nat h :: u32) + xfer_count (of_nat n) = of_nat (h + c)"
  proof -
    have u: "unat (xfer_count (of_nat n)) = c" using n by (simp add: unat_xfer c_def)
    have "xfer_count (of_nat n) = of_nat c" by (simp flip: u)
    then show ?thesis by simp
  qed
  have hcu: "unat (of_nat (h + c) :: u32) = h + c" "unat (of_nat n :: u32) = n"
    using hn n by (intro unat_of_nat_u32; simp)+
  have le: "(of_nat n :: u32) \<le> of_nat (h + c) \<longleftrightarrow> n \<le> h + c"
    unfolding word_le_nat_alt hcu ..
  show ?case
  proof (cases "n \<le> h + c")
    case True
    then have "n = h + c" using hn by simp
    then have "r = 0" using Suc.prems(1) by simp
    moreover have "?b = card_bytes content off n" using \<open>n = h + c\<close> Suc.prems(4) by simp
    ultimately show ?thesis
      using t lenb b True le next_h Suc.prems(4,9)
      by (simp add: k(1) kbind_def Let_def sd_same_def)
  next
    case False
    let ?t = "put_sdlock True (put_sdlock False t)"
    have run: "sdioio_loop env False off k (of_nat h) buf s = sdioio_loop env False off k' (of_nat (h + c)) ?b ?t"
      using t lenb b False le next_h
      by (simp add: k(1) kbind_def kthen_def Let_def iunlock_def ilock_def put_sdlock_def)
    have "512 dvd c" using n by (simp add: c_def min_def)
    then have "512 dvd h + c" using Suc.prems(3) by simp
    moreover have "n = (h + c) + q * c + r" using Suc.prems(1) by simp
    moreover have "take (h + c) ?b = card_bytes content off (h + c)" by simp
    moreover have "0 < q \<or> 0 < r" using False Suc.prems(1) by auto
    moreover have "c_sdhc (sd_card ?t) \<noteq> 0" "sd_lock ?t"
      using t(2) Suc.prems(8) by (simp_all add: sd_same_def put_sdlock_def)
    ultimately show ?thesis
      unfolding run using Suc.IH [OF _ Suc.prems(2) _ lenb _ _ k(2)] by blast
  qed
qed

text \<open>The bytes of the buffer go over in transfers of at most 512 KiB.\<close>

lemma sdioio_read_run:
  assumes hw: "hw_reads env content" and free: "\<not> sd_lock s"
    and card: "c_valid (sd_card s) \<noteq> 0" "c_sdhc (sd_card s) \<noteq> 0" and addr: "se_addr env mod 4 = 0"
    and off: "0 \<le> off" "512 dvd off" "off + int (length buf) < 2199023255552"
    and n: "length buf < 2147483648" "512 dvd length buf"
  shows "if length buf \<le> 524288 \<or> 524288 dvd length buf
    then \<exists>t. sdioio env False buf off s = (Inr (int (length buf), card_bytes content off (length buf)), t) \<and> \<not> sd_lock t
    else fst (sdioio env False buf off s) = Inl (Fault ''dma past the end of the buffer'')"
proof -
  let ?n = "length buf"
  define c where "c = min ?n 524288"
  define q where "q = (if ?n = 0 then 1 else ?n div c)"
  define r where "r = (if ?n = 0 then 0 else ?n mod c)"
  have c: "?n = 0 \<or> 0 < c" "c \<le> ?n" by (auto simp: c_def)
  have eq: "?n = 0 + q * c + r" using c by (auto simp: q_def r_def)
  have rc: "r < c \<or> c = 0" using c by (auto simp: r_def)
  have pos: "0 < q" using c by (auto simp: q_def div_greater_zero_iff)
  have q: "q < Suc (Suc ?n)" using div_le_dividend [of ?n c] by (simp add: q_def del: div_le_dividend)
  have r0: "r = 0 \<longleftrightarrow> ?n \<le> 524288 \<or> 524288 dvd ?n"
    by (auto simp: r_def c_def min_def mod_eq_0_iff_dvd)
  let ?s = "put_sdlock True s"
  have held: "c_sdhc (sd_card ?s) \<noteq> 0" "sd_lock ?s" using card by (simp_all add: put_sdlock_def)
  have alg: "off AND 511 = 0"
  proof -
    have "off AND mask 9 = off mod 2 ^ 9" by (simp only: flip: take_bit_eq_mask take_bit_eq_mod)
    then show ?thesis using off(2) by (simp add: mask_numeral mod_eq_0_iff_dvd)
  qed
  have len: "length buf mod 512 = 0" using n(2) by (simp add: mod_eq_0_iff_dvd)
  have bn: "off + int ?n < 2199023255552" using off(3) .
  note loop = loop_read [OF hw off(1,2) bn n, of 0 q r buf "?n + 2" ?s, folded c_def]
  have start: "take 0 buf = card_bytes content off 0" by (simp add: card_bytes_def)
  have run: "sdioio env False buf off s = (case sdioio_loop env False off (?n + 2) 0 buf ?s of
      (Inr b, t) \<Rightarrow> (Inr (int (length b), b), put_sdlock False t)
    | (Inl (Error e), t) \<Rightarrow> (Inl (Error e), put_sdlock False t)
    | (Inl e, t) \<Rightarrow> (Inl e, t))"
    using free card(1) addr alg len
    by (auto simp: sdioio_def with_sdio_def kbracket_def kthen_def kbind_def kcatch_def ilock_def
        iunlock_def put_sdlock_def split: prod.split sum.split exn.split)
  show ?thesis
  proof (cases "r = 0")
    case True
    with loop eq rc start pos q held obtain t where
      "sdioio_loop env False off (?n + 2) 0 buf ?s = (Inr (card_bytes content off ?n), t)" by auto
    then show ?thesis using True r0 by (auto simp: run put_sdlock_def)
  next
    case False
    with loop eq rc start pos q held obtain t where
      "sdioio_loop env False off (?n + 2) 0 buf ?s = (Inl (Fault ''dma past the end of the buffer''), t)" by auto
    then show ?thesis using False r0 by (auto simp: run)
  qed
qed

text \<open>
  C19: Reading from a card.  On a high-capacity card that answers, a read of whole sectors returns exactly
  the bytes of the card at the offset, in one or more transfers, with the lock released, provided the
  request has at most 512 KiB or is a multiple of 512 KiB.  Any longer request makes the last transfer go
  past the end of the buffer, because its size is taken from the whole request.
\<close>

theorem sdioio_read:
  assumes "hw_reads env content" and "\<not> sd_lock s" and "c_valid (sd_card s) \<noteq> 0"
    and "c_sdhc (sd_card s) \<noteq> 0" and "se_addr env mod 4 = 0" and "0 \<le> off" and "512 dvd off"
    and "off + int (length buf) < 2199023255552" and "length buf < 2147483648" and "512 dvd length buf"
  shows "if length buf \<le> 524288 \<or> 524288 dvd length buf
    then \<exists>t. sdioio env False buf off s
        = (Inr (int (length buf), map (\<lambda>k. content (off + int k)) [0..<length buf]), t) \<and> \<not> sd_lock t
    else fst (sdioio env False buf off s) = Inl (Fault ''dma past the end of the buffer'')"
  using sdioio_read_run [OF assms] unfolding card_bytes_def .

definition sd_sample_env :: "unit sdenv" where
  "sd_sample_env = \<lparr>se_run = (\<lambda>r m w.
       ((r\<lparr>sr_st := 0x9, sr_est := 0, sr_resp := replicate 8 0, sr_crc7 := 0\<rparr>,
         put_buf (reg_dma r) (replicate (512 * unat (sr_blkcount r)) 7) m), w)),
     se_hoststate = (\<lambda>_. 0), se_interrupted = (\<lambda>_. False), se_addr = 0x1000,
     se_parsecmd = (\<lambda>b. Inr (tokenize 4 (cstr b)))\<rparr>"

definition sd_blank_card :: card where
  "sd_blank_card = \<lparr>c_valid = 1,
     c_cid = \<lparr>cid_mid = 0, cid_oid = [], cid_prodname = [], cid_rev = 0, cid_serial = 0, cid_year = 2010,
       cid_mon = 1\<rparr>,
     c_csd = \<lparr>csd_vers = 1, csd_taac = 0, csd_nsac = 0, csd_speed = 0, csd_ccc = 0, csd_rbl = 9,
       csd_rbpart = 0, csd_wbmalign = 0, csd_rbmalign = 0, csd_dsr = 0, csd_size = 7, csd_vddrmin = 0,
       csd_vddrmax = 0, csd_vddwmin = 0, csd_vddwmax = 0, csd_sizemult = 0, csd_eraseblk = 0,
       csd_erasesecsz = 0, csd_wpgrpsize = 0, csd_wpgrp = 0, csd_speedfactor = 0, csd_wbl = 0,
       csd_wbpart = 0, csd_ffgrp = 0, csd_copy = 0, csd_permwp = 0, csd_tmpwp = 0, csd_ff = 0\<rparr>,
     c_bs = 512, c_size = 4194304, c_mmc = 0, c_sd2 = 1, c_sdhc = 1, c_rca = 1, c_resp = [0, 0, 0],
     c_status = 0\<rparr>"

definition sd_blank_reg :: sdreg where
  "sd_blank_reg = \<lparr>sr_dmaaddrlo = 0, sr_dmaaddrhi = 0, sr_blksize = 0, sr_blkcount = 0, sr_arglo = 0,
     sr_arghi = 0, sr_mode = 0, sr_cmd = 0, sr_resp = replicate 8 0, sr_crc7 = 0, sr_hostctl = 0,
     sr_swreset = 0, sr_st = 0, sr_est = 0, sr_stena = 0, sr_estena = 0, sr_stirq = 0, sr_estirq = 0,
     sr_acmd12st = 0, sr_acmd12arglo = 0, sr_acmd12arghi = 0, sr_acmd12idx = 0, sr_clockdiv = 0\<rparr>"

definition sd_sample :: "unit sdio" where
  "sd_sample = \<lparr>sd_lock = False, sd_card = sd_blank_card, sd_preerase = 0, sd_debug = 0,
     sd_reg = sd_blank_reg, sd_mem = (\<lambda>_. 0), sd_reads = 0, sd_cmds = 0, sd_w = ()\<rparr>"

lemma sd_sample_reads: "hw_reads sd_sample_env (\<lambda>_. 7)"
proof -
  have "resp48 (r\<lparr>sr_st := 0x9, sr_est := 0, sr_resp := replicate 8 0, sr_crc7 := 0\<rparr>) = [0, 0, 0]" for r
    by (simp add: resp48_def)
  then show ?thesis by (simp add: hw_reads_def sd_sample_env_def card_bytes_def map_replicate_const)
qed

theorem sdioio_read_witness:
  "fst (sdioio sd_sample_env False (replicate 1024 0) 512 sd_sample) = Inr (1024, replicate 1024 7) \<and>
   fst (sdioio sd_sample_env False (replicate 524800 0) 512 sd_sample)
     = Inl (Fault ''dma past the end of the buffer'')"
proof -
  have pre: "\<not> sd_lock sd_sample" "c_valid (sd_card sd_sample) \<noteq> 0" "c_sdhc (sd_card sd_sample) \<noteq> 0"
    "se_addr sd_sample_env mod 4 = 0"
    by (simp_all add: sd_sample_def sd_blank_card_def sd_sample_env_def)
  show ?thesis
    using sdioio_read [OF sd_sample_reads pre, of 512 "replicate 1024 0"]
      sdioio_read [OF sd_sample_reads pre, of 512 "replicate 524800 0"]
    by (auto simp: map_replicate_const)
qed

section \<open>A partition of a card\<close>

lemma card_bytes_upto: "map content [off..off + int n - 1] = card_bytes content off n"
  unfolding card_bytes_def by (intro nth_equalityI) auto

text \<open>The driver meets the block device's contract for reads of up to 512 KiB.\<close>

lemma sdio_dev_reads:
  assumes "hw_reads env content" and "\<not> sd_lock (bs_hw s)" and "c_valid (sd_card (bs_hw s)) \<noteq> 0"
    and "c_sdhc (sd_card (bs_hw s)) \<noteq> 0" and "se_addr env mod 4 = 0" and "sz < 2199023255552"
  shows "dev_reads (sdio_ops env i) content sz (mask 9) 524288
    (\<lambda>t. bs_disks t = bs_disks s \<and> bs_locks t = bs_locks s \<and> \<not> sd_lock (bs_hw t)) s"
  unfolding dev_reads_def
proof (intro allI impI)
  fix buf :: "u8 list" and off :: int
  assume "0 \<le> off \<and> off + int (length buf) \<le> sz \<and> off AND uint (mask 9 :: u32) = 0 \<and>
    int (length buf) AND uint (mask 9 :: u32) = 0 \<and> int (length buf) \<le> 524288"
  then have b: "0 \<le> off" "off + int (length buf) < 2199023255552" "length buf < 2147483648"
    "length buf \<le> 524288" and al: "off mod 512 = 0" "int (length buf) mod 512 = 0"
    using assms(6) and_uint_mask [of 9 off] and_uint_mask [of 9 "int (length buf)"] by simp_all
  have "512 dvd off" using al(1) by (simp add: mod_eq_0_iff_dvd)
  moreover have "512 dvd length buf" using al(2) by presburger
  ultimately obtain t where "sdioio env False buf off (bs_hw s)
      = (Inr (int (length buf), card_bytes content off (length buf)), t)" "\<not> sd_lock t"
    using sdioio_read_run [OF assms(1-5) b(1) _ b(2,3)] b(4) by auto
  then have "dv_io (sdio_ops env i) False buf off s
    = (Inr (int (length buf), map content [off..off + int (length buf) - 1]), s\<lparr>bs_hw := t\<rparr>)"
    "\<not> sd_lock (bs_hw (s\<lparr>bs_hw := t\<rparr>))"
    by (simp_all add: sdio_ops_def on_hw_def card_bytes_upto)
  then show "\<exists>t. dv_io (sdio_ops env i) False buf off s
      = (Inr (int (length buf), map content [off..off + int (length buf) - 1]), t) \<and>
    bs_disks t = bs_disks s \<and> bs_locks t = bs_locks s \<and> \<not> sd_lock (bs_hw t)"
    by (intro exI [of _ "s\<lparr>bs_hw := t\<rparr>"]) (simp add: bs_locks_def)
qed

text \<open>
  C18: A partition of a card is a file of its bytes.  The block device over the SD driver: with a
  high-capacity card of less than 4 GiB that answers, a read of a partition at any offset and of up to
  511 KiB returns the bytes of the card that the partition shows there, clipped at its end, whatever the
  alignment; the table of stores and the block device's locks are as before and the driver's lock is free.
\<close>

theorem sd_partition_read:
  assumes "bs_disks s ! i = Some d" "st_ready d \<noteq> 0" "st_alignmask d = mask 9"
    and "512 dvd st_size d" "st_size d < 4294967296"
    and "0 \<le> p_s p" "0 \<le> p_size p" "p_s p + p_size p \<le> st_size d"
    and "0 \<le> off" "off < DISKMAX" "int (length buf) \<le> 523264"
    and "hw_reads env content" "\<not> sd_lock (bs_hw s)" "c_valid (sd_card (bs_hw s)) \<noteq> 0"
    and "c_sdhc (sd_card (bs_hw s)) \<noteq> 0" "se_addr env mod 4 = 0"
  shows "\<exists>t. bs_io (b\<lparr>be_ops := sdio_ops env\<rparr>) i p False buf (int (length buf)) off s =
      (let c = min (off + int (length buf)) (p_size p) - min off (p_size p)
       in (Inr (c, map (\<lambda>j. content (p_s p + min off (p_size p) + j)) [0..c - 1] @ drop (nat c) buf), t))
    \<and> bs_disks t = bs_disks s \<and> bs_locks t = bs_locks s \<and> \<not> sd_lock (bs_hw t)"
proof -
  have "st_size d < 2199023255552" using assms(5) by simp
  note dev = sdio_dev_reads [OF assms(12-16) this, of i, folded assms(3)]
  show ?thesis
    by (rule bs_io_read_at [OF assms(1-3) _ _ assms(5-10), where lim = 524288])
      (use assms(4,11) dev in simp_all)
qed

definition sd_store :: store where
  "sd_store = sdiodisk\<lparr>st_ready := 1, st_alignmask := mask 9, st_size := 4194304,
     st_parts := [partdata ''eve'' 4194304]\<rparr>"

definition sd_bs :: "unit sdio bs" where
  "sd_bs = \<lparr>bs_lock = rw_free, bs_slocks = (\<lambda>_. rw_free), bs_disks = [Some sd_store],
     bs_maxdisk = 0, bs_aux = (\<lambda>_. None), bs_hw = sd_sample\<rparr>"

definition sd_bsenv :: "unit sdio bsenv" where
  "sd_bsenv = \<lparr>be_eve = ''eve'', be_iseve = True, be_perm = (\<lambda>_ _ _. Inr ()), be_memok = (\<lambda>_. True),
     be_fuel = 16, be_parsecmd = (\<lambda>b. Inr []), be_ops = sdio_ops sd_sample_env\<rparr>"

theorem sd_partition_read_witness:
  "fst (bs_io sd_bsenv 0 ((partclear ''eve'' 1)\<lparr>p_s := 1024, p_size := 2048\<rparr>) False [0, 0, 0] 3 2046 sd_bs)
     = Inr (2, [7, 7, 0])"
proof -
  let ?p = "(partclear ''eve'' 1)\<lparr>p_s := 1024, p_size := 2048\<rparr>"
  have env: "sd_bsenv\<lparr>be_ops := sdio_ops sd_sample_env\<rparr> = sd_bsenv" by (simp add: sd_bsenv_def)
  have "\<exists>t. bs_io (sd_bsenv\<lparr>be_ops := sdio_ops sd_sample_env\<rparr>) 0 ?p False [0, 0, 0]
        (int (length [0, 0, 0 :: u8])) 2046 sd_bs =
      (let c = min (2046 + int (length [0, 0, 0 :: u8])) (p_size ?p) - min 2046 (p_size ?p)
       in (Inr (c, map (\<lambda>j. 7) [0..c - 1] @ drop (nat c) [0, 0, 0]), t))
    \<and> bs_disks t = bs_disks sd_bs \<and> bs_locks t = bs_locks sd_bs \<and> \<not> sd_lock (bs_hw t)"
    by (rule sd_partition_read [where d = sd_store and content = "\<lambda>_. 7",
          OF _ _ _ _ _ _ _ _ _ _ _ sd_sample_reads])
      (simp_all add: sd_bs_def sd_store_def sdiodisk_def sd_sample_def sd_blank_card_def
        sd_sample_env_def partclear_def)
  then show ?thesis by (auto simp: env partclear_def upto_rec1)
qed

section \<open>What initialisation establishes\<close>

text \<open>Commands change only the response and the status of the card.\<close>

lemma sdcmd_card:
  assumes "\<And>c r. f (c\<lparr>c_resp := r\<rparr>) = f c" and "\<And>c v. f (c\<lparr>c_status := v\<rparr>) = f c"
  shows "kinv (\<lambda>s. f (sd_card s) = x) (sdcmd env cmd arg rt fl)"
proof -
  have prim: "kinv (\<lambda>s. f (sd_card s) = x) (upd_card (\<lambda>c. c\<lparr>c_resp := r\<rparr>))"
    "kinv (\<lambda>s. f (sd_card s) = x) (upd_card (\<lambda>c. c\<lparr>c_status := v\<rparr>))"
    "kinv (\<lambda>s. f (sd_card s) = x) (upd_card (\<lambda>c. c\<lparr>c_status := c_word c\<rparr>))"
    "kinv (\<lambda>s. f (sd_card s) = x) (kmod (upd_sdreg g))"
    "kinv (\<lambda>s. f (sd_card s) = x) (kmod (\<lambda>s. s\<lparr>sd_reads := h s\<rparr>))"
    "kinv (\<lambda>s. f (sd_card s) = x) (run_cmd env)" for r v g h
    using assms by (auto simp: kinv_def run_cmd_def split: prod.split)
  have wait: "kinv (\<lambda>s. f (sd_card s) = x) (wait_ready env n)" for n
  proof (induction n)
    case 0
    show ?case unfolding wait_ready.simps by (intro kinv_rule)
  next
    case (Suc n)
    show ?case unfolding wait_ready.simps by (intro kinv_rule prim Suc.IH)
  qed
  show ?thesis
    unfolding sdcmd_def sdcmd_app_def sdcmd_plain_def by (intro kinv_rule prim wait)
qed

lemma sdcmd_ok_card:
  assumes "sdcmd_ok env m cmd arg rt fl s = (Inr (), t)"
    and "\<And>c r. f (c\<lparr>c_resp := r\<rparr>) = f c" and "\<And>c v. f (c\<lparr>c_status := v\<rparr>) = f c"
  shows "f (sd_card t) = f (sd_card s)"
proof -
  have "kinv (\<lambda>u. f (sd_card u) = f (sd_card s)) (sdcmd_ok env m cmd arg rt fl)"
    unfolding sdcmd_ok_def errorsd_def by (intro kinv_rule sdcmd_card assms(2,3))
  with assms(1) show ?thesis by (auto dest: kinvD)
qed

lemma sdinit_rca_nonzero:
  "sdinit_rca env n s = (Inr (), t) \<Longrightarrow> c_rca (sd_card t) \<noteq> 0"
  by (induction n arbitrary: s) (auto simp: kact_Inr_iff split: if_splits)

lemma sdinit_rca_mmc: "sdinit_rca env n s = (Inr (), t) \<Longrightarrow> c_mmc (sd_card t) = c_mmc (sd_card s)"
proof (induction n arbitrary: s)
  case (Suc n)
  from Suc.prems obtain u where u: "sdcmd_ok env ''getting relative address'' 3 0 R6 no_flags s = (Inr (), u)"
    "t = u\<lparr>sd_card := (sd_card u)\<lparr>c_rca := c_rca (sd_card t)\<rparr>\<rparr> \<or>
     (\<exists>r. sdinit_rca env n (u\<lparr>sd_card := (sd_card u)\<lparr>c_rca := r\<rparr>\<rparr>) = (Inr (), t))"
    by (auto simp: kact_Inr_iff split: if_splits)
  have "c_mmc (sd_card u) = c_mmc (sd_card s)" by (rule sdcmd_ok_card [OF u(1)]) simp_all
  with u(2) Suc.IH show ?case by (metis card.select_convs(6) card.update_convs(9) card.surjective
        sdio.select_convs(2) sdio.update_convs(2) sdio.surjective)
qed simp

lemma parsecsd_vers: "parsecsd r c = (n, c') \<Longrightarrow> 0 \<le> n \<Longrightarrow> csd_vers c' = 0 \<or> csd_vers c' = 1"
  by (auto simp: parsecsd_def parsecsd_size_def Let_def split: if_splits)

lemma card_size_idem: "c_size (card_size (card_size c)) = c_size (card_size c)"
  "c_csd (card_size c) = c_csd c" "c_mmc (card_size c) = c_mmc c" "c_rca (card_size c) = c_rca c"
  by (simp_all add: card_size_def)

text \<open>A command that succeeds leaves a response of three words.\<close>

lemma sdcmd_ok_resp: "sdcmd_ok env m cmd arg rt fl s = (Inr (), t) \<Longrightarrow> length (c_resp (sd_card t)) = 3"
  by (auto simp: sdcmd_ok_def sdcmd_def sdcmd_plain_def errorsd_def kact_Inr_iff resp_of_def resp48_def
      resp136_def Let_def split: if_splits rtype.splits)

text \<open>
  The size the bits of a CSD encode.  A card of version 0 has its number of blocks in bits 75 to 62 and
  49 to 47 and the size of a block in bits 83 to 80; a card of version 1 counts 512 KiB in bits 69 to 48.
\<close>

definition csd_encodes :: "u64 list \<Rightarrow> nat \<Rightarrow> nat \<Rightarrow> bool" where
  "csd_encodes r bs sz \<longleftrightarrow>
     (let f = (\<lambda>h l. unat (field192 r h l)) in
      if f 127 126 = 0 then bs = 2 ^ f 83 80 \<and> sz = (f 75 62 + 1) * 2 ^ (f 49 47 + 2) * bs
      else f 127 126 = 1 \<and> bs = 512 \<and> sz = (f 69 48 + 1) * 524288)"

lemma field192_less:
  assumes "h - l < 31"
  shows "unat (field192 r h l) < 2 ^ (h - l + 1)"
proof -
  have "unat (field192 r h l) = take_bit (h - l + 1) (unat (drop_bit l (reg192 r)))"
    using assms by (simp add: field192_def unsigned_ucast_eq unsigned_take_bit_eq min_def)
  then show ?thesis by (simp only: take_bit_nat_less_exp)
qed

lemma unat_ucast8: "unat (w :: u32) < 256 \<Longrightarrow> unat (ucast w :: u8) = unat w"
  by (simp add: unsigned_ucast_eq take_bit_nat_eq_self)

lemma i32_pow: "k < 31 \<Longrightarrow> i32 (2 ^ k) = 2 ^ k"
proof (rule i32_id)
  have "(0::int) \<le> 2 ^ k" by simp
  then show "- 2147483648 \<le> (2::int) ^ k" by linarith
  assume "k < 31"
  then show "(2::int) ^ k < 2147483648" using power_strict_increasing [of k 31 "2::int"] by simp
qed

lemma unat_of_nat_u64: "n < 18446744073709551616 \<Longrightarrow> unat (of_nat n :: u64) = n"
  by (simp add: unsigned_of_nat take_bit_nat_eq_self)

lemma unat_pow: "k < 32 \<Longrightarrow> unat (2 ^ k :: u32) = 2 ^ k"
  using unat_of_nat_u32 [of "2 ^ k"] power_strict_increasing [of k 32 "2::nat"] by simp

lemma card_size_encodes:
  assumes "parsecsd r c = (n, c')" and "0 \<le> n" and "length r = 3" and "c_csd d = c'"
  shows "csd_encodes r (unat (c_bs (card_size d))) (unat (c_size (card_size d)))"
proof -
  let ?f = "\<lambda>h l. unat (field192 r h l)"
  have less: "?f 127 126 < 4" "?f 83 80 < 16" "?f 75 62 < 16384" "?f 49 47 < 8" "?f 69 48 < 4194304"
    using field192_less [of 127 126 r] field192_less [of 83 80 r] field192_less [of 75 62 r]
      field192_less [of 49 47 r] field192_less [of 69 48 r] by simp_all
  have vers: "csd_vers c' = ucast (field192 r 127 126)" "csd_vers c' = 0 \<or> csd_vers c' = 1"
    and rbl: "csd_rbl c' = ucast (field192 r 83 80)"
    and fields: "if csd_vers c' = 0 then csd_size c' = field192 r 75 62 \<and> csd_sizemult c' = ucast (field192 r 49 47)
      else csd_size c' = field192 r 69 48"
    using parsecsd_correct [OF assms(3), of c] assms(1,2) by (auto split: if_splits)
  have v: "unat (csd_vers c') = ?f 127 126" unfolding vers(1) using less by (intro unat_ucast8) simp
  have b: "unat (csd_rbl c') = ?f 83 80" unfolding rbl using less by (intro unat_ucast8) simp
  show ?thesis
  proof (cases "csd_vers c' = 0")
    case True
    then have v0: "?f 127 126 = 0" using v by simp
    have sz: "csd_size c' = field192 r 75 62" "unat (csd_sizemult c') = ?f 49 47"
      using fields True less by (auto intro!: unat_ucast8)
    define a m k where "a = ?f 75 62" and "m = ?f 49 47" and "k = ?f 83 80"
    have lt: "a + 1 \<le> 2 ^ 14" "m + 2 < 10" "k < 16" using less by (simp_all add: a_def m_def k_def)
    have e: "unat (csd_size c' + 1) = a + 1" "unat (csd_sizemult c') = m" "unat (csd_rbl c') = k"
      using sz b less by (simp_all add: a_def m_def k_def unat_plus_if_size word_size)
    have bs: "unat (c_bs (card_size d)) = 2 ^ k"
      using True assms(4) e(3) lt(3) by (simp add: card_size_def unat_pow)
    have "ucast (csd_size c' + 1) = (of_nat (a + 1) :: u64)" by (simp only: flip: e(1)) simp
    then have "c_size (card_size d) = of_nat (a + 1) * of_int (i32 (2 ^ (m + 2))) * of_int (i32 (2 ^ k))"
      using True assms(4) e(2,3) by (simp add: card_size_def)
    also have "\<dots> = of_nat ((a + 1) * 2 ^ (m + 2) * 2 ^ k)"
      using lt i32_pow [of "m + 2"] i32_pow [of k] by (simp only: of_nat_mult of_nat_power of_int_power) simp
    finally have "c_size (card_size d) = of_nat ((a + 1) * 2 ^ (m + 2) * 2 ^ k)" .
    moreover have "(a + 1) * 2 ^ (m + 2) * 2 ^ k \<le> 2 ^ 14 * 2 ^ 9 * 2 ^ (15 :: nat)"
      using lt by (intro mult_le_mono power_increasing) simp_all
    ultimately have "unat (c_size (card_size d)) = (a + 1) * 2 ^ (m + 2) * 2 ^ k"
      using unat_of_nat_u64 [of "(a + 1) * 2 ^ (m + 2) * 2 ^ k"] by simp
    then show ?thesis using bs v0 by (simp add: csd_encodes_def Let_def a_def m_def k_def)
  next
    case False
    then have "csd_vers c' = 1" using vers by simp
    then have v1: "?f 127 126 = 1" using v by simp
    have sz: "csd_size c' = field192 r 69 48" using fields \<open>csd_vers c' = 1\<close> by simp
    have e: "unat (csd_size c' + 1) = ?f 69 48 + 1"
      using less by (simp add: sz unat_plus_if_size word_size)
    have "ucast (csd_size c' + 1) = (of_nat (?f 69 48 + 1) :: u64)" by (simp only: flip: e) simp
    then have "c_size (card_size d) = of_nat ((?f 69 48 + 1) * 524288)"
      using \<open>csd_vers c' = 1\<close> assms(4) by (simp add: card_size_def)
    then have "unat (c_size (card_size d)) = (?f 69 48 + 1) * 524288"
      using less unat_of_nat_u64 [of "(?f 69 48 + 1) * 524288"] by simp
    then show ?thesis using v1 assms(4) \<open>csd_vers c' = 1\<close> by (simp add: csd_encodes_def Let_def card_size_def)
  qed
qed

text \<open>The card's data are those of the response to command 9, given with the card's address.\<close>

definition from_csd :: "'w sdenv \<Rightarrow> card \<Rightarrow> bool" where
  "from_csd env c \<longleftrightarrow>
     (\<exists>u v. sdcmd_ok env ''get csd'' 9 (push_bit 16 (c_rca c)) R2 no_flags u = (Inr (), v) \<and>
        c_csd c = snd (parsecsd (c_resp (sd_card v)) (c_csd (sd_card v))) \<and>
        length (c_resp (sd_card v)) = 3 \<and>
        csd_encodes (c_resp (sd_card v)) (unat (c_bs c)) (unat (c_size c)))"

lemma sdinit_regs_card:
  assumes "sdinit_regs env s = (Inr (), t)"
  shows "c_mmc (sd_card t) = c_mmc (sd_card s) \<and> c_rca (sd_card t) \<noteq> 0 \<and>
    csd_vers (c_csd (sd_card t)) \<in> {0, 1} \<and> from_csd env (sd_card t)"
proof -
  from assms obtain u v w cid csd where
    u: "sdcmd_ok env ''card identification'' 2 0 R2 no_flags s = (Inr (), u)"
    and v: "sdinit_rca env 11 (u\<lparr>sd_card := (sd_card u)\<lparr>c_cid := cid\<rparr>\<rparr>) = (Inr (), v)"
    and w: "sdcmd_ok env ''get csd'' 9 (push_bit 16 (c_rca (sd_card v))) R2 no_flags v = (Inr (), w)"
    and csd: "snd (parsecsd (c_resp (sd_card w)) (c_csd (sd_card w))) = csd"
      "0 \<le> fst (parsecsd (c_resp (sd_card w)) (c_csd (sd_card w)))"
    and t: "t = w\<lparr>sd_card := card_size ((sd_card w)\<lparr>c_csd := csd\<rparr>)\<rparr>"
    by (auto simp: sdinit_regs_def kact_Inr_iff case_prod_beta split: if_splits)
  have "c_mmc (sd_card u) = c_mmc (sd_card s)" by (rule sdcmd_ok_card [OF u]) simp_all
  moreover have "c_mmc (sd_card v) = c_mmc (sd_card u)" using sdinit_rca_mmc [OF v] by simp
  moreover have "c_mmc (sd_card w) = c_mmc (sd_card v)" by (rule sdcmd_ok_card [OF w]) simp_all
  moreover have "c_rca (sd_card w) = c_rca (sd_card v)" by (rule sdcmd_ok_card [OF w]) simp_all
  moreover have "c_rca (sd_card v) \<noteq> 0" by (rule sdinit_rca_nonzero [OF v])
  moreover have "from_csd env (sd_card t)"
    unfolding from_csd_def
  proof (rule exI [of _ v], rule exI [of _ w], intro conjI)
    show "length (c_resp (sd_card w)) = 3" by (rule sdcmd_ok_resp [OF w])
    show "csd_encodes (c_resp (sd_card w)) (unat (c_bs (sd_card t))) (unat (c_size (sd_card t)))"
      using card_size_encodes [OF prod.collapse [symmetric] csd(2) sdcmd_ok_resp [OF w],
          of "(sd_card w)\<lparr>c_csd := csd\<rparr>"] by (simp add: t csd(1))
  qed (use w \<open>c_rca (sd_card w) = c_rca (sd_card v)\<close> csd(1) in \<open>simp_all add: t card_size_idem\<close>)
  ultimately show ?thesis
    using parsecsd_vers [OF prod.collapse [symmetric] csd(2)] by (auto simp: t csd(1) card_size_idem)
qed

lemma sdinit_select_card:
  assumes "sdinit_select env s = (Inr (), t)"
  shows "c_valid (sd_card t) = 1 \<and> c_mmc (sd_card t) = c_mmc (sd_card s) \<and>
    c_rca (sd_card t) = c_rca (sd_card s) \<and> c_csd (sd_card t) = c_csd (sd_card s) \<and>
    c_bs (sd_card t) = c_bs (sd_card s) \<and> c_size (sd_card t) = c_size (sd_card s)"
proof -
  let ?f = "\<lambda>c. (c_mmc c, c_rca c, c_csd c, c_bs c, c_size c)"
  from assms obtain u v w x where u: "(if c_sdhc (sd_card s) \<noteq> 0
      then kthen (kmod (upd_sdreg (\<lambda>r. r\<lparr>sr_hostctl := sr_hostctl r OR HChighspeed\<rparr>))) (sdclock 50000000)
      else sdclock 25000000) s = (Inr (), u)"
    and v: "sdcmd_ok env ''selecting card'' 7 (push_bit 16 (c_rca (sd_card s))) R1b no_flags u = (Inr (), v)"
    and w: "sdcmd_ok env ''setting buswidth to 4-bit'' 6 2 R1 app_flags v = (Inr (), w)"
    and x: "sdcmd_ok env ''setting 512 byte blocksize'' 16 512 R1 no_flags w = (Inr (), x)"
    and t: "kmod (\<lambda>s. s\<lparr>sd_card := (sd_card s)\<lparr>c_valid := 1\<rparr>\<rparr>) x = (Inr (), t)"
    unfolding sdinit_select_def kbind_prim kthen_Inr_iff by auto
  have u: "sd_card u = sd_card s" using u by (auto simp: sdclock_def split: if_splits)
  have "?f (sd_card v) = ?f (sd_card u)" by (rule sdcmd_ok_card [OF v]) simp_all
  moreover have "?f (sd_card w) = ?f (sd_card v)" by (rule sdcmd_ok_card [OF w]) simp_all
  moreover have "?f (sd_card x) = ?f (sd_card w)" by (rule sdcmd_ok_card [OF x]) simp_all
  ultimately show ?thesis using t by (auto simp: u)
qed

text \<open>
  C20: An initialised card.  When the initialisation of a card returns, the card is marked valid and is not
  an MMC card, and it has a relative address other than 0.  Command 9, given with that address, has
  succeeded; the card's CSD is the one parsed from the response, and its block size and its size are what
  the bits of the response encode: for version 0 the number of blocks, bits 75 to 62 plus one, times the
  multiplier of bits 49 to 47, times the block size of bits 83 to 80; for version 1, 512 KiB for every
  unit of bits 69 to 48 plus one.  The size is exact, the product never wraps.  There is no other version.
\<close>

theorem sdinit_card:
  assumes "sdinit env s = (Inr (), t)"
  shows "c_valid (sd_card t) = 1 \<and> c_mmc (sd_card t) = 0 \<and> c_rca (sd_card t) \<noteq> 0 \<and>
    csd_vers (c_csd (sd_card t)) \<in> {0, 1} \<and>
    (\<exists>u v. sdcmd_ok env ''get csd'' 9 (push_bit 16 (c_rca (sd_card t))) R2 no_flags u = (Inr (), v) \<and>
       c_csd (sd_card t) = snd (parsecsd (c_resp (sd_card v)) (c_csd (sd_card v))) \<and>
       length (c_resp (sd_card v)) = 3 \<and>
       csd_encodes (c_resp (sd_card v)) (unat (c_bs (sd_card t))) (unat (c_size (sd_card t))))"
proof -
  from assms obtain u v where u: "c_mmc (sd_card u) = 0" "sdinit_regs env u = (Inr (), v)"
    and t: "sdinit_select env v = (Inr (), t)"
    by (auto simp: sdinit_def kact_Inr_iff split: if_splits)
  note r = sdinit_regs_card [OF u(2), unfolded from_csd_def] and s = sdinit_select_card [OF t]
  show ?thesis using r s u(1) by auto
qed

text \<open>A card that answers the commands it gets with the responses of a list, and never with an error.\<close>

definition queue_env :: "u32 list list sdenv" where
  "queue_env = \<lparr>se_run = (\<lambda>r m w.
       ((r\<lparr>sr_st := 0x9, sr_est := 0, sr_resp := hd w, sr_crc7 := 0\<rparr>, m), tl w)),
     se_hoststate = (\<lambda>_. 0), se_interrupted = (\<lambda>_. False), se_addr = 0x1000,
     se_parsecmd = (\<lambda>b. Inr [])\<rparr>"

definition answered :: "rtype \<Rightarrow> u32 list \<Rightarrow> card \<Rightarrow> card" where
  "answered rt x c =
     (let c = c\<lparr>c_resp := resp_of rt (sd_blank_reg\<lparr>sr_resp := x\<rparr>)\<rparr>
      in if rt = R1 \<or> rt = R1b then c\<lparr>c_status := c_word c\<rparr> else c)"

lemma answered_resp: "c_resp (answered rt x c) = resp_of rt (sd_blank_reg\<lparr>sr_resp := x\<rparr>)"
  by (simp add: answered_def Let_def)

lemma resp_of_queue: "resp_of rt (r\<lparr>sr_st := a, sr_est := b, sr_resp := x, sr_crc7 := 0\<rparr>)
    = resp_of rt (sd_blank_reg\<lparr>sr_resp := x\<rparr>)"
  by (cases rt) (simp_all add: resp_of_def resp48_def resp136_def sd_blank_reg_def)

lemma cmd_need_ok: "(9::u32) AND cmd_need fl \<noteq> 0"
  by (simp add: cmd_need_def)

lemma queue_wait: "wait_ready queue_env 51 s = (Inr True, s\<lparr>sd_reads := Suc (sd_reads s)\<rparr>)"
proof -
  have "wait_ready queue_env (Suc n) s = (Inr True, s\<lparr>sd_reads := Suc (sd_reads s)\<rparr>)" for n
    by (simp add: kthen_def kbind_def queue_env_def)
  from this [of 50] show ?thesis by (simp only: Suc_numeral Num.add_num_simps semiring_norm)
qed

lemma queue_plain:
  assumes "sd_w s = x # xs" and "rt = R1 \<or> rt = R1b \<Longrightarrow> c_word (answered rt x (sd_card s)) AND SDbad = 0"
  shows "\<exists>t. sdcmd_plain queue_env cmd arg rt fl s = (Inr 0, t) \<and> sd_w t = xs \<and>
    sd_card t = answered rt x (sd_card s)"
proof -
  have need: "cmd_need fl = 8 \<or> cmd_need fl = 1" by (simp add: cmd_need_def)
  show ?thesis
    using assms need unfolding sdcmd_plain_def
    by (auto simp: run_cmd_def kthen_def kbind_def queue_env_def resp_of_queue answered_def Let_def
        c_word_def)
qed

lemma queue_cmd:
  assumes "sd_w s = x # xs" and "rt = R1 \<or> rt = R1b \<Longrightarrow> c_word (answered rt x (sd_card s)) AND SDbad = 0"
  shows "\<exists>t. sdcmd queue_env cmd arg rt no_flags s = (Inr 0, t) \<and> sd_w t = xs \<and>
    sd_card t = answered rt x (sd_card s)"
proof -
  have "\<not> f_app no_flags" "\<not> f_appdata no_flags" by (simp_all add: no_flags_def)
  then show ?thesis
    using queue_plain [of "s\<lparr>sd_reads := Suc (sd_reads s)\<rparr>" x xs rt cmd arg no_flags] assms
    unfolding sdcmd_def by (auto simp: queue_wait kthen_def kbind_def)
qed

lemma app_word: "c_word (answered R1 [0, 0, 0x20, 0, 0, 0, 0, 0] c) = 0x20"
  by (simp add: c_word_def answered_def Let_def resp_of_def resp48_def sd_blank_reg_def mask_numeral)

lemma queue_app:
  assumes "sd_w s = [0, 0, 0x20, 0, 0, 0, 0, 0] # x # xs"
    and "rt = R1 \<or> rt = R1b \<Longrightarrow> (\<And>c. c_word (answered rt x c) AND SDbad = 0)"
  shows "\<exists>t c. sdcmd queue_env cmd arg rt app_flags s = (Inr 0, t) \<and> sd_w t = xs \<and>
    sd_card t = answered rt x (answered R1 [0, 0, 0x20, 0, 0, 0, 0, 0] (sd_card s))"
proof -
  have f: "f_app app_flags" "\<not> f_appdata app_flags" by (simp_all add: app_flags_def no_flags_def)
  let ?s = "s\<lparr>sd_reads := Suc (Suc (sd_reads s))\<rparr>"
  have bad: "(0x20::u32) AND SDbad = 0" by (simp add: SDbad_def mask_numeral)
  obtain u where u: "sdcmd_plain queue_env 55 (push_bit 16 (c_rca (sd_card s))) R1 no_flags ?s = (Inr 0, u)"
      "sd_w u = x # xs" "sd_card u = answered R1 [0, 0, 0x20, 0, 0, 0, 0, 0] (sd_card s)"
    using queue_plain [of ?s _ _ R1 55 "push_bit 16 (c_rca (sd_card s))" no_flags] assms(1)
    by (auto simp: app_word bad)
  obtain t where t: "sdcmd_plain queue_env cmd arg rt app_flags u = (Inr 0, t)" "sd_w t = xs"
      "sd_card t = answered rt x (sd_card u)"
    using queue_plain [of u x xs rt cmd arg app_flags] u(2) assms(2) by blast
  have "c_word (sd_card u) AND SDappcmd \<noteq> 0" by (simp add: u(3) app_word)
  then show ?thesis using u t f unfolding sdcmd_def sdcmd_app_def
    by (simp add: queue_wait kthen_def kbind_def)
qed

lemma queue_ok:
  assumes "sd_w s = x # xs" and "rt = R1 \<or> rt = R1b \<Longrightarrow> c_word (answered rt x (sd_card s)) AND SDbad = 0"
  obtains t where "sdcmd_ok queue_env m cmd arg rt no_flags s = (Inr (), t)" "sd_w t = xs"
    "sd_card t = answered rt x (sd_card s)"
  using queue_cmd [OF assms, of cmd arg] by (auto simp: sdcmd_ok_def kbind_def)

lemma queue_ok_plain:
  assumes "sd_w s = x # xs" and "rt \<noteq> R1" and "rt \<noteq> R1b"
  shows "\<exists>t. sdcmd_ok queue_env m cmd arg rt no_flags s = (Inr (), t) \<and> sd_w t = xs \<and>
    sd_card t = answered rt x (sd_card s)"
  using queue_ok [OF assms(1), of rt m cmd arg] assms(2,3) by metis

abbreviation zeros :: "u32 list" where "zeros \<equiv> replicate 8 0"

lemma zeros_word: "c_word (answered rt zeros c) = 0" if "rt = R1 \<or> rt = R1b"
  using that by (auto simp: c_word_def answered_def Let_def resp_of_def resp48_def sd_blank_reg_def mask_numeral)

lemma queue_app_ok:
  assumes "sd_w s = [0, 0, 0x20, 0, 0, 0, 0, 0] # zeros # xs"
  obtains t where "sdcmd_ok queue_env m cmd arg R1 app_flags s = (Inr (), t)" "sd_w t = xs"
    "sd_card t = answered R1 zeros (answered R1 [0, 0, 0x20, 0, 0, 0, 0, 0] (sd_card s))"
  using queue_app [OF assms, of R1 cmd arg] by (auto simp: sdcmd_ok_def kbind_def zeros_word)

lemma answered_fields [simp]:
  "c_mmc (answered rt x c) = c_mmc c" "c_sd2 (answered rt x c) = c_sd2 c"
  "c_sdhc (answered rt x c) = c_sdhc c" "c_rca (answered rt x c) = c_rca c"
  "c_valid (answered rt x c) = c_valid c" "c_csd (answered rt x c) = c_csd c"
  "c_cid (answered rt x c) = c_cid c"
  by (simp_all add: answered_def Let_def)

definition init_answers :: "u32 list list" where
  "init_answers =
     [zeros, [0, 6, 0x2A, 0, 0, 0, 0, 0],
      [0, 0, 0x20, 0, 0, 0, 0, 0], [0x303, 0xFE00, 0, 0, 0, 0, 0, 0],
      zeros, [0, 0x400, 0, 0, 0, 0, 0, 0], [0x100, 0, 0, 0, 0, 0, 0, 0],
      zeros, [0, 0, 0x20, 0, 0, 0, 0, 0], zeros, zeros]"

lemma if_word: "c_word (f (answered R7 [0, 6, 0x2A, 0, 0, 0, 0, 0] c)) = 0x1AA"
  if "\<And>c. c_resp (f c) = c_resp c"
  by (simp add: that c_word_def answered_def Let_def resp_of_def resp48_def sd_blank_reg_def mask_numeral)

lemma power_word: "c_word (answered R3 [0x303, 0xFE00, 0, 0, 0, 0, 0, 0] c) = 0xC0FF8000"
  by (simp add: c_word_def answered_def Let_def resp_of_def resp48_def sd_blank_reg_def mask_numeral)

lemma rca_word: "drop_bit 24 (c_resp (answered R6 [0, 0x400, 0, 0, 0, 0, 0, 0] c) ! 2) AND mask 16 = (1 :: u64)"
  by (simp add: answered_def Let_def resp_of_def resp48_def sd_blank_reg_def mask_numeral)

lemma cid_ok: "fst (parsecid (c_resp (answered R2 zeros c)) d) = 0"
  by (simp add: parsecid_def Let_def)

lemma csd_ok: "fst (parsecsd (c_resp (answered R2 [0x100, 0, 0, 0, 0, 0, 0, 0] c)) d) = 0"
proof -
  have "bits [0, 4611686018427387904, 0] 127 126 = 1" by code_simp
  then show ?thesis
    by (simp add: parsecsd_def parsecsd_size_def Let_def answered_def resp_of_def resp136_def sd_blank_reg_def)
qed

lemma init_regs_run:
  assumes "sd_w s = zeros # [0, 0x400, 0, 0, 0, 0, 0, 0] # [0x100, 0, 0, 0, 0, 0, 0, 0] # xs"
  obtains t where "sdinit_regs queue_env s = (Inr (), t)" "sd_w t = xs"
proof -
  obtain a where a: "sdcmd_ok queue_env ''card identification'' 2 0 R2 no_flags s = (Inr (), a)"
    "sd_w a = [0, 0x400, 0, 0, 0, 0, 0, 0] # [0x100, 0, 0, 0, 0, 0, 0, 0] # xs" "sd_card a = answered R2 zeros (sd_card s)"
    using queue_ok_plain [OF assms, of R2] by blast
  define b where "b = a\<lparr>sd_card := (sd_card a)\<lparr>c_cid := snd (parsecid (c_resp (sd_card a)) (c_cid (sd_card a)))\<rparr>\<rparr>"
  have b: "sd_w b = [0, 0x400, 0, 0, 0, 0, 0, 0] # [0x100, 0, 0, 0, 0, 0, 0, 0] # xs" by (simp add: b_def a(2))
  obtain c where c: "sdcmd_ok queue_env ''getting relative address'' 3 0 R6 no_flags b = (Inr (), c)"
    "sd_w c = [0x100, 0, 0, 0, 0, 0, 0, 0] # xs" "sd_card c = answered R6 [0, 0x400, 0, 0, 0, 0, 0, 0] (sd_card b)"
    using queue_ok_plain [OF b, of R6] by blast
  define d where "d = c\<lparr>sd_card := (sd_card c)\<lparr>c_rca := 1\<rparr>\<rparr>"
  have rca: "sdinit_rca queue_env (Suc n) b = (Inr (), d)" for n
    using c(1) by (simp add: kthen_def kbind_def c(3) rca_word d_def)
  have rca: "sdinit_rca queue_env 11 b = (Inr (), d)"
    using rca [of 10] by (simp only: Suc_numeral Num.add_num_simps semiring_norm)
  have d: "sd_w d = [0x100, 0, 0, 0, 0, 0, 0, 0] # xs" "c_rca (sd_card d) = 1" by (simp_all add: d_def c(2))
  obtain e where e: "sdcmd_ok queue_env ''get csd'' 9 (push_bit 16 1) R2 no_flags d = (Inr (), e)"
    "sd_w e = xs" "sd_card e = answered R2 [0x100, 0, 0, 0, 0, 0, 0, 0] (sd_card d)"
    using queue_ok_plain [OF d(1), of R2] by blast
  have cid: "fst (parsecid (c_resp (sd_card a)) (c_cid (sd_card a))) = 0" by (simp only: a(3) cid_ok)
  have csd: "fst (parsecsd (c_resp (sd_card e)) (c_csd (sd_card e))) = 0" by (simp only: e(3) csd_ok)
  let ?t = "e\<lparr>sd_card := card_size ((sd_card e)\<lparr>c_csd := snd (parsecsd (c_resp (sd_card e)) (c_csd (sd_card e)))\<rparr>)\<rparr>"
  have "sdinit_regs queue_env s = (Inr (), ?t)"
    unfolding sdinit_regs_def
    using a(1) cid rca [unfolded b_def] d(2) e(1) csd
    by (simp add: kthen_def kbind_def case_prod_beta)
  then show thesis by (rule that) (simp add: e(2))
qed

definition sd_fresh :: "u32 list list sdio" where
  "sd_fresh = \<lparr>sd_lock = False, sd_card = sd_blank_card, sd_preerase = 0, sd_debug = 0,
     sd_reg = sd_blank_reg, sd_mem = (\<lambda>_. 0), sd_reads = 0, sd_cmds = 0, sd_w = init_answers\<rparr>"

lemma init_if_run:
  assumes "sd_w s = [0, 6, 0x2A, 0, 0, 0, 0, 0] # xs"
  obtains t where "sdinit_if queue_env s = (Inr (), t)" "sd_w t = xs" "c_sd2 (sd_card t) = 1"
    "c_mmc (sd_card t) = c_mmc (sd_card s)"
proof -
  obtain a where a: "sdcmd queue_env 8 (CMD8voltage OR CMD8pattern) R7 no_flags s = (Inr 0, a)" "sd_w a = xs"
    "sd_card a = answered R7 [0, 6, 0x2A, 0, 0, 0, 0, 0] (sd_card s)"
    using queue_cmd [OF assms, of R7] by blast
  have "c_word ((sd_card a)\<lparr>c_sd2 := 1\<rparr>) = 0x1AA" unfolding a(3) by (rule if_word) simp
  then have "sdinit_if queue_env s = (Inr (), a\<lparr>sd_card := (sd_card a)\<lparr>c_sd2 := 1\<rparr>\<rparr>)"
    using a(1) by (simp add: sdinit_if_def kthen_def kbind_def mask_numeral)
  then show thesis by (rule that) (simp_all add: a(2,3))
qed

lemma init_power_run:
  assumes "sd_w s = [0, 0, 0x20, 0, 0, 0, 0, 0] # [0x303, 0xFE00, 0, 0, 0, 0, 0, 0] # xs"
  obtains t where "sdinit_power queue_env 101 s = (Inr (), t)" "sd_w t = xs"
    "c_mmc (sd_card t) = c_mmc (sd_card s)"
proof -
  let ?arg = "ACMD41voltagewindow OR (if c_sd2 (sd_card s) \<noteq> 0 then ACMD41sdhcsupported else 0)"
  obtain a where a: "sdcmd queue_env 41 ?arg R3 app_flags s = (Inr 0, a)" "sd_w a = xs"
    "sd_card a = answered R3 [0x303, 0xFE00, 0, 0, 0, 0, 0, 0] (answered R1 [0, 0, 0x20, 0, 0, 0, 0, 0] (sd_card s))"
    using queue_app [OF assms, of R3 41 ?arg] by (elim exE conjE meta_impE) simp_all
  have w: "c_word (sd_card a) = 0xC0FF8000" by (simp only: a(3) power_word)
  have v: "(0xC0FF8000 :: u32) AND ACMD41voltagewindow \<noteq> 0" "(0xC0FF8000 :: u32) AND ACMD41ready \<noteq> 0"
    "(0xC0FF8000 :: u32) AND ACMD41sdhcsupported \<noteq> 0" by simp_all
  have "sdinit_power queue_env (Suc n) s = (Inr (), a\<lparr>sd_card := (sd_card a)\<lparr>c_sdhc := 1\<rparr>\<rparr>)" for n
    using a(1) w v by (cases "c_sd2 (sd_card s) \<noteq> 0") (simp_all add: kthen_def kbind_def)
  from this [of 100] have "sdinit_power queue_env 101 s = (Inr (), a\<lparr>sd_card := (sd_card a)\<lparr>c_sdhc := 1\<rparr>\<rparr>)"
    by (simp only: Suc_numeral Num.add_num_simps semiring_norm)
  then show thesis by (rule that) (simp_all add: a(2,3))
qed

lemma init_select_run:
  assumes "sd_w s = zeros # [0, 0, 0x20, 0, 0, 0, 0, 0] # zeros # zeros # xs"
  obtains t where "sdinit_select queue_env s = (Inr (), t)"
proof -
  obtain a where a: "(if c_sdhc (sd_card s) \<noteq> 0
      then kthen (kmod (upd_sdreg (\<lambda>r. r\<lparr>sr_hostctl := sr_hostctl r OR HChighspeed\<rparr>))) (sdclock 50000000)
      else sdclock 25000000) s = (Inr (), a)" "sd_w a = sd_w s"
    by (cases "c_sdhc (sd_card s) \<noteq> 0") (auto simp: sdclock_def kthen_def kbind_def)
  obtain b where b: "sdcmd_ok queue_env ''selecting card'' 7 (push_bit 16 (c_rca (sd_card s))) R1b no_flags a = (Inr (), b)"
    "sd_w b = [0, 0, 0x20, 0, 0, 0, 0, 0] # zeros # zeros # xs"
    by (rule queue_ok [of a zeros _ R1b]) (use a(2) assms in \<open>auto simp: zeros_word\<close>)
  obtain c where c: "sdcmd_ok queue_env ''setting buswidth to 4-bit'' 6 2 R1 app_flags b = (Inr (), c)"
    "sd_w c = zeros # xs"
    by (rule queue_app_ok [OF b(2)])
  obtain d where d: "sdcmd_ok queue_env ''setting 512 byte blocksize'' 16 512 R1 no_flags c = (Inr (), d)"
    by (rule queue_ok [OF c(2), of R1]) (simp_all add: zeros_word)
  have "sdinit_select queue_env s = (Inr (), d\<lparr>sd_card := (sd_card d)\<lparr>c_valid := 1\<rparr>\<rparr>)"
    unfolding sdinit_select_def kbind_prim using a(1) b(1) c(1) d by (simp add: kthen_def kbind_def)
  then show thesis by (rule that)
qed

lemma init_run: "\<exists>t. sdinit queue_env sd_fresh = (Inr (), t)"
proof -
  define z where "z = sd_fresh\<lparr>sd_reg := sd_blank_reg\<lparr>sr_hostctl := 0, sr_clockdiv := 249\<rparr>\<rparr>"
  have z: "sd_w z = zeros # tl init_answers" by (simp add: z_def sd_fresh_def init_answers_def)
  have pre: "kthen (kmod (upd_sdreg (\<lambda>r. r\<lparr>sr_hostctl := sr_hostctl r AND NOT HChighspeed\<rparr>)))
     (kthen (sdclock 400000) m) sd_fresh = m z" for m :: "(u32 list list sdio, unit) kact"
    by (simp add: z_def sd_fresh_def sd_blank_reg_def sdclock_def kthen_def kbind_def)
  obtain a where a: "sdcmd_ok queue_env ''reset failed'' 0 0 R0 no_flags z = (Inr (), a)"
    "sd_w a = tl init_answers"
    using queue_ok_plain [OF z, of R0] by blast
  define b where "b = a\<lparr>sd_card := (sd_card a)\<lparr>c_mmc := 0, c_sd2 := 0, c_sdhc := 0, c_rca := 0\<rparr>\<rparr>"
  have b: "sd_w b = [0, 6, 0x2A, 0, 0, 0, 0, 0] # drop 2 init_answers" "c_mmc (sd_card b) = 0"
    by (simp_all add: b_def a(2) init_answers_def)
  obtain c where c: "sdinit_if queue_env b = (Inr (), c)" "sd_w c = drop 2 init_answers"
    "c_mmc (sd_card c) = 0"
    by (rule init_if_run [OF b(1)]) (simp add: b(2))
  obtain d where d: "sdinit_power queue_env 101 c = (Inr (), d)" "sd_w d = drop 4 init_answers"
    "c_mmc (sd_card d) = 0"
    by (rule init_power_run [of c "drop 4 init_answers"]) (simp_all add: c(2,3) init_answers_def)
  obtain e where e: "sdinit_regs queue_env d = (Inr (), e)" "sd_w e = drop 7 init_answers"
    by (rule init_regs_run [of d "drop 7 init_answers"]) (simp_all add: d(2) init_answers_def)
  obtain f where f: "sdinit_select queue_env e = (Inr (), f)"
    by (rule init_select_run [of e "[]"]) (simp_all add: e(2) init_answers_def)
  have "sdinit queue_env sd_fresh = (Inr (), f)"
    unfolding sdinit_def pre using a(1) c(1) d(1,3) e(1) f
    by (simp add: kthen_def kbind_def b_def)
  then show ?thesis by blast
qed

theorem sdinit_card_witness:
  "\<exists>t. sdinit queue_env sd_fresh = (Inr (), t) \<and> c_valid (sd_card t) = 1 \<and> c_rca (sd_card t) \<noteq> 0"
proof -
  obtain t where "sdinit queue_env sd_fresh = (Inr (), t)" using init_run by blast
  with sdinit_card [OF this] show ?thesis by blast
qed


end
