(* ===== verification/Sata.thy ===== *)
theory Sata
  imports Kw_Libc
begin

text \<open>
  \<open>devsata.c\<close>: the driver of the second SATA port.  The state holds the pool of tags, the ring of
  requests with their tables of regions, the ring of responses, the disk, the start-up request of the
  kernel process, the registers the driver uses, and the state \<open>'w\<close> of the hardware.  What the
  controller does with a request (the interrupt it raises, and the memory a transfer from the device
  writes), what it does with an ATA command, and what reads of the status register return, are
  parameters.
\<close>

section \<open>Constants\<close>

abbreviation Rdev2mem :: u32 where "Rdev2mem \<equiv> 0x1"
abbreviation Rdevtagshift :: nat where "Rdevtagshift \<equiv> 1"
abbreviation Rprdsingle :: u32 where "Rprdsingle \<equiv> 0x10000"
abbreviation Rhosttagshift :: nat where "Rhosttagshift \<equiv> 17"
abbreviation Endoftable :: u32 where "Endoftable \<equiv> 0x80000000"

datatype rdone = Rok | Rtimeout | Rfail

definition donemsgs :: "rdone \<Rightarrow> string" where
  "donemsgs d = (case d of Rok \<Rightarrow> ''ok'' | Rtimeout \<Rightarrow> ''timeout'' | Rfail \<Rightarrow> ''error'')"

abbreviation StartReset :: u32 where "StartReset \<equiv> 0x1"
abbreviation StartIdentify :: u32 where "StartIdentify \<equiv> 0x2"
abbreviation ECFGncq :: u32 where "ECFGncq \<equiv> 0x20"
abbreviation ECFGqueue :: u32 where "ECFGqueue \<equiv> 0x200"
abbreviation Edeverr :: u32 where "Edeverr \<equiv> 0x4"
abbreviation Edevdis :: u32 where "Edevdis \<equiv> 0x8"
abbreviation Edevcon :: u32 where "Edevcon \<equiv> 0x10"
abbreviation Eserror :: u32 where "Eserror \<equiv> 0x20"
abbreviation Eselfdis :: u32 where "Eselfdis \<equiv> 0x80"
abbreviation Etransint :: u32 where "Etransint \<equiv> 0x100"
abbreviation Eiordy :: u32 where "Eiordy \<equiv> 0x1000"
abbreviation Erxlinkmask :: u32 where "Erxlinkmask \<equiv> 0xF"
abbreviation Etxlinkmask :: u32 where "Etxlinkmask \<equiv> 0x1F"
abbreviation Erxctlshift :: nat where "Erxctlshift \<equiv> 13"
abbreviation Erxdatashift :: nat where "Erxdatashift \<equiv> 17"
abbreviation Etxctlshift :: nat where "Etxctlshift \<equiv> 21"
abbreviation Etxdatashift :: nat where "Etxdatashift \<equiv> 26"

definition Elinkerrmask :: u32 where
  "Elinkerrmask = push_bit Erxctlshift Erxlinkmask OR push_bit Erxdatashift Erxlinkmask
     OR push_bit Etxdatashift Etxlinkmask"

abbreviation Etransport :: u32 where "Etransport \<equiv> 0x80000000"
abbreviation EdmaEnable :: u32 where "EdmaEnable \<equiv> 0x1"
abbreviation EdmaAbort :: u32 where "EdmaAbort \<equiv> 0x2"
abbreviation Atareset :: u32 where "Atareset \<equiv> 0x4"
abbreviation Sata1err :: u32 where "Sata1err \<equiv> 0x4"
abbreviation Sata1done :: u32 where "Sata1done \<equiv> 0x8"
abbreviation Idma1done :: u32 where "Idma1done \<equiv> 0x2"
abbreviation Idevintr1 :: u32 where "Idevintr1 \<equiv> 0x200"
abbreviation Physhutdown :: u32 where "Physhutdown \<equiv> 0x200"
abbreviation SErrEN :: u32 where "SErrEN \<equiv> 0x10000"
abbreviation SErrEX :: u32 where "SErrEX \<equiv> 0x4000000"
abbreviation CDETcomm :: u32 where "CDETcomm \<equiv> 0x1"
abbreviation CIPMnopartial :: u32 where "CIPMnopartial \<equiv> 0x100"
abbreviation CIPMnoslumber :: u32 where "CIPMnoslumber \<equiv> 0x200"
abbreviation Aerr :: u32 where "Aerr \<equiv> 0x1"
abbreviation Adrq :: u32 where "Adrq \<equiv> 0x8"
abbreviation Adf :: u32 where "Adf \<equiv> 0x20"
abbreviation Adrdy :: u32 where "Adrdy \<equiv> 0x40"
abbreviation Absy :: u32 where "Absy \<equiv> 0x80"
abbreviation Fvalidmask :: u32 where "Fvalidmask \<equiv> 0xC000"
abbreviation Fvalid :: u32 where "Fvalid \<equiv> 0x4000"
abbreviation Fcaplba :: u32 where "Fcaplba \<equiv> 0x200"
abbreviation Fcapdma :: u32 where "Fcapdma \<equiv> 0x100"
abbreviation Feat1Addr48 :: u32 where "Feat1Addr48 \<equiv> 0x400"
abbreviation Feat2WWName64 :: u32 where "Feat2WWName64 \<equiv> 0x100"
abbreviation LargeLogicalSectors :: u32 where "LargeLogicalSectors \<equiv> 0x1000"
abbreviation Sata1mem :: u32 where "Sata1mem \<equiv> 0x800"
abbreviation Sata1clock :: u32 where "Sata1clock \<equiv> 0x8000"

section \<open>State\<close>

record req =
  rq_prdlo :: u32
  rq_prdhi :: u32
  rq_ctl :: u32
  rq_count :: u32
  rq_ata :: "u32 list"

record resp =
  rs_idflags :: u32
  rs_ts :: u32

record prd =
  pr_addrlo :: u32
  pr_flagcount :: u32
  pr_addrhi :: u32

record disk =
  dk_valid :: int
  dk_serial :: "u8 list"
  dk_firmware :: "u8 list"
  dk_model :: "u8 list"
  dk_sectors :: u64

record hcreg =
  hr_cfg :: u32
  hr_intrcoalesc :: u32
  hr_intrtime :: u32
  hr_intr :: u32
  hr_intrmain :: u32
  hr_intrmainena :: u32

record sareg =
  ed_cfg :: u32
  ed_intre :: u32
  ed_intreena :: u32
  ed_reqbasehi :: u32
  ed_reqin :: u32
  ed_reqout :: u32
  ed_respbasehi :: u32
  ed_respin :: u32
  ed_respout :: u32
  ed_cmd :: u32
  ed_iordytimeout :: u32
  ed_cmddelaythr :: u32
  if_ifccfg :: u32
  if_sstatus :: u32
  if_serror :: u32
  if_scontrol :: u32
  if_phym3 :: u32
  if_phym4 :: u32
  if_serrintrena :: u32
  if_fiscfg :: u32
  if_fisintr :: u32
  if_fisintrena :: u32
  if_phym9g2 :: u32
  if_phym9g1 :: u32

record atareg =
  at_feat :: u32
  at_sectors :: u32
  at_lbalow :: u32
  at_lbamid :: u32
  at_lbahigh :: u32
  at_dev :: u32
  at_cmd :: u32
  at_out :: "u32 list"            \<comment> \<open>the words written to the data register\<close>

record 'w sata =
  sa_tags :: "nat list"
  sa_tagnext :: nat
  sa_tagsinuse :: int
  sa_ntags :: nat
  sa_reqsdone :: "rdone list"
  sa_reqsl :: bool
  sa_atadone :: rdone
  sa_ataregs :: u32
  sa_serrorintrs :: u32
  sa_reqs :: "req list"
  sa_resps :: "resp list"
  sa_prds :: "prd list"
  sa_reqnext :: nat
  sa_respnext :: nat
  sa_disk :: disk
  sa_startil :: bool
  sa_start :: u32
  sa_procs :: nat                 \<comment> \<open>kernel processes that run \<open>satastart\<close>\<close>
  sa_length :: u64                \<comment> \<open>length of the data file in \<open>satadir\<close>\<close>
  sa_debug :: int
  sa_hr :: hcreg
  sa_sr :: sareg
  sa_at :: atareg
  sa_mempm :: u32
  sa_clockgate :: u32
  sa_reads :: nat                 \<comment> \<open>reads of the ATA status register so far\<close>
  sa_w :: 'w

text \<open>What the controller reports of a request: a response, an error interrupt, or nothing.\<close>

datatype hwev = HwDone | HwErr u32 | HwNone

record 'w satenv =
  sv_dma :: "req \<Rightarrow> prd list \<Rightarrow> u32 \<Rightarrow> u8 list \<Rightarrow> 'w \<Rightarrow> (hwev \<times> (u32 \<times> u8 list) list) \<times> 'w"
  sv_ata :: "atareg \<Rightarrow> u8 list \<Rightarrow> 'w \<Rightarrow> (rdone \<times> u32 list) \<times> 'w"
  sv_status :: "nat \<Rightarrow> u32"
  sv_fuel :: nat
  sv_reqs :: u32                  \<comment> \<open>addresses of the three tables\<close>
  sv_resps :: u32
  sv_prds :: u32
  sv_memok :: bool                \<comment> \<open>whether the three tables can be allocated\<close>
  sv_clockfreq :: u32
  sv_iseve :: bool
  sv_eve :: string
  sv_parsecmd :: "u8 list \<Rightarrow> exn + string list"
  sv_flushstat :: "u8 list \<Rightarrow> int \<times> bool"    \<comment> \<open>\<open>convM2D\<close>: count, and whether nothing is to change\<close>

abbreviation upd_hr :: "(hcreg \<Rightarrow> hcreg) \<Rightarrow> 'w sata \<Rightarrow> 'w sata" where
  "upd_hr f s \<equiv> s\<lparr>sa_hr := f (sa_hr s)\<rparr>"

abbreviation upd_sr :: "(sareg \<Rightarrow> sareg) \<Rightarrow> 'w sata \<Rightarrow> 'w sata" where
  "upd_sr f s \<equiv> s\<lparr>sa_sr := f (sa_sr s)\<rparr>"

abbreviation upd_at :: "(atareg \<Rightarrow> atareg) \<Rightarrow> 'w sata \<Rightarrow> 'w sata" where
  "upd_at f s \<equiv> s\<lparr>sa_at := f (sa_at s)\<rparr>"

abbreviation upd_disk :: "(disk \<Rightarrow> disk) \<Rightarrow> 'w sata \<Rightarrow> 'w sata" where
  "upd_disk f s \<equiv> s\<lparr>sa_disk := f (sa_disk s)\<rparr>"

text \<open>The bits of the interrupt register that are written as 0 are cleared.\<close>

definition clear_intr :: "u32 \<Rightarrow> hcreg \<Rightarrow> hcreg" where
  "clear_intr v r = r\<lparr>hr_intr := hr_intr r AND v\<rparr>"

definition put_reqsl :: "bool \<Rightarrow> 'w sata \<Rightarrow> 'w sata" where "put_reqsl x s = s\<lparr>sa_reqsl := x\<rparr>"

definition put_startil :: "bool \<Rightarrow> 'w sata \<Rightarrow> 'w sata" where "put_startil x s = s\<lparr>sa_startil := x\<rparr>"

section \<open>Small helpers\<close>

definition g16 :: "u8 list \<Rightarrow> nat \<Rightarrow> u32" where
  "g16 p i = push_bit 8 (ucast (p ! i)) OR ucast (p ! (i + 1))"

definition isdone :: "rdone \<Rightarrow> bool" where "isdone d \<longleftrightarrow> d \<noteq> Rtimeout"

definition tagfree :: "'w sata \<Rightarrow> bool" where "tagfree s \<longleftrightarrow> sa_tagsinuse s < int (sa_ntags s)"

definition tagsidle :: "'w sata \<Rightarrow> bool" where "tagsidle s \<longleftrightarrow> sa_tagsinuse s = 0"

definition satakick :: "u32 \<Rightarrow> ('w sata, unit) kact" where
  "satakick v = with_ilock sa_startil put_startil (kmod (\<lambda>s. s\<lparr>sa_start := v\<rparr>))"

definition sataabort :: "'w sata \<Rightarrow> 'w sata" where
  "sataabort s = s\<lparr>sa_reqsdone := replicate 32 Rfail, sa_atadone := Rfail\<rparr>"

section \<open>Interrupts\<close>

definition intr_errors :: "u32 \<Rightarrow> ('w sata, unit) kact" where
  "intr_errors e =
     kthen
       (if e AND (Edevdis OR Eiordy OR Elinkerrmask OR Etransport) \<noteq> 0 then
          kthen (kmod sataabort) (satakick StartReset)
        else if e AND Edeverr \<noteq> 0 then kmod sataabort else kret ())
     (kthen (if e AND Edevcon \<noteq> 0 then satakick StartIdentify else kret ())
     (kthen
       (if e AND Eserror \<noteq> 0 then
          kmod (\<lambda>s. (upd_sr (\<lambda>r. r\<lparr>if_serror := - 1\<rparr>) s)\<lparr>sa_serrorintrs := sa_serrorintrs s + 1\<rparr>)
        else kret ())
     (kthen
       (if e AND Eselfdis \<noteq> 0 then kthen (kmod sataabort) (satakick StartReset) else kret ())
     (kthen
       (if e AND Etransint \<noteq> 0 then
          kmod (\<lambda>s. (upd_sr (\<lambda>r. r\<lparr>if_fisintr := 0\<rparr>) s)\<lparr>sa_ataregs := 1\<rparr>)
        else kret ())
       (kmod (upd_sr (\<lambda>r. r\<lparr>ed_intre := 0\<rparr>)))))))"

text \<open>The index of a response in its ring, from the register that holds its address.\<close>

definition resp_index :: "u32 \<Rightarrow> nat" where "resp_index v = unat ((v AND mask 8) div 8)"

definition resp_addr :: "'w satenv \<Rightarrow> nat \<Rightarrow> u32" where
  "resp_addr env i = sv_resps env + 8 * of_nat i"

definition done_one :: "'w satenv \<Rightarrow> nat \<Rightarrow> 'w sata \<Rightarrow> 'w sata" where
  "done_one env out s =
     (let tag = unat (rs_idflags (sa_resps s ! out) AND mask 5) in
      upd_sr (\<lambda>r. r\<lparr>ed_respout := resp_addr env ((out + 1) mod 32)\<rparr>)
        (s\<lparr>sa_reqsdone := (sa_reqsdone s)[tag := Rok]\<rparr>))"

text \<open>The two indexes are below 32 and the loop moves one of them round, so 32 rounds are enough.\<close>

primrec done_loop :: "'w satenv \<Rightarrow> nat \<Rightarrow> nat \<Rightarrow> nat \<Rightarrow> ('w sata, unit) kact" where
  "done_loop env i 0 out = (if i = out then kret () else kraise Fuel)"
| "done_loop env i (Suc k) out =
     (if i = out then kret ()
      else kthen (kmod (done_one env out)) (done_loop env i k ((out + 1) mod 32)))"

definition sataintr :: "'w satenv \<Rightarrow> ('w sata, unit) kact" where
  "sataintr env =
     kbind (kget (\<lambda>s. hr_intrmain (sa_hr s))) (\<lambda>v.
     kthen
       (if v AND Sata1err \<noteq> 0 then kbind (kget (\<lambda>s. ed_intre (sa_sr s))) intr_errors else kret ())
     (if v AND Sata1done \<noteq> 0 then
        kbind (kget (\<lambda>s. hr_intr (sa_hr s))) (\<lambda>i.
        kthen
          (if i AND Idma1done \<noteq> 0 then
             kthen (kmod (upd_hr (clear_intr (NOT Idma1done))))
             (kbind (kget sa_sr) (\<lambda>r.
              done_loop env (resp_index (ed_respin r)) 32 (resp_index (ed_respout r))))
           else kret ())
        (kbind (kget (\<lambda>s. hr_intr (sa_hr s))) (\<lambda>i.
         if i AND Idevintr1 \<noteq> 0 then
           kmod (\<lambda>s. (upd_hr (clear_intr (NOT Idevintr1)) s)
             \<lparr>sa_reads := Suc (sa_reads s), sa_atadone := Rok\<rparr>)
         else kret ())))
      else kret ()))"

section \<open>ATA commands\<close>

text \<open>\<open>pioget\<close> stores every 16-bit word with its high byte first; \<open>pioput\<close> reads them so.\<close>

definition pioget :: "u32 list \<Rightarrow> u8 list" where
  "pioget ws = concat (map (\<lambda>i. [ucast (drop_bit 8 (ws ! i)), ucast (ws ! i)]) [0..<256])"

definition pioput :: "u8 list \<Rightarrow> u32 list" where
  "pioput p = map (\<lambda>i. push_bit 8 (ucast (p ! (2 * i))) OR ucast (p ! (2 * i + 1))) [0..<256]"

definition at_status :: "'w satenv \<Rightarrow> ('w sata, u32) kact" where
  "at_status env =
     kbind (kget (\<lambda>s. sv_status env (sa_reads s))) (\<lambda>v.
     kthen (kmod (\<lambda>s. s\<lparr>sa_reads := Suc (sa_reads s)\<rparr>)) (kret v))"

text \<open>
  Every sleep ends with the interrupt that sets \<open>ataregs\<close>; a device that stays busy is waited for
  without end.
\<close>

primrec atawait :: "'w satenv \<Rightarrow> nat \<Rightarrow> ('w sata, unit) kact" where
  "atawait env 0 = kraise Blocked"
| "atawait env (Suc n) =
     kbind (at_status env) (\<lambda>v.
     if v AND Absy = 0 then kret ()
     else kthen (kmod (\<lambda>s. s\<lparr>sa_ataregs := 1\<rparr>)) (atawait env n))"

datatype dir = Nodata | Host2dev | Dev2host

definition ata_regs :: "u8 \<Rightarrow> u8 \<Rightarrow> u8 \<Rightarrow> u32 \<Rightarrow> u8 \<Rightarrow> atareg \<Rightarrow> atareg" where
  "ata_regs cmd feat sectors lba dev a =
     a\<lparr>at_feat := ucast feat, at_sectors := ucast sectors, at_lbalow := lba AND 0xFF,
       at_lbamid := drop_bit 8 lba AND 0xFF, at_lbahigh := drop_bit 16 lba AND 0xFF,
       at_dev := ucast dev, at_cmd := ucast cmd\<rparr>"

definition atacmd ::
  "'w satenv \<Rightarrow> u8 \<Rightarrow> u8 \<Rightarrow> u8 \<Rightarrow> u32 \<Rightarrow> u8 \<Rightarrow> dir \<Rightarrow> u8 list \<Rightarrow> int \<Rightarrow> ('w sata, u8 list) kact" where
  "atacmd env cmd feat sectors lba dev dir data ms =
     kthen (atawait env (sv_fuel env))
     (kthen (kmod (\<lambda>s. (upd_at (ata_regs cmd feat sectors lba dev) s)\<lparr>sa_atadone := Rtimeout\<rparr>))
     (kbind (kget (\<lambda>s. sv_ata env (sa_at s) data (sa_w s))) (\<lambda>((d, ws), w).
      kthen (kmod (\<lambda>s. s\<lparr>sa_atadone := d, sa_w := w\<rparr>))
      (kthen
        (if 0 < ms then (if d \<noteq> Rok then kraise (Error (Emsg (donemsgs d))) else kret ())
         else if isdone d then kret () else kraise Blocked)
      (kbind (at_status env) (\<lambda>v.
       kthen (kguard (v AND Aerr = 0) (Emsg ''ata command failed''))
       (kthen (kguard (v AND Adf = 0) (Emsg ''device fault''))
       (case dir of
          Nodata \<Rightarrow> kret []
        | Host2dev \<Rightarrow> kthen (kmod (upd_at (\<lambda>a. a\<lparr>at_out := pioput data\<rparr>))) (kret [])
        | Dev2host \<Rightarrow> kret (pioget ws)))))))))"

definition atacheck :: "'w satenv \<Rightarrow> u32 \<Rightarrow> u32 \<Rightarrow> ('w sata, int) kact" where
  "atacheck env statusmask status =
     kbind (at_status env) (\<lambda>v. kret (if v AND statusmask \<noteq> status then - 1 else 0))"

text \<open>A claim waits, with the lock held, until no tag is in use.\<close>

definition sataclaim :: "('w sata, unit) kact" where
  "sataclaim =
     kthen (ilock sa_reqsl put_reqsl)
     (kbind (kget tagsidle) (\<lambda>idle.
      if \<not> idle then kraise Blocked
      else kmod (upd_sr (\<lambda>r. r\<lparr>ed_cmd := ed_cmd r OR EdmaAbort, if_fisintrena := if_fisintrena r OR 1\<rparr>))))"

definition sataunclaim :: "('w sata, unit) kact" where
  "sataunclaim =
     kthen (kmod (upd_sr (\<lambda>r. r\<lparr>if_fisintrena := if_fisintrena r AND NOT 1\<rparr>))) (iunlock put_reqsl)"

section \<open>The identity of a disk\<close>

text \<open>
  \<open>strip\<close> works in place: the string is the bytes up to the first NUL, and what is behind the new
  NUL stays.
\<close>

definition strip_from :: "u8 list \<Rightarrow> nat" where
  "strip_from p = length (takeWhile (\<lambda>b. b = 0x20) p)"

primrec strip_to :: "u8 list \<Rightarrow> nat \<Rightarrow> nat \<Rightarrow> nat" where
  "strip_to p i 0 = 0"
| "strip_to p i (Suc j) = (if i \<le> j \<and> p ! j = 0x20 then strip_to p i j else Suc j)"

definition cstrlen :: "u8 list \<Rightarrow> nat" where
  "cstrlen p = length (takeWhile (\<lambda>b. b \<noteq> 0) p)"

definition strip :: "u8 list \<Rightarrow> u8 list" where
  "strip p =
     (let i = strip_from p; j = strip_to p i (cstrlen p)
      in take (j - i) (drop i p) @ [0] @ drop (j - i + 1) p)"

record atadev =
  ad_major :: u16
  ad_minor :: u16
  ad_cmdset :: "u16 list"
  ad_sectorflags :: u16
  ad_wwn :: u64
  ad_sectorsize :: u16
  ad_satacap :: u16
  ad_nvcachecap :: u16
  ad_nvcachelblocks :: u32
  ad_rpm :: u16

definition id_valid :: "u16 \<Rightarrow> bool" where
  "id_valid w \<longleftrightarrow> ucast w AND Fvalidmask = Fvalid"

definition atadev_of :: "u8 list \<Rightarrow> atadev" where
  "atadev_of buf =
     (let w = (\<lambda>i. g16 buf (2 * i));
          cs = map (\<lambda>i. ucast (w (82 + i)) :: u16) [0..<6];
          cs = cs[1 := if id_valid (cs ! 1) then cs ! 1 else 0];
          cs = cs[2 := if id_valid (cs ! 2) then cs ! 2 else 0];
          cs = cs[5 := if id_valid (cs ! 5) then cs ! 5 else 0];
          sf = ucast (w 106) :: u16; sf = (if id_valid sf then sf else 0);
          rpm = ucast (w 217) :: u16
      in \<lparr>ad_major = ucast (w 80), ad_minor = ucast (w 81), ad_cmdset = cs, ad_sectorflags = sf,
          ad_wwn = (if ucast (cs ! 2) AND Feat2WWName64 \<noteq> 0 \<and> ucast (cs ! 5) AND Feat2WWName64 \<noteq> 0
                    then push_bit 48 (ucast (w 108)) OR push_bit 32 (ucast (w 109))
                      OR push_bit 16 (ucast (w 110)) OR ucast (w 111)
                    else 0),
          ad_sectorsize = (if ucast sf AND LargeLogicalSectors \<noteq> 0
                           then ucast (2 * (push_bit 16 (w 117) OR w 118)) else 512),
          ad_satacap = (if ucast (w 76) = (0xFFFF :: u16) then 0 else ucast (w 76)),
          ad_nvcachecap = ucast (w 214),
          ad_nvcachelblocks = push_bit 16 (w 215) OR w 216,
          ad_rpm = (if (1 < rpm \<and> rpm < 0x400) \<or> rpm = 0xFFFF then 0 else rpm)\<rparr>)"

text \<open>The fields of the disk that are set before the checks, and the tags.\<close>

definition id_disk :: "u8 list \<Rightarrow> disk \<Rightarrow> disk" where
  "id_disk buf d =
     d\<lparr>dk_serial := strip (take 20 (drop 20 buf) @ drop 20 (dk_serial d)),
       dk_firmware := strip (take 8 (drop 46 buf) @ drop 8 (dk_firmware d)),
       dk_model := strip (take 40 (drop 54 buf) @ drop 40 (dk_model d)),
       dk_sectors := ucast (g16 buf 200) OR push_bit 16 (ucast (g16 buf 202))
         OR push_bit 32 (ucast (g16 buf 204))\<rparr>"

definition id_tags :: "u8 list \<Rightarrow> 'w sata \<Rightarrow> 'w sata" where
  "id_tags buf s =
     (let n = 1 + unat (g16 buf 150 AND mask 5) in
      s\<lparr>sa_ntags := n, sa_tags := [0..<n] @ drop n (sa_tags s)\<rparr>)"

definition identify :: "'w satenv \<Rightarrow> ('w sata, unit) kact" where
  "identify env =
     kbind (atacmd env 0xEC 0 0 0 0 Dev2host [] 60000) (\<lambda>buf.
     kbind (atacheck env (Absy OR Adrdy OR Adf OR Adrq OR Aerr) Adrdy) (\<lambda>r.
     kthen (kguard (\<not> r < 0) (Emsg ''identify failed''))
     (kthen (kguard (sum_list buf = 0) (Emsg ''check byte for 'identify device' response invalid''))
     (kthen (kmod (upd_disk (id_disk buf)))
     (kthen
       (kguard (g16 buf 98 AND Fcapdma \<noteq> 0 \<and> g16 buf 98 AND Fcaplba \<noteq> 0)
         (Emsg ''disk does not support dma and/or lba''))
     (kthen (kmod (id_tags buf))
     (kthen
       (kguard (ucast (ad_cmdset (atadev_of buf) ! 4) AND Feat1Addr48 \<noteq> 0)
         (Emsg ''disk does not have lba48 enabled''))
       (kmod (\<lambda>s. (upd_disk (\<lambda>d. d\<lparr>dk_valid := 1\<rparr>) s)\<lparr>sa_length := dk_sectors (sa_disk s) * 512\<rparr>)))))))))"

definition flush :: "'w satenv \<Rightarrow> ('w sata, unit) kact" where
  "flush env =
     kbracket sataclaim sataunclaim
       (kthen (atacmd env 0xEA 0 0 0 0 Nodata [] 0)
       (kbind (atacheck env (Absy OR Adrdy OR Adf OR Adrq OR Aerr) Adrdy) (\<lambda>r.
        kguard (\<not> r < 0) (Emsg ''flush cache ext failed''))))"

section \<open>Reset and start-up\<close>

definition reset_regs :: "'w satenv \<Rightarrow> 'w sata \<Rightarrow> 'w sata" where
  "reset_regs env s =
     (let s = s\<lparr>sa_mempm := sa_mempm s AND NOT Sata1mem, sa_clockgate := sa_clockgate s OR Sata1clock\<rparr>;
          s = upd_hr (\<lambda>r. r\<lparr>hr_intrmainena := 0,
                hr_cfg := 0xFF OR 0x100 OR 0x200 OR 0x400 OR 0x10000,
                hr_intrcoalesc := 0, hr_intrtime := 0, hr_intr := 0\<rparr>) s
      in upd_sr (\<lambda>r. r\<lparr>ed_intreena := 0, if_serrintrena := 0, if_fisintrena := 0,
           ed_cmd := (ed_cmd r AND NOT EdmaEnable) OR EdmaAbort, ed_intre := 0, if_serror := - 1,
           if_fisintr := 0, if_ifccfg := if_ifccfg r AND NOT Physhutdown,
           ed_iordytimeout := (if sv_clockfreq env = 200000000 then 0xFA else 0xBC),
           ed_cmddelaythr := 0\<rparr>) s)"

definition blank_req :: req where
  "blank_req = \<lparr>rq_prdlo = 0, rq_prdhi = 0, rq_ctl = 0, rq_count = 0, rq_ata = [0, 0, 0, 0]\<rparr>"

definition satareset :: "'w satenv \<Rightarrow> ('w sata, unit) kact" where
  "satareset env =
     kthen (kmod (reset_regs env))
     (if \<not> sv_memok env then kraise (Panic ''satareset'')
      else
        kmod (\<lambda>s. s\<lparr>sa_reqs := replicate 32 blank_req,
          sa_resps := replicate 32 \<lparr>rs_idflags = 0, rs_ts = 0\<rparr>,
          sa_prds := replicate 256 \<lparr>pr_addrlo = 0, pr_flagcount = 0, pr_addrhi = 0\<rparr>,
          sa_reqnext := 0, sa_respnext := 0\<rparr>))"

definition satastartreset :: "'w sata \<Rightarrow> 'w sata" where
  "satastartreset =
     upd_sr (\<lambda>r. r\<lparr>ed_cmd := (ed_cmd r OR Atareset) AND NOT Atareset,
       if_phym3 := (if_phym3 r AND NOT 0x78100000) OR 0x28000000,
       if_phym4 := (if_phym4 r AND NOT 1) OR 0x10000,
       if_phym9g2 := (if_phym9g2 r AND NOT 0x400F) OR 0x8,
       if_phym9g1 := (if_phym9g1 r AND NOT 0x400F) OR 0x8,
       if_serror := - 1, if_serrintrena := SErrEN OR SErrEX, if_fisintrena := 0, if_fiscfg := 1,
       if_scontrol := (CDETcomm OR CIPMnopartial OR CIPMnoslumber) AND NOT CDETcomm\<rparr>)"

definition satastartidentify :: "'w satenv \<Rightarrow> ('w sata, unit) kact" where
  "satastartidentify env = kbracket sataclaim sataunclaim (identify env)"

text \<open>One round of the kernel process; an error in it is dropped.\<close>

definition satastart :: "'w satenv \<Rightarrow> ('w sata, unit) kact" where
  "satastart env =
     kbind (with_ilock sa_startil put_startil
              (kbind (kget sa_start) (\<lambda>v. kthen (kmod (\<lambda>s. s\<lparr>sa_start := 0\<rparr>)) (kret v)))) (\<lambda>v.
     kcatch
       (kthen (if v AND StartReset \<noteq> 0 then kmod satastartreset else kret ())
         (if v AND StartIdentify \<noteq> 0 then satastartidentify env else kret ()))
       (\<lambda>e. kret ()))"

definition init_tags :: "'w sata \<Rightarrow> 'w sata" where
  "init_tags s = s\<lparr>sa_tagnext := 0, sa_tagsinuse := 0, sa_ntags := 1, sa_tags := (sa_tags s)[0 := 0]\<rparr>"

definition satainit :: "'w satenv \<Rightarrow> ('w sata, unit) kact" where
  "satainit env =
     kthen (kmod init_tags)
     (kthen (kmod (upd_sr (\<lambda>r. r\<lparr>ed_cmd := (ed_cmd r AND NOT EdmaEnable) OR EdmaAbort,
         ed_reqbasehi := 0, ed_respbasehi := 0, ed_reqin := 0, ed_reqout := 0, ed_respin := 0,
         ed_respout := resp_addr env 0, ed_intre := 0,
         ed_intreena := NOT (push_bit Etxctlshift Etxlinkmask), if_serror := - 1,
         if_serrintrena := SErrEN OR SErrEX, if_fisintrena := 0, if_fiscfg := 0\<rparr>)))
     (kthen (kmod (upd_hr (\<lambda>r. r\<lparr>hr_intrmainena := Sata1err OR Sata1done, hr_intr := 0\<rparr>)))
     (kthen (kmod (\<lambda>s. s\<lparr>sa_start := 0, sa_procs := Suc (sa_procs s)\<rparr>))
       (satakick StartReset))))"

section \<open>Input and output\<close>

text \<open>The table of regions: 64 KiB to an entry, of which the count field shows the low 16 bits.\<close>

function prdfill :: "u32 \<Rightarrow> int \<Rightarrow> prd list" where
  "prdfill buf n =
     (let nn = (if n < 65536 then n else 65536) in
      if n - nn = 0 then
        [\<lparr>pr_addrlo = buf, pr_flagcount = (of_int nn AND 0xFFFF) OR Endoftable, pr_addrhi = 0\<rparr>]
      else
        \<lparr>pr_addrlo = buf, pr_flagcount = of_int nn AND 0xFFFF, pr_addrhi = 0\<rparr>
          # prdfill (buf + 65536) (n - nn))"
  by pat_completeness auto

termination prdfill
  by (relation "measure (\<lambda>(buf, n). nat n)") (auto split: if_splits)

declare prdfill.simps [simp del]

datatype xfer = Read | Write

definition io_cmd :: "xfer \<Rightarrow> u32" where
  "io_cmd t = (case t of Read \<Rightarrow> 0x60 | Write \<Rightarrow> 0x61)"

text \<open>A request for \<open>ns\<close> sectors (at most 1024) at \<open>lba\<close>, in slot \<open>i\<close> of the ring.\<close>

definition io_req :: "'w satenv \<Rightarrow> xfer \<Rightarrow> u32 \<Rightarrow> u32 \<Rightarrow> u64 \<Rightarrow> nat \<Rightarrow> nat \<Rightarrow> req" where
  "io_req env t addr ns lba tag i =
     (let (prdlo, ctl, count) =
            (if 128 < ns then (sv_prds env + 128 * of_nat i, 0, 0)
             else (addr, Rprdsingle, (ns * 512) AND 0xFFFF));
          ctl = ctl OR (if t = Read then Rdev2mem else 0);
          ctl = ctl OR push_bit Rdevtagshift (of_nat tag) OR push_bit Rhosttagshift (of_nat tag);
          lbalo = ucast (lba AND mask 24); lbahi = ucast (drop_bit 24 lba AND mask 24);
          nslo = ns AND 0xFF; nshi = drop_bit 8 ns AND 0xFF
      in \<lparr>rq_prdlo = prdlo, rq_prdhi = 0, rq_ctl = ctl, rq_count = count,
          rq_ata = [push_bit 16 (io_cmd t) OR push_bit 24 nslo, lbalo OR push_bit 24 0x40,
                    lbahi OR push_bit 24 nshi, push_bit 3 (of_nat tag)]\<rparr>)"

text \<open>The tag, the slot and the number of sectors of a request; \<open>None\<close> when there is nothing to do.\<close>

definition io_check :: "'w satenv \<Rightarrow> u32 \<Rightarrow> int \<Rightarrow> int \<Rightarrow> ('w sata, bool) kact" where
  "io_check env addr nb off =
     kbind (kget sa_disk) (\<lambda>d.
     kthen (kguard (dk_valid d \<noteq> 0) Enodisk)
     (kthen (kguard (0 \<le> nb \<and> 0 \<le> off \<and> off smod 512 = 0) Ebadarg)
     (if nb = 0 then kret False
      else
        kthen (kguard (nb smod 512 = 0) Ebadarg)
        (kthen (kguard (addr AND 1 = 0) Ebadarg)
        (let lba = of_int (off sdiv 512) in
         if lba = dk_sectors d then kret False
         else kthen (kguard (\<not> dk_sectors d < lba) Ebadarg) (kret True))))))"

definition take_tag :: "'w sata \<Rightarrow> nat \<times> 'w sata" where
  "take_tag s =
     (sa_tags s ! sa_tagnext s,
      s\<lparr>sa_tagnext := (sa_tagnext s + 1) mod sa_ntags s, sa_tagsinuse := sa_tagsinuse s + 1\<rparr>)"

definition take_slot :: "'w sata \<Rightarrow> nat \<times> 'w sata" where
  "take_slot s = (sa_reqnext s, s\<lparr>sa_reqnext := (sa_reqnext s + 1) mod 32\<rparr>)"

definition put_prds :: "nat \<Rightarrow> prd list \<Rightarrow> ('w sata, unit) kact" where
  "put_prds k es =
     kbind (kget sa_prds) (\<lambda>ps.
     if length ps < k + length es then kraise (Fault ''prds'')
     else kmod (\<lambda>s. s\<lparr>sa_prds := take k ps @ es @ drop (k + length es) ps\<rparr>))"

definition start_edma :: "'w sata \<Rightarrow> 'w sata" where
  "start_edma s =
     (if ed_cmd (sa_sr s) AND EdmaEnable \<noteq> 0 then s
      else
        upd_hr (clear_intr (NOT (Sata1err OR Sata1done)))
          (upd_sr (\<lambda>r. r\<lparr>ed_intre := 0, ed_cfg := (ed_cfg r AND NOT ECFGqueue) OR ECFGncq,
             if_fisintr := 0, ed_cmd := EdmaEnable\<rparr>) s))"

definition io_ns :: "int \<Rightarrow> u32" where
  "io_ns nb = (let ns = of_int (nb sdiv 512) in if 1024 < ns then 1024 else ns)"

text \<open>The request goes into its slot and the controller is told; the number of sectors is at most 1024.\<close>

definition io_queue ::
  "'w satenv \<Rightarrow> xfer \<Rightarrow> u32 \<Rightarrow> u32 \<Rightarrow> u64 \<Rightarrow> nat \<Rightarrow> nat \<Rightarrow> ('w sata, unit) kact" where
  "io_queue env t addr ns lba tag i =
     kthen (if 128 < ns then put_prds (8 * i) (prdfill addr (uint (ns * 512))) else kret ())
     (kthen
       (kmod (\<lambda>s. s\<lparr>sa_reqs := (sa_reqs s)[i := io_req env t addr ns lba tag i],
          sa_reqsdone := (sa_reqsdone s)[tag := Rtimeout]\<rparr>))
     (kthen (kmod (\<lambda>s. upd_sr (\<lambda>r. r\<lparr>ed_reqin := sv_reqs env + 32 * of_nat (sa_reqnext s)\<rparr>) s))
       (kmod start_edma)))"

definition io_submit :: "'w satenv \<Rightarrow> xfer \<Rightarrow> u32 \<Rightarrow> int \<Rightarrow> int \<Rightarrow> ('w sata, nat \<times> nat) kact" where
  "io_submit env t addr nb off =
     kthen (ilock sa_reqsl put_reqsl)
     (kbind (kget tagfree) (\<lambda>free.
      if \<not> free then kraise Blocked
      else
        kbind (kget (\<lambda>s. fst (take_tag s))) (\<lambda>tag.
        kthen (kmod (\<lambda>s. snd (take_tag s)))
        (kbind (kget (\<lambda>s. fst (take_slot s))) (\<lambda>i.
         kthen (kmod (\<lambda>s. snd (take_slot s)))
         (kthen (io_queue env t addr (io_ns nb) (of_int (off sdiv 512)) tag i)
         (kthen (iunlock put_reqsl) (kret (tag, i)))))))))"

text \<open>The bytes a transfer from the device puts into a buffer at \<open>addr\<close>.\<close>

definition dma_one :: "u32 \<Rightarrow> u32 \<times> u8 list \<Rightarrow> u8 list \<Rightarrow> exn + u8 list" where
  "dma_one addr = (\<lambda>(a, bs) buf.
     let k = unat (a - addr) in
     if length buf < k + length bs then Inl (Fault ''dma past the end of the buffer'')
     else Inr (take k buf @ bs @ drop (k + length bs) buf))"

text \<open>
  The controller runs the request while the process sleeps, and interrupts.  It finds the request by its
  registers: it is the one in front of the place \<open>ed_reqin\<close> points to; the table of regions is at the
  address in the request, and the response goes to the place of \<open>ed_respin\<close> with the tag of the request.
\<close>

definition eng_slot :: "'w satenv \<Rightarrow> 'w sata \<Rightarrow> nat" where
  "eng_slot env s = (unat ((ed_reqin (sa_sr s) - sv_reqs env) div 32) + 31) mod 32"

definition eng_table :: "'w satenv \<Rightarrow> req \<Rightarrow> 'w sata \<Rightarrow> prd list" where
  "eng_table env rq s = take 8 (drop (unat ((rq_prdlo rq - sv_prds env) div 16)) (sa_prds s))"

definition rq_hosttag :: "req \<Rightarrow> nat" where
  "rq_hosttag rq = unat (drop_bit Rhosttagshift (rq_ctl rq) AND mask 5)"

definition post_resp :: "nat \<Rightarrow> 'w satenv \<Rightarrow> 'w sata \<Rightarrow> 'w sata" where
  "post_resp tag env s =
     (let k = resp_index (ed_respin (sa_sr s)) in
      upd_hr (\<lambda>r. r\<lparr>hr_intr := hr_intr r OR Idma1done, hr_intrmain := Sata1done\<rparr>)
        (upd_sr (\<lambda>r. r\<lparr>ed_respin := resp_addr env ((k + 1) mod 32)\<rparr>)
          (s\<lparr>sa_resps := (sa_resps s)[k := \<lparr>rs_idflags = of_nat tag, rs_ts = 0\<rparr>]\<rparr>)))"

definition io_wait :: "'w satenv \<Rightarrow> u32 \<Rightarrow> u8 list \<Rightarrow> ('w sata, u8 list) kact" where
  "io_wait env addr buf =
     kbind (kget (\<lambda>s. sa_reqs s ! eng_slot env s)) (\<lambda>rq.
     kbind (kget (\<lambda>s. sv_dma env rq (eng_table env rq s) addr buf (sa_w s))) (\<lambda>((ev, ws), w).
     kthen (kmod (\<lambda>s. s\<lparr>sa_w := w\<rparr>))
     (kthen
       (case ev of
          HwDone \<Rightarrow> kthen (kmod (post_resp (rq_hosttag rq) env)) (sataintr env)
        | HwErr e \<Rightarrow>
            kthen (kmod (\<lambda>s. upd_hr (\<lambda>r. r\<lparr>hr_intrmain := Sata1err\<rparr>) (upd_sr (\<lambda>r. r\<lparr>ed_intre := e\<rparr>) s)))
              (sataintr env)
        | HwNone \<Rightarrow> kret ())
       (klift (efold (dma_one addr) ws buf)))))"

text \<open>A tag goes back in two steps, with no lock held: it is stored in the ring, then the count goes down.\<close>

definition put_tag_store :: "nat \<Rightarrow> ('w sata, unit) kact" where
  "put_tag_store tag =
     kbind (kget (\<lambda>s. (int (sa_tagnext s) - sa_tagsinuse s + int (sa_ntags s)) smod int (sa_ntags s))) (\<lambda>k.
     if k < 0 then kraise (Fault ''tags'') else kmod (\<lambda>s. s\<lparr>sa_tags := (sa_tags s)[nat k := tag]\<rparr>))"

definition put_tag_count :: "('w sata, unit) kact" where
  "put_tag_count = kmod (\<lambda>s. s\<lparr>sa_tagsinuse := sa_tagsinuse s - 1\<rparr>)"

definition put_tag :: "nat \<Rightarrow> ('w sata, unit) kact" where
  "put_tag tag = kthen (put_tag_store tag) put_tag_count"

definition io_finish :: "nat \<Rightarrow> ('w sata, unit) kact" where
  "io_finish tag =
     kbind (kget (\<lambda>s. sa_reqsdone s ! tag)) (\<lambda>d.
     if d \<noteq> Rok then kraise (Error (Emsg (donemsgs d))) else put_tag tag)"

definition io :: "'w satenv \<Rightarrow> xfer \<Rightarrow> u32 \<Rightarrow> u8 list \<Rightarrow> int \<Rightarrow> ('w sata, int \<times> u8 list) kact" where
  "io env t addr buf off =
     kbind (io_check env addr (int (length buf)) off) (\<lambda>go.
     if \<not> go then kret (0, buf)
     else
       kbind (io_submit env t addr (int (length buf)) off) (\<lambda>(tag, i).
       kbind (io_wait env addr buf) (\<lambda>b.
       kthen (io_finish tag) (kret (uint (io_ns (int (length buf)) * 512), b)))))"

text \<open>A round that goes on moves at least one sector, so there are never more rounds than bytes.\<close>

primrec data_loop ::
  "'w satenv \<Rightarrow> xfer \<Rightarrow> u32 \<Rightarrow> int \<Rightarrow> nat \<Rightarrow> nat \<Rightarrow> u8 list \<Rightarrow> ('w sata, int \<times> u8 list) kact" where
  "data_loop env t addr off 0 r buf = kraise Fuel"
| "data_loop env t addr off (Suc k) r buf =
     (if r < length buf then
        kbind (io env t (addr + of_nat r) (drop r buf) (i64 (off + int r))) (\<lambda>(nn, b).
        if nn = 0 then kret (int r, take r buf @ b)
        else data_loop env t addr off k (r + nat nn) (take r buf @ b))
      else kret (int r, buf))"

section \<open>The files\<close>

abbreviation Qsdir :: nat where "Qsdir \<equiv> 0"
abbreviation Qctlr :: nat where "Qctlr \<equiv> 1"
abbreviation Qctl :: nat where "Qctl \<equiv> 2"
abbreviation Qdata :: nat where "Qdata \<equiv> 3"

definition satadir :: "u64 \<Rightarrow> (string \<times> nat \<times> bool \<times> u64 \<times> u32) list" where
  "satadir len =
     [(''.'', Qsdir, True, 0, 365), (''sd01'', Qctlr, True, 0, 365), (''ctl'', Qctl, False, 0, 432),
      (''data'', Qdata, False, len, 432)]"

text \<open>\<open>satagen\<close>: the entry, if there is one.  \<open>None\<close> as position is \<open>DEVDOTDOT\<close>.\<close>

definition satagen ::
  "nat \<Rightarrow> bool \<Rightarrow> string option \<Rightarrow> nat option \<Rightarrow>
   ('w sata, (string \<times> nat \<times> bool \<times> u64 \<times> u32) option) kact" where
  "satagen path isdir name si =
     kbind (kget (\<lambda>s. satadir (sa_length s))) (\<lambda>tab.
     let k = (case si of None \<Rightarrow> 0 | Some i \<Rightarrow> path + (if isdir then 1 else 0) + i);
         ntab = (if si \<noteq> None \<and> path = Qctlr then 2 else 1) in
     if (\<exists>i. si = Some i \<and> ntab \<le> i) then kret None
     else
       case name of
         None \<Rightarrow> if k < 4 then kret (Some (tab ! k)) else kraise (Fault ''satadir'')
       | Some nm \<Rightarrow>
           kthen (kguard isdir (Emsg ''not a directory''))
           (kret (find (\<lambda>(n, _). n = nm) (take ntab (drop k tab)))))"

definition ctl :: "'w satenv \<Rightarrow> u8 list \<Rightarrow> ('w sata, int) kact" where
  "ctl env buf =
     kbind (klift (sv_parsecmd env buf)) (\<lambda>f.
     if f = [] then kraise (Fault ''f[0]'')
     else if f ! 0 = ''debug'' then
       kthen (kguard (length f = 2) Ebadarg)
       (kthen (kmod (\<lambda>s. s\<lparr>sa_debug := atoi (f ! 1)\<rparr>)) (kret (int (length buf))))
     else if f ! 0 = ''reset'' then
       kthen (kguard (length f = 1) Ebadarg) (kthen (satainit env) (kret (int (length buf))))
     else if f ! 0 = ''identify'' then
       kthen (kbracket sataclaim sataunclaim (identify env)) (kret (int (length buf)))
     else if f ! 0 = ''flush'' then kthen (flush env) (kret (int (length buf)))
     else kraise (Error (Emsg ''bad ctl'')))"

definition satactl_text :: "disk \<Rightarrow> string" where
  "satactl_text d =
     (let nl = [CHR 0x0A]; sectors = udec (unat (dk_sectors d));
          p = seprint 1024 [] (''inquiry '' @ qfmt [] @ '' '' @ qfmt (cstr (dk_model d)) @ nl);
          p = seprint 1024 p (''config serial '' @ qfmt (cstr (dk_serial d)) @ '' firmware ''
                @ qfmt (cstr (dk_firmware d)) @ nl);
          p = seprint 1024 p (''geometry '' @ sectors @ '' 512'' @ nl)
      in seprint 1024 p (''part data 0 '' @ sectors @ nl))"

definition sataread :: "'w satenv \<Rightarrow> nat \<Rightarrow> u32 \<Rightarrow> u8 list \<Rightarrow> int \<Rightarrow> ('w sata, int \<times> u8 list) kact" where
  "sataread env path addr buf off =
     (if path = Qctl then
        kbind (kget sa_disk) (\<lambda>d.
        kthen (kguard (dk_valid d \<noteq> 0) Enodisk)
        (let b = readstr off (int (length buf)) (satactl_text d) in
         kret (int (length b), b @ drop (length b) buf)))
      else if path = Qdata then
        kthen (kguard (sv_iseve env) Eperm) (data_loop env Read addr off (Suc (length buf)) 0 buf)
      else kraise (Error Egreg))"

definition satawrite :: "'w satenv \<Rightarrow> nat \<Rightarrow> u32 \<Rightarrow> u8 list \<Rightarrow> int \<Rightarrow> ('w sata, int) kact" where
  "satawrite env path addr buf off =
     (if path = Qctl then kthen (kguard (sv_iseve env) Eperm) (ctl env buf)
      else if path = Qdata then
        kthen (kguard (sv_iseve env) Eperm)
        (kbind (data_loop env Write addr off (Suc (length buf)) 0 buf) (\<lambda>(r, _). kret r))
      else kraise (Error Egreg))"

definition satawstat :: "'w satenv \<Rightarrow> nat \<Rightarrow> u8 list \<Rightarrow> ('w sata, int) kact" where
  "satawstat env path dp =
     kthen (kguard (sv_iseve env \<and> path = Qdata) Eperm)
     (let (n, unchanged) = sv_flushstat env dp in
      kthen (kguard (n \<noteq> 0) Eshortstat)
      (if unchanged then kthen (flush env) (kret n) else kraise (Error Eperm)))"

end
