(* ===== verification/Sata_Req.thy ===== *)
theory Sata_Req
  imports Sata
begin

text \<open>
  Requests of the SATA driver: how the controller reads the regions of a request and the disk its
  command block, and that the request the driver builds says what was asked for.
\<close>

section \<open>The regions of a request\<close>

text \<open>
  How the controller reads a request: one region, or the entries of a table up to the one with the
  end mark; a count of 0 stands for 64 KiB.
\<close>

definition seg_len :: "u32 \<Rightarrow> nat" where
  "seg_len v = (if v AND 0xFFFF = 0 then 65536 else unat (v AND 0xFFFF))"

fun prd_segs :: "prd list \<Rightarrow> (u32 \<times> nat) list" where
  "prd_segs [] = []"
| "prd_segs (p # ps) = (pr_addrlo p, seg_len (pr_flagcount p))
     # (if pr_flagcount p AND Endoftable \<noteq> 0 then [] else prd_segs ps)"

definition req_segs :: "req \<Rightarrow> prd list \<Rightarrow> (u32 \<times> nat) list" where
  "req_segs rq tbl =
     (if rq_ctl rq AND Rprdsingle \<noteq> 0 then [(rq_prdlo rq, seg_len (rq_count rq))] else prd_segs tbl)"

fun scatter :: "(u32 \<times> nat) list \<Rightarrow> u8 list \<Rightarrow> (u32 \<times> u8 list) list" where
  "scatter [] d = []"
| "scatter ((a, n) # ss) d = (a, take n d) # scatter ss (drop n d)"

lemma low16: "(w :: u32) AND 0xFFFF = take_bit 16 w"
  by (simp add: take_bit_eq_mask mask_numeral)

lemma flag_bits:
  "(w AND 0xFFFF OR Endoftable) AND 0xFFFF = (w AND 0xFFFF :: u32)"
  "(w AND 0xFFFF OR Endoftable) AND Endoftable \<noteq> (0 :: u32)"
  "(w AND 0xFFFF) AND Endoftable = (0 :: u32)"
  by (simp_all add: bit.conj_disj_distrib2 and.assoc)

lemma seg_len_of_int:
  assumes "0 < n" and "n \<le> 65536"
  shows "seg_len (of_int n AND 0xFFFF) = nat n" "seg_len (of_int n AND 0xFFFF OR Endoftable) = nat n"
proof -
  have "uint (of_int n AND 0xFFFF :: u32) = n mod 65536"
    unfolding low16 by (simp add: unsigned_take_bit_eq unsigned_of_int take_bit_take_bit take_bit_eq_mod [of 16 n])
  then have u: "unat (of_int n AND 0xFFFF :: u32) = nat (n mod 65536)"
    by (simp flip: nat_uint_eq)
  have z: "of_int n AND 0xFFFF = (0 :: u32) \<longleftrightarrow> n mod 65536 = 0"
    using \<open>uint _ = _\<close> by (metis uint_0_iff)
  show "seg_len (of_int n AND 0xFFFF) = nat n"
    unfolding seg_len_def and.assoc and.idem using assms u z by (cases "n = 65536") simp_all
  then show "seg_len (of_int n AND 0xFFFF OR Endoftable) = nat n"
    unfolding seg_len_def flag_bits and.assoc and.idem .
qed

text \<open>A table covers a buffer from end to end, at most 64 KiB to an entry.\<close>

lemma prdfill_length: "0 < n \<Longrightarrow> n \<le> 65536 * int k \<Longrightarrow> length (prdfill buf n) \<le> k"
proof (induction k arbitrary: buf n)
  case (Suc k)
  show ?case
  proof (cases "n \<le> 65536")
    case True
    then show ?thesis by (subst prdfill.simps) (auto simp: Let_def)
  next
    case False
    then have "length (prdfill (buf + 65536) (n - 65536)) \<le> k" using Suc by (intro Suc.IH) simp_all
    with False show ?thesis by (subst prdfill.simps) (simp add: Let_def)
  qed
qed simp

lemma dma_one_at:
  assumes "h + length bs \<le> length buf" and "length buf < 4294967296"
  shows "dma_one addr (addr + of_nat h, bs) buf = Inr (take h buf @ bs @ drop (h + length bs) buf)"
proof -
  have "unat (addr + of_nat h - addr) = h" using assms by (simp add: unat_of_nat_u32)
  with assms show ?thesis by (simp add: dma_one_def)
qed

lemma prdfill_scatter:
  assumes "0 < n" and "h + nat n \<le> length buf" and "length buf < 4294967296" and "length d = nat n"
  shows "efold (dma_one addr) (scatter (prd_segs (prdfill (addr + of_nat h) n @ rest)) d) buf
    = Inr (take h buf @ d @ drop (h + nat n) buf)"
  using assms
proof (induction "nat n" arbitrary: n h buf d rule: less_induct)
  case less
  show ?case
  proof (cases "n \<le> 65536")
    case True
    then have "prdfill (addr + of_nat h) n
        = [\<lparr>pr_addrlo = addr + of_nat h, pr_flagcount = (of_int n AND 0xFFFF) OR Endoftable, pr_addrhi = 0\<rparr>]"
      by (subst prdfill.simps) (auto simp: Let_def)
    with True less.prems show ?thesis
      by (simp add: seg_len_of_int flag_bits dma_one_at)
  next
    case False
    let ?p = "\<lparr>pr_addrlo = addr + of_nat h, pr_flagcount = of_int 65536 AND 0xFFFF, pr_addrhi = 0\<rparr>"
    have p: "prdfill (addr + of_nat h) n = ?p # prdfill (addr + of_nat (h + 65536)) (n - 65536)"
      using False by (subst prdfill.simps) (simp add: Let_def add.assoc)
    let ?d = "take 65536 d"
    let ?buf = "take h buf @ ?d @ drop (h + 65536) buf"
    have ld: "length ?d = 65536" using less.prems False by simp
    have ih: "efold (dma_one addr) (scatter (prd_segs (prdfill (addr + of_nat (h + 65536)) (n - 65536) @ rest))
        (drop 65536 d)) ?buf = Inr (take (h + 65536) ?buf @ drop 65536 d @ drop (h + 65536 + nat (n - 65536)) ?buf)"
      using less.prems False by (intro less.hyps) auto
    have one: "dma_one addr (addr + of_nat h, ?d) buf = Inr ?buf"
      using dma_one_at [of h ?d buf addr] less.prems False ld by simp
    have c: "seg_len 0 = 65536" by (simp add: seg_len_def)
    have len: "length (take h buf) = h" using less.prems by simp
    have t1: "take (h + 65536) ?buf = take h buf @ ?d" using len ld by simp
    have "drop (h + 65536 + k) ?buf = drop (h + 65536 + k) buf" for k
      using len ld by (simp add: ac_simps)
    moreover have "h + 65536 + nat (n - 65536) = h + nat n" using False by linarith
    ultimately have t2: "drop (h + 65536 + nat (n - 65536)) ?buf = drop (h + nat n) buf" by metis
    have "scatter (prd_segs (prdfill (addr + of_nat h) n @ rest)) d = (addr + of_nat h, ?d)
        # scatter (prd_segs (prdfill (addr + of_nat (h + 65536)) (n - 65536) @ rest)) (drop 65536 d)"
      unfolding p by (simp add: c)
    then show ?thesis
      using one ih [unfolded t1 t2] by (simp only: efold.simps ebind_simps append_assoc append_take_drop_id)
        (metis append_assoc append_take_drop_id)
  qed
qed

section \<open>What a request says to the disk\<close>

text \<open>The fields of a queued command, as the serial ATA specification places them.\<close>

definition rq_command :: "req \<Rightarrow> u32" where
  "rq_command rq = drop_bit 16 (rq_ata rq ! 0) AND 0xFF"

definition rq_lba :: "req \<Rightarrow> u64" where
  "rq_lba rq = ucast (rq_ata rq ! 1 AND mask 24) OR push_bit 24 (ucast (rq_ata rq ! 2 AND mask 24))"

definition rq_sectors :: "req \<Rightarrow> nat" where
  "rq_sectors rq =
     (let n = drop_bit 24 (rq_ata rq ! 0) OR push_bit 8 (drop_bit 24 (rq_ata rq ! 2))
      in if n = 0 then 65536 else unat n)"

definition rq_tag :: "req \<Rightarrow> nat" where "rq_tag rq = unat (drop_bit 3 (rq_ata rq ! 3 AND 0xFF))"

definition rq_devtag :: "req \<Rightarrow> nat" where
  "rq_devtag rq = unat (drop_bit Rdevtagshift (rq_ctl rq) AND mask 5)"

lemma take_bit_word_self: "unat w < 2 ^ n \<Longrightarrow> take_bit n w = w"
  by (metis unsigned_take_bit_eq take_bit_nat_eq_self word_unat_eq_iff)

lemma lba_split:
  "(ucast ((ucast (lba AND mask 24) OR push_bit 24 (d::u32)) AND mask 24) :: u64)
     OR push_bit 24 (ucast ((ucast (drop_bit 24 lba AND mask 24) OR push_bit 24 (e::u32)) AND mask 24))
   = take_bit 48 (lba::u64)"
  by (rule bit_word_eqI) (auto simp: bit_simps)

lemma io_req_lba: "lba < 2 ^ 48 \<Longrightarrow> rq_lba (io_req env t addr ns lba tag i) = lba"
proof -
  assume "lba < 2 ^ 48"
  then have "take_bit 48 lba = lba" by (intro take_bit_word_self) (simp add: word_less_nat_alt)
  then show ?thesis
    unfolding rq_lba_def io_req_def Let_def
    using lba_split [of lba "0x40" "drop_bit 8 ns AND 0xFF"] by (simp add: case_prod_beta)
qed

lemma ns_split:
  "drop_bit 24 (push_bit 24 (ns AND 0xFF)) OR push_bit 8 (drop_bit 24 (push_bit 24 (drop_bit 8 ns AND 0xFF)))
   = take_bit 16 (ns :: u32)"
proof -
  have "drop_bit 24 (push_bit 24 (ns AND mask 8)) OR push_bit 8 (drop_bit 24 (push_bit 24 (drop_bit 8 ns AND mask 8)))
    = take_bit 16 ns"
    by (rule bit_word_eqI) (auto simp: bit_simps)
  then show ?thesis by (simp add: mask_numeral)
qed

lemma lba_top: "drop_bit 24 (ucast ((x :: u64) AND mask 24) OR push_bit 24 y :: u32) = drop_bit 24 (push_bit 24 y)"
  by (rule bit_word_eqI) (auto simp: bit_simps)

lemma lba_top': "drop_bit 24 (ucast ((x :: u64) AND mask 24)) = (0 :: u32)"
  by (rule bit_word_eqI) (auto simp: bit_simps)

lemma io_req_sectors:
  assumes "0 < ns" and "ns \<le> 1024"
  shows "rq_sectors (io_req env t addr ns lba tag i) = unat ns"
proof -
  have c: "drop_bit 24 (push_bit 16 (io_cmd t)) = (0 :: u32)" by (cases t) (simp_all add: io_cmd_def)
  have "take_bit 16 ns = ns" using assms(2)
    by (intro take_bit_word_self) (simp add: word_le_nat_alt)
  moreover have "ns \<noteq> 0" using assms(1) by auto
  ultimately show ?thesis
    unfolding rq_sectors_def io_req_def Let_def
    using ns_split [of ns] c by (simp add: case_prod_beta lba_top')
qed

lemma io_req_command: "rq_command (io_req env t addr ns lba tag i) = io_cmd t"
proof -
  have "drop_bit 16 (push_bit 16 c OR push_bit 24 n) AND mask 8 = (c AND mask 8 :: u32)" for c n
    by (rule bit_word_eqI) (auto simp: bit_simps)
  then have "drop_bit 16 (push_bit 16 c OR push_bit 24 n) AND 0xFF = (c AND 0xFF :: u32)" for c n
    by (simp add: mask_numeral)
  moreover have "io_cmd t AND 0xFF = io_cmd t" by (cases t) (simp_all add: io_cmd_def)
  ultimately show ?thesis
    unfolding rq_command_def io_req_def Let_def by (simp only: case_prod_beta req.select_convs nth_Cons_0)
qed

lemma tag_word: "tag < 32 \<Longrightarrow> take_bit 5 (of_nat tag :: u32) = of_nat tag"
  by (intro take_bit_word_self) (simp add: unat_of_nat_u32)

lemma io_req_tags:
  assumes "tag < 32"
  shows "rq_tag (io_req env t addr ns lba tag i) = tag"
    and "rq_devtag (io_req env t addr ns lba tag i) = tag"
    and "rq_hosttag (io_req env t addr ns lba tag i) = tag"
    and "rq_ctl (io_req env t addr ns lba tag i) AND Rdev2mem \<noteq> 0 \<longleftrightarrow> t = Read"
    and "rq_ctl (io_req env t addr ns lba tag i) AND Rprdsingle \<noteq> 0 \<longleftrightarrow> ns \<le> 128"
proof -
  define w where "w = (of_nat tag :: u32)"
  have w: "take_bit 5 w = w" "unat w = tag"
    using assms by (simp_all add: w_def tag_word unat_of_nat_u32)
  define c where "c = (if 128 < ns then 0 else Rprdsingle)"
  define d where "d = (if t = Read then Rdev2mem else 0)"
  have ctl: "rq_ctl (io_req env t addr ns lba tag i) = c OR d OR push_bit 1 w OR push_bit 17 w"
    by (simp add: io_req_def Let_def case_prod_beta c_def d_def w_def or.assoc)
  have cd: "drop_bit 1 (c OR d) AND mask 5 = 0" "drop_bit 17 (c OR d) = 0" "c AND 1 = 0" "d AND 1 = d"
      "c AND 0x10000 = c" "d AND 0x10000 = 0"
    by (auto simp: c_def d_def mask_numeral)
  have t5: "drop_bit 1 (push_bit 1 (take_bit 5 x) OR push_bit 17 (take_bit 5 x)) AND mask 5 = take_bit 5 x"
    "drop_bit 17 (push_bit 1 (take_bit 5 x) OR push_bit 17 (take_bit 5 x)) AND mask 5 = take_bit 5 x"
    "(push_bit 1 (take_bit 5 x) OR push_bit 17 (take_bit 5 x)) AND mask 1 = 0"
    "(push_bit 1 (take_bit 5 x) OR push_bit 17 (take_bit 5 x)) AND push_bit 16 (mask 1) = 0"
    "drop_bit 3 (push_bit 3 (take_bit 5 x) AND mask 8) = take_bit 5 x" for x :: u32
    by (rule bit_word_eqI, auto simp: bit_simps simp del: push_bit_Suc One_nat_def)+
  note t5w = t5 [of w, unfolded w(1)]
  show "rq_tag (io_req env t addr ns lba tag i) = tag"
    using t5w(5) w(2) unfolding rq_tag_def io_req_def Let_def by (simp add: case_prod_beta w_def mask_numeral)
  show "rq_devtag (io_req env t addr ns lba tag i) = tag"
    using t5w(1) cd(1) w(2) unfolding rq_devtag_def ctl
    by (simp add: bit.conj_disj_distrib2 or.assoc [symmetric])
  show "rq_hosttag (io_req env t addr ns lba tag i) = tag"
    using t5w(2) cd(2) w(2) unfolding rq_hosttag_def ctl
    by (simp add: bit.conj_disj_distrib2 or.assoc [symmetric])
  show "rq_ctl (io_req env t addr ns lba tag i) AND Rdev2mem \<noteq> 0 \<longleftrightarrow> t = Read"
    using t5w(3) cd(3,4) unfolding ctl
    by (auto simp: bit.conj_disj_distrib2 or.assoc d_def mask_numeral)
  show "rq_ctl (io_req env t addr ns lba tag i) AND Rprdsingle \<noteq> 0 \<longleftrightarrow> ns \<le> 128"
    using t5w(4) cd(5,6) unfolding ctl
    by (auto simp: bit.conj_disj_distrib2 or.assoc c_def mask_numeral)
qed

lemma sectors_bytes:
  assumes "(ns :: u32) \<le> 1024"
  shows "uint (ns * 512) = 512 * int (unat ns)" and "ns * 512 = of_int (512 * int (unat ns))"
proof -
  have "unat ns \<le> 1024" using assms by (simp add: word_le_nat_alt)
  then have "unat (ns * 512) = unat ns * 512" by (simp add: unat_word_ariths)
  then have "int (unat (ns * 512)) = 512 * int (unat ns)" by simp
  then show "uint (ns * 512) = 512 * int (unat ns)" by simp
  then show "ns * 512 = of_int (512 * int (unat ns))" by (metis word_of_int_uint)
qed

text \<open>The regions of a request are its buffer, whatever is behind its table.\<close>

lemma io_req_regions:
  assumes ns: "0 < ns" "ns \<le> 1024" and tag: "tag < 32"
    and tbl: "128 < ns \<Longrightarrow> tbl = prdfill addr (uint (ns * 512)) @ rest"
    and d: "length d = 512 * unat ns" and buf: "512 * unat ns \<le> length buf" "length buf < 4294967296"
  shows "efold (dma_one addr) (scatter (req_segs (io_req env t addr ns lba tag i) tbl) d) buf
    = Inr (d @ drop (512 * unat ns) buf)"
proof (cases "128 < ns")
  case True
  have pos: "0 < unat ns" using ns(1) by (simp add: word_less_nat_alt)
  have pos': "0 < uint ns" using ns(1) by (simp add: word_less_def)
  have "req_segs (io_req env t addr ns lba tag i) tbl = prd_segs (prdfill (addr + of_nat 0) (uint (ns * 512)) @ rest)"
    using io_req_tags(5) [OF tag, of env t addr ns lba i] True tbl [OF True]
    by (simp add: req_segs_def linorder_not_le [symmetric])
  then show ?thesis
    using prdfill_scatter [of "uint (ns * 512)" 0 buf d addr rest] pos pos' d buf
    unfolding sectors_bytes(1) [OF ns(2)] by (simp add: nat_mult_distrib)
next
  case False
  then have le: "ns \<le> 128" by simp
  have n: "0 < unat ns" "unat ns \<le> 128" using ns(1) le by (simp_all add: word_less_nat_alt word_le_nat_alt)
  have n': "0 < uint ns" "uint ns \<le> 128" using ns(1) le by (simp add: word_less_def, simp add: word_le_def)
  have "rq_prdlo (io_req env t addr ns lba tag i) = addr"
    "rq_count (io_req env t addr ns lba tag i) = of_int (512 * int (unat ns)) AND 0xFFFF"
    using False by (simp_all only: io_req_def Let_def case_prod_beta req.select_convs if_False fst_conv snd_conv sectors_bytes(2) [OF ns(2)])
  then have "req_segs (io_req env t addr ns lba tag i) tbl = [(addr, 512 * unat ns)]"
    using io_req_tags(5) [OF tag, of env t addr ns lba i] le n n'
      seg_len_of_int(1) [of "512 * int (unat ns)"]
    by (simp add: req_segs_def nat_mult_distrib)
  then show ?thesis using dma_one_at [of 0 d buf addr] d buf by simp
qed

lemma io_ns_bounds:
  assumes "0 < nb" "nb mod 512 = 0" "nb < 2147483648"
  shows "0 < io_ns nb" "io_ns nb \<le> 1024" "int (unat (io_ns nb)) = min (nb div 512) 1024"
proof -
  have q: "0 < nb div 512" "nb div 512 < 4294967296" using assms by (auto simp: pos_imp_zdiv_pos_iff)
  have u: "uint (of_int (nb div 512) :: u32) = nb div 512" using q by (intro uint_of_int_u32) simp_all
  have s: "nb sdiv 512 = nb div 512" using assms by (intro sdiv_nonneg) simp_all
  have c: "1024 < (of_int (nb div 512) :: u32) \<longleftrightarrow> 1024 < nb div 512" using u by (simp add: word_less_def)
  show "int (unat (io_ns nb)) = min (nb div 512) 1024" using u c by (auto simp: io_ns_def s Let_def)
  show "0 < io_ns nb" using q u c by (auto simp: io_ns_def s Let_def word_less_def)
  show "io_ns nb \<le> 1024" using c by (auto simp: io_ns_def s Let_def)
qed

end
