(* ===== verification/Sata_Io.thy ===== *)
theory Sata_Io
  imports Sata_Req "HOL-Library.Multiset"
begin

text \<open>
  The SATA driver at work: the interrupt of a finished request, a read of the disk from end to end,
  and the pool of tags under every interleaving of requests, completions and failures.
\<close>

section \<open>The pool of tags and the rings\<close>

definition pool_ok :: "'w sata \<Rightarrow> bool" where
  "pool_ok s \<longleftrightarrow> length (sa_tags s) = 32 \<and> 0 < sa_ntags s \<and> sa_ntags s \<le> 32 \<and> sa_tagnext s < sa_ntags s \<and>
     0 \<le> sa_tagsinuse s \<and> sa_tagsinuse s \<le> int (sa_ntags s) \<and> (\<forall>i < sa_ntags s. sa_tags s ! i < 32)"

definition sata_ok :: "'w satenv \<Rightarrow> 'w sata \<Rightarrow> bool" where
  "sata_ok env s \<longleftrightarrow> pool_ok s \<and> length (sa_reqsdone s) = 32 \<and> length (sa_reqs s) = 32 \<and>
     length (sa_resps s) = 32 \<and> length (sa_prds s) = 256 \<and> sa_reqnext s < 32 \<and> \<not> sa_reqsl s \<and>
     resp_index (ed_respin (sa_sr s)) = resp_index (ed_respout (sa_sr s)) \<and>
     unat (sv_resps env) mod 256 = 0"

lemma and_mask8: "unat ((v :: u32) AND mask 8) = unat v mod 256"
  by (simp add: unsigned_take_bit_eq flip: take_bit_eq_mask) (simp add: take_bit_eq_mod)

lemma resp_index_less: "resp_index v < 32"
proof -
  have "unat (v AND mask 8) < 256" by (simp add: and_mask8)
  then show ?thesis by (simp add: resp_index_def unat_div)
qed

lemma resp_index_addr:
  assumes "unat (sv_resps env) mod 256 = 0" and "i < 32"
  shows "resp_index (resp_addr env i) = i"
proof -
  have "unat (resp_addr env i AND mask 8) = (unat (sv_resps env) + 8 * i) mod 256"
    using assms(2) unfolding and_mask8
    by (simp add: resp_addr_def unat_word_ariths unat_of_nat_u32 mod_mod_cancel)
  also have "\<dots> = 8 * i"
  proof -
    have "(unat (sv_resps env) + 8 * i) mod 256 = (unat (sv_resps env) mod 256 + 8 * i) mod 256"
      by (simp only: mod_add_left_eq)
    then show ?thesis using assms by simp
  qed
  finally show ?thesis by (simp add: resp_index_def unat_div)
qed

section \<open>The interrupt of a finished request\<close>

interpretation resp_ring: ring_index 32 "\<lambda>i. (i + 1) mod 32"
  by unfold_locales simp_all

text \<open>The loop takes every response from the one of the driver up to the one of the controller, in order.\<close>

lemma done_loop_run:
  assumes "k < 32" and "m \<le> n" and "m < 32"
  shows "done_loop env ((k + m) mod 32) n k s
    = (Inr (), fold (\<lambda>j. done_one env ((k + j) mod 32)) [0..<m] s)"
  using assms
proof (induction m arbitrary: k n s)
  case 0
  then show ?case by (cases n) simp_all
next
  case (Suc m)
  obtain n' where n: "n = Suc n'" using Suc.prems by (cases n) auto
  have ne: "(k + Suc m) mod 32 \<noteq> k"
    using Suc.prems mod_add_inj [of "Suc m" 32 0 k] by auto
  have i: "((k + 1) mod 32 + m) mod 32 = (k + Suc m) mod 32" by (simp add: mod_simps)
  have "done_loop env ((k + Suc m) mod 32) n k s
      = done_loop env ((k + Suc m) mod 32) n' ((k + 1) mod 32) (done_one env k s)"
    using ne by (simp add: n)
  also have "\<dots> = (Inr (), fold (\<lambda>j. done_one env (((k + 1) mod 32 + j) mod 32)) [0..<m] (done_one env k s))"
    using Suc.IH [of "(k + 1) mod 32" n' "done_one env k s"] Suc.prems n i by simp
  also have "(\<lambda>j. done_one env (((k + 1) mod 32 + j) mod 32)) = (\<lambda>j. done_one env ((k + Suc j) mod 32))"
    by (simp add: mod_simps)
  also have "fold (\<lambda>j. done_one env ((k + Suc j) mod 32)) [0..<m] (done_one env k s)
      = fold (\<lambda>j. done_one env ((k + j) mod 32)) [0..<Suc m] s"
    using Suc.prems by (simp add: upt_conv_Cons fold_map o_def flip: map_Suc_upt del: upt_Suc)
  finally show ?case .
qed

text \<open>What an interrupt leaves alone.\<close>

definition pool_of :: "'w sata \<Rightarrow> nat list \<times> nat \<times> int \<times> nat" where
  "pool_of s = (sa_tags s, sa_tagnext s, sa_tagsinuse s, sa_ntags s)"

definition rest_of :: "'w sata \<Rightarrow> req list \<times> prd list \<times> nat \<times> bool \<times> disk \<times> 'w" where
  "rest_of s = (sa_reqs s, sa_prds s, sa_reqnext s, sa_reqsl s, sa_disk s, sa_w s)"

lemma sataintr_done:
  assumes main: "hr_intrmain (sa_hr s) = Sata1done" and i: "hr_intr (sa_hr s) AND Idma1done \<noteq> 0"
    and k: "resp_index (ed_respout (sa_sr s)) = k" "resp_index (ed_respin (sa_sr s)) = (k + 1) mod 32"
    and al: "unat (sv_resps env) mod 256 = 0"
  shows "\<exists>t. sataintr env s = (Inr (), t) \<and> pool_of t = pool_of s \<and> rest_of t = rest_of s \<and>
    sa_reqsdone t = (sa_reqsdone s)[unat (rs_idflags (sa_resps s ! k) AND mask 5) := Rok] \<and>
    sa_resps t = sa_resps s \<and> resp_index (ed_respin (sa_sr t)) = resp_index (ed_respout (sa_sr t))"
proof -
  have k32: "k < 32" using resp_index_less k(1) by metis
  let ?s1 = "upd_hr (clear_intr (NOT Idma1done)) s"
  let ?s2 = "done_one env k ?s1"
  have loop: "done_loop env ((k + 1) mod 32) 32 k ?s1 = (Inr (), ?s2)"
    using done_loop_run [of k 1 32 env ?s1] k32 by simp
  have s2: "pool_of ?s2 = pool_of s" "rest_of ?s2 = rest_of s" "sa_resps ?s2 = sa_resps s"
    "sa_reqsdone ?s2 = (sa_reqsdone s)[unat (rs_idflags (sa_resps s ! k) AND mask 5) := Rok]"
    "resp_index (ed_respin (sa_sr ?s2)) = resp_index (ed_respout (sa_sr ?s2))"
    using k resp_index_addr [OF al, of "(k + 1) mod 32"]
    by (simp_all add: done_one_def Let_def pool_of_def rest_of_def)
  let ?t = "if hr_intr (sa_hr ?s2) AND Idevintr1 \<noteq> 0
    then (upd_hr (clear_intr (NOT Idevintr1)) ?s2)\<lparr>sa_reads := Suc (sa_reads ?s2), sa_atadone := Rok\<rparr> else ?s2"
  have "sataintr env s = (Inr (), ?t)"
    unfolding sataintr_def using main i k loop
    by (simp add: kthen_def kbind_def)
  moreover have "pool_of ?t = pool_of ?s2" "rest_of ?t = rest_of ?s2" "sa_resps ?t = sa_resps ?s2"
    "sa_reqsdone ?t = sa_reqsdone ?s2" "sa_sr ?t = sa_sr ?s2"
    by (simp_all add: pool_of_def rest_of_def)
  ultimately show ?thesis using s2 by metis
qed

section \<open>A request that the controller answers\<close>

text \<open>
  The controller answers every read with the content of the disk, in the regions of the request, and
  with a response; it finds the table of a request of more than 64 KiB in the slot.
\<close>

definition sata_hw :: "'w satenv \<Rightarrow> (int \<Rightarrow> u8) \<Rightarrow> bool" where
  "sata_hw env content \<longleftrightarrow>
     (\<forall>rq tbl a buf w. rq_command rq = 0x60 \<and> rq_ctl rq AND Rdev2mem \<noteq> 0 \<longrightarrow>
        (\<exists>w'. sv_dma env rq tbl a buf w =
           ((HwDone, scatter (req_segs rq tbl)
              (map (\<lambda>k. content (512 * uint (rq_lba rq) + int k)) [0..<512 * rq_sectors rq])), w')))"

lemma put_prds_table:
  assumes "length (sa_prds s) = 256" and "i < 32" and "length es \<le> 8"
  shows "\<exists>t rest. put_prds (8 * i) es s = (Inr (), t) \<and>
    t = s\<lparr>sa_prds := take (8 * i) (sa_prds s) @ es @ drop (8 * i + length es) (sa_prds s)\<rparr> \<and>
    length (sa_prds t) = 256 \<and> take 8 (drop (8 * i) (sa_prds t)) = es @ rest"
proof -
  have "8 * i + length es \<le> 256" using assms by simp
  then show ?thesis using assms by (simp add: put_prds_def)
qed

lemma start_edma_same:
  "pool_of (start_edma s) = pool_of s" "rest_of (start_edma s) = rest_of s"
  "sa_reqsdone (start_edma s) = sa_reqsdone s" "sa_resps (start_edma s) = sa_resps s"
  "ed_respin (sa_sr (start_edma s)) = ed_respin (sa_sr s)"
  "ed_respout (sa_sr (start_edma s)) = ed_respout (sa_sr s)"
  "ed_reqin (sa_sr (start_edma s)) = ed_reqin (sa_sr s)"
  by (simp_all add: start_edma_def pool_of_def rest_of_def)

lemma prdfill_fits:
  assumes "0 < io_ns nb" and "io_ns nb \<le> 1024"
  shows "length (prdfill addr (uint (io_ns nb * 512))) \<le> 8"
proof -
  have "0 < uint (io_ns nb)" "uint (io_ns nb) \<le> 1024"
    using assms by (simp add: word_less_def, simp add: word_le_def)
  then have "0 < uint (io_ns nb * 512)" "uint (io_ns nb * 512) \<le> 65536 * int 8"
    unfolding sectors_bytes(1) [OF assms(2)] by simp_all
  then show ?thesis by (rule prdfill_length)
qed

lemma io_submit_run:
  assumes ok: "sata_ok env s" and free: "tagfree s"
    and nb: "0 < nb" "nb mod 512 = 0" "nb < 2147483648"
  defines "tag \<equiv> sa_tags s ! sa_tagnext s" and "i \<equiv> sa_reqnext s"
  shows "\<exists>t rest. io_submit env x addr nb off s = (Inr (tag, i), t) \<and> sata_ok env t \<and>
    pool_of t = (sa_tags s, (sa_tagnext s + 1) mod sa_ntags s, sa_tagsinuse s + 1, sa_ntags s) \<and>
    sa_reqs t ! i = io_req env x addr (io_ns nb) (of_int (off sdiv 512)) tag i \<and>
    (128 < io_ns nb \<longrightarrow>
       take 8 (drop (8 * i) (sa_prds t)) = prdfill addr (uint (io_ns nb * 512)) @ rest) \<and>
    ed_reqin (sa_sr t) = sv_reqs env + 32 * of_nat ((i + 1) mod 32) \<and>
    sa_disk t = sa_disk s \<and> sa_w t = sa_w s"
proof -
  let ?ns = "io_ns nb" and ?s1 = "snd (take_slot (snd (take_tag (put_reqsl True s))))"
  let ?es = "prdfill addr (uint (?ns * 512))"
  note n = io_ns_bounds [OF nb]
  have i: "i < 32" "length (sa_prds s) = 256" "length (sa_reqs s) = 32" "length (sa_reqsdone s) = 32"
    using ok by (simp_all add: sata_ok_def i_def)
  have es: "length ?es \<le> 8" by (rule prdfill_fits [OF n(1,2)])
  let ?p = "if 128 < ?ns then take (8 * i) (sa_prds s) @ ?es @ drop (8 * i + length ?es) (sa_prds s)
    else sa_prds s"
  let ?s2 = "?s1\<lparr>sa_prds := ?p\<rparr>"
  let ?s3 = "?s2\<lparr>sa_reqs := (sa_reqs s)[i := io_req env x addr ?ns (of_int (off sdiv 512)) tag i],
    sa_reqsdone := (sa_reqsdone s)[tag := Rtimeout]\<rparr>"
  let ?s4 = "upd_sr (\<lambda>r. r\<lparr>ed_reqin := sv_reqs env + 32 * of_nat (sa_reqnext ?s3)\<rparr>) ?s3"
  let ?t = "put_reqsl False (start_edma ?s4)"
  have put: "(if 128 < ?ns then put_prds (8 * i) ?es else kret ()) ?s1 = (Inr (), ?s2)"
    using i es by (simp add: put_prds_def take_slot_def take_tag_def put_reqsl_def)
  have same: "sa_reqs ?s2 = sa_reqs s" "sa_reqsdone ?s2 = sa_reqsdone s"
    by (simp_all add: put_prds_def take_slot_def take_tag_def put_reqsl_def)
  have queue: "io_queue env x addr ?ns (of_int (off sdiv 512)) tag i ?s1 = (Inr (), start_edma ?s4)"
    unfolding io_queue_def by (subst kthen_Inr, rule put) (simp add: same)
  have queue': "kthen (io_queue env x addr ?ns (of_int (off sdiv 512)) tag i) n ?s1 = n (start_edma ?s4)"
    for n :: "('a sata, nat \<times> nat) kact"
    by (rule kthen_Inr, rule queue)
  have tags: "fst (take_tag (put_reqsl True s)) = tag" "fst (take_slot (snd (take_tag (put_reqsl True s)))) = i"
    "tagfree (put_reqsl True s)" "ilock sa_reqsl put_reqsl s = (Inr (), put_reqsl True s)"
    using ok free
    by (simp_all add: take_tag_def take_slot_def put_reqsl_def tag_def i_def tagfree_def ilock_def sata_ok_def)
  have run: "io_submit env x addr nb off s = (Inr (tag, i), ?t)"
    unfolding io_submit_def
    by (subst kthen_Inr, rule tags(4)) (simp add: tags(1-3) queue', simp add: iunlock_def kthen_def kbind_def)
  have pool: "pool_of ?t = (sa_tags s, (sa_tagnext s + 1) mod sa_ntags s, sa_tagsinuse s + 1, sa_ntags s)"
    using start_edma_same(1) [of ?s4]
    by (simp add: pool_of_def put_reqsl_def take_tag_def take_slot_def)
  have rest: "sa_reqs ?t = (sa_reqs s)[i := io_req env x addr ?ns (of_int (off sdiv 512)) tag i]"
    "sa_prds ?t = ?p" "sa_reqnext ?t = (i + 1) mod 32" "sa_disk ?t = sa_disk s" "sa_w ?t = sa_w s"
    "\<not> sa_reqsl ?t"
    using start_edma_same(2) [of ?s4]
    by (simp_all add: rest_of_def put_reqsl_def take_tag_def take_slot_def i_def)
  have regs: "sa_reqsdone ?t = (sa_reqsdone s)[tag := Rtimeout]" "sa_resps ?t = sa_resps s"
    "ed_respin (sa_sr ?t) = ed_respin (sa_sr s)" "ed_respout (sa_sr ?t) = ed_respout (sa_sr s)"
    using start_edma_same(3-6) [of ?s4]
    by (simp_all add: put_reqsl_def take_tag_def take_slot_def)
  have reqin: "ed_reqin (sa_sr ?t) = sv_reqs env + 32 * of_nat ((i + 1) mod 32)"
    using start_edma_same(7) [of ?s4] by (simp add: put_reqsl_def take_tag_def take_slot_def i_def)
  have tbl: "take 8 (drop (8 * i) (sa_prds ?t)) = ?es @ take (8 - length ?es) (drop (8 * i + length ?es) (sa_prds s))"
    if "128 < ?ns"
    unfolding rest(2) using that i es by simp
  have lp: "length ?p = 256" using i es by simp
  have "pool_ok ?t"
    using ok free pool unfolding sata_ok_def pool_ok_def tagfree_def pool_of_def by auto
  then have "sata_ok env ?t"
    using ok i unfolding sata_ok_def rest(1-3) regs lp by (simp only: rest(6) length_list_update) simp
  moreover have "sa_reqs ?t ! i = io_req env x addr ?ns (of_int (off sdiv 512)) tag i"
    unfolding rest(1) using i by simp
  ultimately show ?thesis using run pool tbl rest(4,5) reqin by blast
qed

lemma put_tag_run:
  assumes "pool_ok s" and "1 \<le> sa_tagsinuse s" and "tag < 32"
  defines "k \<equiv> nat ((int (sa_tagnext s) - sa_tagsinuse s) mod int (sa_ntags s))"
  shows "put_tag tag s = (Inr (), s\<lparr>sa_tags := (sa_tags s)[k := tag], sa_tagsinuse := sa_tagsinuse s - 1\<rparr>)"
    and "k < sa_ntags s"
    and "pool_ok (s\<lparr>sa_tags := (sa_tags s)[k := tag], sa_tagsinuse := sa_tagsinuse s - 1\<rparr>)"
proof -
  have n: "0 < sa_ntags s" "0 \<le> int (sa_tagnext s) - sa_tagsinuse s + int (sa_ntags s)"
    using assms(1) by (auto simp: pool_ok_def)
  have e: "(int (sa_tagnext s) - sa_tagsinuse s + int (sa_ntags s)) smod int (sa_ntags s)
      = (int (sa_tagnext s) - sa_tagsinuse s) mod int (sa_ntags s)"
    using n by (simp add: smod_nonneg)
  then show "put_tag tag s = (Inr (), s\<lparr>sa_tags := (sa_tags s)[k := tag], sa_tagsinuse := sa_tagsinuse s - 1\<rparr>)"
    using n(1) by (simp add: put_tag_def put_tag_store_def put_tag_count_def kthen_def kbind_def k_def not_less)
  show k: "k < sa_ntags s" using n(1) by (simp add: k_def nat_less_iff)
  show "pool_ok (s\<lparr>sa_tags := (sa_tags s)[k := tag], sa_tagsinuse := sa_tagsinuse s - 1\<rparr>)"
    using assms(1-3) k by (auto simp: pool_ok_def nth_list_update)
qed

lemma eng_slot_of:
  assumes "ed_reqin (sa_sr s) = sv_reqs env + 32 * of_nat ((i + 1) mod 32)" and "i < 32"
  shows "eng_slot env s = i"
proof -
  have "unat (32 * of_nat ((i + 1) mod 32) :: u32) = 32 * ((i + 1) mod 32)"
    by (simp add: unat_word_ariths unat_of_nat_u32)
  then show ?thesis using assms(2) by (auto simp: eng_slot_def assms(1) unat_div mod_Suc)
qed

lemma eng_table_of:
  assumes "128 < ns" and "i < 32"
  shows "eng_table env (io_req env t addr ns lba tag i) s = take 8 (drop (8 * i) (sa_prds s))"
proof -
  have "unat (128 * of_nat i :: u32) = 128 * i" using assms(2) by (simp add: unat_word_ariths unat_of_nat_u32)
  then show ?thesis using assms(1) by (simp add: eng_table_def io_req_def Let_def unat_div)
qed

lemma io_wait_run:
  assumes hw: "sata_hw env content" and ok: "sata_ok env s" and tag: "tag < 32" and i: "i < 32"
    and ns: "0 < ns" "ns \<le> 1024" and lba: "lba < 2 ^ 48"
    and rq: "sa_reqs s ! i = io_req env Read addr ns lba tag i"
    and tbl: "128 < ns \<Longrightarrow> take 8 (drop (8 * i) (sa_prds s)) = prdfill addr (uint (ns * 512)) @ rest"
    and reqin: "ed_reqin (sa_sr s) = sv_reqs env + 32 * of_nat ((i + 1) mod 32)"
    and buf: "512 * unat ns \<le> length buf" "length buf < 4294967296"
  shows "\<exists>t. io_wait env addr buf s =
      (Inr (map (\<lambda>k. content (512 * uint lba + int k)) [0..<512 * unat ns] @ drop (512 * unat ns) buf), t) \<and>
    sata_ok env t \<and> pool_of t = pool_of s \<and> sa_disk t = sa_disk s \<and> sa_reqsdone t ! tag = Rok"
proof -
  let ?rq = "io_req env Read addr ns lba tag i"
  let ?tbl = "eng_table env ?rq s"
  have tbl': "?tbl = prdfill addr (uint (ns * 512)) @ rest" if "128 < ns"
    unfolding eng_table_of [OF that i] by (rule tbl [OF that])
  let ?d = "map (\<lambda>k. content (512 * uint lba + int k)) [0..<512 * unat ns]"
  have f: "rq_command ?rq = 0x60" "rq_ctl ?rq AND Rdev2mem \<noteq> 0" "rq_lba ?rq = lba" "rq_sectors ?rq = unat ns"
    using io_req_command [of env Read addr ns lba tag i] io_req_tags(4) [OF tag, of env Read addr ns lba i]
      io_req_lba [OF lba] io_req_sectors [OF ns] by (simp_all add: io_cmd_def)
  from hw f(1,2) obtain w' where dma: "sv_dma env ?rq ?tbl addr buf (sa_w s)
      = ((HwDone, scatter (req_segs ?rq ?tbl) ?d), w')"
    using hw [unfolded sata_hw_def, THEN spec [of _ ?rq], THEN spec [of _ ?tbl], THEN spec [of _ addr],
        THEN spec [of _ buf], THEN spec [of _ "sa_w s"]]
    by (simp add: f(3,4)) blast
  let ?s1 = "s\<lparr>sa_w := w'\<rparr>" and ?k = "resp_index (ed_respin (sa_sr s))"
  let ?s2 = "post_resp tag env ?s1"
  have al: "unat (sv_resps env) mod 256 = 0" "resp_index (ed_respout (sa_sr s)) = ?k" "length (sa_resps s) = 32"
      "length (sa_reqsdone s) = 32"
    using ok by (simp_all add: sata_ok_def)
  have k: "?k < 32" by (rule resp_index_less)
  have m: "hr_intrmain (sa_hr ?s2) = Sata1done" "hr_intr (sa_hr ?s2) AND Idma1done \<noteq> 0"
    "resp_index (ed_respout (sa_sr ?s2)) = ?k" "resp_index (ed_respin (sa_sr ?s2)) = (?k + 1) mod 32"
    "pool_of ?s2 = pool_of s" "sa_reqsdone ?s2 = sa_reqsdone s"
    "unat (rs_idflags (sa_resps ?s2 ! ?k) AND mask 5) = tag" "length (sa_resps ?s2) = 32"
    "rest_of ?s2 = (sa_reqs s, sa_prds s, sa_reqnext s, sa_reqsl s, sa_disk s, w')"
    using al k resp_index_addr [OF al(1), of "(?k + 1) mod 32"] tag tag_word [OF tag]
    by (simp_all add: post_resp_def Let_def pool_of_def rest_of_def bit.conj_disj_distrib2 unat_of_nat_u32
        flip: take_bit_eq_mask)
  from sataintr_done [OF m(1-4) al(1)] obtain t where t: "sataintr env ?s2 = (Inr (), t)"
    "pool_of t = pool_of s" "rest_of t = rest_of ?s2" "sa_reqsdone t = (sa_reqsdone s)[tag := Rok]"
    "sa_resps t = sa_resps ?s2" "resp_index (ed_respin (sa_sr t)) = resp_index (ed_respout (sa_sr t))"
    unfolding m(5,6,7) by blast
  have "io_wait env addr buf s = (Inr (?d @ drop (512 * unat ns) buf), t)"
    unfolding io_wait_def
    using dma t(1) io_req_regions [OF ns tag tbl' _ buf, where d = ?d and env = env and t = Read and lba = lba and i = i]
      io_req_tags(3) [OF tag, of env Read addr ns lba i]
    by (simp add: eng_slot_of [OF reqin i] rq kthen_def kbind_def)
  moreover have "sata_ok env t"
    using ok t m(8,9) unfolding sata_ok_def pool_ok_def pool_of_def rest_of_def by simp
  moreover have "sa_disk t = sa_disk s" using t(3) m(9) by (simp add: rest_of_def)
  moreover have "sa_reqsdone t ! tag = Rok" using t(4) tag al(4) by simp
  ultimately show ?thesis using t(2) by blast
qed

text \<open>A whole request: submitted, run, finished, with its tag back in the pool.\<close>

lemma lba_of:
  assumes "0 \<le> off" "off mod 512 = 0" "off < 512 * int (unat (d :: u64))" "d < 2 ^ 48"
  shows "uint (of_int (off sdiv 512) :: u64) = off div 512" "(of_int (off sdiv 512) :: u64) < d"
    "(of_int (off sdiv 512) :: u64) < 2 ^ 48"
proof -
  have d: "uint d < 281474976710656" using assms(4) by (simp add: word_less_def)
  have q: "off sdiv 512 = off div 512" using assms(1) by (intro sdiv_nonneg) simp_all
  have b: "0 \<le> off div 512" "off div 512 < uint d" using assms by simp_all
  then show u: "uint (of_int (off sdiv 512) :: u64) = off div 512"
    using d unfolding q by (simp add: word_of_int_inverse)
  show "(of_int (off sdiv 512) :: u64) < d" using u b(2) by (simp add: word_less_def)
  show "(of_int (off sdiv 512) :: u64) < 2 ^ 48" using u b(2) d by (simp add: word_less_def)
qed

definition disk_bytes :: "(int \<Rightarrow> u8) \<Rightarrow> int \<Rightarrow> nat \<Rightarrow> u8 list" where
  "disk_bytes content off n = map (\<lambda>k. content (off + int k)) [0..<n]"

lemma disk_bytes_length [simp]: "length (disk_bytes content off n) = n"
  by (simp add: disk_bytes_def)

lemma disk_bytes_append:
  "disk_bytes content off a @ disk_bytes content (off + int a) b = disk_bytes content off (a + b)"
proof -
  have "[0..<a + b] = [0..<a] @ [a..<a + b]" by (rule upt_add_eq_append) simp
  moreover have "[a..<a + b] = map (\<lambda>k. k + a) [0..<b]"
    by (subst map_add_upt) (simp only: add.commute)
  ultimately show ?thesis by (simp add: disk_bytes_def o_def ac_simps)
qed

lemma io_read:
  assumes hw: "sata_hw env content" and ok: "sata_ok env s" and free: "tagfree s"
    and disk: "dk_valid (sa_disk s) \<noteq> 0" "dk_sectors (sa_disk s) < 2 ^ 48"
    and addr: "addr AND 1 = 0"
    and n: "0 < length buf" "512 dvd length buf" "length buf < 2147483648"
    and off: "0 \<le> off" "off mod 512 = 0" "off < 512 * int (unat (dk_sectors (sa_disk s)))"
  defines "c \<equiv> min (length buf) 524288"
  shows "\<exists>t. io env Read addr buf off s = (Inr (int c, disk_bytes content off c @ drop c buf), t) \<and>
    sata_ok env t \<and> sa_tagsinuse t = sa_tagsinuse s \<and> sa_ntags t = sa_ntags s \<and> sa_disk t = sa_disk s"
proof -
  let ?nb = "int (length buf)" and ?lba = "of_int (off sdiv 512) :: u64"
  let ?tag = "sa_tags s ! sa_tagnext s" and ?i = "sa_reqnext s"
  have "length buf mod 512 = 0" using n(2) by (simp add: mod_eq_0_iff_dvd)
  then have nb: "0 < ?nb" "?nb mod 512 = 0" "?nb < 2147483648"
    using n by (simp_all add: zmod_int [of "length buf" 512, simplified, symmetric])
  note ns = io_ns_bounds [OF nb] and lba = lba_of [OF off disk(2)]
  have c: "512 * unat (io_ns ?nb) = c"
  proof -
    have "int (512 * unat (io_ns ?nb)) = min (512 * (?nb div 512)) (512 * 1024)" using ns(3) by simp
    also have "512 * (?nb div 512) = ?nb" using nb(2) by (simp add: minus_mod_eq_mult_div [symmetric])
    finally have "int (512 * unat (io_ns ?nb)) = min (int (length buf)) (512 * 1024)" .
    then show ?thesis unfolding c_def by linarith
  qed
  have tag: "?tag < 32" "?i < 32" using ok by (simp_all add: sata_ok_def pool_ok_def)
  have "off smod 512 = 0" "?nb smod 512 = 0" using off nb by (simp_all add: smod_nonneg)
  moreover have "?lba \<noteq> dk_sectors (sa_disk s)" "\<not> dk_sectors (sa_disk s) < ?lba" using lba(2) by auto
  ultimately have chk: "io_check env addr ?nb off s = (Inr True, s)"
    using disk addr off n by (simp add: io_check_def kthen_def kbind_def Let_def)
  obtain t rest where sub: "io_submit env Read addr ?nb off s = (Inr (?tag, ?i), t)" "sata_ok env t"
    "pool_of t = (sa_tags s, (sa_tagnext s + 1) mod sa_ntags s, sa_tagsinuse s + 1, sa_ntags s)"
    "sa_reqs t ! ?i = io_req env Read addr (io_ns ?nb) ?lba ?tag ?i"
    "128 < io_ns ?nb \<longrightarrow> take 8 (drop (8 * ?i) (sa_prds t)) = prdfill addr (uint (io_ns ?nb * 512)) @ rest"
    "ed_reqin (sa_sr t) = sv_reqs env + 32 * of_nat ((?i + 1) mod 32)"
    "sa_disk t = sa_disk s"
    using io_submit_run [OF ok free nb, of Read addr off] by blast
  have buf: "512 * unat (io_ns ?nb) \<le> length buf" "length buf < 4294967296" using n(3) c by (simp_all add: c_def)
  obtain u where run: "io_wait env addr buf t
      = (Inr (map (\<lambda>k. content (512 * uint ?lba + int k)) [0..<c] @ drop c buf), u)"
    "sata_ok env u" "pool_of u = pool_of t" "sa_disk u = sa_disk t" "sa_reqsdone u ! ?tag = Rok"
    using io_wait_run [OF hw sub(2) tag ns(1,2) lba(3) sub(4) _ sub(6) buf] sub(5) unfolding c by blast
  have in_use: "1 \<le> sa_tagsinuse u" using run(3) sub(3) ok by (simp add: pool_of_def sata_ok_def pool_ok_def)
  have pool: "pool_ok u" using run(2) by (simp add: sata_ok_def)
  let ?k = "nat ((int (sa_tagnext u) - sa_tagsinuse u) mod int (sa_ntags u))"
  let ?v = "u\<lparr>sa_tags := (sa_tags u)[?k := ?tag], sa_tagsinuse := sa_tagsinuse u - 1\<rparr>"
  note put = put_tag_run [OF pool in_use tag(1)]
  have cnt: "uint (io_ns ?nb * 512) = int c"
    using sectors_bytes(1) [OF ns(2)] c by (metis of_nat_mult of_nat_numeral)
  have "io env Read addr buf off s
      = (Inr (int c, map (\<lambda>k. content (512 * uint ?lba + int k)) [0..<c] @ drop c buf), ?v)"
    unfolding io_def using chk sub(1) run(1,5) put(1) cnt
    by (simp add: io_finish_def kthen_def kbind_def)
  moreover have "512 * uint ?lba = off" using lba(1) off(2) by (simp add: minus_mod_eq_mult_div [symmetric])
  moreover have "sata_ok env ?v" using run(2) put(3) by (simp add: sata_ok_def)
  moreover have "sa_tagsinuse ?v = sa_tagsinuse s" "sa_ntags ?v = sa_ntags s" "sa_disk ?v = sa_disk s"
    using run(3,4) sub(3,7) by (simp_all add: pool_of_def)
  ultimately show ?thesis by (auto simp: disk_bytes_def)
qed

lemma data_loop_read:
  assumes hw: "sata_hw env content" and ok: "sata_ok env s" and free: "tagfree s"
    and disk: "dk_valid (sa_disk s) \<noteq> 0" "dk_sectors (sa_disk s) < 2 ^ 48"
    and addr: "addr AND 1 = 0"
    and n: "512 dvd length buf" "length buf < 2147483648" and r: "r \<le> length buf" "512 dvd r"
    and off: "0 \<le> off" "off mod 512 = 0" "off + int (length buf) \<le> 512 * int (unat (dk_sectors (sa_disk s)))"
    and k: "length buf - r < k" and got: "take r buf = disk_bytes content off r"
  shows "\<exists>t. data_loop env Read addr off k r buf s
      = (Inr (int (length buf), disk_bytes content off (length buf)), t) \<and>
    sata_ok env t \<and> sa_tagsinuse t = sa_tagsinuse s \<and> sa_disk t = sa_disk s"
  using ok free disk r k got n off(3)
proof (induction k arbitrary: r buf s)
  case 0
  then show ?case by simp
next
  case (Suc k)
  show ?case
  proof (cases "r < length buf")
    case False
    with Suc.prems show ?thesis by simp
  next
    case True
    define b where "b = drop r buf"
    define c where "c = min (length b) 524288"
    have dv: "512 dvd length b" using Suc.prems True by (simp add: b_def dvd_diff_nat)
    have b: "0 < length b" "length b < 2147483648" using True Suc.prems by (simp_all add: b_def)
    have c: "512 dvd c" "0 < c" "r + c \<le> length buf" "c \<le> length b"
      using dv b True by (auto simp: c_def b_def min_def)
    have sec: "unat (dk_sectors (sa_disk s)) < 281474976710656" using Suc.prems(4) by (simp add: word_less_nat_alt)
    have o': "i64 (off + int r) = off + int r" using off(1) Suc.prems sec True by (intro i64_id) linarith+
    have a': "(addr + of_nat r) AND 1 = 0"
    proof -
      have "even (of_nat r :: u32)" using Suc.prems(6)
        by (metis (mono_tags, opaque_lifting) dvd_trans even_of_nat even_numeral of_nat_numeral word_of_nat_eq_0_iff)
      then show ?thesis using addr by (simp add: and_one_eq even_iff_mod_2_eq_zero [symmetric])
    qed
    have m: "(off + int r) mod 512 = 0"
    proof -
      have "512 dvd off" using off(2) by (simp add: mod_eq_0_iff_dvd)
      moreover have "512 dvd int r" using Suc.prems(6) by (simp add: int_dvd_int_iff [of 512, simplified])
      ultimately show ?thesis by (simp add: mod_eq_0_iff_dvd)
    qed
    obtain t where io: "io env Read (addr + of_nat r) b (off + int r) s
        = (Inr (int c, disk_bytes content (off + int r) c @ drop c b), t)" "sata_ok env t"
      "sa_tagsinuse t = sa_tagsinuse s" "sa_ntags t = sa_ntags s" "sa_disk t = sa_disk s"
      using io_read [OF hw Suc.prems(1-4) a' b(1) dv b(2) _ m] off(1) Suc.prems True by (auto simp: c_def)
    let ?buf = "take r buf @ disk_bytes content (off + int r) c @ drop c b"
    have len: "length ?buf = length buf" using Suc.prems c by (simp add: b_def)
    have "take (r + c) ?buf = disk_bytes content off (r + c)"
      using Suc.prems by (simp add: disk_bytes_append)
    moreover have "length buf - (r + c) < k" using Suc.prems(7) c by linarith
    ultimately obtain u where "data_loop env Read addr off k (r + c) ?buf t
        = (Inr (int (length buf), disk_bytes content off (length buf)), u)"
      "sata_ok env u" "sa_tagsinuse u = sa_tagsinuse t" "sa_disk u = sa_disk t"
      using Suc.IH [of t "r + c" ?buf] io Suc.prems c unfolding len by (auto simp: tagfree_def)
    then show ?thesis using io True c by (simp add: b_def [symmetric] o' kbind_def)
  qed
qed

text \<open>
  C21: Reading the disk.  With a controller that answers, reading the data file at a sector boundary
  returns exactly the bytes of the disk, in requests of at most 512 KiB whose regions and tables the
  driver has built, whatever tags and slots they get; the tags are back in the pool, and the rings
  and the lock are as the next request needs them.
\<close>

theorem sata_read:
  assumes "sata_hw env content" and "sata_ok env s" and "tagfree s"
    and "dk_valid (sa_disk s) \<noteq> 0" and "dk_sectors (sa_disk s) < 2 ^ 48"
    and "addr AND 1 = 0" and "512 dvd length buf" and "length buf < 2147483648"
    and "0 \<le> off" and "off mod 512 = 0"
    and "off + int (length buf) \<le> 512 * int (unat (dk_sectors (sa_disk s)))" and "sv_iseve env"
  shows "\<exists>t. sataread env Qdata addr buf off s
      = (Inr (int (length buf), map (\<lambda>k. content (off + int k)) [0..<length buf]), t) \<and>
    sata_ok env t \<and> sa_tagsinuse t = sa_tagsinuse s"
proof -
  have "take 0 buf = disk_bytes content off 0" by (simp add: disk_bytes_def)
  with data_loop_read [OF assms(1-8) _ _ assms(9-11), of 0 "Suc (length buf)"] obtain t where
    "data_loop env Read addr off (Suc (length buf)) 0 buf s
       = (Inr (int (length buf), disk_bytes content off (length buf)), t)"
    "sata_ok env t" "sa_tagsinuse t = sa_tagsinuse s" by auto
  then show ?thesis using assms(12) by (simp add: sataread_def disk_bytes_def)
qed

section \<open>The life of the tags\<close>


definition free_tags :: "'w sata \<Rightarrow> nat list" where
  "free_tags s = map (\<lambda>k. sa_tags s ! ((sa_tagnext s + k) mod sa_ntags s)) [0..<sa_ntags s - nat (sa_tagsinuse s)]"




lemma start_edma_pool [simp]:
  "sa_tags (start_edma s) = sa_tags s" "sa_tagnext (start_edma s) = sa_tagnext s"
  "sa_tagsinuse (start_edma s) = sa_tagsinuse s" "sa_ntags (start_edma s) = sa_ntags s"
  by (simp_all add: start_edma_def)

lemma io_queue_pool: "io_queue env t addr ns lba tag i s = (Inr u, s') \<Longrightarrow> pool_of s' = pool_of s"
  by (auto simp: io_queue_def kact_Inr_iff put_prds_def pool_of_def split: if_splits)

lemma io_submit_pool:
  assumes "io_submit env t addr nb off s = (Inr (tag, i), s')"
  shows "tagfree s \<and> tag = sa_tags s ! sa_tagnext s \<and>
    pool_of s' = (sa_tags s, (sa_tagnext s + 1) mod sa_ntags s, sa_tagsinuse s + 1, sa_ntags s)"
  using assms unfolding io_submit_def
  by (auto simp: kact_Inr_iff ilock_def iunlock_def put_reqsl_def tagfree_def take_tag_def take_slot_def
      pool_of_def dest!: io_queue_pool split: if_splits)






text \<open>A reset makes the pool one free tag, the tag 0.\<close>

lemma satainit_pool:
  assumes "satainit env s = (Inr (), s')"
  shows "pool_of s' = ((sa_tags s)[0 := 0], 0, 0, 1) \<and> sa_reqsl s' = sa_reqsl s"
  using assms
  by (auto simp: satainit_def satakick_def with_ilock_def kact_Inr_iff init_tags_def pool_of_def ilock_def
      iunlock_def put_startil_def split: if_splits)








text \<open>
  What the run above leaves out.  A reset does not wait for the requests under way: it empties the pool's
  count, so the tag 0 is handed out again, whoever has it, and a request of before the reset that
  finishes when no other is under way makes the count negative, after which nobody can claim the
  controller.
\<close>

lemma reset_under_way:
  assumes "pool_ok s" and "satainit env s = (Inr (), s')"
  shows "io_submit env t addr nb off s' = (Inr (tag, i), s'') \<Longrightarrow> tag = 0"
    and "sa_reqsdone s' ! old = Rok \<Longrightarrow>
      \<exists>u. io_finish old s' = (Inr (), u) \<and> sa_tagsinuse u = - 1 \<and> fst (sataclaim u) = Inl Blocked"
proof -
  have p: "pool_of s' = ((sa_tags s)[0 := 0], 0, 0, 1)" using satainit_pool [OF assms(2)] by simp
  show "tag = 0" if "io_submit env t addr nb off s' = (Inr (tag, i), s'')"
    using io_submit_pool [OF that] p assms(1) by (auto simp: pool_of_def pool_ok_def)
  show "\<exists>u. io_finish old s' = (Inr (), u) \<and> sa_tagsinuse u = - 1 \<and> fst (sataclaim u) = Inl Blocked"
    if "sa_reqsdone s' ! old = Rok"
    using that p
    by (simp add: io_finish_def put_tag_def put_tag_store_def put_tag_count_def kthen_def kbind_def pool_of_def
        sataclaim_def ilock_def tagsidle_def put_reqsl_def smod_nonneg)
qed

text \<open>
  The registers of the ring of requests go to its start, but the place of the next request stays, so a
  controller that starts at \<open>ed_reqout\<close> would run the requests of before the reset again.
\<close>

lemma reset_ring:
  "satainit env s = (Inr (), s') \<Longrightarrow>
   ed_reqin (sa_sr s') = 0 \<and> ed_reqout (sa_sr s') = 0 \<and> sa_reqnext s' = sa_reqnext s \<and> sa_reqs s' = sa_reqs s"
  by (auto simp: satainit_def satakick_def with_ilock_def kact_Inr_iff init_tags_def ilock_def
      iunlock_def put_startil_def split: if_splits)

text \<open>
  Nor is a tag given back under a lock.  Two requests that finish and both store their tag before either
  lowers the count store it in the same place: the first tag is gone.  In the example, of four tags the
  requests 0 and 1 finish so, and the pool then has the tag 1 twice.
\<close>

lemma put_tag_race:
  assumes "pool_ok s" and "2 \<le> sa_tagsinuse s"
  defines "k \<equiv> nat ((int (sa_tagnext s) - sa_tagsinuse s) mod int (sa_ntags s))"
  shows "kthen (put_tag_store a) (kthen (put_tag_store b) (kthen put_tag_count put_tag_count)) s
    = (Inr (), s\<lparr>sa_tags := (sa_tags s)[k := b], sa_tagsinuse := sa_tagsinuse s - 2\<rparr>)"
proof -
  have n: "0 < sa_ntags s" "0 \<le> int (sa_tagnext s) - sa_tagsinuse s + int (sa_ntags s)"
    using assms(1) by (auto simp: pool_ok_def)
  have "(int (sa_tagnext s) - sa_tagsinuse s + int (sa_ntags s)) smod int (sa_ntags s)
      = (int (sa_tagnext s) - sa_tagsinuse s) mod int (sa_ntags s)"
    using n by (simp add: smod_nonneg)
  then show ?thesis
    using n(1) by (simp add: put_tag_store_def put_tag_count_def kthen_def kbind_def k_def not_less)
qed

lemma put_tag_race_example:
  assumes "pool_of s = ([0, 1, 2, 3] @ rest, 2, 2, 4)"
  shows "free_tags (snd (kthen (put_tag_store 0) (kthen (put_tag_store 1)
      (kthen put_tag_count put_tag_count)) s)) = [2, 3, 1, 1]"
  using assms
  by (simp add: put_tag_store_def put_tag_count_def kthen_def kbind_def pool_of_def free_tags_def upt_conv_Cons
      smod_nonneg)

text \<open>A disk that is identified leaves the place of the next tag where it was, among its tags or not.\<close>

lemma identify_tagnext:
  assumes "sa_ntags (id_tags buf s) \<le> sa_tagnext s" and "sa_tagnext s < length (sa_tags s)"
  shows "fst (take_tag (id_tags buf s)) = sa_tags s ! sa_tagnext s"
  using assms by (simp add: take_tag_def id_tags_def Let_def nth_append del: upt_Suc)

text \<open>
  C24: A request says what it means.  For any number of sectors up to 1024 at any 48-bit address, the
  command block decodes to the command, the address, the number of sectors and the tag, the control
  word carries the tag for both sides and the direction, and a transfer to the regions of the
  request, with the table as the driver built it, fills the buffer from its start and nothing else.
\<close>

theorem io_req_reads_back:
  assumes "0 < ns" and "ns \<le> 1024" and "lba < 2 ^ 48" and "tag < 32"
    and "128 < ns \<Longrightarrow> tbl = prdfill addr (uint (ns * 512)) @ rest"
    and "length d = 512 * unat ns" and "512 * unat ns \<le> length buf" and "length buf < 4294967296"
    and "rq = io_req env t addr ns lba tag i"
  shows "rq_command rq = io_cmd t \<and> rq_lba rq = lba \<and> rq_sectors rq = unat ns \<and> rq_tag rq = tag \<and>
    rq_devtag rq = tag \<and> rq_hosttag rq = tag \<and> (rq_ctl rq AND Rdev2mem \<noteq> 0 \<longleftrightarrow> t = Read) \<and>
    efold (dma_one addr) (scatter (req_segs rq tbl) d) buf = Inr (d @ drop (512 * unat ns) buf)"
  unfolding assms(9)
  using io_req_command [of env t addr ns lba tag i] io_req_lba [OF assms(3), of env t addr ns tag i]
    io_req_sectors [OF assms(1,2), of env t addr lba tag i]
    io_req_tags(1-4) [OF assms(4), of env t addr ns lba i]
    io_req_regions [OF assms(1,2,4,5,6,7,8), of env t lba i]
  by blast

section \<open>Samples\<close>

definition sata_sample_env :: "unit satenv" where
  "sata_sample_env = \<lparr>
     sv_dma = (\<lambda>rq tbl a buf w.
       ((HwDone, scatter (req_segs rq tbl) (map (\<lambda>k. 7) [0..<512 * rq_sectors rq])), w)),
     sv_ata = (\<lambda>a d w. ((Rok, replicate 256 0), w)), sv_status = (\<lambda>_. Adrdy), sv_fuel = 4,
     sv_reqs = 0x1000, sv_resps = 0x2000, sv_prds = 0x3000, sv_memok = True, sv_clockfreq = 166000000,
     sv_iseve = True, sv_eve = ''eve'', sv_parsecmd = (\<lambda>b. Inr []), sv_flushstat = (\<lambda>b. (1, True))\<rparr>"

definition sata_sample :: "unit sata" where
  "sata_sample = \<lparr>sa_tags = [0..<32], sa_tagnext = 0, sa_tagsinuse = 0, sa_ntags = 4,
     sa_reqsdone = replicate 32 Rok, sa_reqsl = False, sa_atadone = Rok, sa_ataregs = 0,
     sa_serrorintrs = 0, sa_reqs = replicate 32 blank_req,
     sa_resps = replicate 32 \<lparr>rs_idflags = 0, rs_ts = 0\<rparr>,
     sa_prds = replicate 256 \<lparr>pr_addrlo = 0, pr_flagcount = 0, pr_addrhi = 0\<rparr>, sa_reqnext = 0,
     sa_respnext = 0,
     sa_disk = \<lparr>dk_valid = 1, dk_serial = replicate 21 0, dk_firmware = replicate 9 0,
       dk_model = replicate 41 0, dk_sectors = 1048576\<rparr>,
     sa_startil = False, sa_start = 0, sa_procs = 1, sa_length = 0, sa_debug = 0,
     sa_hr = \<lparr>hr_cfg = 0, hr_intrcoalesc = 0, hr_intrtime = 0, hr_intr = 0, hr_intrmain = 0,
       hr_intrmainena = 0\<rparr>,
     sa_sr = \<lparr>ed_cfg = 0, ed_intre = 0, ed_intreena = 0, ed_reqbasehi = 0, ed_reqin = 0, ed_reqout = 0,
       ed_respbasehi = 0, ed_respin = 0x2000, ed_respout = 0x2000, ed_cmd = 0, ed_iordytimeout = 0,
       ed_cmddelaythr = 0, if_ifccfg = 0, if_sstatus = 0, if_serror = 0, if_scontrol = 0, if_phym3 = 0,
       if_phym4 = 0, if_serrintrena = 0, if_fiscfg = 0, if_fisintr = 0, if_fisintrena = 0,
       if_phym9g2 = 0, if_phym9g1 = 0\<rparr>,
     sa_at = \<lparr>at_feat = 0, at_sectors = 0, at_lbalow = 0, at_lbamid = 0, at_lbahigh = 0, at_dev = 0,
       at_cmd = 0, at_out = []\<rparr>,
     sa_mempm = 0, sa_clockgate = 0, sa_reads = 0, sa_w = ()\<rparr>"

lemma sata_sample_hw: "sata_hw sata_sample_env (\<lambda>_. 7)"
  by (simp add: sata_hw_def sata_sample_env_def)

lemma sata_sample_ok: "sata_ok sata_sample_env sata_sample" "tagfree sata_sample" "pool_ok sata_sample"
proof -
  show p: "pool_ok sata_sample" by (simp add: pool_ok_def sata_sample_def)
  then show "sata_ok sata_sample_env sata_sample" by (simp add: sata_ok_def sata_sample_def sata_sample_env_def)
  show "tagfree sata_sample" by (simp add: tagfree_def sata_sample_def)
qed

theorem sata_read_witness:
  "fst (sataread sata_sample_env Qdata 0x10000 (replicate 1024 0) 512 sata_sample) = Inr (1024, replicate 1024 7)"
proof -
  have "\<exists>t. sataread sata_sample_env Qdata 0x10000 (replicate 1024 0) 512 sata_sample
      = (Inr (int (length (replicate 1024 (0 :: u8))), map (\<lambda>k. 7) [0..<length (replicate 1024 (0 :: u8))]), t) \<and>
    sata_ok sata_sample_env t \<and> sa_tagsinuse t = sa_tagsinuse sata_sample"
    by (rule sata_read [OF sata_sample_hw sata_sample_ok(1,2)])
      (simp_all add: sata_sample_def sata_sample_env_def)
  then show ?thesis by (auto simp: map_replicate_const)
qed

theorem io_req_reads_back_witness:
  "rq_lba (io_req sata_sample_env Write 0x10000 1024 0x123456789ABC 17 3) = 0x123456789ABC \<and>
   rq_sectors (io_req sata_sample_env Write 0x10000 1024 0x123456789ABC 17 3) = 1024"
proof -
  define rq where "rq = io_req sata_sample_env Write 0x10000 1024 0x123456789ABC 17 3"
  show ?thesis
    using io_req_reads_back [where ns = 1024 and lba = "0x123456789ABC" and tag = 17 and rest = "[]"
        and tbl = "prdfill 0x10000 (uint (1024 * 512 :: u32)) @ []" and addr = "0x10000"
        and d = "replicate 524288 0" and buf = "replicate 524288 0" and env = sata_sample_env and t = Write
        and i = 3 and rq = rq]
    by (simp add: rq_def)
qed




end
