(* ===== verification/Kirkwood.thy ===== *)
theory Kirkwood
  imports Ether
begin

text \<open>
  \<open>etherkirkwood.c\<close>: the driver of the 88E1116 gigabit ethernet controller, below \<open>devether.c\<close>.
  The state holds the controller's two descriptor rings, the blocks that belong to the descriptors,
  the pool of receive buffers that all controllers share, the registers, the counters, and the
  generic interface (\<open>ether\<close>) that received frames are passed to.  Cache maintenance has no effect
  in the model, a busy register is read through an oracle, and the block allocator, the queues and
  the generic MII code are parameters.  A call of \<open>receive\<close> is one step: the controller finishes descriptors
  before it or after it.  A receive buffer is the identity of its block; the memory of two blocks is taken
  not to overlap, as the allocator promises.
\<close>

section \<open>Constants\<close>

abbreviation Nrx :: nat where "Nrx \<equiv> 512"
abbreviation Ntx :: nat where "Ntx \<equiv> 512"
abbreviation Rxblocklen :: int where "Rxblocklen \<equiv> 1524"
abbreviation Nrxblocks :: nat where "Nrxblocks \<equiv> 562"

abbreviation PCFGupromiscuous :: u32 where "PCFGupromiscuous \<equiv> 0x1"
abbreviation PSC0mrumask :: u32 where "PSC0mrumask \<equiv> 0xE0000"
abbreviation PSC0mru1522 :: u32 where "PSC0mru1522 \<equiv> 0x20000"
abbreviation PSC0portenable :: u32 where "PSC0portenable \<equiv> 0x1"
abbreviation PS0linkup :: u32 where "PS0linkup \<equiv> 0x2"
abbreviation PS0fullduplex :: u32 where "PS0fullduplex \<equiv> 0x4"
abbreviation PS0flowcontrol :: u32 where "PS0flowcontrol \<equiv> 0x8"
abbreviation PSC1rgmii :: u32 where "PSC1rgmii \<equiv> 0x8"
abbreviation PSC1portreset :: u32 where "PSC1portreset \<equiv> 0x10"
abbreviation PS1autonegdone :: u32 where "PS1autonegdone \<equiv> 0x10"
abbreviation Irxbufferq0 :: u32 where "Irxbufferq0 \<equiv> 0x4"
abbreviation IEtxbufferq0 :: u32 where "IEtxbufferq0 \<equiv> 0x1"
abbreviation IEtxerrorq0 :: u32 where "IEtxerrorq0 \<equiv> 0x100"
abbreviation IEphystatuschange :: u32 where "IEphystatuschange \<equiv> 0x10000"
abbreviation IErxoverrun :: u32 where "IErxoverrun \<equiv> 0x40000"
abbreviation IEtxunderrun :: u32 where "IEtxunderrun \<equiv> 0x80000"
abbreviation IEsum :: u32 where "IEsum \<equiv> 0x80000000"
abbreviation RCSmacerr :: u32 where "RCSmacerr \<equiv> 0x1"
abbreviation RCSlast :: u32 where "RCSlast \<equiv> 0x4000000"
abbreviation RCSfirst :: u32 where "RCSfirst \<equiv> 0x8000000"
abbreviation RCSenableintr :: u32 where "RCSenableintr \<equiv> 0x20000000"
abbreviation RCSdmaown :: u32 where "RCSdmaown \<equiv> 0x80000000"
abbreviation TCSpadding :: u32 where "TCSpadding \<equiv> 0x80000"
abbreviation TCSlast :: u32 where "TCSlast \<equiv> 0x100000"
abbreviation TCSfirst :: u32 where "TCSfirst \<equiv> 0x200000"
abbreviation TCSenableintr :: u32 where "TCSenableintr \<equiv> 0x800000"
abbreviation TCSdmaown :: u32 where "TCSdmaown \<equiv> 0x80000000"

definition Bufsize :: "u32 \<Rightarrow> u32" where "Bufsize v = push_bit 3 v"

definition SDCrxburst :: "u32 \<Rightarrow> u32" where "SDCrxburst v = push_bit 1 v"
definition SDCtxburst :: "u32 \<Rightarrow> u32" where "SDCtxburst v = push_bit 22 v"

definition SDCipgintrx :: "u32 \<Rightarrow> u32" where
  "SDCipgintrx v = push_bit 25 (drop_bit 15 v AND 1) OR push_bit 7 (v AND mask 15)"

definition TFUTipginttx :: "u32 \<Rightarrow> u32" where "TFUTipginttx v = push_bit 4 (v AND mask 16)"

definition PSC1coldomainlimit :: "u32 \<Rightarrow> u32" where
  "PSC1coldomainlimit v = push_bit 16 (v AND mask 6)"

definition NEXT :: "nat \<Rightarrow> nat \<Rightarrow> nat" where
  "NEXT x l = (x + 1) mod l"

interpretation rxring: ring_index Nrx "\<lambda>i. NEXT i Nrx"
  by unfold_locales (simp_all add: NEXT_def)

interpretation txring: ring_index Ntx "\<lambda>i. NEXT i Ntx"
  by unfold_locales (simp_all add: NEXT_def)

section \<open>State\<close>

record rxd =
  rx_cs :: u32
  rx_countsize :: u32
  rx_buf :: u32
  rx_next :: u32

record txd =
  tx_cs :: u32
  tx_countchk :: u32
  tx_buf :: u32
  tx_next :: u32

text \<open>A block: the pointers of \<open>Block\<close>, and whether its \<open>free\<close> is \<open>rxfreeb\<close>.\<close>

record blk =
  b_rp :: u32
  b_wp :: u32
  b_lim :: u32
  b_rxfree :: bool

text \<open>The statistics the controller counts, each a 32-bit register that is cleared by a read.\<close>

datatype mib =
    Badrxoctets | Mactxerror | Rxframes | Badrxframes | Rxbroadcastframes | Rxmulticastframes
  | Rxframe64 | Rxframe65to127 | Rxframe128to255 | Rxframe256to511 | Rxframe512to1023
  | Rxframe1024tomax | Txframes | Txcollisionframedrop | Txmulticastframes | Txbroadcastframes
  | Badmaccontrolframes | Txflowcontrol | Rxflowcontrol | Badrxflowcontrol | Rxundersized
  | Rxfragments | Rxoversized | Rxjabber | Rxerrors | Crcerrors | Collisions | Latecollisions

record gbereg =
  g_phy :: u32
  g_smi :: u32
  g_portcfg :: u32
  g_portcfgx :: u32
  g_macal :: u32
  g_macah :: u32
  g_sdc :: u32
  g_psc0 :: u32
  g_ps0 :: u32
  g_tqc :: u32
  g_psc1 :: u32
  g_ps1 :: u32
  g_irq :: u32
  g_irqe :: u32
  g_irqmask :: u32
  g_irqemask :: u32
  g_euirq :: u32
  g_euirqmask :: u32
  g_pxtfut :: u32
  g_pxmfs :: u32
  g_pxdfc :: u32
  g_pxofc :: u32
  g_pmtu :: u32
  g_crdp0 :: u32
  g_rqc :: u32
  g_tcqdp0 :: u32
  g_rxoctetslo :: u32
  g_txoctetslo :: u32
  g_mib :: "mib \<Rightarrow> u32"
  g_dfut :: "u32 list"

record 'q kw =
  kw_ether :: "'q ether"
  kw_link :: bool
  kw_oerrs :: nat
  kw_overflows :: nat
  kw_lock :: bool
  kw_initlock :: bool
  kw_poollock :: bool
  kw_reg :: gbereg
  kw_init :: bool
  kw_port :: nat
  kw_rx :: "rxd list"
  kw_rxb :: "nat option list"
  kw_rxhead :: nat
  kw_rxtail :: nat
  kw_tx :: "txd list"
  kw_txb :: "nat option list"
  kw_txhead :: nat
  kw_txtail :: nat
  kw_free :: "nat list"               \<comment> \<open>the list from \<open>freeblocks.head\<close>\<close>
  kw_freeinit :: bool
  kw_blks :: "nat \<Rightarrow> blk"
  kw_mem :: "u32 \<Rightarrow> u8"
  kw_linkchange :: bool
  kw_speed :: int
  kw_intrs :: u32
  kw_newintrs :: u32
  kw_txunderrun :: u32
  kw_txringfull :: u32
  kw_rxdiscard :: u32
  kw_rxoverrun :: u32
  kw_nofirstlast :: u32
  kw_rxoctets :: u64
  kw_txoctets :: u64
  kw_mib :: "mib \<Rightarrow> u32"
  kw_reads :: nat                      \<comment> \<open>reads of busy registers so far\<close>
  kw_allocs :: nat                     \<comment> \<open>calls of \<open>iallocb\<close> so far\<close>

datatype busyreg = Rsmi | Rtqc | Rrqc

text \<open>
  \<open>kn_rd r n v\<close> is what the n-th read of a busy register returns when \<open>v\<close> was written last.
\<close>

record 'q kwenv =
  kn_net :: "'q netenv"
  kn_stale :: "u8 list"
  kn_qcanread :: "'q \<Rightarrow> bool"
  kn_qget :: "'q \<Rightarrow> nat \<times> 'q"
  kn_freeb :: "nat option \<Rightarrow> ('q kw, unit) kact"
  kn_iallocb :: "nat \<Rightarrow> int \<Rightarrow> (nat \<times> blk) option"
  kn_rxring :: "u32 option"            \<comment> \<open>\<open>xspanalloc\<close> of the receive ring\<close>
  kn_txring :: "u32 option"
  kn_rd :: "busyreg \<Rightarrow> nat \<Rightarrow> u32 \<Rightarrow> u32"
  kn_parsecmd :: "u8 list \<Rightarrow> exn + string list"
  kn_memok :: bool
  kn_mii :: "('q kw, int option) kact"     \<comment> \<open>\<open>mii()\<close>: the number of the phy found\<close>
  kn_miistatus :: "('q kw, int) kact"
  kn_miireset :: "('q kw, unit) kact"
  kn_miiane :: "('q kw, int) kact"
  kn_Bmsr :: int
  kn_BmsrLs :: u32
  kn_BmsrAnc :: u32
  kn_fuel :: nat

abbreviation upd_reg :: "(gbereg \<Rightarrow> gbereg) \<Rightarrow> 'q kw \<Rightarrow> 'q kw" where
  "upd_reg f s \<equiv> s\<lparr>kw_reg := f (kw_reg s)\<rparr>"

definition put_kwlock :: "bool \<Rightarrow> 'q kw \<Rightarrow> 'q kw" where "put_kwlock x s = s\<lparr>kw_lock := x\<rparr>"
definition put_initlock :: "bool \<Rightarrow> 'q kw \<Rightarrow> 'q kw" where "put_initlock x s = s\<lparr>kw_initlock := x\<rparr>"
definition put_poollock :: "bool \<Rightarrow> 'q kw \<Rightarrow> 'q kw" where "put_poollock x s = s\<lparr>kw_poollock := x\<rparr>"

section \<open>The pool of receive buffers\<close>

definition rxallocb :: "('q kw, nat option) kact" where
  "rxallocb =
     with_ilock kw_poollock put_poollock
       (kbind (kget kw_free) (\<lambda>l.
        case l of
          [] \<Rightarrow> kret None
        | b # bs \<Rightarrow> kthen (kmod (\<lambda>s. s\<lparr>kw_free := bs\<rparr>)) (kret (Some b))))"

text \<open>The pointers of a block that goes back to the pool: the aligned start of its last bytes.\<close>

definition rx_reset :: "blk \<Rightarrow> blk" where
  "rx_reset b = (let rp = (b_lim b - of_int Rxblocklen) AND NOT 7 in b\<lparr>b_rp := rp, b_wp := rp\<rparr>)"

definition rxfreeb :: "nat \<Rightarrow> ('q kw, unit) kact" where
  "rxfreeb b =
     with_ilock kw_poollock put_poollock
       (kmod (\<lambda>s. s\<lparr>kw_blks := (kw_blks s)(b := rx_reset (kw_blks s b)), kw_free := b # kw_free s\<rparr>))"

section \<open>Receiving\<close>

definition rx_arm :: "nat \<Rightarrow> 'q kw \<Rightarrow> 'q kw" where
  "rx_arm b s =
     (let i = kw_rxtail s; r = kw_rx s ! i in
      s\<lparr>kw_rxb := (kw_rxb s)[i := Some b],
        kw_rx := (kw_rx s)[i := r\<lparr>rx_countsize := Bufsize (of_int Rxblocklen),
                                  rx_buf := b_rp (kw_blks s b),
                                  rx_cs := RCSdmaown OR RCSenableintr\<rparr>],
        kw_rxtail := NEXT i Nrx\<rparr>)"

text \<open>
  Every round of the loop arms one descriptor with a block of the pool, so \<open>n\<close> rounds are enough when
  the pool has fewer than \<open>n\<close> blocks.
\<close>

primrec rxreplenish_loop :: "nat \<Rightarrow> ('q kw, unit) kact" where
  "rxreplenish_loop 0 = kraise Fuel"
| "rxreplenish_loop (Suc n) =
     kbind (kget (\<lambda>s. kw_rxb s ! kw_rxtail s)) (\<lambda>x.
     if x \<noteq> None then kret ()
     else
       kbind rxallocb (\<lambda>b.
       case b of None \<Rightarrow> kret () | Some b \<Rightarrow> kthen (kmod (rx_arm b)) (rxreplenish_loop n)))"

definition rxreplenish :: "('q kw, unit) kact" where
  "rxreplenish s = rxreplenish_loop (Suc (length (kw_free s))) s"

definition blen :: "blk \<Rightarrow> int" where "blen b = sint (b_wp b - b_rp b)"

definition blk_bytes :: "'q kw \<Rightarrow> nat \<Rightarrow> u8 list" where
  "blk_bytes s b =
     map (\<lambda>k. kw_mem s (b_rp (kw_blks s b) + of_nat k)) [0..<nat (blen (kw_blks s b))]"

text \<open>
  \<open>etheriq(e, b, 1)\<close>: the bytes of the block go to the interface.  The block is the network code's from
  then on, and comes back through \<open>freeb\<close> when the connection that got it has read it.
\<close>

definition pass_up :: "'q kwenv \<Rightarrow> nat \<Rightarrow> ('q kw, unit) kact" where
  "pass_up env b = kmod (\<lambda>s. s\<lparr>kw_ether :=
     snd (etheriq (kn_net env) (kn_stale env) (blk_bytes s b) True (kw_ether s))\<rparr>)"

definition rx_frame :: "nat \<Rightarrow> u32 \<Rightarrow> 'q kw \<Rightarrow> 'q kw" where
  "rx_frame b countsize s =
     (let k = kw_blks s b in
      s\<lparr>kw_blks := (kw_blks s)(b := k\<lparr>b_wp := b_rp k + drop_bit 16 countsize, b_rp := b_rp k + 2\<rparr>)\<rparr>)"

text \<open>Take the descriptor at the head out of the ring.\<close>

definition rx_take :: "'q kw \<Rightarrow> 'q kw" where
  "rx_take s = s\<lparr>kw_rxb := (kw_rxb s)[kw_rxhead s := None], kw_rxhead := NEXT (kw_rxhead s) Nrx\<rparr>"

text \<open>What becomes of the block of a descriptor that the controller has released.\<close>

definition rx_one :: "'q kwenv \<Rightarrow> rxd \<Rightarrow> nat option \<Rightarrow> ('q kw, unit) kact" where
  "rx_one env r b =
     (if rx_cs r AND RCSmacerr \<noteq> 0 then kn_freeb env b
      else if rx_cs r AND (RCSfirst OR RCSlast) \<noteq> RCSfirst OR RCSlast then
        kthen (kmod (\<lambda>s. s\<lparr>kw_nofirstlast := kw_nofirstlast s + 1\<rparr>)) (kn_freeb env b)
      else
        (case b of
           None \<Rightarrow> kraise (Fault ''b->wp'')
         | Some b \<Rightarrow> kthen (kmod (rx_frame b (rx_countsize r))) (pass_up env b)))"

primrec receive_loop :: "'q kwenv \<Rightarrow> nat \<Rightarrow> ('q kw, unit) kact" where
  "receive_loop env 0 = kraise Fuel"
| "receive_loop env (Suc n) =
     kbind (kget (\<lambda>s. (kw_rx s ! kw_rxhead s, kw_rxb s ! kw_rxhead s))) (\<lambda>(r, b).
     if rx_cs r AND RCSdmaown \<noteq> 0 then kret ()
     else kthen (kmod rx_take) (kthen (rx_one env r b) (receive_loop env n)))"

definition receive :: "'q kwenv \<Rightarrow> ('q kw, unit) kact" where
  "receive env = kthen (receive_loop env (kn_fuel env)) rxreplenish"

section \<open>Transmitting\<close>

definition tx_take :: "'q kw \<Rightarrow> 'q kw" where
  "tx_take s = s\<lparr>kw_txb := (kw_txb s)[kw_txtail s := None], kw_txtail := NEXT (kw_txtail s) Ntx\<rparr>"

text \<open>The loop that frees transmitted packets, with the condition of the code.\<close>

primrec tx_reclaim :: "'q kwenv \<Rightarrow> nat \<Rightarrow> ('q kw, unit) kact" where
  "tx_reclaim env 0 = kraise Fuel"
| "tx_reclaim env (Suc n) =
     kbind (kget (\<lambda>s. s)) (\<lambda>s.
     if kw_txtail s = kw_txhead s then kret ()
     else if tx_cs (kw_tx s ! kw_txtail s) AND TCSdmaown = 0 then kret ()
     else if kw_txb s ! kw_txtail s = None then kraise (Panic ''no block for sent packet?!'')
     else kthen (kn_freeb env (kw_txb s ! kw_txtail s)) (kthen (kmod tx_take) (tx_reclaim env n)))"

definition tx_arm :: "nat \<Rightarrow> 'q kw \<Rightarrow> 'q kw" where
  "tx_arm b s =
     (let i = kw_txhead s; t = kw_tx s ! i; k = kw_blks s b in
      s\<lparr>kw_txb := (kw_txb s)[i := Some b],
        kw_tx := (kw_tx s)[i := t\<lparr>tx_countchk := push_bit 16 (of_int (blen k)), tx_buf := b_rp k,
          tx_cs := TCSpadding OR TCSfirst OR TCSlast OR TCSenableintr OR TCSdmaown\<rparr>],
        kw_reg := (kw_reg s)\<lparr>g_tqc := 1\<rparr>,
        kw_txhead := NEXT i Ntx\<rparr>)"

primrec tx_queue :: "'q kwenv \<Rightarrow> nat \<Rightarrow> ('q kw, unit) kact" where
  "tx_queue env 0 = kraise Fuel"
| "tx_queue env (Suc n) =
     kbind (kget (\<lambda>s. s)) (\<lambda>s.
     if \<not> kn_qcanread env (e_oq (kw_ether s)) then kret ()
     else if tx_cs (kw_tx s ! kw_txhead s) AND TCSdmaown \<noteq> 0 then
       kmod (\<lambda>s. s\<lparr>kw_txringfull := kw_txringfull s + 1\<rparr>)
     else
       (case kn_qget env (e_oq (kw_ether s)) of (b, q) \<Rightarrow>
          kthen (kmod (\<lambda>s. s\<lparr>kw_ether := (kw_ether s)\<lparr>e_oq := q\<rparr>\<rparr>))
          (if blen (kw_blks s b) < e_minmtu (kw_ether s) \<or> e_maxmtu (kw_ether s) < blen (kw_blks s b)
           then kthen (kn_freeb env (Some b)) (tx_queue env n)
           else kthen (kmod (tx_arm b)) (tx_queue env n))))"

definition transmit :: "'q kwenv \<Rightarrow> ('q kw, unit) kact" where
  "transmit env =
     with_ilock kw_lock put_kwlock
       (kthen (tx_reclaim env (Suc Ntx)) (tx_queue env (kn_fuel env)))"

section \<open>Interrupts\<close>

definition irq_ext :: "u32 \<Rightarrow> 'q kw \<Rightarrow> 'q kw" where
  "irq_ext irqe s =
     (if irqe AND IEsum = 0 then s
      else
        (let s = (if irqe AND IEphystatuschange \<noteq> 0
                  then s\<lparr>kw_link := g_ps0 (kw_reg s) AND PS0linkup \<noteq> 0, kw_linkchange := True\<rparr> else s);
             s = (if irqe AND IEtxerrorq0 \<noteq> 0 then s\<lparr>kw_oerrs := Suc (kw_oerrs s)\<rparr> else s);
             s = (if irqe AND IErxoverrun \<noteq> 0 then s\<lparr>kw_overflows := Suc (kw_overflows s)\<rparr> else s)
         in if irqe AND IEtxunderrun \<noteq> 0 then s\<lparr>kw_txunderrun := kw_txunderrun s + 1\<rparr> else s))"

definition irq_link :: "'q kw \<Rightarrow> 'q kw" where
  "irq_link s =
     (if kw_linkchange s \<and> g_ps1 (kw_reg s) AND PS1autonegdone \<noteq> 0
      then s\<lparr>kw_link := g_ps0 (kw_reg s) AND PS0linkup \<noteq> 0, kw_linkchange := False\<rparr> else s)"

text \<open>The handler; \<open>intrclear\<close> is the caller's interrupt controller.\<close>

definition kw_interrupt :: "'q kwenv \<Rightarrow> ('q kw, unit) kact \<Rightarrow> ('q kw, unit) kact" where
  "kw_interrupt env intrclear =
     kbind (kget (\<lambda>s. (g_irq (kw_reg s), g_irqe (kw_reg s)))) (\<lambda>(irq, irqe).
     kthen (kmod (\<lambda>s. upd_reg (\<lambda>r. r\<lparr>g_irq := 0, g_irqe := 0\<rparr>) (s\<lparr>kw_newintrs := kw_newintrs s + 1\<rparr>)))
     (kthen (kmod (irq_ext irqe))
     (kthen (if irq AND Irxbufferq0 \<noteq> 0 then receive env else kret ())
     (kbind (kget (\<lambda>s. kn_qcanread env (e_oq (kw_ether s)))) (\<lambda>canread.
      kthen (if canread \<and> irqe AND IEtxbufferq0 \<noteq> 0 then transmit env else kret ())
      (kthen (kmod irq_link) intrclear))))))"

section \<open>Statistics and control\<close>

definition promiscuous :: "bool \<Rightarrow> ('q kw, unit) kact" where
  "promiscuous on =
     with_ilock kw_lock put_kwlock
       (kmod (upd_reg (\<lambda>r. r\<lparr>g_portcfg :=
          (if on then g_portcfg r OR PCFGupromiscuous else g_portcfg r AND NOT PCFGupromiscuous)\<rparr>)))"

definition multicast :: "u8 list \<Rightarrow> bool \<Rightarrow> ('q kw, unit) kact" where
  "multicast addr on = kret ()"

text \<open>The registers are cleared by the read; the sums are kept at the width of the counters.\<close>

definition getmibstats :: "'q kw \<Rightarrow> 'q kw" where
  "getmibstats s =
     (let r = kw_reg s in
      s\<lparr>kw_rxoctets := kw_rxoctets s + ucast (g_rxoctetslo r),
        kw_txoctets := kw_txoctets s + ucast (g_txoctetslo r),
        kw_mib := (\<lambda>k. kw_mib s k + g_mib r k),
        kw_reg := r\<lparr>g_rxoctetslo := 0, g_txoctetslo := 0, g_mib := (\<lambda>_. 0)\<rparr>\<rparr>)"

text \<open>The second part of \<open>ifstat\<close>, one line per counter.\<close>

definition ifstat_first :: "'q kw \<Rightarrow> string list" where
  "ifstat_first s =
     (let r = kw_reg s; num = (\<lambda>v. udec (unat v)); nl = [CHR 0x0A] in
      [''interrupts: '' @ num (kw_intrs s) @ nl,
       ''new interrupts: '' @ num (kw_newintrs s) @ nl,
       ''tx underrun: '' @ num (kw_txunderrun s) @ nl,
       ''tx ring full: '' @ num (kw_txringfull s) @ nl,
       ''rx discarded frames: '' @ num (kw_rxdiscard s) @ nl,
       ''rx overrun frames: '' @ num (kw_rxoverrun s) @ nl,
       ''no first+last flag: '' @ num (kw_nofirstlast s) @ nl,
       ''duplex: '' @ (if g_ps0 r AND PS0fullduplex \<noteq> 0 then ''full'' else ''half'') @ nl,
       ''flow control: '' @ (if g_ps0 r AND PS0flowcontrol \<noteq> 0 then ''on'' else ''off'') @ nl])"

definition ifstat_labels :: "(string \<times> mib) list" where
  "ifstat_labels =
     [(''internal mac transmit errors: '', Mactxerror),
      (''total received frames: '', Rxframes),
      (''received broadcast frames: '', Rxbroadcastframes),
      (''received multicast frames: '', Rxmulticastframes),
      (''bad received frames: '', Badrxframes),
      (''received frames 0-64: '', Rxframe64),
      (''received frames 65-127: '', Rxframe65to127),
      (''received frames 128-255: '', Rxframe128to255),
      (''received frames 256-511: '', Rxframe256to511),
      (''received frames 512-1023: '', Rxframe512to1023),
      (''received frames 1024-max: '', Rxframe1024tomax)]"

definition ifstat_labels2 :: "(string \<times> mib) list" where
  "ifstat_labels2 =
     [(''total transmitted frames: '', Txframes),
      (''transmitted broadcast frames: '', Txbroadcastframes),
      (''transmitted multicast frames: '', Txmulticastframes),
      (''transmit frames dropped by collision: '', Txcollisionframedrop),
      (''bad mac control frames: '', Badmaccontrolframes),
      (''transmitted flow control messages: '', Txflowcontrol),
      (''received flow control messages: '', Rxflowcontrol),
      (''bad received flow control messages: '', Badrxflowcontrol),
      (''received undersized packets: '', Rxundersized),
      (''received fragments: '', Rxfragments),
      (''received oversized packets: '', Rxoversized),
      (''received jabber packets: '', Rxjabber),
      (''mac receive errors: '', Rxerrors),
      (''crc errors: '', Crcerrors),
      (''collisions: '', Collisions),
      (''late collisions: '', Latecollisions)]"

definition ifstat_lines :: "'q kw \<Rightarrow> string list" where
  "ifstat_lines s =
     (let nl = [CHR 0x0A]; line = (\<lambda>(l, k). l @ udec (unat (kw_mib s k)) @ nl) in
      ifstat_first s
      @ [''received octets: '' @ udec (unat (kw_rxoctets s)) @ nl,
         ''bad received octets: '' @ udec (unat (kw_mib s Badrxoctets)) @ nl]
      @ map line ifstat_labels
      @ [''transmitted octects: '' @ udec (unat (kw_txoctets s)) @ nl]
      @ map line ifstat_labels2)"

text \<open>
  \<open>newintrs\<close> is printed before it is cleared, after it was added to the total.  The reads of the two
  frame counters clear them as well.
\<close>

definition ifstat_count :: "'q kw \<Rightarrow> 'q kw" where
  "ifstat_count s =
     (let s = getmibstats s in
      s\<lparr>kw_intrs := kw_intrs s + kw_newintrs s,
        kw_rxdiscard := kw_rxdiscard s + g_pxdfc (kw_reg s),
        kw_rxoverrun := kw_rxoverrun s + g_pxofc (kw_reg s),
        kw_reg := (kw_reg s)\<lparr>g_pxdfc := 0, g_pxofc := 0\<rparr>\<rparr>)"

definition ifstat :: "'q kwenv \<Rightarrow> int \<Rightarrow> int \<Rightarrow> ('q kw, u8 list) kact" where
  "ifstat env n off =
     with_ilock kw_initlock put_initlock
       (if \<not> kn_memok env then kraise (Fault ''buf'')
        else
          kthen (kmod ifstat_count)
          (kbind (kget ifstat_lines) (\<lambda>ls.
           kthen (kmod (\<lambda>s. s\<lparr>kw_newintrs := 0\<rparr>))
           (kret (readstr off n (foldl (seprint (2 * 8192)) [] ls))))))"

definition kw_shutdown :: "('q kw, unit) kact" where
  "kw_shutdown =
     with_ilock kw_lock put_kwlock (kmod (upd_reg (\<lambda>r. r\<lparr>g_psc1 := g_psc1 r OR PSC1portreset\<rparr>)))"

definition ctlmsg :: "(nat \<times> string \<times> nat) list" where
  "ctlmsg = [(0, ''jumbo'', 2)]"

text \<open>The case of \<open>jumbo off\<close> has no \<open>break\<close>: it continues with the default case.\<close>

definition kw_ctl :: "'q kwenv \<Rightarrow> u8 list \<Rightarrow> ('q kw, int) kact" where
  "kw_ctl env p =
     kbind (klift (kn_parsecmd env p)) (\<lambda>f.
     kbind (klift (lookupcmd ctlmsg f)) (\<lambda>ct.
     kthen
       (if ct = 0 then
          (if f ! 1 = ''on'' then kraise (Error (Emsg ''jumbo disabled''))
           else if f ! 1 = ''off'' then
             kmod (\<lambda>s. (upd_reg (\<lambda>r. r\<lparr>g_psc0 := g_psc0 r AND NOT PSC0mrumask OR PSC0mru1522\<rparr>) s)
               \<lparr>kw_ether := (kw_ether s)\<lparr>e_maxmtu := 1522\<rparr>\<rparr>)
           else kraise (Error Ebadctl))
        else kret ())
     (kraise (Error Ebadctl))))"

section \<open>The management interface of the phy\<close>

abbreviation PhySmiTimeout :: nat where "PhySmiTimeout \<equiv> 100000"
abbreviation PhySmiAddrMsk :: u32 where "PhySmiAddrMsk \<equiv> 0x1F0000"
abbreviation SmiRegAddrMsk :: u32 where "SmiRegAddrMsk \<equiv> 0x3E00000"
abbreviation PhySmiOpcodeRd :: u32 where "PhySmiOpcodeRd \<equiv> 0x4000000"
abbreviation PhySmiReadValid :: u32 where "PhySmiReadValid \<equiv> 0x8000000"
abbreviation PhySmiBusy :: u32 where "PhySmiBusy \<equiv> 0x10000000"

definition rd_busy :: "'q kwenv \<Rightarrow> busyreg \<Rightarrow> ('q kw, u32) kact" where
  "rd_busy env r s =
     (let written = (case r of Rsmi \<Rightarrow> g_smi (kw_reg s) | Rtqc \<Rightarrow> g_tqc (kw_reg s)
                             | Rrqc \<Rightarrow> g_rqc (kw_reg s))
      in (Inr (kn_rd env r (kw_reads s) written), s\<lparr>kw_reads := Suc (kw_reads s)\<rparr>))"

primrec smi_poll :: "'q kwenv \<Rightarrow> u32 \<Rightarrow> nat \<Rightarrow> ('q kw, int) kact" where
  "smi_poll env waitbit 0 = kbind (rd_busy env Rsmi) (\<lambda>v. kret (- 1))"
| "smi_poll env waitbit (Suc timeout) =
     kbind (rd_busy env Rsmi) (\<lambda>v.
     if v AND waitbit \<noteq> 0 then smi_poll env waitbit timeout else kret 0)"

definition smibusywait :: "'q kwenv \<Rightarrow> u32 \<Rightarrow> ('q kw, int) kact" where
  "smibusywait env waitbit = smi_poll env waitbit PhySmiTimeout"

definition smi_addr :: "int \<Rightarrow> u32" where "smi_addr pa = push_bit 16 (of_int pa)"
definition smi_regaddr :: "int \<Rightarrow> u32" where "smi_regaddr ra = push_bit 21 (of_int ra)"

definition miird :: "'q kwenv \<Rightarrow> int \<Rightarrow> int \<Rightarrow> ('q kw, int) kact" where
  "miird env pa ra =
     (if pa = 0xEE \<and> ra = 0xEE then kget (\<lambda>s. uint (g_phy (kw_reg s) AND 0xFF))
      else if smi_addr pa AND NOT PhySmiAddrMsk \<noteq> 0 then kret (- 1)
      else if smi_regaddr ra AND NOT SmiRegAddrMsk \<noteq> 0 then kret (- 1)
      else
        kthen (smibusywait env PhySmiBusy)
        (kthen (kmod (upd_reg (\<lambda>r. r\<lparr>g_smi := smi_addr pa OR smi_regaddr ra OR PhySmiOpcodeRd\<rparr>)))
        (kbind (smibusywait env PhySmiReadValid) (\<lambda>w.
         if w < 0 then kret (- 1)
         else kbind (rd_busy env Rsmi) (\<lambda>v. kret (uint (v AND 0xFFFF)))))))"

text \<open>\<open>reg->smi &= ~PhySmiOpcodeRd\<close> reads the register back before it writes.\<close>

definition miiwr :: "'q kwenv \<Rightarrow> int \<Rightarrow> int \<Rightarrow> int \<Rightarrow> ('q kw, int) kact" where
  "miiwr env pa ra v =
     (if smi_addr pa AND NOT PhySmiAddrMsk \<noteq> 0 then kret (- 1)
      else if smi_regaddr ra AND NOT SmiRegAddrMsk \<noteq> 0 then kret (- 1)
      else
        kthen (smibusywait env PhySmiBusy)
        (kthen (kmod (upd_reg (\<lambda>r. r\<lparr>g_smi := of_int v OR smi_addr pa OR smi_regaddr ra\<rparr>)))
        (kbind (rd_busy env Rsmi) (\<lambda>x.
         kthen (kmod (upd_reg (\<lambda>r. r\<lparr>g_smi := x AND NOT PhySmiOpcodeRd\<rparr>))) (kret 0)))))"

primrec autoneg_poll :: "'q kwenv \<Rightarrow> int \<Rightarrow> nat \<Rightarrow> ('q kw, unit) kact" where
  "autoneg_poll env phyno 0 = kret ()"
| "autoneg_poll env phyno (Suc n) =
     kbind (miird env phyno (kn_Bmsr env)) (\<lambda>v.
     if of_int v AND kn_BmsrAnc env \<noteq> 0 then kret () else autoneg_poll env phyno n)"

definition kirkwoodmii :: "'q kwenv \<Rightarrow> ('q kw, int) kact" where
  "kirkwoodmii env =
     (if \<not> kn_memok env then kret (- 1)
      else
        kbind (kn_mii env) (\<lambda>phy.
        case phy of
          None \<Rightarrow> kret (- 1)
        | Some phyno \<Rightarrow>
            kbind (kn_miistatus env) (\<lambda>st.
            if st < 0 then
              kthen (kn_miireset env)
              (kbind (kn_miiane env) (\<lambda>an.
               if an < 0 then kret (- 1)
               else
                 kthen (kbind (kn_miistatus env) (\<lambda>_. kret ()))
                 (kbind (miird env phyno (kn_Bmsr env)) (\<lambda>v.
                  if of_int v AND kn_BmsrLs env \<noteq> 0 then
                    kthen (autoneg_poll env phyno 601)
                    (kbind (kn_miistatus env) (\<lambda>_. kret 0))
                  else kthen (kmod (\<lambda>s. s\<lparr>kw_speed := 10\<rparr>)) (kret 0)))))
            else kret 0)))"

text \<open>The register number and the page are fixed; the value written back is the one read.\<close>

definition miiphyinit :: "'q kwenv \<Rightarrow> ('q kw, int) kact" where
  "miiphyinit env =
     kbind (miird env 0xEE 0xEE) (\<lambda>dev.
     if (of_int dev :: u32) = - 1 then kret (- 1)
     else
       kthen (miiwr env dev 22 3) (kbind (miird env dev 10) (\<lambda>v.
       kthen (miiwr env dev 10 (sint ((of_int v AND NOT 0xF OR 1) :: u32)))
       (kthen (miiwr env dev 22 0)
       (kthen (miiwr env dev 22 2) (kbind (miird env dev 21) (\<lambda>v.
        kthen (miiwr env dev 21 (sint ((of_int v OR 0x30) :: u32)))
        (kthen (miiwr env dev 22 0) (kret 0)))))))))"

section \<open>Initialisation\<close>

text \<open>Waiting for a queue to stop has no time limit in the code; the budget is a parameter.\<close>

primrec stop_poll :: "'q kwenv \<Rightarrow> busyreg \<Rightarrow> nat \<Rightarrow> ('q kw, unit) kact" where
  "stop_poll env r 0 = kraise Fuel"
| "stop_poll env r (Suc n) =
     kbind (rd_busy env r) (\<lambda>v. if v AND 0xFF \<noteq> 0 then stop_poll env r n else kret ())"

definition portreset :: "'q kwenv \<Rightarrow> ('q kw, unit) kact" where
  "portreset env =
     kbind (rd_busy env Rtqc) (\<lambda>v.
     kthen
       (if v AND 0xFF \<noteq> 0 then
          kthen (kmod (upd_reg (\<lambda>r. r\<lparr>g_tqc := push_bit 8 v\<rparr>))) (stop_poll env Rtqc (kn_fuel env))
        else kret ())
     (kbind (rd_busy env Rrqc) (\<lambda>v.
      kthen
        (if v AND 0xFF \<noteq> 0 then
           kthen (kmod (upd_reg (\<lambda>r. r\<lparr>g_rqc := push_bit 8 v\<rparr>))) (stop_poll env Rrqc (kn_fuel env))
         else kret ())
      (kmod (upd_reg (\<lambda>r. r\<lparr>g_psc0 := g_psc0 r AND NOT PSC0portenable,
           g_psc1 := g_psc1 r AND NOT (PSC1rgmii OR PSC1portreset)\<rparr>))))))"

text \<open>\<open>archetheraddr\<close> (\<open>archkirkwood.c\<close>): the address from the registers and the unicast filter.\<close>

definition ether_bytes :: "u32 \<Rightarrow> u32 \<Rightarrow> u8 list" where
  "ether_bytes hi lo =
     [ucast (drop_bit 24 hi), ucast (drop_bit 16 hi), ucast (drop_bit 8 hi), ucast hi,
      ucast (drop_bit 8 lo), ucast lo]"

definition archetheraddr :: "u32 \<Rightarrow> 'q kw \<Rightarrow> 'q kw" where
  "archetheraddr queue s =
     (let r = kw_reg s; ea = ether_bytes (g_macah r) (g_macal r);
          nibble = unat (ea ! 5 AND 0xF); tbloff = nibble div 4; regoff = nibble mod 4;
          uc = g_dfut r ! tbloff;
          uc = uc AND push_bit (8 * regoff) 0xFF;
          uc = uc OR push_bit (8 * regoff) (1 OR push_bit 1 queue)
      in s\<lparr>kw_ether := (kw_ether s)\<lparr>e_ea := ea\<rparr>, kw_reg := r\<lparr>g_dfut := (g_dfut r)[tbloff := uc]\<rparr>\<rparr>)"

text \<open>The pool is filled once, for all controllers; it stays short when memory runs out.\<close>

primrec fill_pool :: "'q kwenv \<Rightarrow> nat \<Rightarrow> 'q kw \<Rightarrow> 'q kw" where
  "fill_pool env 0 s = s"
| "fill_pool env (Suc n) s =
     (case kn_iallocb env (kw_allocs s) (Rxblocklen + 7) of
        None \<Rightarrow> s\<lparr>kw_allocs := Suc (kw_allocs s)\<rparr>
      | Some (b, k) \<Rightarrow>
          fill_pool env n (s\<lparr>kw_allocs := Suc (kw_allocs s),
            kw_blks := (kw_blks s)(b := k\<lparr>b_rxfree := True\<rparr>), kw_free := b # kw_free s\<rparr>))"

definition rxd_at :: "u32 \<Rightarrow> nat \<Rightarrow> u32" where "rxd_at base i = base + of_nat (16 * i)"

definition init_rxring :: "u32 \<Rightarrow> 'q kw \<Rightarrow> 'q kw" where
  "init_rxring base s =
     s\<lparr>kw_rx := map (\<lambda>i. \<lparr>rx_cs = 0, rx_countsize = 0, rx_buf = 0, rx_next = rxd_at base (NEXT i Nrx)\<rparr>)
          [0..<Nrx],
       kw_rxb := replicate Nrx None, kw_rxtail := 0, kw_rxhead := 0\<rparr>"

definition init_txring :: "u32 \<Rightarrow> 'q kw \<Rightarrow> 'q kw" where
  "init_txring base s =
     s\<lparr>kw_tx := map (\<lambda>i. \<lparr>tx_cs = 0, tx_countchk = 0, tx_buf = 0, tx_next = rxd_at base (NEXT i Ntx)\<rparr>)
          [0..<Ntx],
       kw_txb := replicate Ntx None, kw_txtail := 0, kw_txhead := 0\<rparr>"

definition init_regs :: "u32 \<Rightarrow> u32 \<Rightarrow> 'q kw \<Rightarrow> 'q kw" where
  "init_regs rxbase txbase s =
     upd_reg (\<lambda>r. r\<lparr>g_portcfg := 0, g_portcfgx := 0, g_pxmfs := push_bit 2 16,
       g_sdc := 1 OR SDCrxburst 4 OR 0x10 OR 0x20 OR SDCtxburst 4 OR SDCipgintrx (200000000 div 51200),
       g_pxtfut := TFUTipginttx (200000000 div 51200),
       g_irqmask := - 1, g_irqemask := - 1, g_irq := 0, g_irqe := 0, g_euirqmask := 0, g_euirq := 0,
       g_tcqdp0 := rxd_at txbase (kw_txhead s), g_crdp0 := rxd_at rxbase (kw_rxhead s)\<rparr>) s"

definition init_start :: "'q kw \<Rightarrow> 'q kw" where
  "init_start s =
     (let s = upd_reg (\<lambda>r. r\<lparr>g_rqc := 1,
        g_psc1 := PSC1rgmii OR 0x8000 OR PSC1coldomainlimit 0x23,
        g_psc0 := PSC0portenable OR 0x8 OR 0x10 OR 0x400 OR PSC0mru1522\<rparr>) s
      in upd_reg (\<lambda>r. r\<lparr>g_pmtu := 0\<rparr>) (s\<lparr>kw_link := g_ps0 (kw_reg s) AND PS0linkup \<noteq> 0\<rparr>))"

definition clear_mibregs :: "'q kw \<Rightarrow> 'q kw" where
  "clear_mibregs s = upd_reg (\<lambda>r. r\<lparr>g_rxoctetslo := 0, g_txoctetslo := 0, g_mib := (\<lambda>_. 0)\<rparr>) s"

definition ctlrinit :: "'q kwenv \<Rightarrow> ('q kw, unit) kact" where
  "ctlrinit env =
     kthen
       (with_ilock kw_poollock put_poollock
         (kmod (\<lambda>s. if kw_freeinit s then s
                     else (fill_pool env Nrxblocks s)\<lparr>kw_freeinit := True\<rparr>)))
     (case kn_rxring env of
        None \<Rightarrow> kraise (Panic ''no memory for rxring'')
      | Some rxbase \<Rightarrow>
          kthen (kmod (init_rxring rxbase)) (kthen rxreplenish
          (case kn_txring env of
             None \<Rightarrow> kraise (Panic ''no memory for txring'')
           | Some txbase \<Rightarrow>
               kthen (kmod (init_txring txbase))
               (kthen (kmod clear_mibregs)
               (kthen (kmod (init_regs rxbase txbase))
               (kthen (kmod (archetheraddr 0)) (kmod init_start)))))))"

definition kw_attach :: "'q kwenv \<Rightarrow> ('q kw, unit) kact" where
  "kw_attach env =
     with_ilock kw_initlock put_initlock
       (kbind (kget kw_init) (\<lambda>i.
        if i then kret () else kthen (ctlrinit env) (kmod (\<lambda>s. s\<lparr>kw_init := True\<rparr>))))"

definition kw_reset :: "'q kwenv \<Rightarrow> ('q kw, int) kact" where
  "kw_reset env =
     kbind (kget (\<lambda>s. e_ctlrno (kw_ether s))) (\<lambda>n.
     if \<not> kn_memok env then kraise (Fault ''ctlr'')
     else if n \<noteq> 0 then kraise (Panic ''bad ether ctlr'')
     else
       kthen (portreset env)
       (kthen (kmod (\<lambda>s. upd_reg (\<lambda>r. r\<lparr>g_phy := of_nat n\<rparr>) (s\<lparr>kw_port := n\<rparr>)))
       (kbind (kirkwoodmii env) (\<lambda>r.
        if r < 0 then kret (- 1)
        else
          kthen (kmod (\<lambda>s. if Rxblocklen - 2 < e_maxmtu (kw_ether s)
                           then s\<lparr>kw_ether := (kw_ether s)\<lparr>e_maxmtu := Rxblocklen - 2\<rparr>\<rparr> else s))
          (kret 0)))))"

end
