(* ===== verification/Kirkwood_Ring.thy ===== *)
theory Kirkwood_Ring
  imports Kirkwood
begin

text \<open>
  The descriptor rings of \<open>etherkirkwood.c\<close>: the shape of the receive ring and the ownership of its
  buffers, through initialisation, interrupts, the controller and the return of buffers; what
  \<open>receive\<close> passes to \<open>etheriq\<close>; and what \<open>transmit\<close> reclaims.
\<close>

section \<open>Locks\<close>

definition kw_locks :: "'q kw \<Rightarrow> bool \<times> bool \<times> bool" where
  "kw_locks s = (kw_lock s, kw_initlock s, kw_poollock s)"

interpretation kw_main: spin_lens kw_lock put_kwlock kw_locks
  by unfold_locales (simp_all add: put_kwlock_def kw_locks_def)

interpretation kw_ini: spin_lens kw_initlock put_initlock kw_locks
  by unfold_locales (simp_all add: put_initlock_def kw_locks_def)

interpretation kw_pool: spin_lens kw_poollock put_poollock kw_locks
  by unfold_locales (simp_all add: put_poollock_def kw_locks_def)

lemma rxallocb_run:
  assumes "\<not> kw_poollock s"
  shows "rxallocb s = (case kw_free s of [] \<Rightarrow> (Inr None, s) | b # bs \<Rightarrow> (Inr (Some b), s\<lparr>kw_free := bs\<rparr>))"
proof -
  have "s\<lparr>kw_poollock := False\<rparr> = s" using assms by simp
  then show ?thesis
    using assms unfolding rxallocb_def
    by (cases "kw_free s")
      (simp_all add: with_ilock_def ilock_def iunlock_def kthen_def kbind_def put_poollock_def)
qed

definition rx_free :: "nat \<Rightarrow> 'q kw \<Rightarrow> 'q kw" where
  "rx_free b s = s\<lparr>kw_blks := (kw_blks s)(b := rx_reset (kw_blks s b)), kw_free := b # kw_free s\<rparr>"

lemma rxfreeb_run:
  assumes "\<not> kw_poollock s"
  shows "rxfreeb b s = (Inr (), rx_free b s)"
proof -
  have "s\<lparr>kw_poollock := False\<rparr> = s" using assms by simp
  then show ?thesis
    using assms unfolding rxfreeb_def rx_free_def
    by (simp add: with_ilock_def ilock_def iunlock_def kthen_def kbind_def put_poollock_def)
qed

section \<open>The receive ring\<close>

definition rx_slot :: "'q kw \<Rightarrow> nat \<Rightarrow> nat" where
  "rx_slot s j = (kw_rxhead s + j) mod Nrx"

definition rx_owned :: "'q kw \<Rightarrow> nat \<Rightarrow> bool" where
  "rx_owned s i \<longleftrightarrow> rx_cs (kw_rx s ! i) AND RCSdmaown \<noteq> 0"

text \<open>
  From the head on, \<open>c\<close> descriptors are finished and wait for the driver, the rest of the first \<open>k\<close> belong
  to the controller, which writes to the buffers of their blocks, and the remaining ones have no
  block.
\<close>

definition rx_ring :: "nat \<Rightarrow> nat \<Rightarrow> 'q kw \<Rightarrow> bool" where
  "rx_ring k c s \<longleftrightarrow>
     length (kw_rx s) = Nrx \<and> length (kw_rxb s) = Nrx \<and> kw_rxhead s < Nrx \<and>
     c \<le> k \<and> k \<le> Nrx \<and> kw_rxtail s = rx_slot s k \<and>
     (\<forall>j<Nrx. kw_rxb s ! rx_slot s j \<noteq> None \<longleftrightarrow> j < k) \<and>
     (\<forall>j<Nrx. rx_owned s (rx_slot s j) \<longleftrightarrow> c \<le> j \<and> j < k) \<and>
     (\<forall>j b. j < Nrx \<and> rx_owned s (rx_slot s j) \<and> kw_rxb s ! rx_slot s j = Some b \<longrightarrow>
        rx_buf (kw_rx s ! rx_slot s j) = b_rp (kw_blks s b))"

text \<open>A block is in one place: once in the pool, or at one descriptor, or with the network code.\<close>

definition rx_pool :: "'q kw \<Rightarrow> bool" where
  "rx_pool s \<longleftrightarrow>
     distinct (kw_free s) \<and>
     (\<forall>i j b. i < Nrx \<and> j < Nrx \<and> kw_rxb s ! i = Some b \<and> kw_rxb s ! j = Some b \<longrightarrow> i = j) \<and>
     (\<forall>i b. i < Nrx \<and> kw_rxb s ! i = Some b \<longrightarrow> b \<notin> set (kw_free s)) \<and>
     (\<forall>b. b \<in> set (kw_free s) \<or> Some b \<in> set (kw_rxb s) \<longrightarrow> b_rxfree (kw_blks s b))"

lemma rx_slot_less [simp]: "rx_slot s j < Nrx"
  by (simp add: rx_slot_def)

lemma rx_slot_inj: "i < Nrx \<Longrightarrow> j < Nrx \<Longrightarrow> rx_slot s i = rx_slot s j \<longleftrightarrow> i = j"
proof -
  assume "i < Nrx" "j < Nrx"
  then show ?thesis unfolding rx_slot_def by (metis mod_add_inj)
qed

lemma rx_slot_surj: "i < Nrx \<Longrightarrow> kw_rxhead s < Nrx \<Longrightarrow> \<exists>j<Nrx. i = rx_slot s j"
  by (rule exI [of _ "(i + Nrx - kw_rxhead s) mod Nrx"]) (simp add: rx_slot_def mod_simps)

lemma rx_slot_eq: "kw_rxhead s' = kw_rxhead s \<Longrightarrow> rx_slot s' = rx_slot s"
  by (simp add: rx_slot_def fun_eq_iff)

subsection \<open>Arming descriptors\<close>

lemma rx_arm_ring:
  assumes ring: "rx_ring k c s" and k: "k < Nrx"
  shows "rx_ring (Suc k) c (rx_arm b s)"
proof -
  let ?t = "rx_slot s k"
  from ring have t: "kw_rxtail s = ?t" by (simp add: rx_ring_def)
  have len: "length (kw_rx s) = Nrx" "length (kw_rxb s) = Nrx" using ring by (simp_all add: rx_ring_def)
  have slot: "rx_slot (rx_arm b s) = rx_slot s" by (rule rx_slot_eq) (simp add: rx_arm_def Let_def)
  have rxb: "kw_rxb (rx_arm b s) ! rx_slot s j = (if j = k then Some b else kw_rxb s ! rx_slot s j)"
    if "j < Nrx" for j
    using that k by (simp add: rx_arm_def Let_def t len rx_slot_inj nth_list_update)
  have rx: "kw_rx (rx_arm b s) ! rx_slot s j =
      (if j = k then (kw_rx s ! ?t)\<lparr>rx_countsize := Bufsize (of_int Rxblocklen),
          rx_buf := b_rp (kw_blks s b), rx_cs := RCSdmaown OR RCSenableintr\<rparr>
       else kw_rx s ! rx_slot s j)" if "j < Nrx" for j
    using that k by (simp add: rx_arm_def Let_def t len rx_slot_inj nth_list_update)
  have own: "rx_owned (rx_arm b s) (rx_slot s j) \<longleftrightarrow> j = k \<or> rx_owned s (rx_slot s j)" if "j < Nrx" for j
    using that by (simp add: rx_owned_def rx)
  have tail: "kw_rxtail (rx_arm b s) = rx_slot s (Suc k)"
    by (simp add: rx_arm_def Let_def t NEXT_def rx_slot_def mod_simps)
  have blks: "kw_blks (rx_arm b s) = kw_blks s" by (simp add: rx_arm_def Let_def)
  have len': "length (kw_rx (rx_arm b s)) = Nrx" "length (kw_rxb (rx_arm b s)) = Nrx"
    "kw_rxhead (rx_arm b s) = kw_rxhead s"
    using len by (simp_all add: rx_arm_def Let_def)
  show ?thesis
    unfolding rx_ring_def slot
  proof (intro conjI allI impI)
    show "rx_owned (rx_arm b s) (rx_slot s j) \<longleftrightarrow> c \<le> j \<and> j < Suc k" if "j < Nrx" for j
      using ring that by (auto simp: own rx_ring_def)
    show "(kw_rxb (rx_arm b s) ! rx_slot s j \<noteq> None) \<longleftrightarrow> j < Suc k" if "j < Nrx" for j
      using ring that by (auto simp: rxb rx_ring_def less_Suc_eq)
    show "rx_buf (kw_rx (rx_arm b s) ! rx_slot s j) = b_rp (kw_blks (rx_arm b s) a)"
      if "j < Nrx \<and> rx_owned (rx_arm b s) (rx_slot s j) \<and> kw_rxb (rx_arm b s) ! rx_slot s j = Some a"
      for j a
      using ring that by (auto simp: rxb rx own blks rx_ring_def split: if_splits)
  qed (use ring k len' tail in \<open>simp_all add: rx_ring_def\<close>)
qed

lemma rx_arm_pool:
  assumes pool: "rx_pool (s\<lparr>kw_free := b # bs\<rparr>)" and ring: "rx_ring k c s" and k: "k < Nrx"
  shows "rx_pool (rx_arm b (s\<lparr>kw_free := bs\<rparr>))"
proof -
  let ?t = "kw_rxtail s"
  have len: "length (kw_rxb s) = Nrx" and t: "?t < Nrx" using ring by (simp_all add: rx_ring_def)
  have rxb: "kw_rxb (rx_arm b (s\<lparr>kw_free := bs\<rparr>)) ! i = (if i = ?t then Some b else kw_rxb s ! i)"
    if "i < Nrx" for i
    using that len t by (simp add: rx_arm_def Let_def nth_list_update)
  have sub: "set (kw_rxb (rx_arm b (s\<lparr>kw_free := bs\<rparr>))) \<subseteq> insert (Some b) (set (kw_rxb s))"
    by (simp add: rx_arm_def Let_def set_update_subset_insert)
  have out: "kw_rxb s ! i \<noteq> Some b" if "i < Nrx" for i
    using pool that by (auto simp: rx_pool_def)
  have other: "kw_free (rx_arm b (s\<lparr>kw_free := bs\<rparr>)) = bs"
    "kw_blks (rx_arm b (s\<lparr>kw_free := bs\<rparr>)) = kw_blks s"
    by (simp_all add: rx_arm_def Let_def)
  show ?thesis
    unfolding rx_pool_def other
  proof (intro conjI allI impI)
    show "distinct bs" using pool by (simp add: rx_pool_def)
    show "i = j" if "i < Nrx \<and> j < Nrx \<and> kw_rxb (rx_arm b (s\<lparr>kw_free := bs\<rparr>)) ! i = Some a
        \<and> kw_rxb (rx_arm b (s\<lparr>kw_free := bs\<rparr>)) ! j = Some a" for i j a
      using that pool out by (auto simp: rxb rx_pool_def split: if_splits)
    show "a \<notin> set bs" if "i < Nrx \<and> kw_rxb (rx_arm b (s\<lparr>kw_free := bs\<rparr>)) ! i = Some a" for i a
      using that pool by (auto simp: rxb rx_pool_def split: if_splits)
    show "b_rxfree (kw_blks s a)"
      if "a \<in> set bs \<or> Some a \<in> set (kw_rxb (rx_arm b (s\<lparr>kw_free := bs\<rparr>)))" for a
      using that pool sub by (auto simp: rx_pool_def)
  qed
qed

text \<open>Replenishing fills the ring from the tail until it is full or the pool is empty.\<close>

lemma rxreplenish_ring:
  assumes "rx_ring k c s" and "rx_pool s" and "\<not> kw_poollock s" and "length (kw_free s) < n"
  shows "\<exists>s' k'. rxreplenish_loop n s = (Inr (), s') \<and> rx_ring k' c s' \<and> rx_pool s' \<and>
    k \<le> k' \<and> k' + length (kw_free s') = k + length (kw_free s) \<and> (k' = Nrx \<or> kw_free s' = []) \<and>
    kw_rxhead s' = kw_rxhead s \<and> kw_ether s' = kw_ether s \<and> kw_blks s' = kw_blks s \<and>
    kw_mem s' = kw_mem s \<and> \<not> kw_poollock s'"
  using assms
proof (induction n arbitrary: s k)
  case 0
  then show ?case by simp
next
  case (Suc n)
  note ring = Suc.prems(1) and pool = Suc.prems(2)
  have tail: "kw_rxb s ! kw_rxtail s = None \<longleftrightarrow> k < Nrx"
  proof (cases "k < Nrx")
    case True
    with ring have "\<not> kw_rxb s ! rx_slot s k \<noteq> None" "kw_rxtail s = rx_slot s k"
      unfolding rx_ring_def by blast+
    with True show ?thesis by simp
  next
    case False
    then have "k = Nrx" using ring by (simp add: rx_ring_def)
    moreover from this have "rx_slot s k = rx_slot s 0" by (simp add: rx_slot_def)
    moreover have "kw_rxb s ! rx_slot s 0 \<noteq> None"
      using ring \<open>k = Nrx\<close> unfolding rx_ring_def by fastforce
    ultimately show ?thesis using ring by (simp add: rx_ring_def)
  qed
  show ?case
  proof (cases "k < Nrx")
    case False
    then have "k = Nrx" using ring by (simp add: rx_ring_def)
    with False tail Suc.prems show ?thesis by auto
  next
    case k: True
    show ?thesis
    proof (cases "kw_free s")
      case Nil
      with k tail Suc.prems show ?thesis by (auto simp: kbind_def rxallocb_run)
    next
      case (Cons b bs)
      let ?s = "rx_arm b (s\<lparr>kw_free := bs\<rparr>)"
      have "rx_ring k c (s\<lparr>kw_free := bs\<rparr>)"
        using ring by (simp add: rx_ring_def rx_slot_def rx_owned_def)
      then have 1: "rx_ring (Suc k) c ?s" using k by (rule rx_arm_ring)
      have "s\<lparr>kw_free := b # bs\<rparr> = s" using Cons by simp
      then have 2: "rx_pool ?s" using rx_arm_pool [where s = s and b = b and bs = bs] pool ring k by simp
      have 3: "\<not> kw_poollock ?s" "length (kw_free ?s) < n"
        using Suc.prems Cons by (simp_all add: rx_arm_def Let_def)
      have run: "rxreplenish_loop (Suc n) s = rxreplenish_loop n ?s"
        using Cons k tail Suc.prems(3) by (simp add: kbind_def rxallocb_run)
      have frame: "kw_rxhead ?s = kw_rxhead s" "kw_ether ?s = kw_ether s" "kw_blks ?s = kw_blks s"
        "kw_mem ?s = kw_mem s" "length (kw_free s) = Suc (length (kw_free ?s))"
        using Cons by (simp_all add: rx_arm_def Let_def)
      from Suc.IH [OF 1 2 3] obtain s' k' where s': "rxreplenish_loop n ?s = (Inr (), s')"
        "rx_ring k' c s'" "rx_pool s'" "Suc k \<le> k'"
        "k' + length (kw_free s') = Suc k + length (kw_free ?s)" "k' = Nrx \<or> kw_free s' = []"
        "kw_rxhead s' = kw_rxhead ?s" "kw_ether s' = kw_ether ?s" "kw_blks s' = kw_blks ?s"
        "kw_mem s' = kw_mem ?s" "\<not> kw_poollock s'" by blast
      show ?thesis
        unfolding run
        by (rule exI [of _ s'], rule exI [of _ k']) (use s' frame in simp)
    qed
  qed
qed

subsection \<open>Taking descriptors\<close>

definition rx_out :: "nat \<Rightarrow> 'q kw \<Rightarrow> bool" where
  "rx_out b s \<longleftrightarrow> b \<notin> set (kw_free s) \<and> Some b \<notin> set (kw_rxb s)"

lemma rx_take_slot: "rx_slot (rx_take s) j = rx_slot s (Suc j)"
  by (simp add: rx_take_def rx_slot_def NEXT_def mod_simps)

lemma rx_take_rxb:
  assumes "length (kw_rxb s) = Nrx" and "kw_rxhead s < Nrx" and "j < Nrx"
  shows "kw_rxb (rx_take s) ! rx_slot s j = (if j = 0 then None else kw_rxb s ! rx_slot s j)"
proof -
  have "rx_slot s 0 = kw_rxhead s" using assms(2) by (simp add: rx_slot_def)
  moreover have "rx_slot s j = rx_slot s 0 \<longleftrightarrow> j = 0" using assms(3) by (simp add: rx_slot_inj)
  ultimately show ?thesis
    using assms by (auto simp: rx_take_def nth_list_update)
qed

lemma rx_take_ring:
  assumes ring: "rx_ring (Suc k) (Suc c) s"
  shows "rx_ring k c (rx_take s)"
proof -
  have len: "length (kw_rxb s) = Nrx" "kw_rxhead s < Nrx" using ring by (simp_all add: rx_ring_def)
  have wrap: "rx_slot s Nrx = rx_slot s 0" by (simp add: rx_slot_def)
  have same: "kw_rx (rx_take s) = kw_rx s" "kw_rxtail (rx_take s) = kw_rxtail s"
    "kw_blks (rx_take s) = kw_blks s" "length (kw_rxb (rx_take s)) = Nrx"
    using len by (simp_all add: rx_take_def)
  have held: "kw_rxb (rx_take s) ! rx_slot s (Suc j) \<noteq> None \<longleftrightarrow> j < k" if "j < Nrx" for j
  proof (cases "Suc j = Nrx")
    case True
    then have "kw_rxb (rx_take s) ! rx_slot s (Suc j) = None"
      using rx_take_rxb [OF len, of 0] wrap by simp
    moreover have "\<not> j < k" using True ring by (simp add: rx_ring_def)
    ultimately show ?thesis by simp
  next
    case False
    with that have j: "Suc j < Nrx" by simp
    with ring have "kw_rxb s ! rx_slot s (Suc j) \<noteq> None \<longleftrightarrow> Suc j < Suc k"
      unfolding rx_ring_def by blast
    with rx_take_rxb [OF len j] show ?thesis by simp
  qed
  have own: "rx_owned s (rx_slot s (Suc j)) \<longleftrightarrow> c \<le> j \<and> j < k" if "j < Nrx" for j
  proof (cases "Suc j = Nrx")
    case True
    have "\<not> rx_owned s (rx_slot s 0)" using ring by (simp add: rx_ring_def)
    moreover have "\<not> j < k" using True ring by (simp add: rx_ring_def)
    ultimately show ?thesis using True wrap by simp
  next
    case False
    with that have "Suc j < Nrx" by simp
    with ring have "rx_owned s (rx_slot s (Suc j)) \<longleftrightarrow> Suc c \<le> Suc j \<and> Suc j < Suc k"
      unfolding rx_ring_def by blast
    then show ?thesis by simp
  qed
  have owned: "rx_owned (rx_take s) = rx_owned s" by (simp add: rx_owned_def fun_eq_iff same)
  show ?thesis
    unfolding rx_ring_def rx_take_slot owned
  proof (intro conjI allI impI)
    show "rx_owned s (rx_slot s (Suc j)) \<longleftrightarrow> c \<le> j \<and> j < k" if "j < Nrx" for j
      by (rule own [OF that])
    show "(kw_rxb (rx_take s) ! rx_slot s (Suc j) \<noteq> None) \<longleftrightarrow> j < k" if "j < Nrx" for j
      by (rule held [OF that])
    show "rx_buf (kw_rx (rx_take s) ! rx_slot s (Suc j)) = b_rp (kw_blks (rx_take s) b)"
      if asm: "j < Nrx \<and> rx_owned s (rx_slot s (Suc j)) \<and> kw_rxb (rx_take s) ! rx_slot s (Suc j) = Some b"
      for j b
    proof -
      have jk: "j < k" using asm own by blast
      then have j: "Suc j < Nrx" using ring by (simp add: rx_ring_def)
      with asm rx_take_rxb [OF len j] have "kw_rxb s ! rx_slot s (Suc j) = Some b" by simp
      with asm j ring show ?thesis by (simp add: rx_ring_def same)
    qed
  qed (use ring same in \<open>simp_all add: rx_ring_def rx_take_def NEXT_def\<close>)
qed

lemma rx_take_out:
  assumes ring: "rx_ring (Suc k) (Suc c) s" and pool: "rx_pool s" and b: "kw_rxb s ! kw_rxhead s = Some b"
  shows "rx_pool (rx_take s) \<and> rx_out b (rx_take s) \<and> b_rxfree (kw_blks s b)"
proof -
  have len: "length (kw_rxb s) = Nrx" and h: "kw_rxhead s < Nrx"
    using ring by (simp_all add: rx_ring_def)
  have rxb: "kw_rxb (rx_take s) ! i = (if i = kw_rxhead s then None else kw_rxb s ! i)" if "i < Nrx" for i
    using that len by (simp add: rx_take_def nth_list_update)
  have same: "kw_free (rx_take s) = kw_free s" "kw_blks (rx_take s) = kw_blks s"
    "length (kw_rxb (rx_take s)) = Nrx"
    by (simp_all add: rx_take_def len)
  have sub: "set (kw_rxb (rx_take s)) \<subseteq> insert None (set (kw_rxb s))"
    by (simp add: rx_take_def set_update_subset_insert)
  have "Some b \<in> set (kw_rxb s)" using b len h by (metis nth_mem)
  then have free: "b_rxfree (kw_blks s b)" using pool by (simp add: rx_pool_def)
  have "Some b \<notin> set (kw_rxb (rx_take s))"
  proof
    assume "Some b \<in> set (kw_rxb (rx_take s))"
    then obtain i where i: "i < Nrx" "kw_rxb (rx_take s) ! i = Some b" by (metis same(3) in_set_conv_nth)
    then have "i \<noteq> kw_rxhead s" "kw_rxb s ! i = Some b" by (auto simp: rxb split: if_splits)
    with i(1) h b pool show False by (auto simp: rx_pool_def)
  qed
  moreover have "b \<notin> set (kw_free s)" using pool h b by (auto simp: rx_pool_def)
  moreover have "rx_pool (rx_take s)"
    unfolding rx_pool_def same
  proof (intro conjI allI impI)
    show "i = j" if "i < Nrx \<and> j < Nrx \<and> kw_rxb (rx_take s) ! i = Some a \<and> kw_rxb (rx_take s) ! j = Some a"
      for i j a using that pool by (auto simp: rxb rx_pool_def split: if_splits)
    show "a \<notin> set (kw_free s)" if "i < Nrx \<and> kw_rxb (rx_take s) ! i = Some a" for i a
      using that pool by (auto simp: rxb rx_pool_def split: if_splits)
    show "b_rxfree (kw_blks s a)" if "a \<in> set (kw_free s) \<or> Some a \<in> set (kw_rxb (rx_take s))" for a
      using that pool sub by (auto simp: rx_pool_def)
  qed (use pool in \<open>simp add: rx_pool_def\<close>)
  ultimately show ?thesis using free by (simp add: rx_out_def same)
qed

text \<open>What happens to a block outside the ring and the pool does not concern them.\<close>

lemma rx_ring_frame:
  assumes "rx_ring k c s" and "kw_rx t = kw_rx s" "kw_rxb t = kw_rxb s" "kw_rxhead t = kw_rxhead s"
    "kw_rxtail t = kw_rxtail s" and "\<And>a. Some a \<in> set (kw_rxb s) \<Longrightarrow> b_rp (kw_blks t a) = b_rp (kw_blks s a)"
  shows "rx_ring k c t"
proof -
  have slot: "rx_slot t = rx_slot s" using assms(4) by (rule rx_slot_eq)
  have own: "rx_owned t = rx_owned s" by (simp add: rx_owned_def fun_eq_iff assms)
  show ?thesis
    unfolding rx_ring_def slot own assms(2-5)
  proof (intro conjI allI impI)
    show "rx_buf (kw_rx s ! rx_slot s j) = b_rp (kw_blks t b)"
      if "j < Nrx \<and> rx_owned s (rx_slot s j) \<and> kw_rxb s ! rx_slot s j = Some b" for j b
    proof -
      have "Some b \<in> set (kw_rxb s)"
        using that assms(1) rx_slot_less [of s j] unfolding rx_ring_def by (metis nth_mem)
      with assms(6) that assms(1) show ?thesis by (simp add: rx_ring_def)
    qed
  qed (use assms(1) in \<open>simp_all add: rx_ring_def\<close>)
qed

lemma rx_pool_frame:
  assumes "rx_pool s" and "kw_free t = kw_free s" "kw_rxb t = kw_rxb s"
    and "\<And>a. b_rxfree (kw_blks t a) = b_rxfree (kw_blks s a)"
  shows "rx_pool t"
  using assms by (simp add: rx_pool_def)

lemma rx_free_pool:
  assumes "rx_pool s" and "rx_out b s" and "b_rxfree (kw_blks s b)" and "length (kw_rxb s) = Nrx"
  shows "rx_pool (rx_free b s)"
proof -
  have "kw_rxb s ! i \<noteq> Some b" if "i < Nrx" for i
    using assms(2,4) that by (metis nth_mem rx_out_def)
  then show ?thesis
    using assms by (auto simp: rx_pool_def rx_free_def rx_out_def rx_reset_def Let_def)
qed

lemma rx_free_ring: "rx_ring k c s \<Longrightarrow> rx_out b s \<Longrightarrow> rx_ring k c (rx_free b s)"
  by (erule rx_ring_frame) (auto simp: rx_free_def rx_out_def)

section \<open>The frames of a run of finished descriptors\<close>

text \<open>\<open>freeb\<close> calls the function in \<open>b->free\<close>, and does nothing for \<open>nil\<close>.\<close>

definition freeb_calls :: "'q kwenv \<Rightarrow> bool" where
  "freeb_calls env \<longleftrightarrow>
     (\<forall>b s. b_rxfree (kw_blks s b) \<longrightarrow> kn_freeb env (Some b) s = rxfreeb b s) \<and>
     (\<forall>s. kn_freeb env None s = (Inr (), s))"

definition rx_bad :: "rxd \<Rightarrow> bool" where
  "rx_bad r \<longleftrightarrow> rx_cs r AND RCSmacerr \<noteq> 0 \<or> rx_cs r AND (RCSfirst OR RCSlast) \<noteq> RCSfirst OR RCSlast"

text \<open>The bytes of the frame in a finished descriptor's buffer, after the two bytes of padding.\<close>

definition rx_bytes :: "'q kw \<Rightarrow> rxd \<Rightarrow> nat option \<Rightarrow> u8 list list" where
  "rx_bytes s r b =
     (case b of
        None \<Rightarrow> []
      | Some b \<Rightarrow>
          if rx_bad r then []
          else [map (\<lambda>k. kw_mem s (b_rp (kw_blks s b) + 2 + of_nat k))
                  [0..<nat (sint (drop_bit 16 (rx_countsize r) - 2))]])"

definition rx_frames :: "'q kw \<Rightarrow> nat \<Rightarrow> u8 list list" where
  "rx_frames s c =
     concat (map (\<lambda>j. rx_bytes s (kw_rx s ! rx_slot s j) (kw_rxb s ! rx_slot s j)) [0..<c])"

definition iq_all :: "'q kwenv \<Rightarrow> u8 list list \<Rightarrow> 'q ether \<Rightarrow> 'q ether" where
  "iq_all env ps e = foldl (\<lambda>e p. snd (etheriq (kn_net env) (kn_stale env) p True e)) e ps"

lemma iq_all_append: "iq_all env (ps @ qs) e = iq_all env qs (iq_all env ps e)"
  by (simp add: iq_all_def)

lemma rx_one_run:
  assumes ring: "rx_ring k c s" and pool: "rx_pool s" and out: "rx_out b s"
    and free: "b_rxfree (kw_blks s b)" and lock: "\<not> kw_poollock s" and calls: "freeb_calls env"
  shows "\<exists>t. rx_one env r (Some b) s = (Inr (), t) \<and> rx_ring k c t \<and> rx_pool t \<and> \<not> kw_poollock t \<and>
    kw_rx t = kw_rx s \<and> kw_rxb t = kw_rxb s \<and> kw_rxhead t = kw_rxhead s \<and> kw_mem t = kw_mem s \<and>
    (\<forall>a. a \<noteq> b \<longrightarrow> kw_blks t a = kw_blks s a) \<and>
    kw_ether t = iq_all env (rx_bytes s r (Some b)) (kw_ether s)"
proof -
  have len: "length (kw_rxb s) = Nrx" using ring by (simp add: rx_ring_def)
  have returned: "\<exists>t. kn_freeb env (Some b) u = (Inr (), t) \<and> rx_ring k c t \<and> rx_pool t \<and> \<not> kw_poollock t \<and>
      kw_rx t = kw_rx s \<and> kw_rxb t = kw_rxb s \<and> kw_rxhead t = kw_rxhead s \<and> kw_mem t = kw_mem s \<and>
      (\<forall>a. a \<noteq> b \<longrightarrow> kw_blks t a = kw_blks s a) \<and> kw_ether t = kw_ether s"
    if "u = s\<lparr>kw_nofirstlast := n\<rparr> \<or> u = s" for u n
  proof -
    have u: "rx_ring k c u" "rx_pool u" "rx_out b u" "b_rxfree (kw_blks u b)" "\<not> kw_poollock u"
      "length (kw_rxb u) = Nrx" "kw_rx u = kw_rx s" "kw_rxb u = kw_rxb s" "kw_rxhead u = kw_rxhead s"
      "kw_mem u = kw_mem s" "kw_blks u = kw_blks s" "kw_ether u = kw_ether s"
      using that ring pool out free lock len
      by (auto simp: rx_out_def intro: rx_ring_frame [OF ring] rx_pool_frame [OF pool])
    have run: "kn_freeb env (Some b) u = (Inr (), rx_free b u)"
      using calls u(4,5) by (simp add: freeb_calls_def rxfreeb_run)
    have eq: "kw_rx (rx_free b u) = kw_rx u" "kw_rxb (rx_free b u) = kw_rxb u"
      "kw_rxhead (rx_free b u) = kw_rxhead u" "kw_mem (rx_free b u) = kw_mem u"
      "kw_ether (rx_free b u) = kw_ether u" "kw_poollock (rx_free b u) = kw_poollock u"
      "a \<noteq> b \<Longrightarrow> kw_blks (rx_free b u) a = kw_blks u a" for a
      by (simp_all add: rx_free_def)
    show ?thesis
      by (rule exI [of _ "rx_free b u"])
        (simp add: run eq u rx_free_pool [OF u(2,3,4,6)] rx_free_ring [OF u(1,3)])
  qed
  show ?thesis
  proof (cases "rx_bad r")
    case True
    then have "rx_one env r (Some b) s = kn_freeb env (Some b) s \<or>
      rx_one env r (Some b) s = kn_freeb env (Some b) (s\<lparr>kw_nofirstlast := kw_nofirstlast s + 1\<rparr>)"
      by (simp add: rx_one_def rx_bad_def)
    moreover have "rx_bytes s r (Some b) = []" using True by (simp add: rx_bytes_def)
    ultimately show ?thesis
      using returned [of s 0] returned [of "s\<lparr>kw_nofirstlast := kw_nofirstlast s + 1\<rparr>" "kw_nofirstlast s + 1"]
      by (auto simp: iq_all_def)
  next
    case False
    let ?u = "rx_frame b (rx_countsize r) s"
    let ?t = "?u\<lparr>kw_ether := snd (etheriq (kn_net env) (kn_stale env) (blk_bytes ?u b) True (kw_ether ?u))\<rparr>"
    have run: "rx_one env r (Some b) s = (Inr (), ?t)"
      using False by (simp add: rx_one_def rx_bad_def pass_up_def kthen_def kbind_def)
    have bytes: "rx_bytes s r (Some b) = [blk_bytes ?u b]"
      using False by (simp add: rx_bytes_def blk_bytes_def rx_frame_def Let_def blen_def
          diff_add_eq_diff_diff_swap algebra_simps)
    have eq: "kw_rx ?t = kw_rx s" "kw_rxb ?t = kw_rxb s" "kw_rxhead ?t = kw_rxhead s" "kw_rxtail ?t = kw_rxtail s"
      "kw_mem ?t = kw_mem s" "kw_free ?t = kw_free s" "kw_poollock ?t = kw_poollock s"
      "a \<noteq> b \<Longrightarrow> kw_blks ?t a = kw_blks s a" "b_rxfree (kw_blks ?t a) = b_rxfree (kw_blks s a)"
      "kw_ether ?u = kw_ether s" for a
      by (simp_all add: rx_frame_def Let_def)
    have "rx_ring k c ?t"
    proof (rule rx_ring_frame [OF ring eq(1-4)])
      fix a
      assume "Some a \<in> set (kw_rxb s)"
      with out have "a \<noteq> b" by (auto simp: rx_out_def)
      then show "b_rp (kw_blks ?t a) = b_rp (kw_blks s a)" by (simp add: rx_frame_def Let_def)
    qed
    moreover have "rx_pool ?t" by (rule rx_pool_frame [OF pool eq(6,2,9)])
    moreover have "kw_ether ?t = iq_all env (rx_bytes s r (Some b)) (kw_ether s)"
      by (simp add: bytes iq_all_def eq(10))
    ultimately show ?thesis
      using run eq lock by (intro exI [of _ ?t]) simp
  qed
qed

lemma rx_bytes_cong:
  assumes "kw_mem t = kw_mem s" and "\<And>a. b = Some a \<Longrightarrow> b_rp (kw_blks t a) = b_rp (kw_blks s a)"
  shows "rx_bytes t r b = rx_bytes s r b"
  using assms by (cases b) (simp_all add: rx_bytes_def)

lemma rx_frames_Suc:
  assumes ring: "rx_ring (Suc k) (Suc c') s" and c: "c \<le> c'"
    and t: "kw_rx t = kw_rx s" "kw_rxb t = kw_rxb (rx_take s)" "kw_rxhead t = kw_rxhead (rx_take s)"
      "kw_mem t = kw_mem s"
    and b: "kw_rxb s ! kw_rxhead s = Some b" and blks: "\<And>a. a \<noteq> b \<Longrightarrow> kw_blks t a = kw_blks s a"
    and out: "rx_out b (rx_take s)"
  shows "rx_frames s (Suc c) = rx_bytes s (kw_rx s ! kw_rxhead s) (Some b) @ rx_frames t c"
proof -
  have len: "length (kw_rxb s) = Nrx" "kw_rxhead s < Nrx" and le: "Suc c \<le> Nrx"
    using ring c by (simp_all add: rx_ring_def)
  have slot: "rx_slot t j = rx_slot s (Suc j)" for j
    using rx_slot_eq [OF t(3)] by (simp add: rx_take_slot)
  have "rx_bytes t (kw_rx t ! rx_slot t j) (kw_rxb t ! rx_slot t j)
      = rx_bytes s (kw_rx s ! rx_slot s (Suc j)) (kw_rxb s ! rx_slot s (Suc j))" if "j < c" for j
  proof -
    have j: "Suc j < Nrx" using that le by simp
    have eq: "kw_rxb t ! rx_slot t j = kw_rxb s ! rx_slot s (Suc j)"
      using rx_take_rxb [OF len j] by (simp add: t slot)
    have "b_rp (kw_blks t a) = b_rp (kw_blks s a)" if "kw_rxb s ! rx_slot s (Suc j) = Some a" for a
    proof -
      have "rx_slot s (Suc j) < length (kw_rxb t)" using len by (simp add: t rx_take_def)
      then have "Some a \<in> set (kw_rxb t)" using that eq slot by (metis nth_mem)
      with out have "a \<noteq> b" by (auto simp: rx_out_def t)
      then show ?thesis by (simp add: blks)
    qed
    then have "rx_bytes t r (kw_rxb s ! rx_slot s (Suc j)) = rx_bytes s r (kw_rxb s ! rx_slot s (Suc j))" for r
      by (rule rx_bytes_cong [OF t(4)])
    then show ?thesis by (simp add: eq t(1)) (simp add: slot)
  qed
  then have "rx_frames t c = concat (map (\<lambda>j. rx_bytes s (kw_rx s ! rx_slot s (Suc j))
      (kw_rxb s ! rx_slot s (Suc j))) [0..<c])"
    unfolding rx_frames_def by (intro arg_cong [where f = concat] map_cong) simp_all
  moreover have "[0..<Suc c] = 0 # map Suc [0..<c]" by (simp add: upt_conv_Cons map_Suc_upt del: upt_Suc)
  moreover have "rx_slot s 0 = kw_rxhead s" using len by (simp add: rx_slot_def)
  ultimately show ?thesis by (simp add: rx_frames_def b o_def del: upt_Suc)
qed

text \<open>The loop works through the finished descriptors in the order of the ring.\<close>

lemma receive_loop_steps:
  assumes "rx_ring k (c + d) s" and "rx_pool s" and "\<not> kw_poollock s" and "freeb_calls env" and "c \<le> n"
  shows "\<exists>t. receive_loop env n s = receive_loop env (n - c) t \<and> rx_ring (k - c) d t \<and> rx_pool t \<and>
    \<not> kw_poollock t \<and> kw_rxhead t = rx_slot s c \<and> kw_rx t = kw_rx s \<and>
    kw_ether t = iq_all env (rx_frames s c) (kw_ether s)"
  using assms
proof (induction c arbitrary: k s n)
  case 0
  then have "rx_slot s 0 = kw_rxhead s" by (simp add: rx_slot_def rx_ring_def)
  with "0.prems" show ?case by (intro exI [of _ s]) (simp add: rx_frames_def iq_all_def)
next
  case (Suc c)
  from Suc.prems obtain n' where n: "n = Suc n'" "c \<le> n'" by (cases n) auto
  from Suc.prems(1) have "Suc c + d \<le> k" by (simp add: rx_ring_def)
  then obtain k' where k: "k = Suc k'" by (cases k) auto
  have ring: "rx_ring (Suc k') (Suc (c + d)) s" using Suc.prems(1) k by simp
  note pool = Suc.prems(2)
  have slot0: "rx_slot s 0 = kw_rxhead s" using ring by (simp add: rx_slot_def rx_ring_def)
  have notown: "\<not> rx_owned s (rx_slot s 0)" using ring by (simp add: rx_ring_def)
  have "\<forall>j<Nrx. kw_rxb s ! rx_slot s j \<noteq> None \<longleftrightarrow> j < Suc k'" using ring unfolding rx_ring_def by blast
  then have "kw_rxb s ! rx_slot s 0 \<noteq> None" by (auto dest: spec [of _ 0])
  then obtain b where b: "kw_rxb s ! kw_rxhead s = Some b" by (auto simp: slot0)
  let ?r = "kw_rx s ! kw_rxhead s"
  have 1: "rx_ring k' (c + d) (rx_take s)" by (rule rx_take_ring [OF ring])
  from rx_take_out [OF ring pool b]
  have 2: "rx_pool (rx_take s)" "rx_out b (rx_take s)" "b_rxfree (kw_blks (rx_take s) b)"
    by (simp_all add: rx_take_def)
  have lock: "\<not> kw_poollock (rx_take s)" using Suc.prems(3) by (simp add: rx_take_def)
  from rx_one_run [OF 1 2 lock Suc.prems(4), of ?r] obtain t where
    t: "rx_one env ?r (Some b) (rx_take s) = (Inr (), t)" "rx_ring k' (c + d) t" "rx_pool t"
      "\<not> kw_poollock t" "kw_rx t = kw_rx (rx_take s)" "kw_rxb t = kw_rxb (rx_take s)"
      "kw_rxhead t = kw_rxhead (rx_take s)" "kw_mem t = kw_mem (rx_take s)"
      "\<And>a. a \<noteq> b \<Longrightarrow> kw_blks t a = kw_blks (rx_take s) a"
      "kw_ether t = iq_all env (rx_bytes (rx_take s) ?r (Some b)) (kw_ether (rx_take s))" by blast
  from Suc.IH [OF t(2,3,4) Suc.prems(4) n(2)] obtain u where
    u: "receive_loop env n' t = receive_loop env (n' - c) u" "rx_ring (k' - c) d u" "rx_pool u"
      "\<not> kw_poollock u" "kw_rxhead u = rx_slot t c" "kw_rx u = kw_rx t"
      "kw_ether u = iq_all env (rx_frames t c) (kw_ether t)" by blast
  have run: "receive_loop env n s = receive_loop env (n - Suc c) u"
    using notown b t(1) u(1) by (simp add: n(1) rx_owned_def slot0 kthen_def kbind_def)
  have head: "rx_slot t c = rx_slot s (Suc c)"
    using rx_slot_eq [OF t(7)] by (simp add: rx_take_slot)
  have same: "kw_rx (rx_take s) = kw_rx s" "kw_mem (rx_take s) = kw_mem s" "kw_blks (rx_take s) = kw_blks s"
    "kw_ether (rx_take s) = kw_ether s"
    by (simp_all add: rx_take_def)
  have "rx_bytes (rx_take s) ?r (Some b) = rx_bytes s ?r (Some b)"
    by (rule rx_bytes_cong) (simp_all add: same)
  with rx_frames_Suc [OF ring _ _ t(6,7) _ b _ 2(2), of c] t(5,8,9)
  have "rx_frames s (Suc c) = rx_bytes (rx_take s) ?r (Some b) @ rx_frames t c" by (simp add: same)
  with u t(10) have ether: "kw_ether u = iq_all env (rx_frames s (Suc c)) (kw_ether s)"
    by (simp add: iq_all_append same)
  show ?case
    by (rule exI [of _ u]) (use run head k u t(5) ether same in simp)
qed

lemma receive_run:
  assumes "rx_ring k c s" and "rx_pool s" and "\<not> kw_poollock s" and "freeb_calls env"
    and fuel: "c < kn_fuel env" and c: "c < k"
  shows "\<exists>t k'. receive env s = (Inr (), t) \<and> rx_ring k' 0 t \<and> rx_pool t \<and> \<not> kw_poollock t \<and>
    kw_rxhead t = rx_slot s c \<and> kw_ether t = iq_all env (rx_frames s c) (kw_ether s) \<and>
    (k' = Nrx \<or> kw_free t = [])"
proof -
  have "rx_ring k (c + 0) s" using assms(1) by simp
  from receive_loop_steps [OF this assms(2-4) less_imp_le [OF fuel]] obtain t where
    t: "receive_loop env (kn_fuel env) s = receive_loop env (kn_fuel env - c) t" "rx_ring (k - c) 0 t"
      "rx_pool t" "\<not> kw_poollock t" "kw_rxhead t = rx_slot s c"
      "kw_ether t = iq_all env (rx_frames s c) (kw_ether s)" by blast
  obtain m where m: "kn_fuel env - c = Suc m" using fuel by (cases "kn_fuel env - c") auto
  have "rx_owned t (rx_slot t 0)" using t(2) c by (simp add: rx_ring_def)
  moreover have "rx_slot t 0 = kw_rxhead t" using t(2) by (simp add: rx_slot_def rx_ring_def)
  ultimately have loop: "receive_loop env (kn_fuel env) s = (Inr (), t)"
    by (simp add: t(1) m rx_owned_def)
  from rxreplenish_ring [OF t(2-4), of "Suc (length (kw_free t))"] obtain u k' where
    u: "rxreplenish_loop (Suc (length (kw_free t))) t = (Inr (), u)" "rx_ring k' 0 u" "rx_pool u"
      "k' = Nrx \<or> kw_free u = []" "kw_rxhead u = kw_rxhead t" "kw_ether u = kw_ether t"
      "\<not> kw_poollock u" by blast
  have "receive env s = (Inr (), u)"
    using loop u(1) by (simp add: receive_def kthen_def kbind_def rxreplenish_def)
  with u t show ?thesis by auto
qed

text \<open>A ring without a buffer: the loop ends in the nil pointer, or not at all.\<close>

definition rx_dry :: "'q kw \<Rightarrow> bool" where
  "rx_dry s \<longleftrightarrow> length (kw_rxb s) = Nrx \<and> kw_rxhead s < Nrx \<and>
     (\<forall>i<Nrx. \<not> rx_owned s i \<and> kw_rxb s ! i = None)"

lemma receive_loop_dry:
  assumes "rx_dry s" and "freeb_calls env"
  shows "\<exists>e t. receive_loop env n s = (Inl e, t)"
  using assms
proof (induction n arbitrary: s)
  case 0
  then show ?case by simp
next
  case (Suc n)
  let ?h = "kw_rxhead s"
  have h: "\<not> rx_owned s ?h" "kw_rxb s ! ?h = None" using Suc.prems(1) by (simp_all add: rx_dry_def)
  have dry: "rx_dry (rx_take s)" "rx_dry ((rx_take s)\<lparr>kw_nofirstlast := x\<rparr>)" for x
    using Suc.prems(1) by (simp_all add: rx_dry_def rx_take_def rx_owned_def NEXT_def nth_list_update)
  have nil: "kn_freeb env None u = (Inr (), u)" for u using Suc.prems(2) by (simp add: freeb_calls_def)
  show ?case
    using h Suc.IH [OF dry(1) Suc.prems(2)] Suc.IH [OF dry(2) Suc.prems(2)]
    by (auto simp: rx_owned_def rx_one_def kthen_def kbind_def nil)
qed

lemma rx_ring_dry:
  assumes "rx_ring 0 0 s"
  shows "rx_dry s"
proof -
  have "\<not> rx_owned s i \<and> kw_rxb s ! i = None" if "i < Nrx" for i
  proof -
    from assms have "kw_rxhead s < Nrx" by (simp add: rx_ring_def)
    from rx_slot_surj [OF that this] obtain j where "j < Nrx" "i = rx_slot s j" by blast
    with assms show ?thesis by (simp add: rx_ring_def)
  qed
  with assms show ?thesis by (simp add: rx_dry_def rx_ring_def)
qed

lemma receive_dry_run:
  assumes "rx_ring k k s" and "rx_pool s" and "\<not> kw_poollock s" and "freeb_calls env"
  shows "\<exists>e. fst (receive env s) = Inl e"
proof (cases "k \<le> kn_fuel env")
  case True
  have "rx_ring k (k + 0) s" using assms(1) by simp
  from receive_loop_steps [OF this assms(2-4) True] obtain t where
    t: "receive_loop env (kn_fuel env) s = receive_loop env (kn_fuel env - k) t" "rx_ring 0 0 t"
    by auto
  obtain e u where "receive_loop env (kn_fuel env - k) t = (Inl e, u)"
    using receive_loop_dry [OF rx_ring_dry [OF t(2)] assms(4)] by blast
  with t(1) show ?thesis by (simp add: receive_def kthen_def kbind_def)
next
  case False
  have "rx_ring k (kn_fuel env + (k - kn_fuel env)) s" using assms(1) False by simp
  from receive_loop_steps [OF this assms(2-4) order_refl] obtain u where
    "receive_loop env (kn_fuel env) s = receive_loop env 0 u" by auto
  then show ?thesis by (simp add: receive_def kthen_def kbind_def)
qed

section \<open>Runs of the receive side\<close>

text \<open>
  What may happen to the receive side once the controller has been initialised: the controller
  finishes the first descriptor it owns, writing only to that descriptor and to the buffer it points
  to; the driver handles an interrupt; the network code gives a block back.
\<close>

definition rx_done :: "nat \<Rightarrow> u32 \<Rightarrow> u32 \<Rightarrow> (u32 \<Rightarrow> u8) \<Rightarrow> 'q kw \<Rightarrow> 'q kw" where
  "rx_done i cs countsize m s =
     s\<lparr>kw_rx := (kw_rx s)[i := (kw_rx s ! i)\<lparr>rx_cs := cs, rx_countsize := countsize\<rparr>], kw_mem := m\<rparr>"

inductive rx_step :: "'q kwenv \<Rightarrow> 'q kw \<Rightarrow> 'q kw \<Rightarrow> bool" for env where
  finish: "\<lbrakk>j < Nrx; rx_owned s (rx_slot s j); \<forall>i<j. \<not> rx_owned s (rx_slot s i); cs AND RCSdmaown = 0\<rbrakk>
    \<Longrightarrow> rx_step env s (rx_done (rx_slot s j) cs countsize m s)"
| handle: "receive env s = (Inr (), t) \<Longrightarrow> rx_step env s t"
| give_back: "\<lbrakk>rx_out b s; b_rxfree (kw_blks s b); rxfreeb b s = (Inr (), t)\<rbrakk> \<Longrightarrow> rx_step env s t"

inductive_cases rx_stepE: "rx_step env s t"

definition rx_inv :: "'q kw \<Rightarrow> bool" where
  "rx_inv s \<longleftrightarrow> (\<exists>k c. rx_ring k c s) \<and> rx_pool s \<and> \<not> kw_poollock s"

lemma finish_ring:
  assumes ring: "rx_ring k c s" and j: "j < Nrx" "rx_owned s (rx_slot s j)"
    and first: "\<forall>i<j. \<not> rx_owned s (rx_slot s i)" and cs: "cs AND RCSdmaown = 0"
  shows "rx_ring k (Suc c) (rx_done (rx_slot s j) cs countsize m s)"
proof -
  let ?t = "rx_done (rx_slot s j) cs countsize m s"
  have own: "\<And>i. i < Nrx \<Longrightarrow> rx_owned s (rx_slot s i) \<longleftrightarrow> c \<le> i \<and> i < k"
    using ring by (simp add: rx_ring_def)
  have len: "length (kw_rx s) = Nrx" using ring by (simp add: rx_ring_def)
  have "c \<le> j" "j < k" using own j by blast+
  moreover have "\<not> c < j" using first own [of c] j(1) calculation by (auto dest: spec [of _ c])
  ultimately have c: "j = c" "c < k" by simp_all
  have slot: "rx_slot ?t = rx_slot s" by (rule rx_slot_eq) (simp add: rx_done_def)
  have rx: "kw_rx ?t ! rx_slot s i = (if i = c then (kw_rx s ! rx_slot s j)\<lparr>rx_cs := cs, rx_countsize := countsize\<rparr>
      else kw_rx s ! rx_slot s i)" if "i < Nrx" for i
    using that j(1) c by (simp add: rx_done_def len nth_list_update rx_slot_inj)
  have own': "rx_owned ?t (rx_slot s i) \<longleftrightarrow> Suc c \<le> i \<and> i < k" if "i < Nrx" for i
    using that own [OF that] cs by (auto simp: rx_owned_def rx)
  have same: "kw_rxb ?t = kw_rxb s" "kw_blks ?t = kw_blks s" "kw_rxhead ?t = kw_rxhead s"
    "kw_rxtail ?t = kw_rxtail s" "length (kw_rx ?t) = Nrx"
    by (simp_all add: rx_done_def len)
  show ?thesis
    unfolding rx_ring_def slot same
  proof (intro conjI allI impI)
    show "rx_buf (kw_rx ?t ! rx_slot s i) = b_rp (kw_blks s b)"
      if "i < Nrx \<and> rx_owned ?t (rx_slot s i) \<and> kw_rxb s ! rx_slot s i = Some b" for i b
    proof -
      have "i \<noteq> c" "rx_owned s (rx_slot s i)" using that own' own by auto
      with that ring show ?thesis by (auto simp: rx rx_ring_def)
    qed
    show "rx_owned ?t (rx_slot s i) \<longleftrightarrow> Suc c \<le> i \<and> i < k" if "i < Nrx" for i
      using that by (rule own')
  qed (use ring c in \<open>simp_all add: rx_ring_def\<close>)
qed

lemma rx_step_inv:
  assumes "rx_step env s t" and inv: "rx_inv s" and calls: "freeb_calls env"
  shows "rx_inv t"
  using assms(1)
proof (cases rule: rx_step.cases)
  case (finish j cs countsize m)
  from inv obtain k c where "rx_ring k c s" by (auto simp: rx_inv_def)
  with finish have "rx_ring k (Suc c) t" by (auto intro: finish_ring)
  moreover have "rx_pool t"
    using inv finish(1) by (auto simp: rx_inv_def rx_done_def intro: rx_pool_frame)
  ultimately show ?thesis using inv finish(1) by (auto simp: rx_inv_def rx_done_def)
next
  case (give_back b)
  from inv obtain k c where ring: "rx_ring k c s" and pool: "rx_pool s" and lock: "\<not> kw_poollock s"
    by (auto simp: rx_inv_def)
  have t: "t = rx_free b s" using give_back(3) lock by (simp add: rxfreeb_run)
  have "length (kw_rxb s) = Nrx" using ring by (simp add: rx_ring_def)
  then have "rx_pool t" unfolding t by (rule rx_free_pool [OF pool give_back(1,2)])
  moreover have "rx_ring k c t" unfolding t by (rule rx_free_ring [OF ring give_back(1)])
  moreover have "\<not> kw_poollock t" using lock by (simp add: t rx_free_def)
  ultimately show ?thesis by (auto simp: rx_inv_def)
next
  case handle
  from inv obtain k c where ring: "rx_ring k c s" and pool: "rx_pool s" "\<not> kw_poollock s"
    by (auto simp: rx_inv_def)
  show ?thesis
  proof (cases "c < k")
    case True
    show ?thesis
    proof (cases "c < kn_fuel env")
      case fuel: True
      from receive_run [OF ring pool calls fuel True] handle show ?thesis
        by (auto simp: rx_inv_def)
    next
      case False
      have "rx_ring k (kn_fuel env + (c - kn_fuel env)) s" using ring False by simp
      from receive_loop_steps [OF this pool calls order_refl] obtain u where
        "receive_loop env (kn_fuel env) s = receive_loop env 0 u" by auto
      with handle show ?thesis by (simp add: receive_def kthen_def kbind_def)
    qed
  next
    case False
    then have ck: "c = k" using ring by (simp add: rx_ring_def)
    from receive_dry_run [OF ring[unfolded ck] pool calls] handle show ?thesis by simp
  qed
qed

section \<open>Initialisation establishes the invariant\<close>

lemma rx_inv_frame:
  assumes "rx_inv s" and "kw_rx t = kw_rx s" "kw_rxb t = kw_rxb s" "kw_rxhead t = kw_rxhead s"
    "kw_rxtail t = kw_rxtail s" "kw_blks t = kw_blks s" "kw_free t = kw_free s"
    "kw_poollock t = kw_poollock s"
  shows "rx_inv t"
proof -
  from assms(1) obtain k c where "rx_ring k c s" by (auto simp: rx_inv_def)
  then have "rx_ring k c t" by (rule rx_ring_frame) (simp_all add: assms)
  moreover have "rx_pool t" using assms(1) by (auto simp: rx_inv_def assms intro: rx_pool_frame)
  ultimately show ?thesis using assms(1,8) by (auto simp: rx_inv_def)
qed

text \<open>\<open>iallocb\<close> never returns the same block twice.\<close>

definition alloc_distinct :: "'q kwenv \<Rightarrow> bool" where
  "alloc_distinct env \<longleftrightarrow> (\<forall>m n sz sz' b k k'.
     kn_iallocb env m sz = Some (b, k) \<and> kn_iallocb env n sz' = Some (b, k') \<longrightarrow> m = n)"

lemma fill_pool_ok:
  assumes "alloc_distinct env" and "distinct (kw_free s)"
    and "\<forall>b\<in>set (kw_free s). b_rxfree (kw_blks s b) \<and>
      (\<exists>m sz k. m < kw_allocs s \<and> kn_iallocb env m sz = Some (b, k))"
  shows "distinct (kw_free (fill_pool env n s)) \<and>
    (\<forall>b\<in>set (kw_free (fill_pool env n s)). b_rxfree (kw_blks (fill_pool env n s) b)) \<and>
    kw_poollock (fill_pool env n s) = kw_poollock s"
  using assms(2,3)
proof (induction n arbitrary: s)
  case 0
  then show ?case by simp
next
  case (Suc n)
  show ?case
  proof (cases "kn_iallocb env (kw_allocs s) (Rxblocklen + 7)")
    case None
    with Suc.prems show ?thesis by auto
  next
    case (Some bk)
    then obtain b k where b: "kn_iallocb env (kw_allocs s) (Rxblocklen + 7) = Some (b, k)" by (cases bk) auto
    let ?t = "s\<lparr>kw_allocs := Suc (kw_allocs s), kw_blks := (kw_blks s)(b := k\<lparr>b_rxfree := True\<rparr>),
      kw_free := b # kw_free s\<rparr>"
    have fresh: "b \<notin> set (kw_free s)"
    proof
      assume "b \<in> set (kw_free s)"
      then obtain m sz k' where m: "m < kw_allocs s" "kn_iallocb env m sz = Some (b, k')"
        using Suc.prems(2) by blast
      have "m = kw_allocs s" using assms(1) m(2) b unfolding alloc_distinct_def by blast
      with m(1) show False by simp
    qed
    have "\<forall>a\<in>set (kw_free ?t). b_rxfree (kw_blks ?t a) \<and>
        (\<exists>m sz k. m < kw_allocs ?t \<and> kn_iallocb env m sz = Some (a, k))"
    proof
      fix a
      assume "a \<in> set (kw_free ?t)"
      then consider "a = b" | "a \<in> set (kw_free s)" by auto
      then show "b_rxfree (kw_blks ?t a) \<and>
        (\<exists>m sz k. m < kw_allocs ?t \<and> kn_iallocb env m sz = Some (a, k))"
      proof cases
        case 1
        with b show ?thesis by auto
      next
        case 2
        with Suc.prems(2) obtain m sz k' where "b_rxfree (kw_blks s a)" "m < kw_allocs s"
          "kn_iallocb env m sz = Some (a, k')" by blast
        then show ?thesis by (auto intro!: exI [of _ m])
      qed
    qed
    with Suc.IH [of ?t] Suc.prems(1) fresh b show ?thesis by simp
  qed
qed

lemma init_rxring_ring:
  assumes "distinct (kw_free s)" and "\<forall>b\<in>set (kw_free s). b_rxfree (kw_blks s b)"
  shows "rx_ring 0 0 (init_rxring base s) \<and> rx_pool (init_rxring base s)"
  using assms
  by (auto simp: rx_ring_def rx_pool_def init_rxring_def rx_slot_def rx_owned_def)

lemma ctlrinit_run:
  assumes fresh: "\<not> kw_freeinit s" "kw_free s = []" and lock: "\<not> kw_poollock s"
    and rxbase: "kn_rxring env = Some rxbase" and txbase: "kn_txring env = Some txbase"
    and alloc: "alloc_distinct env"
  shows "\<exists>t. ctlrinit env s = (Inr (), t) \<and> rx_inv t"
proof -
  let ?p = "(fill_pool env Nrxblocks (s\<lparr>kw_poollock := True\<rparr>))\<lparr>kw_freeinit := True\<rparr>"
  let ?q = "?p\<lparr>kw_poollock := False\<rparr>"
  have pool: "with_ilock kw_poollock put_poollock
      (kmod (\<lambda>s. if kw_freeinit s then s else (fill_pool env Nrxblocks s)\<lparr>kw_freeinit := True\<rparr>)) s
    = (Inr (), ?q)"
    by (subst kw_pool.with_ilock_run [where x = "()" and t = ?p])
      (use fresh lock in \<open>simp_all add: put_poollock_def\<close>)
  from fill_pool_ok [OF alloc, of "s\<lparr>kw_poollock := True\<rparr>" Nrxblocks] fresh
  have "distinct (kw_free ?q)" "\<forall>b\<in>set (kw_free ?q). b_rxfree (kw_blks ?q b)" by simp_all
  from init_rxring_ring [OF this, of rxbase] have ring: "rx_ring 0 0 (init_rxring rxbase ?q)"
    "rx_pool (init_rxring rxbase ?q)" "\<not> kw_poollock (init_rxring rxbase ?q)"
    by (simp_all add: init_rxring_def)
  from rxreplenish_ring [OF ring, of "Suc (length (kw_free (init_rxring rxbase ?q)))"]
  obtain u k' where u: "rxreplenish (init_rxring rxbase ?q) = (Inr (), u)" "rx_ring k' 0 u" "rx_pool u"
    "\<not> kw_poollock u" by (auto simp: rxreplenish_def)
  let ?t = "init_start (archetheraddr 0 (init_regs rxbase txbase (clear_mibregs (init_txring txbase u))))"
  have "rx_inv u" using u by (auto simp: rx_inv_def)
  then have "rx_inv ?t"
    by (auto intro!: rx_inv_frame [of u] simp: init_start_def archetheraddr_def init_regs_def
        clear_mibregs_def init_txring_def Let_def)
  moreover have "ctlrinit env s = (Inr (), ?t)"
    using pool u(1) rxbase txbase by (simp add: ctlrinit_def kthen_def kbind_def)
  ultimately show ?thesis by blast
qed

lemma ctlrinit_inv:
  assumes run: "ctlrinit env s = (Inr (), t)" and fresh: "\<not> kw_freeinit s" "kw_free s = []"
    and alloc: "alloc_distinct env"
  shows "rx_inv t"
proof -
  have lock: "\<not> kw_poollock s"
    using run by (auto simp: ctlrinit_def kthen_Inr_iff dest: kw_pool.with_ilock_Inr)
  obtain rxbase where rxbase: "kn_rxring env = Some rxbase"
    using run by (cases "kn_rxring env") (auto simp: ctlrinit_def kthen_Inr_iff)
  obtain txbase where txbase: "kn_txring env = Some txbase"
    using run rxbase by (cases "kn_txring env") (auto simp: ctlrinit_def kthen_Inr_iff)
  from ctlrinit_run [OF fresh lock rxbase txbase alloc] run show ?thesis by auto
qed

inductive rx_reach :: "'q kwenv \<Rightarrow> 'q kw \<Rightarrow> bool" for env where
  start: "\<lbrakk>ctlrinit env s = (Inr (), t); \<not> kw_freeinit s; kw_free s = []\<rbrakk> \<Longrightarrow> rx_reach env t"
| step: "\<lbrakk>rx_reach env s; rx_step env s t\<rbrakk> \<Longrightarrow> rx_reach env t"

section \<open>A sample controller\<close>

text \<open>
  A ring with a block at every descriptor, the first of which holds a finished frame of 60 bytes, and
  one block left in the pool.
\<close>

definition kw_sample_env :: "u8 list list kwenv" where
  "kw_sample_env = \<lparr>kn_net = sample_env, kn_stale = [], kn_qcanread = (\<lambda>q. q \<noteq> []),
     kn_qget = (\<lambda>q. (600, tl q)),
     kn_freeb = (\<lambda>x s. case x of None \<Rightarrow> (Inr (), s)
        | Some b \<Rightarrow> if b_rxfree (kw_blks s b) then rxfreeb b s else (Inr (), s)),
     kn_iallocb = (\<lambda>n sz. Some (n, \<lparr>b_rp = 0, b_wp = 0, b_lim = of_nat (2048 * Suc n), b_rxfree = False\<rparr>)),
     kn_rxring = Some 0x1000, kn_txring = Some 0x3000, kn_rd = (\<lambda>r n v. 0),
     kn_parsecmd = (\<lambda>b. Inr (tokenize 4 (cstr b))), kn_memok = True, kn_mii = kret (Some 0),
     kn_miistatus = kret 0, kn_miireset = kret (), kn_miiane = kret 0, kn_Bmsr = 1, kn_BmsrLs = 4,
     kn_BmsrAnc = 0x20, kn_fuel = 1024\<rparr>"

definition sample_regs :: gbereg where
  "sample_regs = \<lparr>g_phy = 0, g_smi = 0, g_portcfg = 0, g_portcfgx = 0, g_macal = 0, g_macah = 0,
     g_sdc = 0, g_psc0 = 0, g_ps0 = 0, g_tqc = 0, g_psc1 = 0, g_ps1 = 0, g_irq = 0, g_irqe = 0,
     g_irqmask = 0, g_irqemask = 0, g_euirq = 0, g_euirqmask = 0, g_pxtfut = 0, g_pxmfs = 0,
     g_pxdfc = 0, g_pxofc = 0, g_pmtu = 0, g_crdp0 = 0, g_rqc = 0, g_tcqdp0 = 0, g_rxoctetslo = 0,
     g_txoctetslo = 0, g_mib = (\<lambda>_. 0), g_dfut = [0, 0, 0, 0]\<rparr>"

definition kw_blank :: "u8 list list kw" where
  "kw_blank = \<lparr>kw_ether = sample_ether, kw_link = False, kw_oerrs = 0, kw_overflows = 0,
     kw_lock = False, kw_initlock = False, kw_poollock = False, kw_reg = sample_regs, kw_init = False,
     kw_port = 0, kw_rx = [], kw_rxb = [], kw_rxhead = 0, kw_rxtail = 0, kw_tx = [], kw_txb = [],
     kw_txhead = 0, kw_txtail = 0, kw_free = [], kw_freeinit = False,
     kw_blks = (\<lambda>b. \<lparr>b_rp = of_nat (2048 * b), b_wp = of_nat (2048 * b), b_lim = of_nat (2048 * Suc b),
        b_rxfree = b < 600\<rparr>),
     kw_mem = (\<lambda>_. 7), kw_linkchange = False, kw_speed = 0, kw_intrs = 0, kw_newintrs = 0,
     kw_txunderrun = 0, kw_txringfull = 0, kw_rxdiscard = 0, kw_rxoverrun = 0, kw_nofirstlast = 0,
     kw_rxoctets = 0, kw_txoctets = 0, kw_mib = (\<lambda>_. 0), kw_reads = 0, kw_allocs = 0\<rparr>"

definition sample_rxd :: "nat \<Rightarrow> rxd" where
  "sample_rxd i =
     (if i = 0 then \<lparr>rx_cs = RCSfirst OR RCSlast, rx_countsize = 62 * 65536, rx_buf = 0, rx_next = 0\<rparr>
      else \<lparr>rx_cs = RCSdmaown OR RCSenableintr, rx_countsize = 0, rx_buf = of_nat (2048 * i), rx_next = 0\<rparr>)"

definition kw_sample :: "u8 list list kw" where
  "kw_sample = kw_blank\<lparr>kw_rx := map sample_rxd [0..<Nrx], kw_rxb := map Some [0..<Nrx], kw_free := [512]\<rparr>"

lemma kw_sample_ok:
  "rx_ring Nrx 1 kw_sample" "rx_pool kw_sample" "\<not> kw_poollock kw_sample" "freeb_calls kw_sample_env"
  "alloc_distinct kw_sample_env"
proof -
  have slot: "rx_slot kw_sample j = j" if "j < Nrx" for j
    using that by (simp add: rx_slot_def kw_sample_def kw_blank_def)
  have rx: "kw_rx kw_sample ! j = sample_rxd j" "kw_rxb kw_sample ! j = Some j" if "j < Nrx" for j
    using that by (simp_all add: kw_sample_def)
  have own: "rx_owned kw_sample j \<longleftrightarrow> 1 \<le> j" if "j < Nrx" for j
    using that by (simp add: rx_owned_def rx sample_rxd_def)
  have tail: "kw_rxtail kw_sample = rx_slot kw_sample Nrx"
    by (simp add: rx_slot_def kw_sample_def kw_blank_def)
  have buf: "rx_buf (sample_rxd j) = b_rp (kw_blks kw_sample j)" for j
    by (simp add: sample_rxd_def kw_sample_def kw_blank_def)
  have len: "length (kw_rx kw_sample) = Nrx" "length (kw_rxb kw_sample) = Nrx" "kw_rxhead kw_sample < Nrx"
    by (simp_all add: kw_sample_def kw_blank_def)
  show "rx_ring Nrx 1 kw_sample"
    unfolding rx_ring_def
    by (intro conjI) (use len tail in \<open>auto simp: slot own rx buf\<close>)
  show "rx_pool kw_sample"
    by (auto simp: rx_pool_def rx kw_sample_def kw_blank_def)
  show "\<not> kw_poollock kw_sample" by (simp add: kw_sample_def kw_blank_def)
  show "freeb_calls kw_sample_env" by (simp add: freeb_calls_def kw_sample_env_def)
  show "alloc_distinct kw_sample_env" by (simp add: alloc_distinct_def kw_sample_env_def)
qed

section \<open>Properties\<close>

text \<open>
  C16: Frames go up in order, unless the ring has run dry.  Let \<open>k\<close> descriptors from the head have a block and \<open>c\<close>
  of them be finished.  If the one after them still belongs to the controller, so that \<open>c\<close> is less than \<open>k\<close>,
  \<open>receive\<close> ends; it has passed exactly the error-free frames that
  fit one descriptor to \<open>etheriq\<close>, in the order of the ring and without the padding bytes, advanced
  the head by \<open>c\<close>, and armed descriptors again until the ring was full or the pool empty.  If all \<open>k\<close> are
  finished, after a burst that was faster than the interrupt handler or after the pool had run out,
  \<open>receive\<close> does not return: it goes on to a descriptor without a block.
\<close>

theorem receive_frames:
  assumes "rx_ring k c s" and "rx_pool s" and "\<not> kw_poollock s" and "freeb_calls env"
    and "c < kn_fuel env"
  shows "if c < k
    then \<exists>t. receive env s = (Inr (), t) \<and> rx_inv t \<and> kw_rxhead t = (kw_rxhead s + c) mod Nrx \<and>
      kw_ether t = foldl (\<lambda>e p. snd (etheriq (kn_net env) (kn_stale env) p True e)) (kw_ether s) (rx_frames s c) \<and>
      (rx_ring Nrx 0 t \<or> kw_free t = [])
    else \<exists>e. fst (receive env s) = Inl e"
proof (cases "c < k")
  case True
  from receive_run [OF assms True] obtain t k' where t: "receive env s = (Inr (), t)" "rx_ring k' 0 t"
    "rx_pool t" "\<not> kw_poollock t" "kw_rxhead t = rx_slot s c"
    "kw_ether t = iq_all env (rx_frames s c) (kw_ether s)" "k' = Nrx \<or> kw_free t = []" by blast
  then show ?thesis using True by (auto simp: rx_inv_def iq_all_def rx_slot_def)
next
  case False
  then have "c = k" using assms(1) by (simp add: rx_ring_def)
  then show ?thesis using receive_dry_run [of k s env] assms(1-4) by simp
qed

theorem receive_frames_witness:
  "(\<exists>t. receive kw_sample_env kw_sample = (Inr (), t) \<and> kw_rxhead t = 1 \<and>
     kw_ether t = snd (etheriq sample_env [] (replicate 60 7) True sample_ether)) \<and>
   (\<exists>e. fst (receive kw_sample_env (init_rxring 0x1000 kw_blank)) = Inl e)"
proof
  have "rx_frames kw_sample 1 = [replicate 60 7]"
    by (simp add: rx_frames_def rx_bytes_def rx_slot_def kw_sample_def kw_blank_def sample_rxd_def rx_bad_def
        map_replicate_const)
  moreover have "1 < kn_fuel kw_sample_env" by (simp add: kw_sample_env_def)
  ultimately show "\<exists>t. receive kw_sample_env kw_sample = (Inr (), t) \<and> kw_rxhead t = 1 \<and>
      kw_ether t = snd (etheriq sample_env [] (replicate 60 7) True sample_ether)"
    using receive_frames [OF kw_sample_ok(1-4)]
    by (auto simp: kw_sample_def kw_blank_def kw_sample_env_def)
  have "rx_ring 0 0 (init_rxring 0x1000 kw_blank) \<and> rx_pool (init_rxring 0x1000 kw_blank)"
    by (rule init_rxring_ring) (simp_all add: kw_blank_def)
  then show "\<exists>e. fst (receive kw_sample_env (init_rxring 0x1000 kw_blank)) = Inl e"
    using receive_frames [of 0 0 "init_rxring 0x1000 kw_blank"] kw_sample_ok(4)
    by (simp add: init_rxring_def kw_blank_def kw_sample_env_def)
qed

text \<open>
  C17: Buffers are never shared.  From initialisation on, however the controller, interrupts and
  returned buffers interleave, the ring keeps its shape (finished descriptors, then those of the
  controller, then empty ones), every descriptor of the controller points into the buffer of its own
  block, and no block is in the pool, or at another descriptor, at the same time.
\<close>

theorem rx_reach_inv:
  assumes "rx_reach env s" and "freeb_calls env" and "alloc_distinct env"
  shows "(\<exists>k c. rx_ring k c s) \<and> rx_pool s"
proof -
  have "rx_inv s"
    using assms(1)
  proof induction
    case (start s t)
    then show ?case using ctlrinit_inv assms(3) by blast
  next
    case (step s t)
    then show ?case using rx_step_inv assms(2) by blast
  qed
  then show ?thesis by (auto simp: rx_inv_def)
qed

theorem rx_reach_inv_witness:
  "\<exists>t. rx_reach kw_sample_env t \<and> (\<exists>k c. rx_ring k c t) \<and> rx_pool t"
proof -
  have "\<exists>t. ctlrinit kw_sample_env kw_blank = (Inr (), t) \<and> rx_inv t"
    using kw_sample_ok(5) by (intro ctlrinit_run) (simp_all add: kw_blank_def kw_sample_env_def)
  then obtain t where "ctlrinit kw_sample_env kw_blank = (Inr (), t)" by blast
  then have "rx_reach kw_sample_env t" by (rule rx_reach.start) (simp_all add: kw_blank_def)
  with rx_reach_inv [OF this kw_sample_ok(4,5)] show ?thesis by blast
qed

text \<open>
  Reclaiming is inverted.  When \<open>transmit\<close> runs with nothing to send and a packet outstanding, it
  frees the packet's block if the controller is still reading it, and leaves the descriptor with the
  controller; if the controller has finished the packet, nothing is reclaimed.
\<close>

lemma transmit_frees_busy:
  assumes "kw_txtail s \<noteq> kw_txhead s" and "NEXT (kw_txtail s) Ntx = kw_txhead s"
    and "kw_txb s ! kw_txtail s = Some b" and "\<not> kw_lock s" and "0 < kn_fuel env"
    and "\<not> kn_qcanread env (e_oq (kw_ether s))"
    and "kn_freeb env (Some b) (s\<lparr>kw_lock := True\<rparr>) = (Inr (), s\<lparr>kw_lock := True, kw_free := l\<rparr>)"
  shows "transmit env s =
    (Inr (), if tx_cs (kw_tx s ! kw_txtail s) AND TCSdmaown \<noteq> 0
             then s\<lparr>kw_free := l, kw_txb := (kw_txb s)[kw_txtail s := None], kw_txtail := kw_txhead s\<rparr>
             else s)"
proof -
  obtain m where m: "kn_fuel env = Suc m" using assms(5) by (cases "kn_fuel env") auto
  have "tx_queue env (kn_fuel env) u = (Inr (), u)" if "kw_ether u = kw_ether s" for u
    using that assms(6) by (simp add: m)
  moreover have "s\<lparr>kw_lock := False\<rparr> = s" using assms(4) by simp
  moreover have "tx_reclaim env (Suc (Suc n)) (s\<lparr>kw_lock := True\<rparr>) =
    (Inr (), if tx_cs (kw_tx s ! kw_txtail s) AND TCSdmaown \<noteq> 0
             then tx_take (s\<lparr>kw_lock := True, kw_free := l\<rparr>) else s\<lparr>kw_lock := True\<rparr>)" for n
    using assms(1-3,7) by (simp add: kthen_def kbind_def tx_take_def)
  from this [of 511] have "tx_reclaim env (Suc Ntx) (s\<lparr>kw_lock := True\<rparr>) =
    (Inr (), if tx_cs (kw_tx s ! kw_txtail s) AND TCSdmaown \<noteq> 0
             then tx_take (s\<lparr>kw_lock := True, kw_free := l\<rparr>) else s\<lparr>kw_lock := True\<rparr>)"
    by (simp only: Suc_numeral Num.add_num_simps semiring_norm)
  ultimately show ?thesis
    using assms(1,2,4)
    by (simp add: transmit_def with_ilock_def ilock_def iunlock_def put_kwlock_def kthen_def kbind_def
        tx_take_def)
qed

definition tx_sample :: "u32 \<Rightarrow> u8 list list kw" where
  "tx_sample cs = kw_blank\<lparr>kw_tx := [\<lparr>tx_cs = cs, tx_countchk = 0, tx_buf = 0, tx_next = 0\<rparr>],
     kw_txb := [Some 600], kw_txtail := 0, kw_txhead := 1\<rparr>"

lemma transmit_frees_busy_witness:
  "transmit kw_sample_env (tx_sample TCSdmaown)
     = (Inr (), (tx_sample TCSdmaown)\<lparr>kw_txb := [None], kw_txtail := 1\<rparr>)"
proof -
  let ?s = "tx_sample TCSdmaown"
  have "kn_freeb kw_sample_env (Some 600) (?s\<lparr>kw_lock := True\<rparr>) = (Inr (), ?s\<lparr>kw_lock := True, kw_free := []\<rparr>)"
    by (simp add: kw_sample_env_def tx_sample_def kw_blank_def)
  moreover have "?s\<lparr>kw_free := []\<rparr> = ?s" by (simp add: tx_sample_def kw_blank_def)
  ultimately show ?thesis
    using transmit_frees_busy [of ?s 600 kw_sample_env "[]"]
    by (simp add: tx_sample_def kw_blank_def NEXT_def kw_sample_env_def sample_ether_def ether_zero_def)
qed

end
