(* ===== verification/Cesa.thy ===== *)
theory Cesa
  imports Kw_Libc
begin

text \<open>
  \<open>cesa.c\<close>: the cryptographic engines.  The code drives three engines by their registers: hashing,
  AES and DES.  What an engine does when a register is written is a parameter; the model holds the
  order of the register accesses, the splitting of data into blocks, the chaining of blocks, the
  padding, and the state that calls hand to each other.  A wait for an engine that never becomes ready
  is \<open>Blocked\<close>.
\<close>

section \<open>Constants\<close>

abbreviation AESkey128 :: u32 where "AESkey128 \<equiv> 0x0"
abbreviation AESkey192 :: u32 where "AESkey192 \<equiv> 0x1"
abbreviation AESkey256 :: u32 where "AESkey256 \<equiv> 0x2"
abbreviation AESmakekey :: u32 where "AESmakekey \<equiv> 0x4"
abbreviation DESdecrypt :: u32 where "DESdecrypt \<equiv> 0x1"
abbreviation DEStriple :: u32 where "DEStriple \<equiv> 0x2"
abbreviation DESede :: u32 where "DESede \<equiv> 0x4"
abbreviation DEScbc :: u32 where "DEScbc \<equiv> 0x8"
abbreviation DESwriteallow :: u32 where "DESwriteallow \<equiv> 0x20000000"
abbreviation HASHsha1 :: u32 where "HASHsha1 \<equiv> 0x1"
abbreviation HASHcontinue :: u32 where "HASHcontinue \<equiv> 0x2"
abbreviation HASHbyteswap :: u32 where "HASHbyteswap \<equiv> 0x4"
abbreviation Iacceldone :: u32 where "Iacceldone \<equiv> 0x20"
abbreviation Iacceltdmadone :: u32 where "Iacceltdmadone \<equiv> 0x80"
abbreviation Itdmaownerr :: u32 where "Itdmaownerr \<equiv> 0x400"
abbreviation Iacceltdmacm :: u32 where "Iacceltdmacm \<equiv> 0x800"
abbreviation Winenable :: u32 where "Winenable \<equiv> 0x1"
abbreviation Srambar :: u32 where "Srambar \<equiv> 0x80000000"

definition Winbase :: "u32 \<Rightarrow> u32" where "Winbase v = push_bit 16 (v div 65536)"
definition Wintarget :: "u32 \<Rightarrow> u32" where "Wintarget v = push_bit 4 (v AND mask 4)"
definition Winattr :: "u32 \<Rightarrow> u32" where "Winattr v = push_bit 8 (v AND mask 8)"
definition Winsize :: "u32 \<Rightarrow> u32" where "Winsize v = push_bit 16 (v div 65536 - 1)"

section \<open>State\<close>

text \<open>\<open>DigestState\<close> and \<open>AESstate\<close> of \<open>libsec.h\<close>: the fields the code uses.\<close>

record digest =
  ds_len :: u64
  ds_state :: "u32 list"
  ds_buf :: "u8 list"
  ds_blen :: nat
  ds_seeded :: bool

record aesstate =
  as_keybytes :: int
  as_key :: "u8 list"
  as_ivec :: "u8 list"

record desreg =
  de_cmd :: u32
  de_key :: "u32 list"             \<comment> \<open>\<open>key0hi, key0lo, key1hi, key1lo, key2hi, key2lo\<close>\<close>
  de_iv :: "u32 \<times> u32"             \<comment> \<open>\<open>ivhi, ivlo\<close>\<close>

record tdmareg =
  td_win :: "(u32 \<times> u32) list"
  td_irqerr :: u32
  td_irqerrmask :: u32

record cryptreg =
  cr_irq :: u32
  cr_irqmask :: u32

record ('h, 'd) cesa =
  ce_hashlock :: bool
  ce_aeslock :: bool
  ce_deslock :: bool
  ce_hash :: 'h                    \<comment> \<open>the hash engine\<close>
  ce_desr :: desreg
  ce_des :: 'd                     \<comment> \<open>the DES engine\<close>
  ce_done :: int
  ce_tdma :: tdmareg
  ce_crypt :: cryptreg

text \<open>
  The engines: a write of the command, a data word or the bit count of the hash engine, and its
  chaining values; a block through the AES engine (for decryption or not, command, the words of the
  key, four words); a block into the DES engine and the oldest block out of it.
\<close>

record ('h, 'd) cenv =
  ev_cmd :: "u32 \<Rightarrow> 'h \<Rightarrow> 'h"
  ev_data :: "u32 \<Rightarrow> 'h \<Rightarrow> 'h"
  ev_bits :: "u32 \<Rightarrow> u32 \<Rightarrow> 'h \<Rightarrow> 'h"
  ev_ready :: "'h \<Rightarrow> bool"
  ev_iv :: "'h \<Rightarrow> u32 list"
  ev_setiv :: "u32 list \<Rightarrow> 'h \<Rightarrow> 'h"
  ev_aesready :: bool
  ev_aes :: "bool \<Rightarrow> u32 \<Rightarrow> u32 list \<Rightarrow> u32 list \<Rightarrow> u32 list"
  ev_desin :: "desreg \<Rightarrow> u32 \<times> u32 \<Rightarrow> 'd \<Rightarrow> 'd"
  ev_desout :: "'d \<Rightarrow> ((u32 \<times> u32) \<times> 'd) option"
  ev_desiv :: "'d \<Rightarrow> u32 \<times> u32"
  ev_tdmaerr :: u32

definition put_hashlock :: "bool \<Rightarrow> ('h, 'd) cesa \<Rightarrow> ('h, 'd) cesa" where
  "put_hashlock x s = s\<lparr>ce_hashlock := x\<rparr>"

definition put_aeslock :: "bool \<Rightarrow> ('h, 'd) cesa \<Rightarrow> ('h, 'd) cesa" where
  "put_aeslock x s = s\<lparr>ce_aeslock := x\<rparr>"

definition put_deslock :: "bool \<Rightarrow> ('h, 'd) cesa \<Rightarrow> ('h, 'd) cesa" where
  "put_deslock x s = s\<lparr>ce_deslock := x\<rparr>"

section \<open>Bytes and words\<close>

definition g32 :: "u8 list \<Rightarrow> u32" where
  "g32 p = be32 (p ! 0) (p ! 1) (p ! 2) (p ! 3)"

definition g32le :: "u8 list \<Rightarrow> u32" where
  "g32le p = be32 (p ! 3) (p ! 2) (p ! 1) (p ! 0)"

definition p32 :: "u32 \<Rightarrow> u8 list" where
  "p32 v = [ucast (drop_bit 24 v), ucast (drop_bit 16 v), ucast (drop_bit 8 v), ucast v]"

definition p32le :: "u32 \<Rightarrow> u8 list" where
  "p32le v = [ucast v, ucast (drop_bit 8 v), ucast (drop_bit 16 v), ucast (drop_bit 24 v)]"

definition swap32 :: "u32 \<Rightarrow> u32" where "swap32 v = g32le (p32 v)"

text \<open>The words of a buffer from its start; a rest of less than a word is left out.\<close>

fun words32 :: "u8 list \<Rightarrow> u32 list" where
  "words32 (a # b # c # d # p) = g32 [a, b, c, d] # words32 p"
| "words32 _ = []"

section \<open>Interrupts and set-up\<close>

definition cryptintr :: "('h, 'd) cesa \<Rightarrow> (exn + unit) \<times> ('h, 'd) cesa" where
  "cryptintr =
     kbind (kget (\<lambda>s. cr_irq (ce_crypt s))) (\<lambda>irq.
     kthen (kmod (\<lambda>s. s\<lparr>ce_crypt := (ce_crypt s)\<lparr>cr_irq := 0\<rparr>\<rparr>))
     (if irq AND Iacceltdmadone \<noteq> 0 then kmod (\<lambda>s. s\<lparr>ce_done := 1\<rparr>)
      else if irq AND Iacceldone \<noteq> 0 then kmod (\<lambda>s. s\<lparr>ce_done := 1\<rparr>)
      else kraise (Panic ''crypt interrupt'')))"

definition crypterrintr :: "(('h, 'd) cesa, unit) kact" where
  "crypterrintr = kraise (Panic ''crypterr interrupt'')"

definition cesalink :: "('h, 'd) cesa \<Rightarrow> ('h, 'd) cesa" where
  "cesalink s = s\<lparr>
     ce_tdma := \<lparr>td_win =
         [(Winbase 0, Winenable OR Wintarget 0 OR Winattr 0xE OR Winsize 268435456),
          (Winbase 268435456, Winenable OR Wintarget 0 OR Winattr 0xD OR Winsize 268435456),
          (Winbase Srambar, Winenable OR Wintarget 3 OR Winattr 0 OR Winsize 65536),
          (0, 0)],
       td_irqerr = 0, td_irqerrmask = - 1\<rparr>,
     ce_crypt := \<lparr>cr_irq = 0, cr_irqmask = Iacceltdmadone OR Itdmaownerr OR Iacceltdmacm\<rparr>\<rparr>"

section \<open>AES\<close>

definition setupAESstate :: "u8 list \<Rightarrow> int \<Rightarrow> u8 list \<Rightarrow> aesstate \<Rightarrow> aesstate" where
  "setupAESstate key keybytes ivec s =
     s\<lparr>as_keybytes := keybytes, as_key := take (nat keybytes) key @ drop (nat keybytes) (as_key s),
       as_ivec := take 16 ivec\<rparr>"

text \<open>The words of the key, in the order in which they go into \<open>key[7]\<close>, \<open>key[6]\<close> and so on.\<close>

definition aes_keyregs :: "aesstate \<Rightarrow> u32 list" where
  "aes_keyregs s = words32 (take (nat (as_keybytes s)) (as_key s))"

text \<open>A block: the words go in with the first in \<open>data[3]\<close> and come out so.\<close>

definition aes_engine :: "('h, 'd) cenv \<Rightarrow> bool \<Rightarrow> u32 \<Rightarrow> u32 list \<Rightarrow> u32 list \<Rightarrow> u32 list" where
  "aes_engine env enc cmd key ws = rev (ev_aes env (\<not> enc) cmd key (rev ws))"

abbreviation xor4 :: "u32 list \<Rightarrow> u32 list \<Rightarrow> u32 list" where
  "xor4 a b \<equiv> map2 (\<lambda>x y. x XOR y) a b"

text \<open>The three loops over the blocks of the buffer; a last block that is not whole is read and written past
  the end.\<close>

fun aes_cbc_enc :: "(u32 list \<Rightarrow> u32 list) \<Rightarrow> u32 list \<Rightarrow> u8 list \<Rightarrow> exn + u8 list \<times> u32 list" where
  "aes_cbc_enc f v p =
     (if p = [] then Inr ([], v)
      else if length p < 16 then Inl (Fault ''aes block past the end of the buffer'')
      else
        (let v' = f (xor4 (words32 (take 16 p)) v) in
         ebind (aes_cbc_enc f v' (drop 16 p)) (\<lambda>(q, u). Inr (concat (map p32 v') @ q, u))))"

text \<open>\<open>a\<close> and \<open>b\<close> are the two buffers of words that change places after every block.\<close>

fun aes_cbc_dec ::
  "(u32 list \<Rightarrow> u32 list) \<Rightarrow> u32 list \<Rightarrow> u32 list \<Rightarrow> u8 list \<Rightarrow> exn + u8 list \<times> u32 list" where
  "aes_cbc_dec f a b p =
     (if p = [] then Inr ([], b)
      else if length p < 16 then Inl (Fault ''aes block past the end of the buffer'')
      else
        (let b = words32 (take 16 p) in
         ebind (aes_cbc_dec f b a (drop 16 p)) (\<lambda>(q, u). Inr (concat (map p32 (xor4 a (f b))) @ q, u))))"

fun aes_ecb :: "(u32 list \<Rightarrow> u32 list) \<Rightarrow> u8 list \<Rightarrow> exn + u8 list" where
  "aes_ecb f p =
     (if p = [] then Inr []
      else if length p < 16 then Inl (Fault ''aes block past the end of the buffer'')
      else ebind (aes_ecb f (drop 16 p)) (\<lambda>q. Inr (concat (map p32 (f (words32 (take 16 p)))) @ q)))"

text \<open>\<open>w\<close> is the uninitialised second buffer of the decryption.\<close>

definition aes_run :: "('h, 'd) cenv \<Rightarrow> u32 list \<Rightarrow> u8 list \<Rightarrow> aesstate \<Rightarrow> bool \<Rightarrow> bool \<Rightarrow> u32 \<Rightarrow> exn + u8 list \<times> aesstate" where
  "aes_run env w p s enc cbc cmd =
     (let key = aes_keyregs s;
          f = aes_engine env enc (if enc then cmd else cmd OR AESmakekey) key;
          save = (\<lambda>(q, v). Inr (q, s\<lparr>as_ivec := concat (map p32 v)\<rparr>)) in
      if \<not> ev_aesready env \<and> (\<not> enc \<or> p \<noteq> []) then Inl Blocked
      else if cbc \<and> enc then ebind (aes_cbc_enc f (words32 (as_ivec s)) p) save
      else if cbc then ebind (aes_cbc_dec f (words32 (as_ivec s)) w p) save
      else ebind (aes_ecb f p) (\<lambda>q. Inr (q, s)))"

definition aes ::
  "('h, 'd) cenv \<Rightarrow> u32 list \<Rightarrow> u8 list \<Rightarrow> aesstate \<Rightarrow> bool \<Rightarrow> bool \<Rightarrow> (('h, 'd) cesa, u8 list \<times> aesstate) kact" where
  "aes env w p s enc cbc =
     kbind
       (if as_keybytes s = 16 then kret AESkey128
        else if as_keybytes s = 24 then kret AESkey192
        else if as_keybytes s = 32 then kret AESkey256
        else kraise (Error (Emsg (''bad aes keylength '' @ sdec (as_keybytes s))))) (\<lambda>cmd.
     with_ilock ce_aeslock put_aeslock (klift (aes_run env w p s enc cbc cmd)))"

definition aesECBencrypt where "aesECBencrypt env w p s = aes env w p s True False"
definition aesECBdecrypt where "aesECBdecrypt env w p s = aes env w p s False False"
definition aesCBCencrypt where "aesCBCencrypt env w p s = aes env w p s True True"
definition aesCBCdecrypt where "aesCBCdecrypt env w p s = aes env w p s False True"

section \<open>DES\<close>

record desstate =
  dk_key :: "u8 list"              \<comment> \<open>8 bytes, or 24 for triple DES\<close>
  dk_ivec :: "u8 list"

definition des_cmd :: "bool \<Rightarrow> bool \<Rightarrow> bool \<Rightarrow> bool \<Rightarrow> u32" where
  "des_cmd enc cbc triple eee =
     DESwriteallow OR (if enc then 0 else DESdecrypt) OR (if cbc then DEScbc else 0)
       OR (if triple then DEStriple else 0) OR (if eee then 0 else DESede)"

text \<open>The registers after the command, the keys and the initialisation vector were written.\<close>

definition des_setup :: "u8 list \<Rightarrow> u8 list option \<Rightarrow> bool \<Rightarrow> bool \<Rightarrow> bool \<Rightarrow> desreg \<Rightarrow> desreg" where
  "des_setup key ivec enc triple eee r =
     r\<lparr>de_cmd := des_cmd enc (ivec \<noteq> None) triple eee,
       de_key := (if triple then words32 (take 24 key) else words32 (take 8 key) @ drop 2 (de_key r)),
       de_iv := (case ivec of Some iv \<Rightarrow> (g32 (drop 0 iv), g32 (drop 4 iv)) | None \<Rightarrow> de_iv r)\<rparr>"

definition des_write :: "('h, 'd) cenv \<Rightarrow> desreg \<Rightarrow> u8 list \<Rightarrow> 'd \<Rightarrow> exn + 'd" where
  "des_write env r p d =
     (if length p < 8 then Inl (Fault ''des block past the end of the buffer'')
      else Inr (ev_desin env r (g32 p, g32 (drop 4 p)) d))"

definition des_read :: "('h, 'd) cenv \<Rightarrow> 'd \<Rightarrow> exn + u8 list \<times> 'd" where
  "des_read env d =
     (case ev_desout env d of None \<Rightarrow> Inl Blocked | Some ((hi, lo), d) \<Rightarrow> Inr (p32 hi @ p32 lo, d))"

text \<open>
  The pipeline holds two blocks: each round writes a block and reads the oldest.  The last block is
  read after the loop.
\<close>

fun des_loop :: "('h, 'd) cenv \<Rightarrow> desreg \<Rightarrow> u8 list \<Rightarrow> 'd \<Rightarrow> exn + u8 list \<times> 'd" where
  "des_loop env r p d =
     (if p = [] then des_read env d
      else
        ebind (des_write env r p d) (\<lambda>d.
        ebind (des_read env d) (\<lambda>(o1, d).
        ebind (des_loop env r (drop 8 p) d) (\<lambda>(q, d). Inr (o1 @ q, d)))))"

definition des ::
  "('h, 'd) cenv \<Rightarrow> u8 list \<Rightarrow> u8 list \<Rightarrow> u8 list option \<Rightarrow> bool \<Rightarrow> bool \<Rightarrow> bool \<Rightarrow>
     (('h, 'd) cesa, u8 list \<times> u8 list option) kact" where
  "des env p key ivec enc triple eee =
     (if p = [] then kret (p, ivec)
      else
        with_ilock ce_deslock put_deslock
          (kthen (kmod (\<lambda>s. s\<lparr>ce_desr := des_setup key ivec enc triple eee (ce_desr s)\<rparr>))
          (kbind (kget (\<lambda>s. ebind (des_write env (ce_desr s) p (ce_des s)) (des_loop env (ce_desr s) (drop 8 p)))) (\<lambda>r.
          kbind (klift r) (\<lambda>(q, d).
          kthen (kmod (\<lambda>s. s\<lparr>ce_des := d\<rparr>))
          (kret (q, map_option (\<lambda>_. p32 (fst (ev_desiv env d)) @ p32 (snd (ev_desiv env d))) ivec)))))))"

definition setupDESstate0 :: "u8 list \<Rightarrow> u8 list option \<Rightarrow> desstate \<Rightarrow> desstate" where
  "setupDESstate0 key ivec s =
     s\<lparr>dk_key := take 8 key, dk_ivec := (case ivec of None \<Rightarrow> dk_ivec s | Some iv \<Rightarrow> take 8 iv)\<rparr>"

definition setupDES3state0 :: "u8 list \<Rightarrow> u8 list option \<Rightarrow> desstate \<Rightarrow> desstate" where
  "setupDES3state0 key ivec s =
     s\<lparr>dk_key := take 24 key, dk_ivec := (case ivec of None \<Rightarrow> dk_ivec s | Some iv \<Rightarrow> take 8 iv)\<rparr>"

definition des_save :: "u8 list \<times> u8 list option \<Rightarrow> desstate \<Rightarrow> u8 list \<times> desstate" where
  "des_save r s = (fst r, s\<lparr>dk_ivec := (case snd r of None \<Rightarrow> dk_ivec s | Some iv \<Rightarrow> iv)\<rparr>)"

definition desECBencrypt0 where
  "desECBencrypt0 env p s = kbind (des env p (dk_key s) None True False False) (\<lambda>r. kret (des_save r s))"
definition desECBdecrypt0 where
  "desECBdecrypt0 env p s = kbind (des env p (dk_key s) None False False False) (\<lambda>r. kret (des_save r s))"
definition desCBCencrypt0 where
  "desCBCencrypt0 env p s = kbind (des env p (dk_key s) (Some (dk_ivec s)) True False False) (\<lambda>r. kret (des_save r s))"
definition desCBCdecrypt0 where
  "desCBCdecrypt0 env p s = kbind (des env p (dk_key s) (Some (dk_ivec s)) False False False) (\<lambda>r. kret (des_save r s))"
definition des3ECBencrypt0 where
  "des3ECBencrypt0 env p s = kbind (des env p (dk_key s) None True True False) (\<lambda>r. kret (des_save r s))"
definition des3ECBdecrypt0 where
  "des3ECBdecrypt0 env p s = kbind (des env p (dk_key s) None False True False) (\<lambda>r. kret (des_save r s))"
definition des3CBCencrypt0 where
  "des3CBCencrypt0 env p s = kbind (des env p (dk_key s) (Some (dk_ivec s)) True True False) (\<lambda>r. kret (des_save r s))"
definition des3CBCdecrypt0 where
  "des3CBCdecrypt0 env p s = kbind (des env p (dk_key s) (Some (dk_ivec s)) False True False) (\<lambda>r. kret (des_save r s))"

section \<open>Hashing\<close>

record hbuf =
  hb_p :: "u8 list"
  hb_finish :: bool

abbreviation hash_nw :: "bool \<Rightarrow> nat" where "hash_nw sha \<equiv> if sha then 5 else 4"

definition hashdma :: "hbuf list \<Rightarrow> digest \<Rightarrow> bool \<Rightarrow> (('h, 'd) cesa, digest \<times> u8 list option) kact" where
  "hashdma bufs s sha = kraise (Panic ''hashdma, xxx'')"

text \<open>The last word with data: what is left of the bytes, the byte \<open>0x80\<close>, and zeros.\<close>

definition tail_word :: "u8 list \<Rightarrow> u32" where
  "tail_word p = g32 (p @ [0x80] @ replicate (3 - length p) 0)"

definition hash_cmd :: "('h, 'd) cenv \<Rightarrow> u32 \<Rightarrow> u32 list \<Rightarrow> 'h \<Rightarrow> 'h" where
  "hash_cmd env cmd ws h = fold (ev_data env) ws (ev_cmd env cmd h)"

definition hash_wait :: "('h, 'd) cenv \<Rightarrow> 'h \<Rightarrow> exn + 'h" where
  "hash_wait env h = (if ev_ready env h then Inr h else Inl Blocked)"

definition hash_bits :: "('h, 'd) cenv \<Rightarrow> bool \<Rightarrow> u64 \<Rightarrow> 'h \<Rightarrow> 'h" where
  "hash_bits env sha nb =
     (if sha then ev_bits env (ucast (drop_bit 32 nb)) (ucast nb)
      else ev_bits env (swap32 (ucast nb)) (swap32 (ucast (drop_bit 32 nb))))"

definition hashfinish :: "('h, 'd) cenv \<Rightarrow> u32 \<Rightarrow> u8 list \<Rightarrow> bool \<Rightarrow> u64 \<Rightarrow> 'h \<Rightarrow> exn + u8 list \<times> 'h" where
  "hashfinish env cmd p sha nb h =
     (let n = length p;
          ws = words32 p @ [tail_word (drop (4 * (n div 4)) p)] in
      ebind
        (if n + 1 > 56 then
           ebind (hash_wait env (hash_cmd env cmd (ws @ (if n + 1 \<le> 60 then [0] else [])) h)) (\<lambda>h.
           Inr (ev_cmd env (cmd OR HASHcontinue) h))
         else Inr (hash_cmd env cmd ws h)) (\<lambda>h.
      ebind (hash_wait env (hash_bits env sha nb h)) (\<lambda>h.
      Inr (concat (map (if sha then p32 else p32le) (take (hash_nw sha) (ev_iv env h))), h))))"

fun hash_blocks :: "('h, 'd) cenv \<Rightarrow> u8 list \<Rightarrow> u32 \<times> 'h \<Rightarrow> exn + u32 \<times> 'h" where
  "hash_blocks env p (cmd, h) =
     (if length p < 64 then Inr (cmd, h)
      else
        ebind (hash_wait env (hash_cmd env cmd (words32 (take 64 p)) h)) (\<lambda>h.
        hash_blocks env (drop 64 p) (cmd OR HASHcontinue, h)))"

text \<open>The work of \<open>hashexec\<close> under its lock: the buffers before the one that finishes, then that one.\<close>

definition hash_run :: "('h, 'd) cenv \<Rightarrow> hbuf list \<Rightarrow> digest \<Rightarrow> bool \<Rightarrow> 'h \<Rightarrow> exn + (digest \<times> u8 list option) \<times> 'h" where
  "hash_run env bufs s sha h =
     (let cmd = (if sha then HASHsha1 else HASHbyteswap) OR (if ds_seeded s then HASHcontinue else 0);
          h = (if ds_seeded s then ev_setiv env (take (hash_nw sha) (ds_state s)) h else h);
          s = s\<lparr>ds_seeded := True\<rparr>;
          bs = takeWhile (\<lambda>b. \<not> hb_finish b) bufs in
      ebind (efold (\<lambda>b. hash_blocks env (hb_p b)) bs (cmd, h)) (\<lambda>(cmd, h).
      if length bs < length bufs then
        ebind (hashfinish env cmd (hb_p (bufs ! length bs)) sha (ds_len s * 8) h) (\<lambda>(d, h). Inr ((s, Some d), h))
      else
        Inr ((s\<lparr>ds_state := take (hash_nw sha) (ev_iv env h) @ drop (hash_nw sha) (ds_state s)\<rparr>, None), h)))"

definition hashexec :: "('h, 'd) cenv \<Rightarrow> hbuf list \<Rightarrow> digest \<Rightarrow> bool \<Rightarrow> (('h, 'd) cesa, digest \<times> u8 list option) kact" where
  "hashexec env bufs s sha =
     with_ilock ce_hashlock put_hashlock
       (kbind (kget (\<lambda>c. hash_run env bufs s sha (ce_hash c))) (\<lambda>r.
        kbind (klift r) (\<lambda>(x, h).
        kthen (kmod (\<lambda>c. c\<lparr>ce_hash := h\<rparr>)) (kret x))))"

definition digest0 :: digest where
  "digest0 = \<lparr>ds_len = 0, ds_state = replicate 16 0, ds_buf = replicate 128 0, ds_blen = 0, ds_seeded = False\<rparr>"

text \<open>
  The first part of \<open>hash\<close>: bytes go into a buffer that was begun, and a buffer that is full becomes
  the first of the list.  What is left of the data is the third part of the result.
\<close>

definition hash_fill :: "u8 list \<Rightarrow> digest \<Rightarrow> hbuf list \<times> digest \<times> u8 list" where
  "hash_fill p s =
     (if ds_blen s > 0 then
        let n = min (64 - ds_blen s) (length p);
            s = s\<lparr>ds_buf := take (ds_blen s) (ds_buf s) @ take n p @ drop (ds_blen s + n) (ds_buf s),
                  ds_blen := ds_blen s + n\<rparr> in
        if ds_blen s = 64 then ([\<lparr>hb_p = take 64 (ds_buf s), hb_finish = False\<rparr>], s\<lparr>ds_blen := 0\<rparr>, drop n p)
        else ([], s, drop n p)
      else ([], s, p))"

definition hash_nblocks :: "hbuf list \<Rightarrow> nat" where
  "hash_nblocks bufs = (\<Sum>b\<leftarrow>bufs. if hb_finish b then 1 else length (hb_p b) div 64)"

text \<open>
  The list of buffers: the whole blocks of the data are the second; for a digest, the last is what is
  left, which the code takes from the start of the data, or the buffer.
\<close>

definition hash_bufs :: "bool \<Rightarrow> hbuf list \<times> digest \<times> u8 list \<Rightarrow> hbuf list \<times> digest \<times> u8 list" where
  "hash_bufs digest = (\<lambda>(bufs, s, p).
     (let len = length p mod 64 in
      (bufs @
       (if length p \<ge> 64 then [\<lparr>hb_p = take (64 * (length p div 64)) p, hb_finish = False\<rparr>] else []) @
       (if digest then [\<lparr>hb_p = (if len > 0 then take len p else take (ds_blen s) (ds_buf s)), hb_finish = True\<rparr>] else []),
       s, take len p)))"

definition hash :: "('h, 'd) cenv \<Rightarrow> u8 list \<Rightarrow> bool \<Rightarrow> digest option \<Rightarrow> bool \<Rightarrow> (('h, 'd) cesa, digest \<times> u8 list option) kact" where
  "hash env p digest s0 sha =
     (let s = (case s0 of None \<Rightarrow> digest0 | Some s \<Rightarrow> s);
          s = s\<lparr>ds_len := ds_len s + of_nat (length p)\<rparr>;
          (bufs, s, rest) = hash_bufs digest (hash_fill p s) in
      kbind
        (if hash_nblocks bufs > 0 then
           (if hash_nblocks bufs > 64 \<or> True then hashexec env bufs s sha else hashdma bufs s sha)
         else kret (s, None)) (\<lambda>(s, d).
      kret
        (if \<not> digest \<and> rest \<noteq> [] then
           (s\<lparr>ds_buf := rest @ drop (length rest) (ds_buf s), ds_blen := length rest\<rparr>, d)
         else (s, d))))"

definition sha1 where "sha1 env p digest s = hash env p digest s True"
definition md5 where "md5 env p digest s = hash env p digest s False"

end
