(* ===== verification/Cesa_Io.thy ===== *)
theory Cesa_Io
  imports Cesa
begin

text \<open>
  Correctness of the cryptographic engines' driver: hashing refines the reference digest over the
  whole message, CBC decryption inverts encryption, and the pipeline of the DES engine is a map over
  the blocks.
\<close>

section \<open>Words of a byte string\<close>

lemma words32_append: "length a mod 4 = 0 \<Longrightarrow> words32 (a @ b) = words32 a @ words32 b"
  by (induction a rule: words32.induct) auto

lemma words32_length: "length (words32 p) = length p div 4"
  by (induction p rule: words32.induct) auto

lemma words32_take_words: "words32 (take (4 * k) p) = take k (words32 p)"
proof (induction k arbitrary: p)
  case (Suc k)
  have "4 * Suc k = Suc (Suc (Suc (Suc (4 * k))))" by simp
  then show ?case by (cases p rule: words32.cases) (simp_all only: Suc take_Suc_Cons drop_Suc_Cons words32.simps, simp_all)
qed simp

lemma words32_drop_words: "words32 (drop (4 * k) p) = drop k (words32 p)"
proof (induction k arbitrary: p)
  case (Suc k)
  have "4 * Suc k = Suc (Suc (Suc (Suc (4 * k))))" by simp
  then show ?case by (cases p rule: words32.cases) (simp_all only: Suc take_Suc_Cons drop_Suc_Cons words32.simps, simp_all)
qed simp

lemma words32_take: "words32 (take (4 * (length p div 4)) p) = words32 p"
  by (simp add: words32_take_words words32_length)

lemma words32_zeros: "words32 (replicate (4 * k) 0) = replicate k 0"
  by (induction k) (simp_all add: g32_def be32_def numeral_eq_Suc)

lemma words32_tail:
  assumes "length q < 4"
  shows "words32 (q @ [0x80] @ replicate (3 - length q) 0) = [tail_word q]"
proof -
  from assms consider "q = []" | a where "q = [a]" | a b where "q = [a, b]" | a b c where "q = [a, b, c]"
    by (cases q; cases "tl q"; cases "tl (tl q)"; cases "tl (tl (tl q))") auto
  then show ?thesis by cases (simp_all add: tail_word_def numeral_eq_Suc g32_def)
qed

text \<open>The words of data with its \<open>0x80\<close> byte and zeros, as \<open>hashfinish\<close> writes them.\<close>

lemma words32_padded:
  "words32 (p @ [0x80] @ replicate (3 - length p mod 4 + 4 * k) 0)
     = words32 p @ [tail_word (drop (4 * (length p div 4)) p)] @ replicate k 0"
proof -
  let ?n = "length p div 4"
  let ?q = "drop (4 * ?n) p"
  have q: "length ?q = length p mod 4" by (simp add: minus_mult_div_eq_mod)
  have "p @ [0x80] @ replicate (3 - length p mod 4 + 4 * k) 0
      = take (4 * ?n) p @ (?q @ [0x80] @ replicate (3 - length ?q) 0) @ replicate (4 * k) 0"
    by (simp only: q replicate_add append_assoc append_take_drop_id flip: append_assoc)
  also have "words32 \<dots> = words32 (take (4 * ?n) p) @
      words32 ((?q @ [0x80] @ replicate (3 - length ?q) 0) @ replicate (4 * k) 0)"
    by (rule words32_append) simp
  also have "words32 ((?q @ [0x80] @ replicate (3 - length ?q) 0) @ replicate (4 * k) 0)
      = words32 (?q @ [0x80] @ replicate (3 - length ?q) 0) @ words32 (replicate (4 * k) 0)"
    by (rule words32_append) (use q in auto)
  also have "words32 (?q @ [0x80] @ replicate (3 - length ?q) 0) = [tail_word ?q]"
    by (rule words32_tail) (simp add: q)
  finally show ?thesis by (simp only: words32_take words32_zeros append_assoc)
qed


section \<open>The reference: Merkle-Damgard hashing of a whole message\<close>

text \<open>The length of the message in bits, as eight bytes.\<close>

definition md_length :: "bool \<Rightarrow> u64 \<Rightarrow> u8 list" where
  "md_length sha nb =
     (if sha then p32 (ucast (drop_bit 32 nb)) @ p32 (ucast nb)
      else p32le (ucast nb) @ p32le (ucast (drop_bit 32 nb)))"

text \<open>The padding of a message of \<open>n\<close> bytes: \<open>0x80\<close>, zeros up to 56 bytes of a block, and the length.\<close>

definition md_padding :: "bool \<Rightarrow> nat \<Rightarrow> u64 \<Rightarrow> u8 list" where
  "md_padding sha n nb = [0x80] @ replicate ((119 - n mod 64) mod 64) 0 @ md_length sha nb"

fun md_chain :: "(u32 list \<Rightarrow> u32 list \<Rightarrow> u32 list) \<Rightarrow> u32 list \<Rightarrow> u8 list \<Rightarrow> u32 list" where
  "md_chain blk iv p =
     (if length p < 64 then iv else md_chain blk (blk iv (words32 (take 64 p))) (drop 64 p))"

definition md_out :: "bool \<Rightarrow> u32 list \<Rightarrow> u8 list" where
  "md_out sha iv = concat (map (if sha then p32 else p32le) iv)"

definition md_digest ::
  "(bool \<Rightarrow> u32 list \<Rightarrow> u32 list \<Rightarrow> u32 list) \<Rightarrow> (bool \<Rightarrow> u32 list) \<Rightarrow> bool \<Rightarrow> u8 list \<Rightarrow> u8 list" where
  "md_digest blk init sha m =
     md_out sha (md_chain (blk sha) (init sha) (m @ md_padding sha (length m) (of_nat (length m) * 8)))"

section \<open>The engine\<close>

definition hcmd :: "bool \<Rightarrow> bool \<Rightarrow> u32" where
  "hcmd sha cont = (if sha then HASHsha1 else HASHbyteswap) OR (if cont then HASHcontinue else 0)"

lemma hcmd_continue: "hcmd sha cont OR HASHcontinue = hcmd sha True"
  by (simp add: hcmd_def)

text \<open>The chaining value the next block starts from.\<close>

definition hcv :: "('h, 'd) cenv \<Rightarrow> (bool \<Rightarrow> u32 list) \<Rightarrow> bool \<Rightarrow> bool \<Rightarrow> 'h \<Rightarrow> u32 list" where
  "hcv env init sha cont h = (if cont then take (hash_nw sha) (ev_iv env h) else init sha)"

text \<open>
  What the engine is documented to do, with the compression functions \<open>blk\<close> and the first chaining
  values \<open>init\<close> of the two algorithms: sixteen data words after a command, or fewer and the bit count,
  for which it fills up the block with zeros, make a block, and the engine becomes ready.
\<close>

definition hash_engine ::
  "('h, 'd) cenv \<Rightarrow> (bool \<Rightarrow> u32 list \<Rightarrow> u32 list \<Rightarrow> u32 list) \<Rightarrow> (bool \<Rightarrow> u32 list) \<Rightarrow> bool" where
  "hash_engine env blk init \<longleftrightarrow>
     (\<forall>h. 5 \<le> length (ev_iv env h)) \<and>
     (\<forall>v h. length v \<le> 5 \<longrightarrow> take (length v) (ev_iv env (ev_setiv env v h)) = v) \<and>
     (\<forall>sha cont ws h. length ws = 16 \<longrightarrow>
        (let h' = hash_cmd env (hcmd sha cont) ws h in
         ev_ready env h' \<and> take (hash_nw sha) (ev_iv env h') = blk sha (hcv env init sha cont h) ws)) \<and>
     (\<forall>sha cont ws h lo hi. length ws \<le> 14 \<longrightarrow>
        (let h' = ev_bits env lo hi (hash_cmd env (hcmd sha cont) ws h) in
         ev_ready env h' \<and>
         take (hash_nw sha) (ev_iv env h')
           = blk sha (hcv env init sha cont h) (ws @ replicate (14 - length ws) 0 @ [lo, hi])))"

lemma hash_engine_setiv:
  assumes "hash_engine env blk init" "length v = hash_nw sha"
  shows "take (hash_nw sha) (ev_iv env (ev_setiv env v h)) = v"
proof -
  from assms(2) have "length v \<le> 5" by (simp split: if_splits)
  with assms(1) have "take (length v) (ev_iv env (ev_setiv env v h)) = v" by (simp add: hash_engine_def)
  with assms(2) show ?thesis by simp
qed

lemma hash_engine_block:
  assumes "hash_engine env blk init" "length ws = 16"
  shows "ev_ready env (hash_cmd env (hcmd sha cont) ws h)"
    and "hcv env init sha True (hash_cmd env (hcmd sha cont) ws h) = blk sha (hcv env init sha cont h) ws"
  using assms unfolding hash_engine_def hcv_def Let_def by simp_all

lemma hash_engine_last:
  assumes "hash_engine env blk init" "length ws \<le> 14"
  shows "ev_ready env (ev_bits env lo hi (hash_cmd env (hcmd sha cont) ws h))"
    and "hcv env init sha True (ev_bits env lo hi (hash_cmd env (hcmd sha cont) ws h))
       = blk sha (hcv env init sha cont h) (ws @ replicate (14 - length ws) 0 @ [lo, hi])"
  using assms unfolding hash_engine_def hcv_def Let_def by simp_all

section \<open>Blocks\<close>

declare md_chain.simps [simp del] hash_blocks.simps [simp del]

lemma md_chain_less: "length p < 64 \<Longrightarrow> md_chain blk iv p = iv"
  by (simp add: md_chain.simps)

lemma hash_blocks_less: "length p < 64 \<Longrightarrow> hash_blocks env p (cmd, h) = Inr (cmd, h)"
  by (simp add: hash_blocks.simps)

lemma hash_blocks_run:
  assumes "hash_engine env blk init"
  shows "\<exists>h'. hash_blocks env p (hcmd sha cont, h) = Inr (hcmd sha (cont \<or> 64 \<le> length p), h') \<and>
     hcv env init sha (cont \<or> 64 \<le> length p) h' = md_chain (blk sha) (hcv env init sha cont h) p"
proof (induction p arbitrary: cont h rule: length_induct)
  case (1 p)
  show ?case
  proof (cases "length p < 64")
    case True
    then show ?thesis by (simp add: hash_blocks_less md_chain_less)
  next
    case False
    let ?h = "hash_cmd env (hcmd sha cont) (words32 (take 64 p)) h"
    from False have ws: "length (words32 (take 64 p)) = 16" by (simp add: words32_length)
    from False have "length (drop 64 p) < length p" by simp
    from "1.IH" [rule_format, OF this, of True ?h] obtain h' where
      h': "hash_blocks env (drop 64 p) (hcmd sha True, ?h) = Inr (hcmd sha True, h')"
        "hcv env init sha True h' = md_chain (blk sha) (hcv env init sha True ?h) (drop 64 p)"
      unfolding simp_thms by blast
    have "hash_blocks env p (hcmd sha cont, h) = hash_blocks env (drop 64 p) (hcmd sha True, ?h)"
      using False hash_engine_block(1) [OF assms ws]
      by (subst hash_blocks.simps) (simp add: hash_wait_def hcmd_continue)
    moreover have "md_chain (blk sha) (hcv env init sha cont h) p
        = md_chain (blk sha) (hcv env init sha True ?h) (drop 64 p)"
      using False hash_engine_block(2) [OF assms ws] by (subst md_chain.simps) simp
    ultimately show ?thesis using h' False by simp
  qed
qed


lemma md_chain_append:
  "length p mod 64 = 0 \<Longrightarrow> md_chain blk iv (p @ q) = md_chain blk (md_chain blk iv p) q"
proof (induction p arbitrary: iv rule: length_induct)
  case (1 p)
  show ?case
  proof (cases "p = []")
    case False
    with "1.prems" have l: "64 \<le> length p" by (cases "length p < 64") auto
    then have "length (drop 64 p) < length p" "length (drop 64 p) mod 64 = 0"
      using "1.prems" by (auto simp: le_mod_geq)
    from "1.IH" [rule_format, OF this, of "blk iv (words32 (take 64 p))"]
    have "md_chain blk (blk iv (words32 (take 64 p))) (drop 64 p @ q)
      = md_chain blk (md_chain blk (blk iv (words32 (take 64 p))) (drop 64 p)) q" .
    with l show ?thesis by (simp add: md_chain.simps [of blk iv "p @ q"] md_chain.simps [of blk iv p])
  qed (simp add: md_chain_less)
qed

lemma md_chain_block: "length p = 64 \<Longrightarrow> md_chain blk iv p = blk iv (words32 p)"
  by (subst md_chain.simps) (simp add: md_chain_less)

section \<open>The last block\<close>

lemma g32_p32: "g32 (p32 v) = v"
  unfolding g32_def p32_def by (simp add: be32_split)

lemma p32_length: "length (p32 v) = 4"
  by (simp add: p32_def)

lemma p32le_swap: "p32 (swap32 v) = p32le v"
  by (simp add: swap32_def g32le_def p32_def p32le_def be32_bytes)

lemma words32_p32: "words32 (p32 v @ q) = v # words32 q"
  using g32_p32 [of v] by (simp add: p32_def)

lemma hash_bits_words:
  "\<exists>lo hi. hash_bits env sha nb = ev_bits env lo hi \<and> words32 (md_length sha nb) = [lo, hi]"
  using words32_p32 [of _ "[]"]
  by (cases sha) (auto simp: hash_bits_def md_length_def words32_p32 simp flip: p32le_swap)

text \<open>How many zeros follow the \<open>0x80\<close>, and how \<open>hashfinish\<close> lays out the one or the two blocks.\<close>

lemma padded_words:
  assumes "length p < 64"
  shows "words32 (p @ md_padding sha (length p) nb)
     = (words32 p @ [tail_word (drop (4 * (length p div 4)) p)])
       @ replicate ((if length p < 56 then 13 else 29) - length p div 4) 0 @ words32 (md_length sha nb)"
proof -
  define q r k where "q = length p div 4" and "r = length p mod 4" and "k = (if length p < 56 then 13 else 29 :: nat)"
  then have l: "length p = 4 * q + r" and r: "r < 4" and q: "q < 16" "q \<le> k" using assms by auto
  have "(119 - length p mod 64) mod 64 = (if length p < 56 then 55 else 119) - length p"
    using assms by (simp add: mod_if)
  also have "\<dots> = 3 - r + 4 * (k - q)"
    using l r q by (simp add: k_def split: if_splits)
  finally have n: "(119 - length p mod 64) mod 64 = 3 - r + 4 * (k - q)" .
  have "length (p @ [0x80] @ replicate (3 - r + 4 * (k - q)) 0) = 4 * Suc k" using l r q by simp
  then have "words32 ((p @ [0x80] @ replicate (3 - r + 4 * (k - q)) 0) @ md_length sha nb)
     = words32 (p @ [0x80] @ replicate (3 - r + 4 * (k - q)) 0) @ words32 (md_length sha nb)"
    by (intro words32_append) simp
  moreover have "p @ md_padding sha (length p) nb
      = (p @ [0x80] @ replicate (3 - r + 4 * (k - q)) 0) @ md_length sha nb"
    by (simp only: md_padding_def n append_assoc)
  ultimately show ?thesis using words32_padded [of p "k - q"]
    by (simp only: q_def [symmetric] r_def [symmetric] k_def [symmetric] append_assoc)
qed

lemma padded_length:
  "length p < 64 \<Longrightarrow> length (p @ md_padding sha (length p) nb) = (if length p < 56 then 64 else 128)"
proof -
  assume "length p < 64"
  then have "(119 - length p mod 64) mod 64 = (if length p < 56 then 55 else 119) - length p"
    by (simp add: mod_if)
  with \<open>length p < 64\<close> show ?thesis by (simp add: md_padding_def md_length_def p32_length p32le_def)
qed

lemma md_chain_two:
  assumes "length p = 128"
  shows "md_chain blk iv p = blk (blk iv (words32 (take 64 p))) (words32 (drop 64 p))"
  using assms by (simp add: md_chain.simps [of blk iv p] md_chain_block)

lemma hashfinish_run:
  assumes "hash_engine env blk init" and "length p < 64"
  shows "\<exists>h'. hashfinish env (hcmd sha cont) p sha nb h =
     Inr (md_out sha (md_chain (blk sha) (hcv env init sha cont h) (p @ md_padding sha (length p) nb)), h')"
proof -
  obtain lo hi where bits: "hash_bits env sha nb = ev_bits env lo hi" "words32 (md_length sha nb) = [lo, hi]"
    using hash_bits_words by blast
  let ?ws = "words32 p @ [tail_word (drop (4 * (length p div 4)) p)]"
  have out: "concat (map (if sha then p32 else p32le) (take (hash_nw sha) (ev_iv env h)))
      = md_out sha (hcv env init sha True h)" for h
    by (simp add: md_out_def hcv_def)
  note W = padded_words [OF assms(2), of sha nb]
  show ?thesis
  proof (cases "length p < 56")
    case True
    then have l: "length ?ws \<le> 14" by (simp add: words32_length)
    have "md_chain (blk sha) (hcv env init sha cont h) (p @ md_padding sha (length p) nb)
        = blk sha (hcv env init sha cont h) (?ws @ replicate (14 - length ?ws) 0 @ [lo, hi])"
      using True padded_length [OF assms(2), of sha nb] W bits(2)
      by (simp add: md_chain_block words32_length)
    with hash_engine_last [OF assms(1) l] True show ?thesis
      by (simp add: hashfinish_def Let_def bits(1) hash_wait_def out)
  next
    case False
    let ?z = "if length p + 1 \<le> 60 then [0] else [] :: u32 list"
    let ?h = "hash_cmd env (hcmd sha cont) (?ws @ ?z) h"
    have l: "length (?ws @ ?z) = 16" using False assms(2) by (auto simp: words32_length)
    let ?P = "p @ md_padding sha (length p) nb"
    have P: "words32 ?P = (?ws @ ?z) @ replicate 14 0 @ [lo, hi]"
    proof -
      have "replicate (29 - length p div 4) (0::u32) = ?z @ replicate 14 0"
      proof -
        have "29 - length p div 4 = length ?z + 14" using False assms(2) by auto
        then show ?thesis by (simp add: replicate_add)
      qed
      with W bits(2) False show ?thesis by simp
    qed
    have "take 16 (words32 ?P) = ?ws @ ?z" "drop 16 (words32 ?P) = replicate 14 0 @ [lo, hi]"
      by (metis P l append_eq_conv_conj)+
    with words32_take_words [of 16 ?P] words32_drop_words [of 16 ?P]
    have "words32 (take 64 ?P) = ?ws @ ?z" "words32 (drop 64 ?P) = replicate 14 0 @ [lo, hi]"
      by (simp_all del: take_append drop_append)
    then have "md_chain (blk sha) (hcv env init sha cont h) ?P
       = blk sha (hcv env init sha True ?h) (replicate 14 0 @ [lo, hi])"
      using False padded_length [OF assms(2), of sha nb] hash_engine_block(2) [OF assms(1) l]
      by (simp add: md_chain_two)
    with hash_engine_last [OF assms(1), where ws = "[]" and lo = lo and hi = hi and sha = sha and cont = True and h = ?h] hash_engine_block(1) [OF assms(1) l] False
    show ?thesis
      by (simp add: hashfinish_def Let_def bits(1) hash_wait_def out hcmd_continue hash_cmd_def)
  qed
qed


section \<open>The state between calls\<close>

text \<open>
  The state after a message: its length, the bytes after its last whole block, and the chaining value
  of its whole blocks.
\<close>

definition ds_cv :: "(bool \<Rightarrow> u32 list) \<Rightarrow> bool \<Rightarrow> digest \<Rightarrow> u32 list" where
  "ds_cv init sha s = (if ds_seeded s then take (hash_nw sha) (ds_state s) else init sha)"

abbreviation md_rest :: "u8 list \<Rightarrow> u8 list" where
  "md_rest m \<equiv> drop (64 * (length m div 64)) m"

definition digest_of ::
  "(bool \<Rightarrow> u32 list \<Rightarrow> u32 list \<Rightarrow> u32 list) \<Rightarrow> (bool \<Rightarrow> u32 list) \<Rightarrow> bool \<Rightarrow> digest \<Rightarrow> u8 list \<Rightarrow> bool" where
  "digest_of blk init sha s m \<longleftrightarrow>
     ds_len s = of_nat (length m) \<and> ds_blen s = length m mod 64 \<and> 64 \<le> length (ds_buf s) \<and>
     take (ds_blen s) (ds_buf s) = md_rest m \<and> 5 \<le> length (ds_state s) \<and>
     ds_cv init sha s = md_chain (blk sha) (init sha) m"

text \<open>
  The bytes a call hashes: with the whole blocks of the data that does not go into the buffer, the code
  takes the rest from the start of that data, not from its end.
\<close>

definition hash_eats :: "nat \<Rightarrow> u8 list \<Rightarrow> u8 list" where
  "hash_eats b p =
     (let k = (if b = 0 then 0 else min (64 - b) (length p)); r = drop k p in
      take k p @ take (64 * (length r div 64)) r @ take (length r mod 64) r)"

lemma hash_eats_length: "length (hash_eats b p) = length p"
  by (simp add: hash_eats_def Let_def)

lemma hash_eats_all: "length p \<le> 64 \<Longrightarrow> hash_eats b p = p"
proof -
  assume p: "length p \<le> 64"
  define k where "k = (if b = 0 then 0 else min (64 - b) (length p))"
  consider "length (drop k p) < 64" | "length (drop k p) = 64" using p by fastforce
  then have "take (64 * (length (drop k p) div 64)) (drop k p) @ take (length (drop k p) mod 64) (drop k p)
      = drop k p"
    by cases (simp_all del: length_drop)
  then show ?thesis by (simp only: hash_eats_def Let_def flip: k_def) simp
qed

lemma md_rest_length: "length (md_rest m) = length m mod 64"
  by (simp add: minus_mult_div_eq_mod)

lemma md_chain_whole: "md_chain blk iv (take (64 * (length m div 64)) m) = md_chain blk iv m"
proof -
  have "md_chain blk iv (take (64 * (length m div 64)) m @ md_rest m)
      = md_chain blk (md_chain blk iv (take (64 * (length m div 64)) m)) (md_rest m)"
    by (rule md_chain_append) simp
  then show ?thesis using md_rest_length [of m] by (simp add: md_chain_less)
qed

lemma md_chain_resume: "md_chain blk iv (m @ q) = md_chain blk (md_chain blk iv m) (md_rest m @ q)"
proof -
  have "md_chain blk iv (take (64 * (length m div 64)) m @ (md_rest m @ q))
      = md_chain blk (md_chain blk iv m) (md_rest m @ q)"
    by (subst md_chain_append) (simp_all only: md_chain_whole, simp)
  then show ?thesis by (simp only: append_assoc [symmetric] append_take_drop_id)
qed

section \<open>The list of buffers\<close>

lemma hash_bufs_fill:
  assumes "ds_blen s < 64" "64 \<le> length (ds_buf s)"
  obtains bs L buf l rest where
    "hash_bufs dg (hash_fill p s)
       = (bs @ (if dg then [\<lparr>hb_p = L, hb_finish = True\<rparr>] else []), s\<lparr>ds_buf := buf, ds_blen := l\<rparr>, rest)"
    "\<forall>b\<in>set bs. \<not> hb_finish b \<and> length (hb_p b) mod 64 = 0 \<and> 64 \<le> length (hb_p b)"
    "take (ds_blen s) (ds_buf s) @ hash_eats (ds_blen s) p = concat (map hb_p bs) @ L"
    "length L < 64" "64 \<le> length buf"
    "if rest = [] then take l buf = L \<and> l = length L else rest = L"
proof -
  let ?whole = "\<lambda>r. if 64 \<le> length r then [\<lparr>hb_p = take (64 * (length r div 64)) r, hb_finish = False\<rparr>] else []"
  have whole: "concat (map hb_p (?whole r)) = take (64 * (length r div 64)) r" for r
    by auto
  let ?b = "ds_blen s"
  have mod0: "x \<le> 64 * (x div 64) \<Longrightarrow> x mod 64 = 0" for x :: nat by presburger
  consider "?b = 0" | "0 < ?b" "?b + length p < 64" | "0 < ?b" "length p = 64 - ?b" | "0 < ?b" "64 < ?b + length p"
    by linarith
  then show ?thesis
  proof cases
    case 1
    show ?thesis
      by (rule that [of "?whole p" "take (length p mod 64) p" 0 "ds_buf s" "take (length p mod 64) p"])
        (use 1 assms in \<open>auto simp: hash_bufs_def hash_fill_def hash_eats_def Let_def\<close>)
  next
    case 2
    let ?buf = "take ?b (ds_buf s) @ p @ drop (?b + length p) (ds_buf s)"
    show ?thesis
      by (rule that [of "[]" "take ?b (ds_buf s) @ p" "?b + length p" ?buf "[]"])
        (use 2 assms in \<open>auto simp: hash_bufs_def hash_fill_def hash_eats_def Let_def min_def\<close>)
  next
    case 3
    let ?k = "64 - ?b" and ?r = "drop (64 - ?b) p"
    let ?buf = "take ?b (ds_buf s) @ take ?k p @ drop 64 (ds_buf s)"
    let ?f = "\<lparr>hb_p = take ?b (ds_buf s) @ take ?k p, hb_finish = False\<rparr>"
    show ?thesis
      by (rule that [of "[?f]" "[]" 0 ?buf "[]"])
        (use 3 assms in \<open>auto simp: hash_bufs_def hash_fill_def hash_eats_def Let_def min_def\<close>)
  next
    case 4
    let ?k = "64 - ?b" and ?r = "drop (64 - ?b) p"
    let ?buf = "take ?b (ds_buf s) @ take ?k p @ drop 64 (ds_buf s)"
    let ?f = "\<lparr>hb_p = take ?b (ds_buf s) @ take ?k p, hb_finish = False\<rparr>"
    show ?thesis
      by (rule that [of "?f # ?whole ?r" "take (length ?r mod 64) ?r" 0 ?buf "take (length ?r mod 64) ?r"])
        (use 4 assms in \<open>auto simp: hash_bufs_def hash_fill_def hash_eats_def Let_def min_def dest: mod0\<close>)
  qed
qed

section \<open>A run of the engine\<close>

lemma hash_blocks_list:
  assumes "hash_engine env blk init"
    and "\<forall>b\<in>set bs. length (hb_p b) mod 64 = 0 \<and> 64 \<le> length (hb_p b)"
  shows "\<exists>h'. efold (\<lambda>b. hash_blocks env (hb_p b)) bs (hcmd sha cont, h) = Inr (hcmd sha (cont \<or> bs \<noteq> []), h') \<and>
     hcv env init sha (cont \<or> bs \<noteq> []) h' = md_chain (blk sha) (hcv env init sha cont h) (concat (map hb_p bs))"
  using assms(2)
proof (induction bs arbitrary: cont h)
  case (Cons b bs)
  then have b: "length (hb_p b) mod 64 = 0" "64 \<le> length (hb_p b)" by simp_all
  obtain h1 where h1: "hash_blocks env (hb_p b) (hcmd sha cont, h) = Inr (hcmd sha True, h1)"
      "hcv env init sha True h1 = md_chain (blk sha) (hcv env init sha cont h) (hb_p b)"
    using hash_blocks_run [OF assms(1), of "hb_p b" sha cont h] b by auto
  from Cons.IH [of True h1] Cons.prems obtain h' where
    "efold (\<lambda>b. hash_blocks env (hb_p b)) bs (hcmd sha True, h1) = Inr (hcmd sha True, h')"
    "hcv env init sha True h' = md_chain (blk sha) (hcv env init sha True h1) (concat (map hb_p bs))"
    by auto
  with h1 md_chain_append [OF b(1), of "blk sha" _ "concat (map hb_p bs)"] show ?case by auto
qed (simp add: md_chain_less)

lemma hash_run_blocks:
  assumes "hash_engine env blk init"
    and "\<forall>b\<in>set bs. \<not> hb_finish b \<and> length (hb_p b) mod 64 = 0 \<and> 64 \<le> length (hb_p b)"
    and "5 \<le> length (ds_state s)"
  obtains h' where
    "efold (\<lambda>b. hash_blocks env (hb_p b)) bs
       ((if sha then HASHsha1 else HASHbyteswap) OR (if ds_seeded s then HASHcontinue else 0),
        if ds_seeded s then ev_setiv env (take (hash_nw sha) (ds_state s)) h else h)
       = Inr (hcmd sha (ds_seeded s \<or> bs \<noteq> []), h')"
    "hcv env init sha (ds_seeded s \<or> bs \<noteq> []) h' = md_chain (blk sha) (ds_cv init sha s) (concat (map hb_p bs))"
proof -
  let ?h = "if ds_seeded s then ev_setiv env (take (hash_nw sha) (ds_state s)) h else h"
  have "hcv env init sha (ds_seeded s) ?h = ds_cv init sha s"
    using hash_engine_setiv [OF assms(1), of "take (hash_nw sha) (ds_state s)" sha h] assms(3)
    by (simp add: hcv_def ds_cv_def)
  with hash_blocks_list [OF assms(1), of bs sha "ds_seeded s" ?h] assms(2) that
  show ?thesis by (auto simp: hcmd_def)
qed

lemma hash_run_update:
  assumes "hash_engine env blk init"
    and bs: "\<forall>b\<in>set bs. \<not> hb_finish b \<and> length (hb_p b) mod 64 = 0 \<and> 64 \<le> length (hb_p b)" "bs \<noteq> []"
    and "5 \<le> length (ds_state s)"
  obtains st h' where
    "hash_run env bs s sha h = Inr ((s\<lparr>ds_seeded := True, ds_state := st\<rparr>, None), h')"
    "5 \<le> length st"
    "take (hash_nw sha) st = md_chain (blk sha) (ds_cv init sha s) (concat (map hb_p bs))"
proof -
  obtain h' where h': "efold (\<lambda>b. hash_blocks env (hb_p b)) bs
       ((if sha then HASHsha1 else HASHbyteswap) OR (if ds_seeded s then HASHcontinue else 0),
        if ds_seeded s then ev_setiv env (take (hash_nw sha) (ds_state s)) h else h)
       = Inr (hcmd sha True, h')"
    "take (hash_nw sha) (ev_iv env h') = md_chain (blk sha) (ds_cv init sha s) (concat (map hb_p bs))"
    by (rule hash_run_blocks [OF assms(1) bs(1) assms(4), of sha h]) (use bs(2) in \<open>simp add: hcv_def\<close>)
  have tw: "takeWhile (\<lambda>b. \<not> hb_finish b) bs = bs" using bs(1) by (simp add: takeWhile_eq_all_conv)
  have iv: "5 \<le> length (ev_iv env h')" using assms(1) by (simp add: hash_engine_def)
  let ?st = "take (hash_nw sha) (ev_iv env h') @ drop (hash_nw sha) (ds_state s)"
  have "hash_run env bs s sha h = Inr ((s\<lparr>ds_seeded := True, ds_state := ?st\<rparr>, None), h')"
    using h'(1) by (simp add: hash_run_def Let_def tw)
  moreover have "5 \<le> length ?st" "take (hash_nw sha) ?st = take (hash_nw sha) (ev_iv env h')"
    using iv assms(4) by auto
  ultimately show ?thesis using h'(2) that by metis
qed


lemma hash_run_digest:
  assumes "hash_engine env blk init"
    and bs: "\<forall>b\<in>set bs. \<not> hb_finish b \<and> length (hb_p b) mod 64 = 0 \<and> 64 \<le> length (hb_p b)"
    and "5 \<le> length (ds_state s)" and "length L < 64"
  obtains h' where
    "hash_run env (bs @ [\<lparr>hb_p = L, hb_finish = True\<rparr>]) s sha h =
       Inr ((s\<lparr>ds_seeded := True\<rparr>, Some (md_out sha (md_chain (blk sha) (ds_cv init sha s)
         (concat (map hb_p bs) @ L @ md_padding sha (length L) (ds_len s * 8))))), h')"
proof -
  obtain h1 where h1: "efold (\<lambda>b. hash_blocks env (hb_p b)) bs
       ((if sha then HASHsha1 else HASHbyteswap) OR (if ds_seeded s then HASHcontinue else 0),
        if ds_seeded s then ev_setiv env (take (hash_nw sha) (ds_state s)) h else h)
       = Inr (hcmd sha (ds_seeded s \<or> bs \<noteq> []), h1)"
    "hcv env init sha (ds_seeded s \<or> bs \<noteq> []) h1 = md_chain (blk sha) (ds_cv init sha s) (concat (map hb_p bs))"
    by (rule hash_run_blocks [OF assms(1,2,3), of sha h])
  obtain h' where h': "hashfinish env (hcmd sha (ds_seeded s \<or> bs \<noteq> [])) L sha (ds_len s * 8) h1 =
     Inr (md_out sha (md_chain (blk sha) (hcv env init sha (ds_seeded s \<or> bs \<noteq> []) h1)
       (L @ md_padding sha (length L) (ds_len s * 8))), h')"
    using hashfinish_run [OF assms(1,4)] by blast
  have tw: "takeWhile (\<lambda>b. \<not> hb_finish b) (bs @ [\<lparr>hb_p = L, hb_finish = True\<rparr>]) = bs"
    using bs by (subst takeWhile_append2) auto
  have "length (concat (map hb_p bs)) mod 64 = 0"
    using bs by (induction bs) (auto simp: mod_add_eq [symmetric])
  note app = md_chain_append [OF this]
  show ?thesis
    by (rule that [of h']) (use h1(1) h'(1) in \<open>simp add: hash_run_def Let_def tw app flip: h1(2)\<close>)
qed


section \<open>A call\<close>

lemma md_padding_mod: "md_padding sha (n mod 64) nb = md_padding sha n nb"
  by (simp add: md_padding_def)

lemma md_rest_append:
  assumes "md_rest m @ q = c @ L" "length c mod 64 = 0" "length L < 64"
  shows "md_rest (m @ q) = L" "length (m @ q) mod 64 = length L"
proof -
  have m: "m @ q = (take (64 * (length m div 64)) m @ c) @ L"
    using assms(1) by (metis append_assoc append_take_drop_id)
  have l: "length (take (64 * (length m div 64)) m @ c) mod 64 = 0"
  proof -
    have "length (take (64 * (length m div 64)) m) = 64 * (length m div 64)" by simp
    then show ?thesis using assms(2) by (simp only: length_append mod_mult_self4)
  qed
  then obtain k where k: "length (take (64 * (length m div 64)) m @ c) = 64 * k" by (metis mod_0_imp_dvd dvd_def)
  show "length (m @ q) mod 64 = length L"
    unfolding m length_append [of _ L] k using assms(3) by simp
  have "64 * (length (m @ q) div 64) = 64 * k"
    unfolding m length_append [of _ L] k using assms(3) by simp
  then show "md_rest (m @ q) = L" unfolding m k [symmetric] by simp
qed

interpretation hashl: spin_lens ce_hashlock put_hashlock ce_hashlock
  by unfold_locales (simp_all add: put_hashlock_def)

interpretation aesl: spin_lens ce_aeslock put_aeslock ce_aeslock
  by unfold_locales (simp_all add: put_aeslock_def)

interpretation desl: spin_lens ce_deslock put_deslock ce_deslock
  by unfold_locales (simp_all add: put_deslock_def)

lemma hashexec_run:
  assumes "\<not> ce_hashlock c" and "hash_run env bufs s sha (ce_hash c) = Inr (x, h)"
  shows "hashexec env bufs s sha c = (Inr x, put_hashlock False (c\<lparr>ce_hashlock := True, ce_hash := h\<rparr>))"
  unfolding hashexec_def
  by (rule hashl.with_ilock_run) (use assms in \<open>simp_all add: put_hashlock_def\<close>)

lemma hash_nblocks_pos:
  "\<forall>b\<in>set bs. 64 \<le> length (hb_p b) \<Longrightarrow> 0 < hash_nblocks bs \<longleftrightarrow> bs \<noteq> []"
  by (induction bs) (auto simp: hash_nblocks_def)

lemma hash_nblocks_finish [simp]: "0 < hash_nblocks (bs @ [\<lparr>hb_p = L, hb_finish = True\<rparr>])"
  by (simp add: hash_nblocks_def)

text \<open>A message goes on: the next state, without its buffer.\<close>

lemma digest_of_next:
  assumes rep: "digest_of blk init sha s m"
    and cat: "md_rest m @ q = cs @ L" "length cs mod 64 = 0" "length L < 64"
    and s': "ds_len s' = of_nat (length (m @ q))" "5 \<le> length (ds_state s')"
      "ds_cv init sha s' = md_chain (blk sha) (ds_cv init sha s) cs"
      "64 \<le> length (ds_buf s')" "take (ds_blen s') (ds_buf s') = L" "ds_blen s' = length L"
  shows "digest_of blk init sha s' (m @ q)"
proof -
  have "md_chain (blk sha) (init sha) (m @ q) = md_chain (blk sha) (ds_cv init sha s) (cs @ L)"
    using rep cat(1) md_chain_resume [of "blk sha" "init sha" m q] by (simp add: digest_of_def)
  also have "\<dots> = ds_cv init sha s'"
    by (simp add: md_chain_append [OF cat(2)] md_chain_less cat(3) s'(3))
  finally show ?thesis
    using md_rest_append [OF cat] s' by (simp add: digest_of_def)
qed

lemma ds_left:
  "ds_buf (s\<lparr>ds_len := x\<rparr>) = ds_buf s" "ds_blen (s\<lparr>ds_len := x\<rparr>) = ds_blen s"
  by simp_all

lemma hash_continues:
  assumes eng: "hash_engine env blk init"
    and rep: "digest_of blk init sha s m"
    and free: "\<not> ce_hashlock c"
  shows "\<exists>s' c'. hash env p False (Some s) sha c = (Inr (s', None), c') \<and> \<not> ce_hashlock c' \<and>
           digest_of blk init sha s' (m @ hash_eats (length m mod 64) p)"
proof -
  let ?s = "s\<lparr>ds_len := ds_len s + of_nat (length p)\<rparr>"
  let ?q = "hash_eats (length m mod 64) p"
  have b: "ds_blen ?s < 64" "64 \<le> length (ds_buf ?s)" using rep by (simp_all add: digest_of_def)
  obtain bs L buf l rest where
    H: "hash_bufs False (hash_fill p ?s) = (bs, ?s\<lparr>ds_buf := buf, ds_blen := l\<rparr>, rest)"
    and bs: "\<forall>b\<in>set bs. \<not> hb_finish b \<and> length (hb_p b) mod 64 = 0 \<and> 64 \<le> length (hb_p b)"
    and cat: "take (ds_blen ?s) (ds_buf ?s) @ hash_eats (ds_blen ?s) p = concat (map hb_p bs) @ L"
    and L: "length L < 64" and buf: "64 \<le> length buf"
    and rest: "if rest = [] then take l buf = L \<and> l = length L else rest = L"
    by (rule hash_bufs_fill [OF b, of False p]) auto
  have cs: "length (concat (map hb_p bs)) mod 64 = 0"
    using bs by (induction bs) (auto simp: mod_add_eq [symmetric])
  let ?t = "?s\<lparr>ds_buf := buf, ds_blen := l\<rparr>"
  have st: "5 \<le> length (ds_state ?t)" using rep by (simp add: digest_of_def)
  have "\<exists>t c'. (if 0 < hash_nblocks bs then hashexec env bs ?t sha else kret (?t, None)) c = (Inr (t, None), c') \<and>
      \<not> ce_hashlock c' \<and> ds_len t = ds_len ?s \<and> 5 \<le> length (ds_state t) \<and> ds_buf t = buf \<and> ds_blen t = l \<and>
      ds_cv init sha t = md_chain (blk sha) (ds_cv init sha s) (concat (map hb_p bs))"
  proof (cases "bs = []")
    case True
    then show ?thesis using free st by (simp add: hash_nblocks_def md_chain_less ds_cv_def)
  next
    case False
    obtain st h' where
      "hash_run env bs ?t sha (ce_hash c) = Inr ((?t\<lparr>ds_seeded := True, ds_state := st\<rparr>, None), h')"
      "5 \<le> length st" "take (hash_nw sha) st = md_chain (blk sha) (ds_cv init sha ?t) (concat (map hb_p bs))"
      by (rule hash_run_update [OF eng bs False st])
    then show ?thesis
      using hashexec_run [OF free] hash_nblocks_pos [of bs] bs False
      by (auto simp: ds_cv_def put_hashlock_def)
  qed
  then obtain t c' where run: "(if 0 < hash_nblocks bs then hashexec env bs ?t sha else kret (?t, None)) c = (Inr (t, None), c')"
    and t: "\<not> ce_hashlock c'" "ds_len t = ds_len ?s" "5 \<le> length (ds_state t)" "ds_buf t = buf" "ds_blen t = l"
      "ds_cv init sha t = md_chain (blk sha) (ds_cv init sha s) (concat (map hb_p bs))" by blast
  let ?u = "if rest \<noteq> [] then t\<lparr>ds_buf := rest @ drop (length rest) (ds_buf t), ds_blen := length rest\<rparr> else t"
  have "hash env p False (Some s) sha c = (Inr (?u, None), c')"
  proof -
    have "hash env p False (Some s) sha c =
        kbind (if 0 < hash_nblocks bs then hashexec env bs ?t sha else kret (?t, None))
          (\<lambda>(s, d). kret (if rest \<noteq> [] then
             (s\<lparr>ds_buf := rest @ drop (length rest) (ds_buf s), ds_blen := length rest\<rparr>, d) else (s, d))) c"
      by (simp add: hash_def H)
    also have "\<dots> = (Inr (?u, None), c')" by (subst kbind_Inr, rule run) simp
    finally show ?thesis .
  qed
  moreover have "digest_of blk init sha ?u (m @ ?q)"
  proof (rule digest_of_next [OF rep _ cs L])
    show "md_rest m @ ?q = concat (map hb_p bs) @ L"
      using cat rep unfolding digest_of_def by (metis ds_left)
    show "ds_len ?u = of_nat (length (m @ ?q))"
      using rep t(2) by (simp add: digest_of_def hash_eats_length)
  qed (use t rest buf in \<open>auto simp: ds_cv_def split: if_splits\<close>)
  ultimately show ?thesis using t(1) by blast
qed

lemma hash_finishes:
  assumes eng: "hash_engine env blk init"
    and rep: "digest_of blk init sha s m"
    and free: "\<not> ce_hashlock c"
  shows "\<exists>s' c'. hash env p True (Some s) sha c
           = (Inr (s', Some (md_digest blk init sha (m @ hash_eats (length m mod 64) p))), c') \<and>
           \<not> ce_hashlock c'"
proof -
  let ?s = "s\<lparr>ds_len := ds_len s + of_nat (length p)\<rparr>"
  let ?q = "hash_eats (length m mod 64) p"
  have b: "ds_blen ?s < 64" "64 \<le> length (ds_buf ?s)" using rep by (simp_all add: digest_of_def)
  obtain bs L buf l rest where
    H: "hash_bufs True (hash_fill p ?s)
      = (bs @ [\<lparr>hb_p = L, hb_finish = True\<rparr>], ?s\<lparr>ds_buf := buf, ds_blen := l\<rparr>, rest)"
    and bs: "\<forall>b\<in>set bs. \<not> hb_finish b \<and> length (hb_p b) mod 64 = 0 \<and> 64 \<le> length (hb_p b)"
    and cat: "take (ds_blen ?s) (ds_buf ?s) @ hash_eats (ds_blen ?s) p = concat (map hb_p bs) @ L"
    and L: "length L < 64"
    by (rule hash_bufs_fill [OF b, of True p]) auto
  have cs: "length (concat (map hb_p bs)) mod 64 = 0"
    using bs by (induction bs) (auto simp: mod_add_eq [symmetric])
  let ?t = "?s\<lparr>ds_buf := buf, ds_blen := l\<rparr>"
  have st: "5 \<le> length (ds_state ?t)" using rep by (simp add: digest_of_def)
  have cat': "md_rest m @ ?q = concat (map hb_p bs) @ L" using cat rep unfolding digest_of_def by (metis ds_left)
  have nb: "ds_len ?t = of_nat (length (m @ ?q))" using rep by (simp add: digest_of_def hash_eats_length)
  obtain h' where run: "hash_run env (bs @ [\<lparr>hb_p = L, hb_finish = True\<rparr>]) ?t sha (ce_hash c) =
       Inr ((?t\<lparr>ds_seeded := True\<rparr>, Some (md_out sha (md_chain (blk sha) (ds_cv init sha ?t)
         (concat (map hb_p bs) @ L @ md_padding sha (length L) (ds_len ?t * 8))))), h')"
    by (rule hash_run_digest [OF eng bs st L])
  have cv: "ds_cv init sha ?t = md_chain (blk sha) (init sha) m"
  proof -
    have "ds_cv init sha ?t = ds_cv init sha s" by (simp add: ds_cv_def)
    with rep show ?thesis by (simp add: digest_of_def)
  qed
  have "md_padding sha (length L) (ds_len ?t * 8) = md_padding sha (length (m @ ?q)) (of_nat (length (m @ ?q)) * 8)"
    unfolding nb using md_rest_append(2) [OF cat' cs L] by (metis md_padding_mod)
  then have "md_out sha (md_chain (blk sha) (ds_cv init sha ?t)
         (concat (map hb_p bs) @ L @ md_padding sha (length L) (ds_len ?t * 8))) = md_digest blk init sha (m @ ?q)"
    unfolding md_digest_def cv append_assoc [of m] md_chain_resume [of "blk sha" "init sha" m]
    by (simp only: append_assoc [symmetric] cat')
  with run H free show ?thesis
    unfolding hash_def by (simp add: kbind_def hashexec_run put_hashlock_def)
qed


section \<open>Messages in pieces\<close>

text \<open>The calls for the pieces of a message, the last of which asks for the digest.\<close>

fun hash_pieces ::
  "('h, 'd) cenv \<Rightarrow> u8 list list \<Rightarrow> u8 list \<Rightarrow> digest option \<Rightarrow> bool \<Rightarrow> (('h, 'd) cesa, digest \<times> u8 list option) kact" where
  "hash_pieces env [] p s sha = hash env p True s sha"
| "hash_pieces env (q # ps) p s sha =
     kbind (hash env q False s sha) (\<lambda>(s, _). hash_pieces env ps p (Some s) sha)"

lemma digest_of_0: "digest_of blk init sha digest0 []"
  by (simp add: digest_of_def digest0_def ds_cv_def md_chain_less)

lemma hash_None: "hash env p dg None sha = hash env p dg (Some digest0) sha"
  by (simp add: hash_def)

lemma hash_pieces_run:
  assumes "hash_engine env blk init" "digest_of blk init sha s m" "\<not> ce_hashlock c"
    and "\<forall>q\<in>set ps. length q \<le> 64" "length p \<le> 64"
  shows "\<exists>s' c'. hash_pieces env ps p (Some s) sha c
           = (Inr (s', Some (md_digest blk init sha (m @ concat ps @ p))), c') \<and> \<not> ce_hashlock c'"
  using assms(2-4)
proof (induction ps arbitrary: s m c)
  case Nil
  then show ?case using hash_finishes [OF assms(1) Nil(1,2), of p] hash_eats_all [OF assms(5)] by simp
next
  case (Cons q ps)
  then have q: "length q \<le> 64" by simp
  obtain s1 c1 where 1: "hash env q False (Some s) sha c = (Inr (s1, None), c1)" "\<not> ce_hashlock c1"
      "digest_of blk init sha s1 (m @ q)"
    using hash_continues [OF assms(1) Cons.prems(1,2), of q] hash_eats_all [OF q] by auto
  have "hash_pieces env (q # ps) p (Some s) sha c = hash_pieces env ps p (Some s1) sha c1"
    unfolding hash_pieces.simps by (subst kbind_Inr, rule 1(1)) simp
  with Cons.IH [OF 1(3,2)] Cons.prems(3) show ?case by simp
qed

text \<open>
  C25: a message given to \<open>hash\<close> in pieces of at most 64 bytes, whatever their boundaries, gets the
  digest of the whole message: that of the reference that pads the message and chains the compression
  function over its blocks, with an engine that does what it is documented to.
\<close>

theorem hash_digest_of_pieces:
  assumes "hash_engine env blk init" and "\<not> ce_hashlock c"
    and "\<forall>q\<in>set ps. length q \<le> 64" "length p \<le> 64"
  shows "\<exists>s' c'. hash_pieces env ps p None sha c
           = (Inr (s', Some (md_digest blk init sha (concat ps @ p))), c') \<and> \<not> ce_hashlock c'"
proof -
  have "hash_pieces env ps p None sha = hash_pieces env ps p (Some digest0) sha"
    by (cases ps) (simp_all add: hash_None)
  then show ?thesis
    using hash_pieces_run [OF assms(1) digest_of_0 assms(2-4), of sha] by simp
qed

text \<open>An engine that keeps the documented laws, with sums of the words as compression functions.\<close>

definition sum_blk :: "bool \<Rightarrow> u32 list \<Rightarrow> u32 list \<Rightarrow> u32 list" where
  "sum_blk sha iv ws = map (\<lambda>v. v + sum_list ws) (take (hash_nw sha) (iv @ replicate 5 0))"

definition sum_init :: "bool \<Rightarrow> u32 list" where
  "sum_init sha = replicate (hash_nw sha) 1"

record sumengine =
  se_cmd :: u32
  se_ws :: "u32 list"
  se_iv :: "u32 list"

definition sum_full :: "sumengine \<Rightarrow> sumengine" where
  "sum_full e =
     (if length (se_ws e) = 16 then
        (let sha = (se_cmd e AND HASHsha1 \<noteq> 0);
             iv = (if se_cmd e AND HASHcontinue \<noteq> 0 then take (hash_nw sha) (se_iv e @ replicate 5 0) else sum_init sha) in
         e\<lparr>se_ws := [], se_iv := sum_blk sha iv (se_ws e) @ drop (hash_nw sha) (se_iv e @ replicate 5 0)\<rparr>)
      else e)"

definition sum_env :: "(sumengine, unit) cenv" where
  "sum_env = \<lparr>ev_cmd = (\<lambda>c e. e\<lparr>se_cmd := c, se_ws := []\<rparr>),
     ev_data = (\<lambda>w e. sum_full (e\<lparr>se_ws := se_ws e @ [w]\<rparr>)),
     ev_bits = (\<lambda>lo hi e. sum_full (e\<lparr>se_ws := se_ws e @ replicate (14 - length (se_ws e)) 0 @ [lo, hi]\<rparr>)),
     ev_ready = (\<lambda>e. se_ws e = []), ev_iv = (\<lambda>e. take 5 (se_iv e @ replicate 5 0)),
     ev_setiv = (\<lambda>v e. e\<lparr>se_iv := v @ drop (length v) (se_iv e)\<rparr>),
     ev_aesready = True, ev_aes = (\<lambda>_ _ _ ws. ws), ev_desin = (\<lambda>_ _ d. d), ev_desout = (\<lambda>_. None),
     ev_desiv = (\<lambda>_. (0, 0)), ev_tdmaerr = 0\<rparr>"

lemma sum_fold:
  "length (se_ws e) + length ws < 16 \<Longrightarrow> fold (ev_data sum_env) ws e = e\<lparr>se_ws := se_ws e @ ws\<rparr>"
  by (induction ws arbitrary: e) (simp_all add: sum_env_def sum_full_def)

lemma sum_cmd:
  "length ws \<le> 14 \<Longrightarrow> hash_cmd sum_env cmd ws e = e\<lparr>se_cmd := cmd, se_ws := ws\<rparr>"
  by (simp add: hash_cmd_def) (subst sum_fold, auto simp: sum_env_def)

lemma sum_cmd16:
  assumes "length ws = 16"
  shows "hash_cmd sum_env cmd ws e = sum_full (e\<lparr>se_cmd := cmd, se_ws := ws\<rparr>)"
proof -
  obtain vs w where w: "ws = vs @ [w]" "length vs = 15" using assms by (cases ws rule: rev_cases) auto
  then have "fold (ev_data sum_env) vs (e\<lparr>se_cmd := cmd, se_ws := []\<rparr>) = e\<lparr>se_cmd := cmd, se_ws := vs\<rparr>"
    by (subst sum_fold) simp_all
  with w show ?thesis by (simp add: hash_cmd_def sum_env_def)
qed

lemma hcmd_bits: "hcmd sha cont AND HASHsha1 \<noteq> 0 \<longleftrightarrow> sha" "hcmd sha cont AND HASHcontinue \<noteq> 0 \<longleftrightarrow> cont"
  by (cases sha; cases cont; simp add: hcmd_def)+

lemma sum_blk_length: "length (sum_blk sha iv ws) = hash_nw sha"
  by (auto simp: sum_blk_def)

lemma sum_full_hcmd:
  assumes "length ws = 16" "se_ws e = ws" "se_cmd e = hcmd sha cont"
  shows "sum_full e = e\<lparr>se_ws := [],
     se_iv := sum_blk sha (if cont then take (hash_nw sha) (se_iv e @ replicate 5 0) else sum_init sha) ws
       @ drop (hash_nw sha) (se_iv e @ replicate 5 0)\<rparr>"
  unfolding sum_full_def assms(2,3) hcmd_bits Let_def using assms(1) by (simp only: if_True simp_thms)

lemma sum_full16:
  assumes "length ws = 16"
  shows "ev_ready sum_env (sum_full (e\<lparr>se_cmd := hcmd sha cont, se_ws := ws\<rparr>))" (is ?ready)
    and "take (hash_nw sha) (ev_iv sum_env (sum_full (e\<lparr>se_cmd := hcmd sha cont, se_ws := ws\<rparr>)))
       = sum_blk sha (hcv sum_env sum_init sha cont e) ws" (is ?iv)
proof -
  let ?v = "if cont then take (hash_nw sha) (se_iv e @ replicate 5 0) else sum_init sha"
  have full: "sum_full (e\<lparr>se_cmd := hcmd sha cont, se_ws := ws\<rparr>)
      = e\<lparr>se_cmd := hcmd sha cont, se_ws := [],
          se_iv := sum_blk sha ?v ws @ drop (hash_nw sha) (se_iv e @ replicate 5 0)\<rparr>"
    by (subst sum_full_hcmd [OF assms, where sha = sha and cont = cont]) simp_all
  have v: "hcv sum_env sum_init sha cont e = ?v"
    by (auto simp: hcv_def sum_env_def min_def)
  show ?ready unfolding full by (simp add: sum_env_def)
  have iv: "ev_iv sum_env d = take 5 (se_iv d @ replicate 5 0)" for d by (simp add: sum_env_def)
  have sel: "se_iv (e\<lparr>se_cmd := x, se_ws := y, se_iv := z\<rparr>) = z" for x y z by simp
  have t: "take (hash_nw sha) (take 5 ((sum_blk sha ?v ws @ u) @ replicate 5 0)) = sum_blk sha ?v ws" for u
    using sum_blk_length [of sha ?v ws] by (cases sha) simp_all
  show ?iv unfolding full v iv sel by (rule t)
qed

lemma sum_engine: "hash_engine sum_env sum_blk sum_init"
  unfolding hash_engine_def Let_def
proof (intro conjI allI impI)
  fix sha cont ws e
  assume l: "length (ws :: u32 list) = 16"
  show "ev_ready sum_env (hash_cmd sum_env (hcmd sha cont) ws e)"
    "take (hash_nw sha) (ev_iv sum_env (hash_cmd sum_env (hcmd sha cont) ws e))
       = sum_blk sha (hcv sum_env sum_init sha cont e) ws"
    unfolding sum_cmd16 [OF l] by (rule sum_full16 [OF l])+
next
  fix sha cont ws e lo hi
  assume l: "length (ws :: u32 list) \<le> 14"
  have w: "length (ws @ replicate (14 - length ws) 0 @ [lo, hi]) = 16" using l by simp
  have "ev_bits sum_env lo hi (hash_cmd sum_env (hcmd sha cont) ws e)
      = sum_full (e\<lparr>se_cmd := hcmd sha cont, se_ws := ws @ replicate (14 - length ws) 0 @ [lo, hi]\<rparr>)"
    unfolding sum_cmd [OF l] by (simp add: sum_env_def)
  with sum_full16 [OF w]
  show "ev_ready sum_env (ev_bits sum_env lo hi (hash_cmd sum_env (hcmd sha cont) ws e))"
    "take (hash_nw sha) (ev_iv sum_env (ev_bits sum_env lo hi (hash_cmd sum_env (hcmd sha cont) ws e)))
       = sum_blk sha (hcv sum_env sum_init sha cont e) (ws @ replicate (14 - length ws) 0 @ [lo, hi])"
    by simp_all
qed (auto simp: sum_env_def)


definition cesa0 :: "(sumengine, unit) cesa" where
  "cesa0 = \<lparr>ce_hashlock = False, ce_aeslock = False, ce_deslock = False,
     ce_hash = \<lparr>se_cmd = 0, se_ws = [], se_iv = []\<rparr>,
     ce_desr = \<lparr>de_cmd = 0, de_key = replicate 6 0, de_iv = (0, 0)\<rparr>, ce_des = (), ce_done = 0,
     ce_tdma = \<lparr>td_win = [], td_irqerr = 0, td_irqerrmask = 0\<rparr>,
     ce_crypt = \<lparr>cr_irq = 0, cr_irqmask = 0\<rparr>\<rparr>"

theorem hash_digest_of_pieces_witness:
  "\<exists>s' c'. hash_pieces sum_env [replicate 60 7, [1, 2, 3, 4, 5]] [6] None False cesa0
     = (Inr (s', Some (md_digest sum_blk sum_init False (replicate 60 7 @ [1, 2, 3, 4, 5, 6]))), c') \<and>
       \<not> ce_hashlock c'"
  using hash_digest_of_pieces [OF sum_engine, of cesa0 "[replicate 60 7, [1, 2, 3, 4, 5]]" "[6]" False]
  by (simp add: cesa0_def)

text \<open>
  data that is given in one call and is longer than a block loses its tail: after the whole blocks
  the code hashes the bytes at the start of the data again, as many as are left, so that two messages
  of the same length with the same whole blocks have one digest.
\<close>

lemma hash_long_tail_lost:
  assumes "hash_engine env blk init" and "\<not> ce_hashlock c"
    and "length a mod 64 = 0" "a \<noteq> []" and "length t < 64" "length u = length t"
  shows "\<exists>s1 c1 s2 c2.
     hash env (a @ t) True None sha c = (Inr (s1, Some (md_digest blk init sha (a @ take (length t) a))), c1) \<and>
     hash env (a @ u) True None sha c = (Inr (s2, Some (md_digest blk init sha (a @ take (length t) a))), c2)"
proof -
  have "64 \<le> length a" using assms(3,4) by (cases "length a < 64") auto
  moreover obtain k where "length a = 64 * k" using assms(3) by (metis mod_0_imp_dvd dvd_def)
  ultimately have "hash_eats 0 (a @ v) = a @ take (length v) a" if "length v < 64" for v
    using that by (simp add: hash_eats_def Let_def)
  with hash_finishes [OF assms(1) digest_of_0 assms(2), of "a @ t" sha]
    hash_finishes [OF assms(1) digest_of_0 assms(2), of "a @ u" sha] assms(5,6)
  show ?thesis by (auto simp: hash_None)
qed

lemma hash_long_tail_lost_witness:
  "\<exists>s1 c1 s2 c2 d.
     hash sum_env (replicate 64 7 @ [1]) True None True cesa0 = (Inr (s1, Some d), c1) \<and>
     hash sum_env (replicate 64 7 @ [2]) True None True cesa0 = (Inr (s2, Some d), c2)"
  using hash_long_tail_lost [OF sum_engine, of cesa0 "replicate 64 7" "[1]" "[2]" True]
  by (auto simp: cesa0_def)

end
