(* ===== verification/Cesa_Aes.thy ===== *)
theory Cesa_Aes
  imports Cesa_Io
begin

text \<open>
  Correctness of the AES part of \<open>cesa.c\<close>: the chaining of blocks over an engine whose decryption
  inverts its encryption, and what a call leaves for the next.
\<close>

section \<open>Words and bytes\<close>

abbreviation unwords32 :: "u32 list \<Rightarrow> u8 list" where "unwords32 ws \<equiv> concat (map p32 ws)"

lemma words32_unwords: "words32 (unwords32 ws @ p) = ws @ words32 p"
  by (induction ws) (simp_all add: words32_p32)

lemma unwords32_words: "length p mod 4 = 0 \<Longrightarrow> unwords32 (words32 p) = p"
proof (induction p rule: words32.induct)
  case (1 a b c d p)
  have "p32 (g32 [a, b, c, d]) = [a, b, c, d]" by (simp add: p32_def g32_def be32_bytes)
  with 1 show ?case by simp
qed auto

lemma unwords32_length: "length (unwords32 ws) = 4 * length ws"
  by (induction ws) (simp_all add: p32_length)

lemma xor4_cancel: "length a = length b \<Longrightarrow> xor4 a (xor4 b a) = b"
  by (induction a b rule: list_induct2) (auto intro!: bit_word_eqI simp: bit_xor_iff)

lemma block_words: "16 \<le> length p \<Longrightarrow> length (words32 (take 16 p)) = 4"
  by (simp add: words32_length)

declare aes_cbc_enc.simps [simp del] aes_cbc_dec.simps [simp del] aes_ecb.simps [simp del]

lemma aes_cbc_enc_Nil: "aes_cbc_enc f v [] = Inr ([], v)"
  by (simp add: aes_cbc_enc.simps)

lemma aes_cbc_dec_Nil: "aes_cbc_dec g a b [] = Inr ([], b)"
  by (simp add: aes_cbc_dec.simps)

lemma aes_cbc_enc_step:
  "16 \<le> length p \<Longrightarrow> aes_cbc_enc f v p =
     (let v' = f (xor4 (words32 (take 16 p)) v) in
      ebind (aes_cbc_enc f v' (drop 16 p)) (\<lambda>(q, u). Inr (unwords32 v' @ q, u)))"
  by (subst aes_cbc_enc.simps) auto

lemma aes_cbc_dec_step:
  "16 \<le> length p \<Longrightarrow> aes_cbc_dec g a b p =
     (let b = words32 (take 16 p) in
      ebind (aes_cbc_dec g b a (drop 16 p)) (\<lambda>(q, u). Inr (unwords32 (xor4 a (g b)) @ q, u)))"
  by (subst aes_cbc_dec.simps) auto

section \<open>Chaining\<close>

definition block_inverse :: "(u32 list \<Rightarrow> u32 list) \<Rightarrow> (u32 list \<Rightarrow> u32 list) \<Rightarrow> bool" where
  "block_inverse f g \<longleftrightarrow> (\<forall>ws. length ws = 4 \<longrightarrow> length (f ws) = 4 \<and> g (f ws) = ws)"

lemma aes_cbc_enc_dec:
  assumes fg: "block_inverse f g" and p: "length p mod 16 = 0" and v: "length v = 4"
  obtains q v' where "aes_cbc_enc f v p = Inr (q, v')" "length q = length p" "length v' = 4"
    "\<And>w. \<exists>u. aes_cbc_dec g v w q = Inr (p, u)"
proof -
  have "\<exists>q v'. aes_cbc_enc f v p = Inr (q, v') \<and> length q = length p \<and> length v' = 4 \<and>
      (\<forall>w. \<exists>u. aes_cbc_dec g v w q = Inr (p, u))"
    using p v
  proof (induction p arbitrary: v rule: length_induct)
    case (1 p)
    show ?case
    proof (cases "p = []")
      case True
      then show ?thesis using 1 by (simp add: aes_cbc_enc_Nil aes_cbc_dec_Nil)
    next
      case False
      with "1.prems"(1) have l: "16 \<le> length p" by (cases "length p < 16") auto
      let ?b = "words32 (take 16 p)"
      let ?v = "f (xor4 ?b v)"
      have x: "length (xor4 ?b v) = 4" using "1.prems"(2) l by (simp add: block_words)
      with fg have v': "length ?v = 4" "g ?v = xor4 ?b v" by (simp_all add: block_inverse_def)
      have d: "length (drop 16 p) < length p" "length (drop 16 p) mod 16 = 0"
        using l "1.prems"(1) by (auto simp: le_mod_geq)
      from "1.IH" [rule_format, OF this v'(1)] obtain q u where
        q: "aes_cbc_enc f ?v (drop 16 p) = Inr (q, u)" "length q = length p - 16" "length u = 4"
          "\<And>w. \<exists>u. aes_cbc_dec g ?v w q = Inr (drop 16 p, u)" by auto
      let ?q = "unwords32 ?v @ q"
      have lq: "length (unwords32 ?v) = 16" by (simp add: unwords32_length v'(1))
      have "unwords32 ?b = take 16 p" using l by (simp add: unwords32_words)
      moreover have "xor4 v (g ?v) = ?b" unfolding v'(2) using "1.prems"(2) l by (intro xor4_cancel) (simp add: block_words)
      moreover have "words32 (take 16 ?q) = ?v" using lq words32_unwords [of ?v "[]"] by simp
      ultimately have "\<exists>u. aes_cbc_dec g v w ?q = Inr (p, u)" for w
        using q(4) [of v] lq
        by (auto simp: aes_cbc_dec_step Let_def simp del: map_map take_append)
      moreover have "aes_cbc_enc f v p = Inr (?q, u)" using q(1) l by (simp add: aes_cbc_enc_step Let_def)
      ultimately show ?thesis using q(2,3) lq l by auto
    qed
  qed
  with that show thesis by blast
qed

lemma aes_cbc_dec_whole:
  "length p mod 16 = 0 \<Longrightarrow> \<exists>q u. aes_cbc_dec g a b p = Inr (q, u)"
proof (induction p arbitrary: a b rule: length_induct)
  case (1 p)
  show ?case
  proof (cases "p = []")
    case False
    with "1.prems" have l: "16 \<le> length p" by (cases "length p < 16") auto
    then have d: "length (drop 16 p) < length p" "length (drop 16 p) mod 16 = 0"
      using "1.prems" by (auto simp: le_mod_geq)
    from "1.IH" [rule_format, OF this, of "words32 (take 16 p)" a] obtain q u
      where "aes_cbc_dec g (words32 (take 16 p)) a (drop 16 p) = Inr (q, u)" by blast
    with l show ?thesis by (simp add: aes_cbc_dec_step Let_def)
  qed (simp add: aes_cbc_dec_Nil)
qed

text \<open>Encryption of a message in two calls: the second goes on from the last block of the first.\<close>

lemma aes_cbc_enc_append:
  "length p mod 16 = 0 \<Longrightarrow>
   aes_cbc_enc f v (p @ q) = ebind (aes_cbc_enc f v p) (\<lambda>(p', v'). ebind (aes_cbc_enc f v' q) (\<lambda>(q', u). Inr (p' @ q', u)))"
proof (induction p arbitrary: v rule: length_induct)
  case (1 p)
  show ?case
  proof (cases "p = []")
    case True
    then show ?thesis by (cases "aes_cbc_enc f v q") (auto simp: aes_cbc_enc_Nil)
  next
    case False
    with "1.prems"(1) have l: "16 \<le> length p" by (cases "length p < 16") auto
    let ?v = "f (xor4 (words32 (take 16 p)) v)"
    have d: "length (drop 16 p) < length p" "length (drop 16 p) mod 16 = 0"
      using l "1.prems"(1) by (auto simp: le_mod_geq)
    have "aes_cbc_enc f ?v (drop 16 p @ q) = ebind (aes_cbc_enc f ?v (drop 16 p))
        (\<lambda>(p', v'). ebind (aes_cbc_enc f v' q) (\<lambda>(q', u). Inr (p' @ q', u)))"
      by (rule "1.IH" [rule_format, OF d])
    then show ?thesis
      using l False
      by (cases "aes_cbc_enc f ?v (drop 16 p)")
        (auto simp: aes_cbc_enc_step Let_def ebind_def split: sum.splits)
  qed
qed

text \<open>
  What decryption leaves for the next call: after one block the vector it began with, after more the
  last block but one.
\<close>

lemma aes_cbc_dec_iv:
  assumes "length p = 16 * Suc k" and "aes_cbc_dec g a b p = Inr (q, u)"
  shows "u = (if k = 0 then a else words32 (take 16 (drop (16 * (k - 1)) p)))"
  using assms
proof (induction k arbitrary: a b p q)
  case 0
  then show ?case
    by (simp add: aes_cbc_dec_step aes_cbc_dec_Nil Let_def)
next
  case (Suc k)
  let ?b = "words32 (take 16 p)"
  have l: "length (drop 16 p) = 16 * Suc k" using Suc.prems(1) by simp
  from Suc.prems obtain q' where "aes_cbc_dec g ?b a (drop 16 p) = Inr (q', u)"
    by (auto simp: aes_cbc_dec_step Let_def ebind_Inr)
  from Suc.IH [OF l this] show ?case
    by (cases k) (simp_all add: add.commute)
qed


lemma aes_cbc_enc_iv:
  "length p = 16 * Suc k \<Longrightarrow> block_inverse f g \<Longrightarrow> length v = 4 \<Longrightarrow> aes_cbc_enc f v p = Inr (q, u) \<Longrightarrow>
   unwords32 u = drop (16 * k) q \<and> length q = length p"
proof (induction k arbitrary: v p q)
  case 0
  then have "length (f (xor4 (words32 (take 16 p)) v)) = 4"
    by (simp add: block_inverse_def words32_length)
  with 0 show ?case by (auto simp: aes_cbc_enc_step aes_cbc_enc_Nil Let_def unwords32_length)
next
  case (Suc k)
  let ?v = "f (xor4 (words32 (take 16 p)) v)"
  have v: "length ?v = 4" using Suc.prems by (simp add: block_inverse_def words32_length)
  have l: "length (drop 16 p) = 16 * Suc k" using Suc.prems(1) by simp
  from Suc.prems(1,4) obtain q' where q': "aes_cbc_enc f ?v (drop 16 p) = Inr (q', u)" "q = unwords32 ?v @ q'"
    by (auto simp: aes_cbc_enc_step Let_def ebind_Inr)
  from Suc.IH [OF l Suc.prems(2) v q'(1)] q'(2) v Suc.prems(1) show ?case
    by (simp add: unwords32_length)
qed

section \<open>The calls\<close>

definition aes_ok :: "('h, 'd) cenv \<Rightarrow> aesstate \<Rightarrow> ('h, 'd) cesa \<Rightarrow> bool" where
  "aes_ok env s c \<longleftrightarrow> ev_aesready env \<and> as_keybytes s \<in> {16, 24, 32} \<and> length (as_ivec s) = 16 \<and> \<not> ce_aeslock c"

text \<open>The decryption engine, told to expand the key, inverts the encryption engine on blocks of four words.\<close>

definition aes_inverse :: "('h, 'd) cenv \<Rightarrow> bool" where
  "aes_inverse env \<longleftrightarrow>
     (\<forall>cmd key. block_inverse (aes_engine env True cmd key) (aes_engine env False (cmd OR AESmakekey) key))"

definition aes_cmd :: "aesstate \<Rightarrow> u32" where
  "aes_cmd s = (if as_keybytes s = 16 then AESkey128 else if as_keybytes s = 24 then AESkey192 else AESkey256)"

lemma aes_call:
  assumes "aes_ok env s c"
  shows "aes env w p s enc cbc c = (aes_run env w p s enc cbc (aes_cmd s),
           if isl (aes_run env w p s enc cbc (aes_cmd s)) then c\<lparr>ce_aeslock := True\<rparr> else c)"
proof -
  have "aes env w p s enc cbc c = with_ilock ce_aeslock put_aeslock (klift (aes_run env w p s enc cbc (aes_cmd s))) c"
    using assms by (auto simp: aes_def aes_ok_def aes_cmd_def)
  then show ?thesis
    using assms
    by (cases "aes_run env w p s enc cbc (aes_cmd s)")
      (auto simp: with_ilock_def kthen_def kbind_def ilock_def iunlock_def put_aeslock_def aes_ok_def)
qed

abbreviation aes_enc_of :: "('h, 'd) cenv \<Rightarrow> aesstate \<Rightarrow> u32 list \<Rightarrow> u32 list" where
  "aes_enc_of env s \<equiv> aes_engine env True (aes_cmd s) (aes_keyregs s)"

abbreviation aes_dec_of :: "('h, 'd) cenv \<Rightarrow> aesstate \<Rightarrow> u32 list \<Rightarrow> u32 list" where
  "aes_dec_of env s \<equiv> aes_engine env False (aes_cmd s OR AESmakekey) (aes_keyregs s)"

lemma aesCBCencrypt_run:
  assumes "aes_ok env s c" "aes_cbc_enc (aes_enc_of env s) (words32 (as_ivec s)) p = Inr (q, u)"
  shows "aesCBCencrypt env w p s c = (Inr (q, s\<lparr>as_ivec := unwords32 u\<rparr>), c)"
proof -
  have "aes_run env w p s True True (aes_cmd s) = Inr (q, s\<lparr>as_ivec := unwords32 u\<rparr>)"
    using assms by (simp add: aes_run_def aes_ok_def Let_def)
  then show ?thesis by (simp add: aesCBCencrypt_def aes_call [OF assms(1)])
qed

lemma aesCBCdecrypt_run:
  assumes "aes_ok env s c" "aes_cbc_dec (aes_dec_of env s) (words32 (as_ivec s)) w p = Inr (q, u)"
  shows "aesCBCdecrypt env w p s c = (Inr (q, s\<lparr>as_ivec := unwords32 u\<rparr>), c)"
proof -
  have "aes_run env w p s False True (aes_cmd s) = Inr (q, s\<lparr>as_ivec := unwords32 u\<rparr>)"
    using assms by (simp add: aes_run_def aes_ok_def Let_def)
  then show ?thesis by (simp add: aesCBCdecrypt_def aes_call [OF assms(1)])
qed

lemma words32_ivec: "length iv = 16 \<Longrightarrow> length (words32 iv) = 4"
  by (simp add: words32_length)

text \<open>
  C26: what \<open>aesCBCencrypt\<close> makes of any number of whole blocks, \<open>aesCBCdecrypt\<close> turns back into
  them with the same key and vector, and both return with the lock free, when the decryption engine
  inverts the encryption engine.
\<close>

theorem aes_cbc_roundtrip:
  assumes "aes_inverse env" and "aes_ok env s c" and "length p mod 16 = 0"
  shows "\<exists>q s'. aesCBCencrypt env w p s c = (Inr (q, s'), c) \<and> length q = length p \<and>
           (\<exists>s''. aesCBCdecrypt env w q s c = (Inr (p, s''), c))"
proof -
  have v: "length (words32 (as_ivec s)) = 4" using assms(2) by (simp add: aes_ok_def words32_ivec)
  have fg: "block_inverse (aes_enc_of env s) (aes_dec_of env s)" using assms(1) by (simp add: aes_inverse_def)
  obtain q v' where q: "aes_cbc_enc (aes_enc_of env s) (words32 (as_ivec s)) p = Inr (q, v')" "length q = length p"
      "\<And>w. \<exists>u. aes_cbc_dec (aes_dec_of env s) (words32 (as_ivec s)) w q = Inr (p, u)"
    by (rule aes_cbc_enc_dec [OF fg assms(3) v]) blast
  from q(3) [of w] obtain u where "aes_cbc_dec (aes_dec_of env s) (words32 (as_ivec s)) w q = Inr (p, u)" ..
  from aesCBCdecrypt_run [OF assms(2) this] aesCBCencrypt_run [OF assms(2) q(1), of w] q(2)
  show ?thesis by blast
qed

text \<open>
  encryption leaves the last block of the ciphertext as the vector of the next call, so that a
  message can be encrypted in several calls; decryption leaves the last block but one (the old vector,
  after a single block), so that the next call of a decryption begins with the wrong vector.
\<close>

lemma aes_cbc_next_vector:
  assumes "aes_inverse env" and "aes_ok env s c" and "length p = 16 * Suc k"
  shows "(\<exists>q s1. aesCBCencrypt env w p s c = (Inr (q, s1), c) \<and> as_ivec s1 = drop (16 * k) q) \<and>
    (\<exists>q s2. aesCBCdecrypt env w p s c = (Inr (q, s2), c) \<and>
       as_ivec s2 = (if k = 0 then as_ivec s else take 16 (drop (16 * (k - 1)) p)))"
proof
  have v: "length (words32 (as_ivec s)) = 4" using assms(2) by (simp add: aes_ok_def words32_ivec)
  have fg: "block_inverse (aes_enc_of env s) (aes_dec_of env s)" using assms(1) by (simp add: aes_inverse_def)
  have p: "length p mod 16 = 0" using assms(3) by simp
  obtain q u where q: "aes_cbc_enc (aes_enc_of env s) (words32 (as_ivec s)) p = Inr (q, u)"
    by (rule aes_cbc_enc_dec [OF fg p v])
  from aesCBCencrypt_run [OF assms(2) q, of w] aes_cbc_enc_iv [OF assms(3) fg v q]
  show "\<exists>q s1. aesCBCencrypt env w p s c = (Inr (q, s1), c) \<and> as_ivec s1 = drop (16 * k) q" by auto
  obtain q u where q: "aes_cbc_dec (aes_dec_of env s) (words32 (as_ivec s)) w p = Inr (q, u)"
    using aes_cbc_dec_whole [OF p] by blast
  have "unwords32 u = (if k = 0 then as_ivec s else take 16 (drop (16 * (k - 1)) p))"
    unfolding aes_cbc_dec_iv [OF assms(3) q] using assms(2,3)
    by (auto simp: aes_ok_def unwords32_words)
  with aesCBCdecrypt_run [OF assms(2) q]
  show "\<exists>q s2. aesCBCdecrypt env w p s c = (Inr (q, s2), c) \<and>
       as_ivec s2 = (if k = 0 then as_ivec s else take 16 (drop (16 * (k - 1)) p))" by auto
qed

text \<open>An engine that inverts: it adds the first word of the key to each word of the block.\<close>

definition add_env :: "(sumengine, unit) cenv" where
  "add_env = sum_env\<lparr>ev_aes := (\<lambda>dec cmd key ws. map (\<lambda>w. if dec then w - hd (key @ [0]) else w + hd (key @ [0])) ws)\<rparr>"

definition aes0 :: aesstate where
  "aes0 = \<lparr>as_keybytes = 16, as_key = replicate 16 3, as_ivec = replicate 16 9\<rparr>"

lemma add_inverse: "aes_inverse add_env"
  by (simp add: aes_inverse_def block_inverse_def aes_engine_def add_env_def rev_map comp_def)

lemma add_ok: "aes_ok add_env aes0 cesa0"
  by (simp add: aes_ok_def add_env_def sum_env_def aes0_def cesa0_def)

theorem aes_cbc_roundtrip_witness:
  "\<exists>q s'. aesCBCencrypt add_env [] (replicate 32 5) aes0 cesa0 = (Inr (q, s'), cesa0) \<and> length q = 32 \<and>
     (\<exists>s''. aesCBCdecrypt add_env [] q aes0 cesa0 = (Inr (replicate 32 5, s''), cesa0))"
  using aes_cbc_roundtrip [OF add_inverse add_ok, of "replicate 32 5" "[]"] by simp

lemma aes_cbc_next_vector_witness:
  "\<exists>q s2. aesCBCdecrypt add_env [] (replicate 16 5) aes0 cesa0 = (Inr (q, s2), cesa0) \<and> as_ivec s2 = replicate 16 9"
  using aes_cbc_next_vector [OF add_inverse add_ok, of "replicate 16 5" 0 "[]"] by (auto simp: aes0_def)

end
