(* ===== verification/Nand.thy ===== *)
theory Nand
  imports Kw_Libc
begin

text \<open>
  \<open>kwnand.c\<close> and \<open>nand.c\<close>: the driver of the NAND flash.  The chip behind the bus and the error
  correction of \<open>nandecc.h\<close>, which is not part of the repository, are parameters.  Pauses and messages
  on the console have no effect on the state.
\<close>

section \<open>Constants and state\<close>

abbreviation NandActCEBoot :: u32 where "NandActCEBoot \<equiv> 0x2"
abbreviation NandCLE :: u32 where "NandCLE \<equiv> 0x1"
abbreviation NandALE :: u32 where "NandALE \<equiv> 0x2"
abbreviation Readstatus :: u8 where "Readstatus \<equiv> 0x70"
abbreviation Readid :: u8 where "Readid \<equiv> 0x90"
abbreviation NRead :: u8 where "NRead \<equiv> 0x00"
abbreviation Readstart :: u8 where "Readstart \<equiv> 0x30"
abbreviation Program :: u8 where "Program \<equiv> 0x80"
abbreviation Programstart :: u8 where "Programstart \<equiv> 0x10"
abbreviation Erase :: u8 where "Erase \<equiv> 0x60"
abbreviation Erasestart :: u8 where "Erasestart \<equiv> 0xd0"
abbreviation SFail :: u8 where "SFail \<equiv> 0x1"
abbreviation SIdle :: u8 where "SIdle \<equiv> 0x20"
abbreviation SReady :: u8 where "SReady \<equiv> 0x40"

record nandtab =
  nt_vid :: u8
  nt_did :: u8
  nt_size :: int
  nt_name :: string

definition nandtabs :: "nandtab list" where
  "nandtabs =
     [\<lparr>nt_vid = 0xad, nt_did = 0xdc, nt_size = 536870912, nt_name = ''Hy27UF084G2M''\<rparr>,
      \<lparr>nt_vid = 0xec, nt_did = 0xdc, nt_size = 536870912, nt_name = ''Samsung 2Gb''\<rparr>]"

text \<open>The fields of \<open>Flashregion\<close> and \<open>Flash\<close> of \<open>flashif.h\<close> that the code uses.\<close>

record region =
  rg_n :: int
  rg_start :: int
  rg_end :: int
  rg_pagesize :: u32
  rg_erasesize :: int

record 'n nand =
  nf_addr :: u32
  nf_data :: bool                  \<comment> \<open>\<open>data != nil\<close>\<close>
  nf_id :: u8
  nf_devid :: u8
  nf_width :: nat
  nf_nr :: nat
  nf_bytes :: int                  \<comment> \<open>\<open>size\<close>\<close>
  nf_region :: region
  nf_sort :: string
  nf_ops :: bool                   \<comment> \<open>\<open>read\<close>, \<open>write\<close> and \<open>erasezone\<close> are those of this file\<close>
  nf_ctl :: u32                    \<comment> \<open>\<open>NANDFREG->ctl\<close>\<close>
  nf_chip :: 'n

datatype eccres = NandEccErrorGood | NandEccErrorBad | NandEccErrorOneBit | NandEccErrorOneBitInEcc

text \<open>
  The chip: a byte stored at an address of the bus, and a byte loaded from one.  The code of 256 bytes,
  and what the correction makes of 256 bytes, their code and the code that was stored.
\<close>

record 'n nandenv =
  nv_store :: "u32 \<Rightarrow> u8 \<Rightarrow> 'n \<Rightarrow> 'n"
  nv_load :: "u32 \<Rightarrow> 'n \<Rightarrow> u8 \<times> 'n"
  nv_ecc :: "u8 list \<Rightarrow> u32"
  nv_correct :: "u8 list \<Rightarrow> u32 \<Rightarrow> u32 \<Rightarrow> eccres \<times> u8 list"

section \<open>The bus\<close>

definition nandcmd :: "'n nandenv \<Rightarrow> u8 \<Rightarrow> 'n nand \<Rightarrow> 'n nand" where
  "nandcmd env b f = f\<lparr>nf_chip := nv_store env (nf_addr f OR 1) b (nf_chip f)\<rparr>"

definition nandaddr :: "'n nandenv \<Rightarrow> u8 \<Rightarrow> 'n nand \<Rightarrow> 'n nand" where
  "nandaddr env b f = f\<lparr>nf_chip := nv_store env (nf_addr f OR 2) b (nf_chip f)\<rparr>"

definition nandread :: "'n nandenv \<Rightarrow> 'n nand \<Rightarrow> u8 \<times> 'n nand" where
  "nandread env f = (let (b, c) = nv_load env (nf_addr f) (nf_chip f) in (b, f\<lparr>nf_chip := c\<rparr>))"

fun nandreadn :: "'n nandenv \<Rightarrow> nat \<Rightarrow> 'n nand \<Rightarrow> u8 list \<times> 'n nand" where
  "nandreadn env 0 f = ([], f)"
| "nandreadn env (Suc n) f =
     (let (b, f) = nandread env f; (bs, f) = nandreadn env n f in (b # bs, f))"

definition nandwrite :: "'n nandenv \<Rightarrow> u8 \<Rightarrow> 'n nand \<Rightarrow> 'n nand" where
  "nandwrite env b f = f\<lparr>nf_chip := nv_store env (nf_addr f) b (nf_chip f)\<rparr>"

definition nandwriten :: "'n nandenv \<Rightarrow> u8 list \<Rightarrow> 'n nand \<Rightarrow> 'n nand" where
  "nandwriten env bs f = fold (nandwrite env) bs f"

definition nandclaim :: "'n nand \<Rightarrow> 'n nand" where
  "nandclaim f = f\<lparr>nf_ctl := nf_ctl f OR NandActCEBoot\<rparr>"

definition nandunclaim :: "'n nand \<Rightarrow> 'n nand" where
  "nandunclaim f = f\<lparr>nf_ctl := nf_ctl f AND NOT NandActCEBoot\<rparr>"

section \<open>Identification\<close>

definition pagesizes :: "u32 list" where "pagesizes = [1024, 2048, 0, 0]"
definition blocksizes :: "int list" where "blocksizes = [65536, 131072, 262144, 0]"

definition idchip_found :: "nandtab \<Rightarrow> u8 \<Rightarrow> 'n nand \<Rightarrow> exn + 'n nand" where
  "idchip_found chip id4 f =
     (let es = blocksizes ! unat (drop_bit 4 id4 AND 3);
          f = f\<lparr>nf_id := nt_vid chip, nf_devid := nt_did chip, nf_width := 1, nf_nr := 1, nf_bytes := nt_size chip\<rparr> in
      if es = 0 then Inl (Fault ''division by zero'')
      else Inr (f\<lparr>nf_region := \<lparr>rg_n = nf_bytes f div es, rg_start = 0, rg_end = nf_bytes f,
                   rg_pagesize = pagesizes ! unat (id4 AND 3), rg_erasesize = es\<rparr>\<rparr>))"

definition idchip :: "'n nandenv \<Rightarrow> 'n nand \<Rightarrow> exn + int \<times> 'n nand" where
  "idchip env f =
     (let f = nandclaim (f\<lparr>nf_id := 0, nf_devid := 0, nf_width := 1\<rparr>);
          f = nandaddr env 0 (nandcmd env Readid f);
          (maker, f) = nandread env f;
          (device, f) = nandread env f;
          (id3, f) = nandread env f;
          (id4, f) = nandread env f;
          f = nandunclaim f in
      (case find (\<lambda>c. nt_vid c = maker \<and> nt_did c = device) nandtabs of
         Some chip \<Rightarrow> ebind (idchip_found chip id4 f) (\<lambda>f. Inr (0, f))
       | None \<Rightarrow> Inr (- 1, f)))"

section \<open>Erase, write and read\<close>

text \<open>Up to a hundred looks at the status, then \<open>nandunclaim\<close> and the result.\<close>

fun nandwait :: "'n nandenv \<Rightarrow> nat \<Rightarrow> 'n nand \<Rightarrow> int \<times> 'n nand" where
  "nandwait env 0 f = (- 1, nandunclaim f)"
| "nandwait env (Suc n) f =
     (let (s, f) = nandread env f in
      if s AND SReady \<noteq> 0 then (if s AND SFail \<noteq> 0 then - 1 else 0, nandunclaim f)
      else nandwait env n f)"

definition nandidle :: "'n nandenv \<Rightarrow> 'n nand \<Rightarrow> bool \<times> 'n nand" where
  "nandidle env f =
     (let (s, f) = nandread env (nandcmd env Readstatus (nandclaim f)) in
      (s AND (SIdle OR SReady) = SIdle OR SReady, f))"

definition nandpage :: "'n nandenv \<Rightarrow> u32 \<Rightarrow> 'n nand \<Rightarrow> 'n nand" where
  "nandpage env page f =
     nandaddr env (ucast (drop_bit 16 page)) (nandaddr env (ucast (drop_bit 8 page)) (nandaddr env (ucast page) f))"

definition erasezone :: "'n nandenv \<Rightarrow> u32 \<Rightarrow> 'n nand \<Rightarrow> int \<times> 'n nand" where
  "erasezone env offset f =
     (if offset AND 0x1ffff \<noteq> 0 then (- 1, f)
      else
        (let (idle, f) = nandidle env f in
         if \<not> idle then (- 1, nandunclaim f)
         else
           nandwait env 100
             (nandcmd env Readstatus
               (nandcmd env Erasestart (nandpage env (drop_bit 11 offset) (nandcmd env Erase f))))))"

text \<open>The spare bytes of a page: \<open>0xff\<close>, and in the last 24 the codes of the eight parts.\<close>

definition ecc_bytes :: "u32 \<Rightarrow> u8 list" where
  "ecc_bytes v = [ucast (drop_bit 8 v), ucast v, ucast (drop_bit 16 v)]"

definition ecc_word :: "u8 list \<Rightarrow> u32" where
  "ecc_word e = push_bit 8 (ucast (e ! 0)) OR ucast (e ! 1) OR push_bit 16 (ucast (e ! 2))"

definition chunk :: "nat \<Rightarrow> nat \<Rightarrow> 'a list \<Rightarrow> 'a list" where
  "chunk n i xs = take n (drop (n * i) xs)"

definition nandoob :: "'n nandenv \<Rightarrow> u8 list \<Rightarrow> u8 list" where
  "nandoob env buf =
     replicate 40 0xff @ concat (map (\<lambda>i. ecc_bytes (nv_ecc env (chunk 256 i buf))) [0..<8])"

definition nand_write :: "'n nandenv \<Rightarrow> u32 \<Rightarrow> u8 list \<Rightarrow> 'n nand \<Rightarrow> int \<times> 'n nand" where
  "nand_write env offset buf f =
     (if length buf \<noteq> 2048 then (- 1, f)
      else if offset AND 0x7ff \<noteq> 0 then (- 1, f)
      else
        (let (idle, f) = nandidle env f in
         if \<not> idle then (- 1, nandunclaim f)
         else
           (let f = nandpage env (drop_bit 11 offset) (nandaddr env 0 (nandaddr env 0 (nandcmd env Program f)));
                f = nandwriten env (nandoob env buf) (nandwriten env buf f) in
            nandwait env 100 (nandcmd env Readstatus (nandcmd env Programstart f)))))"

text \<open>The parts of a page that was read are corrected in order; a bad one ends the call.\<close>

fun nandverify :: "'n nandenv \<Rightarrow> u8 list \<Rightarrow> u8 list \<Rightarrow> bool \<times> u8 list" where
  "nandverify env buf ecc =
     (if buf = [] then (True, [])
      else
        (let (res, p) = nv_correct env (take 256 buf) (nv_ecc env (take 256 buf)) (ecc_word ecc) in
         if res = NandEccErrorBad then (False, p @ drop 256 buf)
         else (let (ok, q) = nandverify env (drop 256 buf) (drop 3 ecc) in (ok, p @ q))))"

definition nand_read :: "'n nandenv \<Rightarrow> u32 \<Rightarrow> nat \<Rightarrow> 'n nand \<Rightarrow> (int \<times> u8 list) \<times> 'n nand" where
  "nand_read env offset n f =
     (let addr = offset AND (rg_pagesize (nf_region f) - 1); page = drop_bit 11 offset in
      if addr \<noteq> 0 \<or> n \<noteq> 2048 then ((- 1, []), f)
      else
        (let f = nandaddr env (ucast (drop_bit 8 addr)) (nandaddr env (ucast addr) (nandcmd env NRead (nandclaim f)));
             f = nandcmd env Readstart (nandpage env page f);
             (buf, f) = nandreadn env n f;
             (oob, f) = nandreadn env 64 f;
             f = nandunclaim f;
             (ok, buf) = nandverify env buf (drop 40 oob) in
         ((if ok then 0 else - 1, buf), f)))"

definition reset_nand :: "'n nandenv \<Rightarrow> 'n nand \<Rightarrow> exn + int \<times> 'n nand" where
  "reset_nand env f =
     (if nf_data f then Inr (1, f)
      else idchip env (f\<lparr>nf_ops := True, nf_sort := ''nand''\<rparr>))"

definition kwnandlink :: "(string \<times> ('n nandenv \<Rightarrow> 'n nand \<Rightarrow> exn + int \<times> 'n nand)) list \<Rightarrow>
    (string \<times> ('n nandenv \<Rightarrow> 'n nand \<Rightarrow> exn + int \<times> 'n nand)) list" where
  "kwnandlink cards = (''nand'', reset_nand) # cards"

section \<open>The functions for the portable driver\<close>

definition archnand_claim :: "bool \<Rightarrow> 'n nand \<Rightarrow> 'n nand" where
  "archnand_claim claim f = (if claim then nandclaim f else nandunclaim f)"

definition archnand_setCLEandALE :: "bool \<Rightarrow> bool \<Rightarrow> 'n nand \<Rightarrow> 'n nand" where
  "archnand_setCLEandALE cle ale f =
     (let v = nf_addr f AND NOT (NandCLE OR NandALE) in
      if cle \<and> ale then f
      else f\<lparr>nf_addr := v OR (if cle then NandCLE else 0) OR (if ale then NandALE else 0)\<rparr>)"

definition archnand_read :: "'n nandenv \<Rightarrow> nat \<Rightarrow> 'n nand \<Rightarrow> u8 list \<times> 'n nand" where
  "archnand_read env len f = nandreadn env len f"

definition archnand_write :: "'n nandenv \<Rightarrow> u8 list \<Rightarrow> 'n nand \<Rightarrow> 'n nand" where
  "archnand_write env buf f = nandwriten env buf f"

end
