(* ===== verification/Nand_Io.thy ===== *)
theory Nand_Io
  imports Nand
begin

text \<open>
  Correctness of the flash driver: a page that was erased and written reads back, through whatever noise
  the error correction removes; the geometry the identification accepts; and the chip is released on
  every path.
\<close>

section \<open>The bus\<close>

text \<open>A sequence of stores, each with its offset from the base, and a number of loads.\<close>

definition busw :: "'n nandenv \<Rightarrow> u32 \<Rightarrow> (u32 \<times> u8) list \<Rightarrow> 'n \<Rightarrow> 'n" where
  "busw env base ws c = fold (\<lambda>(off, b). nv_store env (base OR off) b) ws c"

fun busr :: "'n nandenv \<Rightarrow> u32 \<Rightarrow> nat \<Rightarrow> 'n \<Rightarrow> u8 list \<times> 'n" where
  "busr env base 0 c = ([], c)"
| "busr env base (Suc n) c = (let (b, c) = nv_load env base c; (bs, c) = busr env base n c in (b # bs, c))"

lemma busw_append: "busw env base (us @ ws) c = busw env base ws (busw env base us c)"
  by (simp add: busw_def)

lemma nandcmd_bus: "nandcmd env b f = f\<lparr>nf_chip := busw env (nf_addr f) [(1, b)] (nf_chip f)\<rparr>"
  by (simp add: nandcmd_def busw_def)

lemma nandaddr_bus: "nandaddr env b f = f\<lparr>nf_chip := busw env (nf_addr f) [(2, b)] (nf_chip f)\<rparr>"
  by (simp add: nandaddr_def busw_def)

lemma nandwriten_bus:
  "nandwriten env bs f = f\<lparr>nf_chip := busw env (nf_addr f) (map (\<lambda>b. (0, b)) bs) (nf_chip f)\<rparr>"
  by (induction bs arbitrary: f) (simp_all add: nandwriten_def nandwrite_def busw_def)

lemma nandread_bus:
  "nandread env f = (case nv_load env (nf_addr f) (nf_chip f) of (b, c) \<Rightarrow> (b, f\<lparr>nf_chip := c\<rparr>))"
  by (simp add: nandread_def)

lemma nandreadn_bus:
  "nandreadn env n f = (case busr env (nf_addr f) n (nf_chip f) of (bs, c) \<Rightarrow> (bs, f\<lparr>nf_chip := c\<rparr>))"
  by (induction n arbitrary: f) (simp_all add: nandread_bus split: prod.splits)

lemma busr_length: "length (fst (busr env base n c)) = n"
  by (induction n arbitrary: c) (simp_all split: prod.splits, metis fst_conv)

lemma busr_add:
  "busr env base (m + n) c = (case busr env base m c of (as, c) \<Rightarrow>
     case busr env base n c of (bs, c) \<Rightarrow> (as @ bs, c))"
  by (induction m arbitrary: c) (simp_all split: prod.splits)

lemma nand_addr_same:
  "nf_addr (nandcmd env b f) = nf_addr f" "nf_addr (nandaddr env b f) = nf_addr f"
  "nf_addr (nandwriten env bs f) = nf_addr f" "nf_addr (nandpage env p f) = nf_addr f"
  by (simp_all add: nandcmd_bus nandaddr_bus nandwriten_bus nandpage_def)

text \<open>The fields that the bus leaves alone.\<close>

definition nand_same :: "'n nand \<Rightarrow> 'n nand \<Rightarrow> bool" where
  "nand_same f g \<longleftrightarrow> nf_ctl f = nf_ctl g \<and> nf_id f = nf_id g \<and> nf_devid f = nf_devid g"

lemma nandread_same: "nandread env f = (b, g) \<Longrightarrow> nand_same g f"
  by (auto simp: nandread_bus nand_same_def split: prod.splits)

text \<open>The command that gives a page address, as stores.\<close>

definition page_bytes :: "u32 \<Rightarrow> (u32 \<times> u8) list" where
  "page_bytes page = [(2, ucast page), (2, ucast (drop_bit 8 page)), (2, ucast (drop_bit 16 page))]"

lemma nandpage_bus:
  "nandpage env page f = f\<lparr>nf_chip := busw env (nf_addr f) (page_bytes page) (nf_chip f)\<rparr>"
  by (simp add: nandpage_def nandaddr_bus page_bytes_def busw_def)

definition program_seq :: "u32 \<Rightarrow> u8 list \<Rightarrow> (u32 \<times> u8) list" where
  "program_seq page ds =
     [(1, Program), (2, 0), (2, 0)] @ page_bytes page @ map (\<lambda>b. (0, b)) ds @ [(1, Programstart), (1, Readstatus)]"

definition read_seq :: "u32 \<Rightarrow> (u32 \<times> u8) list" where
  "read_seq page = [(1, NRead), (2, 0), (2, 0)] @ page_bytes page @ [(1, Readstart)]"

text \<open>A run of looks at the status that ends with the first that is ready, without a failure.\<close>

definition status_ok :: "u8 list \<Rightarrow> bool" where
  "status_ok ss \<longleftrightarrow> ss \<noteq> [] \<and> list_all (\<lambda>s. s AND SReady = 0) (butlast ss) \<and>
     last ss AND SReady \<noteq> 0 \<and> last ss AND SFail = 0"

lemma nandwait_ok:
  assumes "nandwait env n f = (0, f')"
  shows "\<exists>k ss c. busr env (nf_addr f) k (nf_chip f) = (ss, c) \<and> status_ok ss \<and> f' = nandunclaim (f\<lparr>nf_chip := c\<rparr>)"
  using assms
proof (induction n arbitrary: f)
  case (Suc n)
  obtain s c where l: "nv_load env (nf_addr f) (nf_chip f) = (s, c)" by fastforce
  show ?case
  proof (cases "s AND SReady = 0")
    case True
    with Suc.prems l have "nandwait env n (f\<lparr>nf_chip := c\<rparr>) = (0, f')" by (simp add: nandread_bus)
    from Suc.IH [OF this] obtain k ss d where
      "busr env (nf_addr f) k c = (ss, d)" "status_ok ss" "f' = nandunclaim (f\<lparr>nf_chip := d\<rparr>)" by auto
    with l True show ?thesis
      by (intro exI [of _ "Suc k"] exI [of _ "s # ss"] exI [of _ d]) (auto simp: status_ok_def)
  next
    case False
    with Suc.prems l show ?thesis
      by (intro exI [of _ 1] exI [of _ "[s]"] exI [of _ c])
        (auto simp: nandread_bus status_ok_def split: if_splits)
  qed
qed simp

section \<open>The chip and the correction\<close>

text \<open>
  What the chip is documented to do, with \<open>pages c p\<close> the contents of a page: a look at the status
  changes nothing; programming clears the bits that are clear in the data, once the status says so; a
  read gives the page, up to the noise on each part of 256 bytes.
\<close>

definition nand_chip ::
  "'n nandenv \<Rightarrow> u32 \<Rightarrow> ('n \<Rightarrow> u32 \<Rightarrow> u8 list) \<Rightarrow> (u8 list \<Rightarrow> u8 list \<Rightarrow> bool) \<Rightarrow> bool" where
  "nand_chip env base pages noise \<longleftrightarrow>
     (\<forall>c. pages (snd (nv_load env base (busw env base [(1, Readstatus)] c))) = pages c) \<and>
     (\<forall>c p ds k ss c'. p < 0x1000000 \<longrightarrow> length ds = 2112 \<longrightarrow>
        busr env base k (busw env base (program_seq p ds) c) = (ss, c') \<longrightarrow> status_ok ss \<longrightarrow>
        pages c' p = map2 (\<lambda>x y. x AND y) (pages c p) ds) \<and>
     (\<forall>c p. p < 0x1000000 \<longrightarrow> length (pages c p) = 2112 \<longrightarrow>
        (let bs = fst (busr env base 2112 (busw env base (read_seq p) c)) in
         length bs = 2112 \<and> drop 2048 bs = drop 2048 (pages c p) \<and>
         (\<forall>i<8. noise (chunk 256 i bs) (chunk 256 i (pages c p)))))"

text \<open>The correction: a 24-bit code of 256 bytes with which 256 noisy bytes are restored.\<close>

definition ecc_corrects :: "'n nandenv \<Rightarrow> (u8 list \<Rightarrow> u8 list \<Rightarrow> bool) \<Rightarrow> bool" where
  "ecc_corrects env noise \<longleftrightarrow>
     (\<forall>p. nv_ecc env p < 0x1000000) \<and>
     (\<forall>p q. length p = 256 \<longrightarrow> length q = 256 \<longrightarrow> noise q p \<longrightarrow>
        (case nv_correct env q (nv_ecc env q) (nv_ecc env p) of (r, p') \<Rightarrow> r \<noteq> NandEccErrorBad \<and> p' = p))"

lemma ecc_word_bytes: "v < 0x1000000 \<Longrightarrow> ecc_word (ecc_bytes v @ es) = v"
proof -
  assume "v < 0x1000000"
  then have "unat (take_bit 24 v) = unat v"
    by (simp add: unsigned_take_bit_eq take_bit_nat_eq_self_iff word_less_nat_alt)
  then have "take_bit 24 v = v" by (simp only: word_unat_eq_iff)
  then have *: "bit v n \<Longrightarrow> n < 24" for n by (metis bit_take_bit_iff)
  show ?thesis
    by (intro bit_word_eqI) (auto simp: ecc_word_def ecc_bytes_def bit_simps dest: *)
qed


section \<open>Writing and reading a page\<close>

lemma chunk_length: "n * Suc i \<le> length xs \<Longrightarrow> length (chunk n i xs) = n"
  by (simp add: chunk_def)

lemma chunk_Suc: "chunk n (Suc i) xs = chunk n i (drop n xs)"
  by (simp add: chunk_def add.commute)

lemma ecc_bytes_length: "length (ecc_bytes v) = 3"
  by (simp add: ecc_bytes_def)

lemma nandverify_restores:
  assumes ecc: "ecc_corrects env noise"
    and "length buf = 256 * k" "length bs = 256 * k"
    and "\<forall>i<k. noise (chunk 256 i bs) (chunk 256 i buf)"
  shows "nandverify env bs (concat (map (\<lambda>i. ecc_bytes (nv_ecc env (chunk 256 i buf))) [0..<k])) = (True, buf)"
  using assms(2-4)
proof (induction k arbitrary: buf bs)
  case (Suc k)
  let ?p = "take 256 buf" and ?q = "take 256 bs"
  have c0: "chunk 256 0 bs = ?q" "chunk 256 0 buf = ?p" by (simp_all add: chunk_def)
  have l: "length ?p = 256" "length ?q = 256" using Suc.prems by simp_all
  have "noise ?q ?p" using Suc.prems(3) c0 by (metis zero_less_Suc)
  with ecc l obtain r where r: "nv_correct env ?q (nv_ecc env ?q) (nv_ecc env ?p) = (r, ?p)" "r \<noteq> NandEccErrorBad"
    unfolding ecc_corrects_def by fastforce
  let ?es = "\<lambda>buf k. concat (map (\<lambda>i. ecc_bytes (nv_ecc env (chunk 256 i buf))) [0..<k])"
  have es: "?es buf (Suc k) = ecc_bytes (nv_ecc env ?p) @ ?es (drop 256 buf) k"
    by (simp add: upt_conv_Cons c0 map_Suc_upt [symmetric] chunk_Suc comp_def del: upt_Suc)
  have "ecc_word (?es buf (Suc k)) = nv_ecc env ?p"
    unfolding es using ecc by (intro ecc_word_bytes) (simp add: ecc_corrects_def)
  moreover have "drop 3 (?es buf (Suc k)) = ?es (drop 256 buf) k"
    unfolding es by (simp add: ecc_bytes_length)
  moreover have "nandverify env (drop 256 bs) (?es (drop 256 buf) k) = (True, drop 256 buf)"
    by (rule Suc.IH) (use Suc.prems in \<open>auto simp flip: chunk_Suc\<close>)
  moreover have "bs \<noteq> []" using Suc.prems(2) by auto
  ultimately show ?case
    using r by (subst nandverify.simps) simp
qed simp

declare nandverify.simps [simp del]

definition nand_ready :: "'n nand \<Rightarrow> bool" where
  "nand_ready f \<longleftrightarrow> nf_addr f AND 3 = 0 \<and> rg_pagesize (nf_region f) = 2048"

lemma nand_write_bus:
  assumes "nand_write env offset buf f = (0, f')"
  obtains k ss c where "length buf = 2048" "offset AND 0x7ff = 0"
    "busr env (nf_addr f) k (busw env (nf_addr f) (program_seq (drop_bit 11 offset) (buf @ nandoob env buf))
       (snd (nv_load env (nf_addr f) (busw env (nf_addr f) [(1, Readstatus)] (nf_chip f))))) = (ss, c)"
    "status_ok ss" "f' = nandunclaim ((nandclaim f)\<lparr>nf_chip := c\<rparr>)"
proof -
  obtain s c1 where ld: "nv_load env (nf_addr f) (busw env (nf_addr f) [(1, Readstatus)] (nf_chip f)) = (s, c1)"
    by fastforce
  have l: "length buf = 2048" "offset AND 0x7ff = 0"
    using assms by (auto simp: nand_write_def split: if_splits)
  let ?f = "(nandclaim f)\<lparr>nf_chip := c1\<rparr>"
  let ?c = "busw env (nf_addr f) (program_seq (drop_bit 11 offset) (buf @ nandoob env buf)) c1"
  have claim: "nf_addr (nandclaim f) = nf_addr f" "nf_chip (nandclaim f) = nf_chip f" by (simp_all add: nandclaim_def)
  have "nandwait env 100 (?f\<lparr>nf_chip := ?c\<rparr>) = (0, f')"
    using assms l ld
    by (simp add: nand_write_def nandidle_def nandread_bus nandcmd_bus nandaddr_bus nandwriten_bus nandpage_bus
        program_seq_def busw_append [symmetric] claim Let_def split: if_splits)
  from nandwait_ok [OF this] obtain k ss c where
    "busr env (nf_addr f) k ?c = (ss, c)" "status_ok ss" "f' = nandunclaim (?f\<lparr>nf_chip := c\<rparr>)"
    by (auto simp: claim)
  with l ld that show thesis by simp
qed

lemma nand_read_bus:
  assumes "nand_ready f" "offset AND 0x7ff = 0"
    and "busr env (nf_addr f) 2112 (busw env (nf_addr f) (read_seq (drop_bit 11 offset)) (nf_chip f)) = (bs, c)"
    and "nandverify env (take 2048 bs) (drop 40 (drop 2048 bs)) = (True, q)"
  shows "nand_read env offset 2048 f = ((0, q), nandunclaim ((nandclaim f)\<lparr>nf_chip := c\<rparr>))"
proof -
  have r0: "busr env (nf_addr f) (2048 + 64) c0 = (case busr env (nf_addr f) 2048 c0 of (as, c) \<Rightarrow>
      case busr env (nf_addr f) 64 c of (bs, c) \<Rightarrow> (as @ bs, c))" for c0
    by (rule busr_add)
  let ?c = "busw env (nf_addr f) (read_seq (drop_bit 11 offset)) (nf_chip f)"
  obtain b1 c1 b2 c2 where r: "busr env (nf_addr f) 2048 ?c = (b1, c1)" "busr env (nf_addr f) 64 c1 = (b2, c2)"
    by fastforce
  have bs: "bs = b1 @ b2" "c = c2" using assms(3) r r0 [of ?c] by simp_all
  have "length b1 = 2048" using busr_length [of env "nf_addr f" 2048 ?c] r(1) by simp
  then have q: "nandverify env b1 (drop 40 b2) = (True, q)" using assms(4) bs(1) by simp
  have claim: "nf_addr (nandclaim f) = nf_addr f" "nf_chip (nandclaim f) = nf_chip f" by (simp_all add: nandclaim_def)
  have a: "offset AND (rg_pagesize (nf_region f) - 1) = 0" using assms(1,2) by (simp add: nand_ready_def)
  show ?thesis
    using q r by (simp add: nand_read_def a nandreadn_bus nandcmd_bus nandaddr_bus nandpage_bus read_seq_def
        busw_append [symmetric] claim Let_def bs(2))
qed

lemma drop_bit_page: "drop_bit 11 (offset :: u32) < 0x1000000"
proof -
  have "unat offset < 2 ^ LENGTH(32)" by (rule unsigned_less)
  then have o: "unat offset < 4294967296" by simp
  then have "unat (drop_bit 11 offset) = unat offset div 2048"
    by (subst unsigned_drop_bit_eq) (simp add: drop_bit_eq_div take_bit_nat_eq_self)
  with o have "unat (drop_bit 11 offset) < 16777216" by linarith
  then show ?thesis by (simp only: word_less_nat_alt) simp
qed

lemma nandoob_length: "length (nandoob env buf) = 64"
  by (simp add: nandoob_def ecc_bytes_length upt_conv_Cons)

lemma map2_and_ones: "length ds = n \<Longrightarrow> map2 (\<lambda>x y. x AND y) (replicate n (0xff :: u8)) ds = ds"
proof (induction n arbitrary: ds)
  case (Suc n)
  then obtain d es where "ds = d # es" by (cases ds) auto
  moreover have "(0xff :: u8) = - 1" by simp
  ultimately show ?case using Suc by (simp only: replicate_Suc) simp
qed simp

text \<open>
  C27: a page that was erased and then written with \<open>write\<close>, which returned 0, is returned by \<open>read\<close>
  exactly as it was written, whatever noise the chip adds to each 256 bytes that the error correction
  removes: the codes are stored and fetched in the same order of bytes and at the same place.
\<close>

theorem nand_write_read:
  assumes chip: "nand_chip env (nf_addr f) pages noise" and ecc: "ecc_corrects env noise"
    and "nand_ready f" and erased: "pages (nf_chip f) (drop_bit 11 offset) = replicate 2112 0xff"
    and wr: "nand_write env offset buf f = (0, f')"
  shows "\<exists>f''. nand_read env offset 2048 f' = ((0, buf), f'')"
proof -
  let ?p = "drop_bit 11 offset"
  let ?ds = "buf @ nandoob env buf"
  obtain k ss c where w: "length buf = 2048" "offset AND 0x7ff = 0"
    "busr env (nf_addr f) k (busw env (nf_addr f) (program_seq ?p ?ds)
       (snd (nv_load env (nf_addr f) (busw env (nf_addr f) [(1, Readstatus)] (nf_chip f))))) = (ss, c)"
    "status_ok ss" "f' = nandunclaim ((nandclaim f)\<lparr>nf_chip := c\<rparr>)"
    by (rule nand_write_bus [OF wr])
  have l: "length ?ds = 2112" using w(1) by (simp add: nandoob_length)
  have pg: "pages c ?p = ?ds"
    using chip w(3,4) l erased drop_bit_page [of offset] map2_and_ones [OF l]
    unfolding nand_chip_def by metis
  obtain bs c' where r: "busr env (nf_addr f) 2112 (busw env (nf_addr f) (read_seq ?p) c) = (bs, c')" by fastforce
  have bs: "length bs = 2112" "drop 2048 bs = nandoob env buf"
      "\<forall>i<8. noise (chunk 256 i bs) (chunk 256 i ?ds)"
    using chip drop_bit_page [of offset] l r w(1) unfolding nand_chip_def Let_def
    by (force simp: pg dest: spec [of _ c] spec [of _ ?p])+
  have ch: "chunk 256 i (take 2048 xs) = chunk 256 i xs" if "i < 8" for i and xs :: "u8 list"
    using that by (simp add: chunk_def drop_take min_def)
  have ch': "chunk 256 i ?ds = chunk 256 i buf" if "i < 8" for i
    using ch [OF that, of ?ds] w(1) by simp
  have "nandverify env (take 2048 bs) (concat (map (\<lambda>i. ecc_bytes (nv_ecc env (chunk 256 i buf))) [0..<8])) = (True, buf)"
    by (rule nandverify_restores [OF ecc]) (use w(1) bs ch ch' in simp_all)
  then have v: "nandverify env (take 2048 bs) (drop 40 (drop 2048 bs)) = (True, buf)"
    unfolding bs(2) by (simp add: nandoob_def)
  have f': "nand_ready f'" "nf_addr f' = nf_addr f" "nf_chip f' = c"
    using assms(3) unfolding w(5) by (simp_all add: nand_ready_def nandunclaim_def nandclaim_def)
  show ?thesis
    using nand_read_bus [OF f'(1) w(2), of env bs c' buf] r v f'(2,3) by auto
qed


text \<open>A chip whose first bit of every read is wrong, and a code that restores it.\<close>

record simchip =
  sc_args :: "u8 list"
  sc_buf :: "u8 list"
  sc_pages :: "u32 \<Rightarrow> u8 list"
  sc_status :: bool
  sc_out :: "u8 list"

abbreviation sim_base :: u32 where "sim_base \<equiv> 0xf9000000"

definition sim_page :: "u8 list \<Rightarrow> u32" where
  "sim_page args = ucast (args ! 2) OR push_bit 8 (ucast (args ! 3)) OR push_bit 16 (ucast (args ! 4))"

definition sim_noisy :: "u8 list \<Rightarrow> u8 list" where
  "sim_noisy p = (hd p XOR 1) # tl p"

definition sim_store :: "u32 \<Rightarrow> u8 \<Rightarrow> simchip \<Rightarrow> simchip" where
  "sim_store a b c =
     (if a = sim_base OR 2 then c\<lparr>sc_args := sc_args c @ [b]\<rparr>
      else if a \<noteq> sim_base OR 1 then c\<lparr>sc_buf := sc_buf c @ [b]\<rparr>
      else if b = Readstatus then c\<lparr>sc_status := True\<rparr>
      else if b = Programstart then
        c\<lparr>sc_pages := (sc_pages c)(sim_page (sc_args c) := map2 (\<lambda>x y. x AND y) (sc_pages c (sim_page (sc_args c))) (sc_buf c))\<rparr>
      else if b = Readstart then c\<lparr>sc_out := sim_noisy (sc_pages c (sim_page (sc_args c))), sc_status := False\<rparr>
      else c\<lparr>sc_args := [], sc_buf := []\<rparr>)"

definition sim_env :: "simchip nandenv" where
  "sim_env = \<lparr>nv_store = sim_store,
     nv_load = (\<lambda>a c. if sc_status c then (0x60, c) else (hd (sc_out c), c\<lparr>sc_out := tl (sc_out c)\<rparr>)),
     nv_ecc = (\<lambda>p. ucast (hd p)),
     nv_correct = (\<lambda>p v w. (if v = w then NandEccErrorGood else NandEccErrorOneBit, ucast w # tl p))\<rparr>"

definition sim_noise :: "u8 list \<Rightarrow> u8 list \<Rightarrow> bool" where
  "sim_noise q p \<longleftrightarrow> tl q = tl p"

lemma sim_ecc: "ecc_corrects sim_env sim_noise"
proof -
  have "ucast (x :: u8) < (0x1000000 :: u32)" for x
  proof -
    have "unat x < 2 ^ LENGTH(8)" by (rule unsigned_less)
    then have "unat (ucast x :: u32) < 256" by (simp add: unsigned_ucast_eq take_bit_nat_eq_self)
    then show ?thesis by (simp add: word_less_nat_alt)
  qed
  moreover have "ucast (ucast (x :: u8) :: u32) = x" for x
    by (intro bit_word_eqI) (auto simp: bit_simps)
  moreover have "length p = 256 \<Longrightarrow> hd p # tl p = p" for p :: "u8 list" by (cases p) auto
  ultimately show ?thesis by (simp add: ecc_corrects_def sim_env_def sim_noise_def)
qed

lemma sim_data: "busw sim_env sim_base (map (\<lambda>b. (0, b)) ds) c = c\<lparr>sc_buf := sc_buf c @ ds\<rparr>"
  by (induction ds arbitrary: c) (simp_all add: busw_def sim_env_def sim_store_def)

lemma sim_args: "busw sim_env sim_base [(1, cmd), (2, 0), (2, 0)] c =
    (if cmd = Program \<or> cmd = NRead then c\<lparr>sc_args := [0, 0], sc_buf := []\<rparr> else busw sim_env sim_base [(1, cmd), (2, 0), (2, 0)] c)"
  by (auto simp: busw_def sim_env_def sim_store_def)

lemma sim_page_bytes: "busw sim_env sim_base (page_bytes p) c = c\<lparr>sc_args := sc_args c @ [ucast p, ucast (drop_bit 8 p), ucast (drop_bit 16 p)]\<rparr>"
  by (simp add: busw_def sim_env_def sim_store_def page_bytes_def)

lemma sim_page_of: "p < 0x1000000 \<Longrightarrow> sim_page [0, 0, ucast p, ucast (drop_bit 8 p), ucast (drop_bit 16 p)] = p"
  using ecc_word_bytes [of p "[]"] by (simp add: sim_page_def ecc_word_def ecc_bytes_def ac_simps)

lemma sim_load:
  "nv_load sim_env a c = (if sc_status c then (0x60, c) else (hd (sc_out c), c\<lparr>sc_out := tl (sc_out c)\<rparr>))"
  by (simp add: sim_env_def)

lemma sim_status: "sc_status c \<Longrightarrow> snd (busr sim_env base k c) = c"
  by (induction k) (auto simp: sim_load split: prod.splits)

lemma sim_out: "\<not> sc_status c \<Longrightarrow> k \<le> length (sc_out c) \<Longrightarrow> fst (busr sim_env base k c) = take k (sc_out c)"
proof (induction k arbitrary: c)
  case (Suc k)
  then obtain b bs where "sc_out c = b # bs" by (cases "sc_out c") auto
  with Suc.IH [of "c\<lparr>sc_out := bs\<rparr>"] Suc.prems show ?case by (auto simp: sim_load split: prod.splits)
qed simp

lemma sim_chip: "nand_chip sim_env sim_base sc_pages sim_noise"
  unfolding nand_chip_def
proof (intro conjI allI impI)
  fix c p and ds :: "u8 list" and k ss c'
  assume p: "p < 0x1000000" and r: "busr sim_env sim_base k (busw sim_env sim_base (program_seq p ds) c) = (ss, c')"
  have "busw sim_env sim_base (program_seq p ds) c =
      busw sim_env sim_base [(1, Programstart), (1, Readstatus)]
        (c\<lparr>sc_args := [0, 0, ucast p, ucast (drop_bit 8 p), ucast (drop_bit 16 p)], sc_buf := ds\<rparr>)"
    unfolding program_seq_def busw_append by (subst sim_args) (simp add: sim_page_bytes sim_data)
  also have "\<dots> = c\<lparr>sc_args := [0, 0, ucast p, ucast (drop_bit 8 p), ucast (drop_bit 16 p)], sc_buf := ds,
      sc_pages := (sc_pages c)(p := map2 (\<lambda>x y. x AND y) (sc_pages c p) ds), sc_status := True\<rparr>" (is "_ = ?d")
    by (simp add: busw_def sim_env_def sim_store_def sim_page_of [OF p])
  finally have "c' = ?d" using r sim_status [of ?d sim_base k] by simp
  then show "sc_pages c' p = map2 (\<lambda>x y. x AND y) (sc_pages c p) ds" by simp
next
  fix c :: simchip and p
  assume p: "p < 0x1000000" and l: "length (sc_pages c p) = 2112"
  have "busw sim_env sim_base (read_seq p) c =
      busw sim_env sim_base [(1, Readstart)]
        (c\<lparr>sc_buf := [], sc_args := [0, 0, ucast p, ucast (drop_bit 8 p), ucast (drop_bit 16 p)]\<rparr>)"
    unfolding read_seq_def busw_append by (subst sim_args) (simp add: sim_page_bytes)
  also have "\<dots> = c\<lparr>sc_args := [0, 0, ucast p, ucast (drop_bit 8 p), ucast (drop_bit 16 p)], sc_buf := [],
      sc_status := False, sc_out := sim_noisy (sc_pages c p)\<rparr>" (is "_ = ?d")
    by (simp add: busw_def sim_env_def sim_store_def sim_page_of [OF p])
  finally have "fst (busr sim_env sim_base 2112 (busw sim_env sim_base (read_seq p) c)) = sim_noisy (sc_pages c p)"
    using sim_out [of ?d 2112 sim_base] l by (simp add: sim_noisy_def)
  moreover obtain b bs where "sc_pages c p = b # bs" using l by (cases "sc_pages c p") auto
  moreover have "sim_noise (chunk 256 i (x # bs)) (chunk 256 i (y # bs))" for i and x y :: u8
    by (cases "i = 0") (simp_all add: sim_noise_def chunk_def drop_Cons')
  ultimately show "let bs = fst (busr sim_env sim_base 2112 (busw sim_env sim_base (read_seq p) c))
       in length bs = 2112 \<and> drop 2048 bs = drop 2048 (sc_pages c p) \<and>
          (\<forall>i<8. sim_noise (chunk 256 i bs) (chunk 256 i (sc_pages c p)))"
    using l by (simp add: sim_noisy_def Let_def)
qed (auto simp: busw_def sim_env_def sim_store_def)


definition sim_nand :: "simchip nand" where
  "sim_nand = \<lparr>nf_addr = sim_base, nf_data = False, nf_id = 0xad, nf_devid = 0xdc, nf_width = 1, nf_nr = 1,
     nf_bytes = 536870912,
     nf_region = \<lparr>rg_n = 4096, rg_start = 0, rg_end = 536870912, rg_pagesize = 2048, rg_erasesize = 131072\<rparr>,
     nf_sort = ''nand'', nf_ops = True, nf_ctl = 0,
     nf_chip = \<lparr>sc_args = [], sc_buf = [], sc_pages = (\<lambda>_. replicate 2112 0xff), sc_status = False, sc_out = []\<rparr>\<rparr>"

lemma sim_write: "\<exists>f. nand_write sim_env 0x1000 (replicate 2048 7) sim_nand = (0, f)"
proof -
  have addr: "nf_addr sim_nand = sim_base" by (simp add: sim_nand_def)
  have idle: "nandidle sim_env sim_nand = (True, sim_nand\<lparr>nf_ctl := 2,
      nf_chip := (nf_chip sim_nand)\<lparr>sc_status := True\<rparr>\<rparr>)"
    by (simp add: nandidle_def nandread_bus nandcmd_bus nandclaim_def busw_def sim_env_def sim_store_def sim_nand_def)
  have st: "sc_status (nf_chip f) \<Longrightarrow> fst (nandwait sim_env 100 f) = 0" for f
  proof -
    assume "sc_status (nf_chip f)"
    then have "fst (nandwait sim_env (Suc n) f) = 0" for n by (simp add: nandread_bus sim_load)
    from this [of 99] show ?thesis by simp
  qed
  have "sc_status (nf_chip (nandcmd sim_env Readstatus f))" if "nf_addr f = sim_base" for f
    using that by (simp add: nandcmd_bus busw_def sim_env_def sim_store_def)
  then have "fst (nand_write sim_env 0x1000 (replicate 2048 7) sim_nand) = 0"
    by (simp add: nand_write_def idle st Let_def nand_addr_same addr)
  then show ?thesis by (metis prod.collapse)
qed

theorem nand_write_read_witness:
  "\<exists>f f''. nand_write sim_env 0x1000 (replicate 2048 7) sim_nand = (0, f) \<and>
     nand_read sim_env 0x1000 2048 f = ((0, replicate 2048 7), f'')"
proof -
  obtain f where f: "nand_write sim_env 0x1000 (replicate 2048 7) sim_nand = (0, f)" using sim_write ..
  have "\<exists>f''. nand_read sim_env 0x1000 2048 f = ((0, replicate 2048 7), f'')"
    by (rule nand_write_read [OF _ sim_ecc _ _ f, of sc_pages])
      (use sim_chip in \<open>simp_all add: sim_nand_def nand_ready_def\<close>)
  with f show ?thesis by blast
qed

section \<open>Geometry and release\<close>

text \<open>
  a chip that the identification accepts is in the table, and its region is the whole chip divided
  into erase blocks of 64, 128 or 256 KiB; the page size is 1 or 2 KiB or 0, and a chip whose
  identification has both bits of the block size set stops the kernel with a division by zero.
\<close>

lemma idchip_geometry:
  "case idchip env f of
     Inr (r, f') \<Rightarrow> nf_ctl f' = nf_ctl f AND NOT NandActCEBoot \<and>
       (r = 0 \<longrightarrow> (\<exists>t\<in>set nandtabs. nf_id f' = nt_vid t \<and> nf_devid f' = nt_did t \<and> nf_bytes f' = nt_size t) \<and>
          rg_erasesize (nf_region f') \<in> {65536, 131072, 262144} \<and>
          rg_pagesize (nf_region f') \<in> {0, 1024, 2048} \<and>
          rg_n (nf_region f') * rg_erasesize (nf_region f') = nf_bytes f' \<and>
          rg_start (nf_region f') = 0 \<and> rg_end (nf_region f') = nf_bytes f') \<and>
       (r \<noteq> 0 \<longrightarrow> r = - 1 \<and> nf_id f' = 0 \<and> nf_devid f' = 0)
   | Inl e \<Rightarrow> e = Fault ''division by zero''"
proof -
  let ?f0 = "nandaddr env 0 (nandcmd env Readid (nandclaim (f\<lparr>nf_id := 0, nf_devid := 0, nf_width := 1\<rparr>)))"
  obtain m f1 where 1: "nandread env ?f0 = (m, f1)" by fastforce
  obtain d f2 where 2: "nandread env f1 = (d, f2)" by fastforce
  obtain i3 f3 where 3: "nandread env f2 = (i3, f3)" by fastforce
  obtain i4 f4 where 4: "nandread env f3 = (i4, f4)" by fastforce
  define g where "g = nandunclaim f4"
  have "nf_ctl f4 = nf_ctl f OR NandActCEBoot \<and> nf_id f4 = 0 \<and> nf_devid f4 = 0"
    using nandread_same [OF 1] nandread_same [OF 2] nandread_same [OF 3] nandread_same [OF 4]
    by (simp add: nand_same_def nandcmd_bus nandaddr_bus nandclaim_def)
  then have id: "nf_ctl g = (nf_ctl f OR NandActCEBoot) AND NOT NandActCEBoot" "nf_id g = 0" "nf_devid g = 0"
    by (simp_all add: g_def nandunclaim_def)
  have run: "idchip env f = (case find (\<lambda>c. nt_vid c = m \<and> nt_did c = d) nandtabs of
         Some chip \<Rightarrow> ebind (idchip_found chip i4 g) (\<lambda>f. Inr (0, f))
       | None \<Rightarrow> Inr (- 1, g))"
    by (simp only: idchip_def 1 2 3 4 Let_def g_def prod.case)
  have ctl: "nf_ctl g = nf_ctl f AND NOT NandActCEBoot"
    unfolding id(1) by (rule bit_word_eqI) (auto simp: bit_simps)
  have "x AND 3 = 0 \<or> x AND 3 = 1 \<or> x AND 3 = 2 \<or> x AND 3 = 3" for x :: u8
  proof -
    have "x AND 3 = take_bit 2 x" by (simp add: take_bit_eq_mask mask_numeral)
    moreover have "unat (take_bit 2 x) < 4"
      by (subst unsigned_take_bit_eq) (simp add: take_bit_eq_mod)
    then have "unat (take_bit 2 x) \<in> {0, 1, 2, 3}" by auto
    then have "take_bit 2 x = 0 \<or> take_bit 2 x = 1 \<or> take_bit 2 x = 2 \<or> take_bit 2 x = 3"
      by (auto simp: word_unat_eq_iff)
    ultimately show ?thesis by simp
  qed
  note two = this [of i4] this [of "drop_bit 4 i4"]
  show ?thesis
  proof (cases "find (\<lambda>c. nt_vid c = m \<and> nt_did c = d) nandtabs")
    case None
    then show ?thesis using id ctl by (simp add: run)
  next
    case (Some t)
    then have t: "t \<in> set nandtabs" "nt_size t = 536870912" "find (\<lambda>c. nt_vid c = m \<and> nt_did c = d) nandtabs = Some t"
      by (auto simp: nandtabs_def split: if_splits)
    show ?thesis
      unfolding run t(3) using two t(1,2) ctl
      by (auto simp: idchip_found_def blocksizes_def pagesizes_def Let_def)
  qed
qed


definition sim_id :: "simchip nand" where
  "sim_id = sim_nand\<lparr>nf_chip := (nf_chip sim_nand)\<lparr>sc_out := [0xad, 0xdc, 0x80, 0x95]\<rparr>\<rparr>"

lemma idchip_geometry_witness:
  "\<exists>f'. idchip sim_env sim_id = Inr (0, f') \<and> nf_bytes f' = 536870912 \<and>
     rg_n (nf_region f') * rg_erasesize (nf_region f') = 536870912"
proof -
  have "\<exists>f'. idchip sim_env sim_id = Inr (0, f')"
    by (simp add: idchip_def idchip_found_def sim_id_def sim_nand_def nandread_bus nandcmd_bus nandaddr_bus
        nandclaim_def nandunclaim_def busw_def sim_env_def sim_store_def nandtabs_def blocksizes_def Let_def)
  then obtain f' where f': "idchip sim_env sim_id = Inr (0, f')" ..
  moreover have "t \<in> set nandtabs \<Longrightarrow> nt_size t = 536870912" for t by (auto simp: nandtabs_def)
  ultimately show ?thesis using idchip_geometry [where env = sim_env and f = sim_id] by (auto simp: f')
qed

end
