(* ===== verification/Uart.thy ===== *)
theory Uart
  imports Kw_Libc
begin

text \<open>
  \<open>uartkirkwood.c\<close>: the serial port.  What successive reads of the line status and of the receive
  register return is an input of the model; a wait for a status that never comes is \<open>Blocked\<close>.  The
  portable functions \<open>uartstageoutput\<close> and \<open>uartctl\<close> are parameters.
\<close>

section \<open>Constants\<close>

abbreviation IERrx :: u32 where "IERrx \<equiv> 0x1"
abbreviation IERtx :: u32 where "IERtx \<equiv> 0x2"
abbreviation IERems :: u32 where "IERems \<equiv> 0x8"
abbreviation IRRthrempty :: u32 where "IRRthrempty \<equiv> 0x2"
abbreviation IRRrxdata :: u32 where "IRRrxdata \<equiv> 0x4"
abbreviation FCRenable :: u32 where "FCRenable \<equiv> 0x1"
abbreviation FCRrxtrigger1 :: u32 where "FCRrxtrigger1 \<equiv> 0x0"
abbreviation FCRrxtrigger4 :: u32 where "FCRrxtrigger4 \<equiv> 0x40"
abbreviation FCRrxtrigger8 :: u32 where "FCRrxtrigger8 \<equiv> 0x80"
abbreviation FCRrxtrigger14 :: u32 where "FCRrxtrigger14 \<equiv> 0xc0"
abbreviation LCRbpcmask :: u32 where "LCRbpcmask \<equiv> 0x3"
abbreviation LCRbpc5 :: u32 where "LCRbpc5 \<equiv> 0x0"
abbreviation LCRbpc6 :: u32 where "LCRbpc6 \<equiv> 0x1"
abbreviation LCRbpc7 :: u32 where "LCRbpc7 \<equiv> 0x2"
abbreviation LCRbpc8 :: u32 where "LCRbpc8 \<equiv> 0x3"
abbreviation LCRstop2b :: u32 where "LCRstop2b \<equiv> 0x4"
abbreviation LCRparity :: u32 where "LCRparity \<equiv> 0x8"
abbreviation LCRparityeven :: u32 where "LCRparityeven \<equiv> 0x10"
abbreviation LCRbreak :: u32 where "LCRbreak \<equiv> 0x40"
abbreviation LCRdivlatch :: u32 where "LCRdivlatch \<equiv> 0x80"
abbreviation MCRrts :: u32 where "MCRrts \<equiv> 0x2"
abbreviation MSRdcts :: u32 where "MSRdcts \<equiv> 0x1"
abbreviation LSRrx :: u32 where "LSRrx \<equiv> 0x1"
abbreviation LSRrunerr :: u32 where "LSRrunerr \<equiv> 0x2"
abbreviation LSRparerr :: u32 where "LSRparerr \<equiv> 0x4"
abbreviation LSRframeerr :: u32 where "LSRframeerr \<equiv> 0x8"
abbreviation LSRbi :: u32 where "LSRbi \<equiv> 0x10"
abbreviation LSRthre :: u32 where "LSRthre \<equiv> 0x20"
definition UartFREQ :: int where "UartFREQ = 200000000"

section \<open>State\<close>

text \<open>The registers; \<open>ue_tx\<close> are the bytes written to \<open>thr\<close>, the lists the values still to be read.\<close>

record uartreg =
  ue_tx :: "u8 list"
  ue_dll :: u32
  ue_dlh :: u32
  ue_ier :: u32
  ue_fcr :: u32
  ue_lcr :: u32
  ue_mcr :: u32
  ue_msr :: u32
  ue_iir :: u32
  ue_lsrs :: "u32 list"
  ue_rbrs :: "u8 list"

record uartctlr =
  uc_regs :: uartreg
  uc_iena :: int
  uc_fena :: int
  uc_lock :: bool

text \<open>The fields of \<open>Uart\<close> of \<open>../port/uart.h\<close> the code uses; \<open>ut_out\<close> are the bytes from \<open>op\<close> to \<open>oe\<close>.\<close>

record 'q uart =
  ut_ctlr :: uartctlr
  ut_freq :: int
  ut_baud :: int
  ut_bits :: int
  ut_stop :: int
  ut_parity :: int
  ut_cts :: bool
  ut_blocked :: bool
  ut_console :: bool
  ut_hup :: "int \<times> int"
  ut_dev :: int
  ut_type :: int
  ut_oerr :: int
  ut_perr :: int
  ut_ferr :: int
  ut_berr :: int
  ut_serr :: int
  ut_recv :: "u8 list"             \<comment> \<open>characters given to \<open>uartrecv\<close>\<close>
  ut_out :: "u8 list"
  ut_queue :: 'q

record 'q uartenv =
  uv_stage :: "'q \<Rightarrow> u8 list \<times> 'q"                       \<comment> \<open>\<open>uartstageoutput\<close>\<close>
  uv_intrenable :: bool                                   \<comment> \<open>the interrupt was free\<close>
  uv_intrdisable :: bool                                  \<comment> \<open>\<open>intrdisable\<close> returned 0\<close>
  uv_ctl :: "string \<Rightarrow> 'q uart \<Rightarrow> (exn + unit) \<times> 'q uart"   \<comment> \<open>\<open>uartctl\<close>\<close>
  uv_tsleep :: "exn + unit"                               \<comment> \<open>\<open>tsleep\<close> returns or is interrupted\<close>

definition put_uclock :: "bool \<Rightarrow> 'q uart \<Rightarrow> 'q uart" where
  "put_uclock x u = u\<lparr>ut_ctlr := (ut_ctlr u)\<lparr>uc_lock := x\<rparr>\<rparr>"

definition uregs :: "'q uart \<Rightarrow> uartreg" where "uregs u = uc_regs (ut_ctlr u)"

definition with_uregs :: "(uartreg \<Rightarrow> uartreg) \<Rightarrow> 'q uart \<Rightarrow> 'q uart" where
  "with_uregs f u = u\<lparr>ut_ctlr := (ut_ctlr u)\<lparr>uc_regs := f (uc_regs (ut_ctlr u))\<rparr>\<rparr>"

section \<open>Receiving\<close>

fun kw_read_loop :: "u32 list \<Rightarrow> u8 list \<Rightarrow> 'q uart \<Rightarrow> u32 list \<times> u8 list \<times> 'q uart" where
  "kw_read_loop [] cs u = ([], cs, u)"
| "kw_read_loop (lsr # ls) cs u =
     (if lsr AND LSRrx = 0 then (ls, cs, u)
      else
        (let u = (if lsr AND LSRrunerr \<noteq> 0 then u\<lparr>ut_oerr := ut_oerr u + 1\<rparr> else u);
             u = (if lsr AND LSRparerr \<noteq> 0 then u\<lparr>ut_perr := ut_perr u + 1\<rparr> else u);
             u = (if lsr AND LSRframeerr \<noteq> 0 then u\<lparr>ut_ferr := ut_ferr u + 1\<rparr> else u);
             c = (if cs = [] then 0 else hd cs);
             u = (if lsr AND (LSRbi OR LSRframeerr OR LSRparerr) = 0 then u\<lparr>ut_recv := ut_recv u @ [c]\<rparr> else u) in
         kw_read_loop ls (tl cs) u))"

definition kw_read :: "'q uart \<Rightarrow> 'q uart" where
  "kw_read u =
     (let (ls, cs, u) = kw_read_loop (ue_lsrs (uregs u)) (ue_rbrs (uregs u)) u in
      with_uregs (\<lambda>r. r\<lparr>ue_lsrs := ls, ue_rbrs := cs\<rparr>) u)"

section \<open>Sending\<close>

text \<open>A read of the line status; when no more is given it reads 0.\<close>

definition lsr_read :: "'q uart \<Rightarrow> u32 \<times> 'q uart" where
  "lsr_read u =
     (case ue_lsrs (uregs u) of [] \<Rightarrow> (0, u) | l # ls \<Rightarrow> (l, with_uregs (\<lambda>r. r\<lparr>ue_lsrs := ls\<rparr>) u))"

definition thr_write :: "u8 \<Rightarrow> 'q uart \<Rightarrow> 'q uart" where
  "thr_write c = with_uregs (\<lambda>r. r\<lparr>ue_tx := ue_tx r @ [c]\<rparr>)"

fun kw_kick_loop :: "'q uartenv \<Rightarrow> nat \<Rightarrow> 'q uart \<Rightarrow> 'q uart" where
  "kw_kick_loop env 0 u = u"
| "kw_kick_loop env (Suc i) u =
     (let (l, u) = lsr_read u in
      if l AND LSRthre = 0 then u
      else
        (let u = (if ut_out u = [] then
                    (let (bs, q) = uv_stage env (ut_queue u) in u\<lparr>ut_out := bs, ut_queue := q\<rparr>)
                  else u) in
         case ut_out u of
           [] \<Rightarrow> u
         | c # cs \<Rightarrow> kw_kick_loop env i (thr_write c (u\<lparr>ut_out := cs\<rparr>))))"

definition kw_kick :: "'q uartenv \<Rightarrow> 'q uart \<Rightarrow> 'q uart" where
  "kw_kick env u = (if \<not> ut_cts u \<or> ut_blocked u then u else kw_kick_loop env 16 u)"

text \<open>\<open>uartkick\<close> of the portable code calls \<open>kw_kick\<close>.\<close>

definition kw_intr :: "'q uartenv \<Rightarrow> 'q uart \<Rightarrow> 'q uart" where
  "kw_intr env u =
     (let v = ue_iir (uregs u);
          u = (if v AND IRRthrempty \<noteq> 0 then kw_kick env u else u) in
      if v AND IRRrxdata \<noteq> 0 then kw_read u else u)"

section \<open>Line settings\<close>

definition kw_rts :: "bool \<Rightarrow> 'q uart \<Rightarrow> 'q uart" where
  "kw_rts on = with_uregs (\<lambda>r.
     (let mcr = ue_mcr r AND NOT MCRrts in r\<lparr>ue_mcr := (if on then mcr OR MCRrts else mcr AND NOT MCRrts)\<rparr>))"

definition kw_dtr :: "bool \<Rightarrow> 'q uart \<Rightarrow> 'q uart" where "kw_dtr on u = u"
definition kw_modemctl :: "bool \<Rightarrow> 'q uart \<Rightarrow> 'q uart" where "kw_modemctl on u = u"

definition fifo_level :: "int \<Rightarrow> u32" where
  "fifo_level level =
     (if level = 0 then 0
      else if level = 1 then FCRrxtrigger1 OR FCRenable
      else if level = 4 then FCRrxtrigger4 OR FCRenable
      else if level = 8 then FCRrxtrigger8 OR FCRenable
      else FCRrxtrigger14 OR FCRenable)"

definition kw_fifo :: "int \<Rightarrow> ('q uart, unit) kact" where
  "kw_fifo level =
     with_ilock (\<lambda>u. uc_lock (ut_ctlr u)) put_uclock
       (kmod (\<lambda>u. with_uregs (\<lambda>r. r\<lparr>ue_fcr := fifo_level level\<rparr>) (u\<lparr>ut_ctlr := (ut_ctlr u)\<lparr>uc_fena := level\<rparr>\<rparr>)))"

definition kw_enable :: "'q uartenv \<Rightarrow> bool \<Rightarrow> ('q uart, unit) kact" where
  "kw_enable env ie =
     kbind (kget (\<lambda>u. uc_iena (ut_ctlr u))) (\<lambda>iena.
     kthen
       (if ie \<and> iena = 0 then
          kthen (kw_fifo 4)
          (kthen (kmod (with_uregs (\<lambda>r. r\<lparr>ue_ier := IERrx OR IERtx\<rparr>)))
          (kthen (if uv_intrenable env then kret () else kraise (Panic ''intrenable''))
          (kmod (\<lambda>u. u\<lparr>ut_ctlr := (ut_ctlr u)\<lparr>uc_iena := 1\<rparr>\<rparr>))))
        else kret ())
     (kmod (\<lambda>u. kw_rts True (kw_dtr True u))))"

definition kw_disable :: "'q uartenv \<Rightarrow> ('q uart, unit) kact" where
  "kw_disable env =
     kthen (kmod (\<lambda>u. kw_rts False (kw_dtr False u)))
     (kthen (kw_fifo 0)
     (kmod (\<lambda>u. if uc_iena (ut_ctlr u) \<noteq> 0 \<and> uv_intrdisable env then u\<lparr>ut_ctlr := (ut_ctlr u)\<lparr>uc_iena := 0\<rparr>\<rparr> else u)))"

text \<open>An interrupted sleep raises an error between the two writes.\<close>

definition kw_break :: "'q uartenv \<Rightarrow> int \<Rightarrow> ('q uart, unit) kact" where
  "kw_break env ms =
     kthen (kmod (with_uregs (\<lambda>r. r\<lparr>ue_lcr := ue_lcr r OR LCRbreak\<rparr>)))
     (kthen (klift (uv_tsleep env))
     (kmod (with_uregs (\<lambda>r. r\<lparr>ue_lcr := ue_lcr r AND NOT LCRbreak\<rparr>))))"

definition kw_baud :: "int \<Rightarrow> 'q uart \<Rightarrow> int \<times> 'q uart" where
  "kw_baud baud u =
     (if ut_freq u = 0 \<or> baud \<le> 0 then (- 1, u)
      else
        (let bgc :: u32 = of_int (i32 (ut_freq u + i32 (8 * baud) - 1) sdiv i32 (16 * baud));
             u = with_uregs (\<lambda>r. r\<lparr>ue_lcr := ue_lcr r OR LCRdivlatch\<rparr>) u;
             u = with_uregs (\<lambda>r. r\<lparr>ue_dll := bgc AND 0xff\<rparr>) u;
             u = with_uregs (\<lambda>r. r\<lparr>ue_dlh := drop_bit 8 bgc AND 0xff\<rparr>) u;
             u = with_uregs (\<lambda>r. r\<lparr>ue_lcr := ue_lcr r AND NOT LCRdivlatch\<rparr>) u in
         (0, u\<lparr>ut_baud := baud\<rparr>)))"

text \<open>The new value of the line control register goes to the modem control register.\<close>

definition kw_bits :: "int \<Rightarrow> 'q uart \<Rightarrow> int \<times> 'q uart" where
  "kw_bits bits u =
     (let lcr = ue_lcr (uregs u) AND NOT LCRbpcmask;
          put = (\<lambda>v. (0, (with_uregs (\<lambda>r. r\<lparr>ue_mcr := lcr OR v\<rparr>) u)\<lparr>ut_bits := bits\<rparr>)) in
      if bits = 5 then put LCRbpc5
      else if bits = 6 then put LCRbpc6
      else if bits = 7 then put LCRbpc7
      else if bits = 8 then put LCRbpc8
      else (- 1, u))"

definition kw_stop :: "int \<Rightarrow> 'q uart \<Rightarrow> int \<times> 'q uart" where
  "kw_stop stop u =
     (let lcr = ue_lcr (uregs u) AND NOT LCRstop2b;
          put = (\<lambda>v. (0, (with_uregs (\<lambda>r. r\<lparr>ue_lcr := v\<rparr>) u)\<lparr>ut_stop := stop\<rparr>)) in
      if stop = 1 then put lcr else if stop = 2 then put (lcr OR LCRstop2b) else (- 1, u))"

definition kw_parity :: "char \<Rightarrow> 'q uart \<Rightarrow> int \<times> 'q uart" where
  "kw_parity parity u =
     (let lcr = ue_lcr (uregs u) AND NOT (LCRparity OR LCRparityeven);
          put = (\<lambda>v. (0, (with_uregs (\<lambda>r. r\<lparr>ue_lcr := v\<rparr>) u)\<lparr>ut_parity := of_char parity\<rparr>)) in
      if parity = CHR ''e'' then put (lcr OR (LCRparity OR LCRparityeven))
      else if parity = CHR ''o'' then put (lcr OR LCRparity)
      else if parity = CHR ''n'' then put lcr
      else (- 1, u))"

definition uart_status_text :: "'q uart \<Rightarrow> string" where
  "uart_status_text u =
     (let r = uregs u;
          flag = (\<lambda>b. if b then ''1'' else ''0'') in
      ''b'' @ sdec (ut_baud u) @ '' c'' @ sdec (fst (ut_hup u)) @ '' e'' @ sdec (snd (ut_hup u)) @
      '' l'' @ udec (unat (ue_lcr r AND LCRbpcmask) + 5) @ '' m'' @ flag (ue_ier r AND IERems \<noteq> 0) @
      '' p'' @ (if ue_lcr r AND LCRparity \<noteq> 0 then (if ue_lcr r AND LCRparityeven \<noteq> 0 then ''e'' else ''o'') else ''n'') @
      '' r'' @ flag (ue_mcr r AND MCRrts \<noteq> 0) @ '' s'' @ (if ue_lcr r AND LCRstop2b \<noteq> 0 then ''2'' else ''1'') @
      '' i'' @ sdec (uc_fena (ut_ctlr u)) @ [CHR 0x0A] @
      ''dev('' @ sdec (ut_dev u) @ '') type('' @ sdec (ut_type u) @ '') framing('' @ sdec (ut_ferr u) @
      '') overruns('' @ sdec (ut_oerr u) @ '') berr('' @ sdec (ut_berr u) @ '') serr('' @ sdec (ut_serr u) @ '')'' @
      (if ue_msr r AND MSRdcts \<noteq> 0 then '' cts'' else '''') @ [CHR 0x0A])"

definition kw_status :: "int \<Rightarrow> int \<Rightarrow> 'q uart \<Rightarrow> u8 list" where
  "kw_status n offset u = readstr offset n (uart_status_text u)"

section \<open>Polled input and output\<close>

text \<open>The wait for a bit of the line status: what is left of the values, or none when it never comes.\<close>

fun lsr_wait :: "u32 \<Rightarrow> u32 list \<Rightarrow> u32 list option" where
  "lsr_wait b [] = None"
| "lsr_wait b (l # ls) = (if l AND b = 0 then lsr_wait b ls else Some ls)"

definition ulsr_wait :: "u32 \<Rightarrow> ('q uart, unit) kact" where
  "ulsr_wait b =
     kbind (kget (\<lambda>u. lsr_wait b (ue_lsrs (uregs u)))) (\<lambda>r.
     case r of None \<Rightarrow> kraise Blocked | Some ls \<Rightarrow> kmod (with_uregs (\<lambda>r. r\<lparr>ue_lsrs := ls\<rparr>)))"

definition kw_getc :: "('q uart, u8) kact" where
  "kw_getc =
     kthen (ulsr_wait LSRrx)
     (kbind (kget (\<lambda>u. ue_rbrs (uregs u))) (\<lambda>cs.
      kthen (kmod (with_uregs (\<lambda>r. r\<lparr>ue_rbrs := tl cs\<rparr>)))
      (kret (if cs = [] then 0 else hd cs))))"

definition kw_putc :: "u8 \<Rightarrow> ('q uart, unit) kact" where
  "kw_putc c = kthen (ulsr_wait LSRthre) (kmod (thr_write c))"

definition serialputc :: "u8 \<Rightarrow> ('q uart, unit) kact" where
  "serialputc c = kthen (ulsr_wait LSRthre) (kmod (thr_write c))"

definition serialputs :: "u8 list \<Rightarrow> ('q uart, unit) kact" where
  "serialputs p = kfor p (\<lambda>c. kthen (if c = 10 then serialputc 13 else kret ()) (serialputc c))"

section \<open>The port and the console\<close>

text \<open>\<open>kirkwooduart\<close>, as it starts.\<close>

definition kirkwooduart :: "'q \<Rightarrow> uartreg \<Rightarrow> 'q uart" where
  "kirkwooduart q r = \<lparr>ut_ctlr = \<lparr>uc_regs = r, uc_iena = 0, uc_fena = 0, uc_lock = False\<rparr>,
     ut_freq = UartFREQ, ut_baud = 0, ut_bits = 0, ut_stop = 0, ut_parity = 0, ut_cts = False,
     ut_blocked = False, ut_console = False, ut_hup = (0, 0), ut_dev = 0, ut_type = 0, ut_oerr = 0,
     ut_perr = 0, ut_ferr = 0, ut_berr = 0, ut_serr = 0, ut_recv = [], ut_out = [], ut_queue = q\<rparr>"

definition uartconsole :: "'q uartenv \<Rightarrow> ('q uart, unit) kact" where
  "uartconsole env =
     kthen (kw_enable env False)
     (kthen (uv_ctl env ''b115200 l8 pn s1'')
     (kmod (\<lambda>u. u\<lparr>ut_console := True\<rparr>)))"


section \<open>Properties\<close>

lemma uregs_with [simp]:
  "uregs (with_uregs f u) = f (uregs u)" "ut_recv (with_uregs f u) = ut_recv u"
  "ut_oerr (with_uregs f u) = ut_oerr u" "ut_perr (with_uregs f u) = ut_perr u"
  "ut_ferr (with_uregs f u) = ut_ferr u" "ut_freq (with_uregs f u) = ut_freq u"
  by (simp_all add: uregs_def with_uregs_def)

lemma uregs_update [simp]:
  "uregs (u\<lparr>ut_baud := x\<rparr>) = uregs u"
  by (simp add: uregs_def)

text \<open>The values of the line status up to the first that has no character.\<close>

definition rx_status :: "u32 list \<Rightarrow> u32 list" where
  "rx_status ls = takeWhile (\<lambda>l. l AND LSRrx \<noteq> 0) ls"

definition rx_good :: "u32 \<Rightarrow> bool" where
  "rx_good l \<longleftrightarrow> l AND (LSRbi OR LSRframeerr OR LSRparerr) = 0"

lemma kw_read_loop_run:
  assumes "length (rx_status ls) \<le> length cs" and "kw_read_loop ls cs u = (ls', cs', u')"
  shows "cs' = drop (length (rx_status ls)) cs \<and> ls' = drop (Suc (length (rx_status ls))) ls \<and>
     ut_recv u' = ut_recv u @ map snd (filter (\<lambda>(l, c). rx_good l) (zip (rx_status ls) cs)) \<and>
     ut_oerr u' = ut_oerr u + int (length (filter (\<lambda>l. l AND LSRrunerr \<noteq> 0) (rx_status ls))) \<and>
     ut_perr u' = ut_perr u + int (length (filter (\<lambda>l. l AND LSRparerr \<noteq> 0) (rx_status ls))) \<and>
     ut_ferr u' = ut_ferr u + int (length (filter (\<lambda>l. l AND LSRframeerr \<noteq> 0) (rx_status ls)))"
  using assms
proof (induction ls arbitrary: cs u)
  case Nil
  then show ?case by (simp add: rx_status_def)
next
  case (Cons l ls)
  show ?case
  proof (cases "l AND LSRrx = 0")
    case True
    with Cons.prems show ?thesis by (simp add: rx_status_def)
  next
    case False
    then have st: "rx_status (l # ls) = l # rx_status ls" by (simp add: rx_status_def)
    with Cons.prems(1) obtain c cs0 where cs: "cs = c # cs0" by (cases cs) auto
    let ?u1 = "if l AND LSRrunerr \<noteq> 0 then u\<lparr>ut_oerr := ut_oerr u + 1\<rparr> else u"
    let ?u2 = "if l AND LSRparerr \<noteq> 0 then ?u1\<lparr>ut_perr := ut_perr ?u1 + 1\<rparr> else ?u1"
    let ?u3 = "if l AND LSRframeerr \<noteq> 0 then ?u2\<lparr>ut_ferr := ut_ferr ?u2 + 1\<rparr> else ?u2"
    let ?u4 = "if rx_good l then ?u3\<lparr>ut_recv := ut_recv ?u3 @ [c]\<rparr> else ?u3"
    have run: "kw_read_loop ls cs0 ?u4 = (ls', cs', u')"
      using Cons.prems(2) False by (simp add: cs Let_def rx_good_def)
    have len: "length (rx_status ls) \<le> length cs0" using Cons.prems(1) st cs by simp
    have IH: "cs' = drop (length (rx_status ls)) cs0 \<and> ls' = drop (Suc (length (rx_status ls))) ls \<and>
     ut_recv u' = ut_recv ?u4 @ map snd (filter (\<lambda>(l, c). rx_good l) (zip (rx_status ls) cs0)) \<and>
     ut_oerr u' = ut_oerr ?u4 + int (length (filter (\<lambda>l. l AND LSRrunerr \<noteq> 0) (rx_status ls))) \<and>
     ut_perr u' = ut_perr ?u4 + int (length (filter (\<lambda>l. l AND LSRparerr \<noteq> 0) (rx_status ls))) \<and>
     ut_ferr u' = ut_ferr ?u4 + int (length (filter (\<lambda>l. l AND LSRframeerr \<noteq> 0) (rx_status ls)))"
      by (rule Cons.IH [OF len run])
    have "ut_recv ?u4 = ut_recv u @ (if rx_good l then [c] else [])"
      "ut_oerr ?u4 = ut_oerr u + (if l AND LSRrunerr \<noteq> 0 then 1 else 0)"
      "ut_perr ?u4 = ut_perr u + (if l AND LSRparerr \<noteq> 0 then 1 else 0)"
      "ut_ferr ?u4 = ut_ferr u + (if l AND LSRframeerr \<noteq> 0 then 1 else 0)" by simp_all
    with IH show ?thesis unfolding st cs by simp
  qed
qed

text \<open>
  C29: one call of \<open>kw_read\<close> takes the characters up to the first status that announces none, and hands
  on, in order, exactly those that came without a parity error, a framing error or a break; every
  overrun, parity and framing error is counted once.
\<close>

theorem kw_read_receives:
  assumes "length (rx_status (ue_lsrs (uregs u))) \<le> length (ue_rbrs (uregs u))"
  shows "ut_recv (kw_read u) = ut_recv u @
      map snd (filter (\<lambda>(l, c). rx_good l) (zip (rx_status (ue_lsrs (uregs u))) (ue_rbrs (uregs u)))) \<and>
    ue_rbrs (uregs (kw_read u)) = drop (length (rx_status (ue_lsrs (uregs u)))) (ue_rbrs (uregs u)) \<and>
    ut_oerr (kw_read u) = ut_oerr u + int (length (filter (\<lambda>l. l AND LSRrunerr \<noteq> 0) (rx_status (ue_lsrs (uregs u))))) \<and>
    ut_perr (kw_read u) = ut_perr u + int (length (filter (\<lambda>l. l AND LSRparerr \<noteq> 0) (rx_status (ue_lsrs (uregs u))))) \<and>
    ut_ferr (kw_read u) = ut_ferr u + int (length (filter (\<lambda>l. l AND LSRframeerr \<noteq> 0) (rx_status (ue_lsrs (uregs u)))))"
proof -
  obtain ls cs u' where run: "kw_read_loop (ue_lsrs (uregs u)) (ue_rbrs (uregs u)) u = (ls, cs, u')"
    by (metis prod_cases3)
  from kw_read_loop_run [OF assms run] show ?thesis by (simp add: kw_read_def run)
qed

text \<open>
  C28: the divisor \<open>kw_baud\<close> programs.  For rates from 191 baud the sixteen bits of the two divisor
  registers, times sixteen times the rate, differ from the clock by at most eight times the rate, so it
  is the nearest divisor; the access bit of the line control register is clear afterwards and its other
  bits are what they were.
\<close>

theorem kw_baud_divisor:
  assumes "191 \<le> baud" "baud \<le> 100000000" "ut_freq u = UartFREQ"
  shows "\<exists>u'. kw_baud baud u = (0, u') \<and> ut_baud u' = baud \<and>
    \<bar>16 * baud * (256 * uint (ue_dlh (uregs u')) + uint (ue_dll (uregs u'))) - UartFREQ\<bar> \<le> 8 * baud \<and>
    ue_dlh (uregs u') < 256 \<and> ue_dll (uregs u') < 256 \<and>
    ue_lcr (uregs u') = ue_lcr (uregs u) AND NOT LCRdivlatch"
proof -
  define d where "d = (UartFREQ + 8 * baud - 1) div (16 * baud)"
  have i: "i32 (8 * baud) = 8 * baud" "i32 (16 * baud) = 16 * baud"
    "i32 (UartFREQ + 8 * baud - 1) = UartFREQ + 8 * baud - 1"
    using assms(1,2) by (simp_all add: i32_id UartFREQ_def)
  have s: "i32 (ut_freq u + i32 (8 * baud) - 1) sdiv i32 (16 * baud) = d"
    using assms(1,2) unfolding assms(3) i d_def by (subst sdiv_nonneg) (simp_all add: UartFREQ_def)
  have pos: "0 < 16 * baud" using assms(1) by simp
  have d0: "0 \<le> d" unfolding d_def using assms(1) by (simp add: pos_imp_zdiv_nonneg_iff UartFREQ_def)
  have m: "16 * baud * d = UartFREQ + 8 * baud - 1 - (UartFREQ + 8 * baud - 1) mod (16 * baud)"
    unfolding d_def by (simp add: minus_mod_eq_mult_div)
  have r: "0 \<le> (UartFREQ + 8 * baud - 1) mod (16 * baud)" "(UartFREQ + 8 * baud - 1) mod (16 * baud) < 16 * baud"
    using pos by simp_all
  have "16 * baud * d < 16 * baud * 65536"
    using m r(1) assms(1) unfolding UartFREQ_def by linarith
  then have d1: "d < 65536" using pos by (simp only: mult_less_cancel_left_pos)
  define w :: u32 where "w = of_int d"
  have w: "uint w = d" using d0 d1 by (simp add: w_def uint_of_int_u32)
  have "w AND 0xff = take_bit 8 w" by (simp add: take_bit_eq_mask mask_numeral)
  then have lo: "uint (w AND 0xff) = d mod 256"
    unfolding w [symmetric] by (simp only: unsigned_take_bit_eq) (simp add: take_bit_eq_mod)
  have "drop_bit 8 w AND 0xff = take_bit 8 (drop_bit 8 w)" by (simp add: take_bit_eq_mask mask_numeral)
  then have "uint (drop_bit 8 w AND 0xff) = take_bit 8 (drop_bit 8 (take_bit 32 d))"
    unfolding w [symmetric] by (simp only: unsigned_take_bit_eq unsigned_drop_bit_eq) simp
  also have "\<dots> = d div 256" using d0 d1 by (simp add: take_bit_eq_mod drop_bit_eq_div)
  finally have hi: "uint (drop_bit 8 w AND 0xff) = d div 256" .
  have lt: "drop_bit 8 w AND 0xff < 256" "w AND 0xff < 256"
    unfolding word_less_def lo hi using d1 by simp_all
  have lcr: "(x OR LCRdivlatch) AND NOT LCRdivlatch = x AND NOT LCRdivlatch" for x
    by (rule bit_word_eqI) (auto simp: bit_simps)
  have "256 * (d div 256) + d mod 256 = d" by simp
  then have "\<bar>16 * baud * (256 * uint (drop_bit 8 w AND 0xff) + uint (w AND 0xff)) - UartFREQ\<bar> \<le> 8 * baud"
    unfolding hi lo using m r by simp
  moreover have "kw_baud baud u = (0, (with_uregs (\<lambda>r. r\<lparr>ue_lcr := (ue_lcr r OR LCRdivlatch) AND NOT LCRdivlatch,
      ue_dll := w AND 0xff, ue_dlh := drop_bit 8 w AND 0xff\<rparr>) u)\<lparr>ut_baud := baud\<rparr>)"
    using assms unfolding kw_baud_def s w_def [symmetric] Let_def
    by (simp add: UartFREQ_def with_uregs_def)
  ultimately show ?thesis using lt lcr [of "ue_lcr (uregs u)"] by simp
qed


definition uart_sample :: "unit uart" where
  "uart_sample = kirkwooduart () \<lparr>ue_tx = [], ue_dll = 0, ue_dlh = 0, ue_ier = 0, ue_fcr = 0, ue_lcr = 3, ue_mcr = 0,
     ue_msr = 0, ue_iir = 4, ue_lsrs = [0x21, 0x2b, 0x21, 0x20], ue_rbrs = [65, 66, 67]\<rparr>"

theorem kw_read_receives_witness:
  "ut_recv (kw_read uart_sample) = [65, 67] \<and> ut_ferr (kw_read uart_sample) = 1 \<and> ut_oerr (kw_read uart_sample) = 1"
proof -
  have "uregs uart_sample = \<lparr>ue_tx = [], ue_dll = 0, ue_dlh = 0, ue_ier = 0, ue_fcr = 0, ue_lcr = 3, ue_mcr = 0,
     ue_msr = 0, ue_iir = 4, ue_lsrs = [0x21, 0x2b, 0x21, 0x20], ue_rbrs = [65, 66, 67]\<rparr>"
    by (simp add: uart_sample_def kirkwooduart_def uregs_def)
  moreover have "rx_status [0x21, 0x2b, 0x21, 0x20] = [0x21, 0x2b, 0x21]" by (simp add: rx_status_def)
  moreover have "ut_recv uart_sample = []" "ut_ferr uart_sample = 0" "ut_oerr uart_sample = 0"
    by (simp_all add: uart_sample_def kirkwooduart_def)
  ultimately show ?thesis using kw_read_receives [of uart_sample] by (simp add: rx_good_def)
qed

theorem kw_baud_divisor_witness:
  "\<exists>u'. kw_baud 115200 uart_sample = (0, u') \<and>
     \<bar>16 * 115200 * (256 * uint (ue_dlh (uregs u')) + uint (ue_dll (uregs u'))) - UartFREQ\<bar> \<le> 8 * 115200"
proof -
  have "ut_freq uart_sample = UartFREQ" by (simp add: uart_sample_def kirkwooduart_def)
  with kw_baud_divisor [of 115200 uart_sample] show ?thesis by fastforce
qed

end
