(* ===== verification/Trap.thy ===== *)
theory Trap
  imports Kw_Libc
begin

text \<open>
  \<open>trap.c\<close> and \<open>clock.c\<close>: the interrupt controller with its tables of handlers, the dispatch of
  interrupts, the trap handler, and the clock.  What a handler does, and the functions of the portable
  kernel that a trap calls, are parameters.  The stacks and vectors and the texts of the dumps are functions of
  their own; what the trap handler prints has no effect on the state.
\<close>

section \<open>State\<close>

datatype sort = Irqlo | Irqhi | Irqbridge

abbreviation IRQ0sum :: nat where "IRQ0sum \<equiv> 0"
abbreviation IRQ0bridge :: nat where "IRQ0bridge \<equiv> 1"
abbreviation IRQcputimer0 :: nat where "IRQcputimer0 \<equiv> 1"
abbreviation PsrMfiq :: u32 where "PsrMfiq \<equiv> 0x11"
abbreviation PsrMirq :: u32 where "PsrMirq \<equiv> 0x12"
abbreviation PsrMsvc :: u32 where "PsrMsvc \<equiv> 0x13"
abbreviation PsrMabt :: u32 where "PsrMabt \<equiv> 0x17"
abbreviation PsrMund :: u32 where "PsrMund \<equiv> 0x1b"
abbreviation PsrMsys :: u32 where "PsrMsys \<equiv> 0x1f"
abbreviation PsrMask :: u32 where "PsrMask \<equiv> 0x1f"
abbreviation PsrDfiq :: u32 where "PsrDfiq \<equiv> 0x40"
abbreviation PsrDirq :: u32 where "PsrDirq \<equiv> 0x80"
definition BREAK :: u32 where "BREAK = 0xE6BAD010"

definition waslo :: "u32 \<Rightarrow> bool" where
  "waslo sr \<longleftrightarrow> sr AND (PsrDirq OR PsrDfiq) = 0"

text \<open>A handler: its function, its argument and its name; no function is \<open>nil\<close>.\<close>

record 'f handler =
  h_r :: "'f option"
  h_a :: nat
  h_name :: string

record 'f irqbank =
  ib_irq :: u32
  ib_mask :: u32
  ib_vec :: "'f handler list"

record 'f intrs =
  in_lo :: "'f irqbank"
  in_hi :: "'f irqbank"
  in_bridge :: "'f irqbank"
  in_lock :: bool
  in_other :: "u32 list"           \<comment> \<open>\<open>fiqmask\<close> and \<open>epmask\<close> of both banks\<close>
  in_ticks :: u32                  \<comment> \<open>\<open>m->ticks\<close>\<close>

definition bank :: "sort \<Rightarrow> 'f intrs \<Rightarrow> 'f irqbank" where
  "bank b s = (case b of Irqlo \<Rightarrow> in_lo s | Irqhi \<Rightarrow> in_hi s | Irqbridge \<Rightarrow> in_bridge s)"

definition set_bank :: "sort \<Rightarrow> 'f irqbank \<Rightarrow> 'f intrs \<Rightarrow> 'f intrs" where
  "set_bank b x s = (case b of Irqlo \<Rightarrow> s\<lparr>in_lo := x\<rparr> | Irqhi \<Rightarrow> s\<lparr>in_hi := x\<rparr> | Irqbridge \<Rightarrow> s\<lparr>in_bridge := x\<rparr>)"

definition put_irqlock :: "bool \<Rightarrow> 'f intrs \<Rightarrow> 'f intrs" where
  "put_irqlock x s = s\<lparr>in_lock := x\<rparr>"

section \<open>The registers\<close>

text \<open>\<open>1<<i\<close>.\<close>

definition ibit :: "nat \<Rightarrow> u32" where "ibit i = push_bit i 1"

text \<open>A write to a cause register clears the bits that are 0 in the value.\<close>

definition irq_write :: "sort \<Rightarrow> u32 \<Rightarrow> 'f intrs \<Rightarrow> 'f intrs" where
  "irq_write b v s = set_bank b ((bank b s)\<lparr>ib_irq := ib_irq (bank b s) AND v\<rparr>) s"

definition intrclear :: "sort \<Rightarrow> nat \<Rightarrow> 'f intrs \<Rightarrow> 'f intrs" where
  "intrclear b v s = irq_write b (NOT (ibit v)) s"

definition intrmask :: "sort \<Rightarrow> nat \<Rightarrow> 'f intrs \<Rightarrow> 'f intrs" where
  "intrmask b v s = set_bank b ((bank b s)\<lparr>ib_mask := ib_mask (bank b s) AND NOT (ibit v)\<rparr>) s"

definition intrunmask :: "sort \<Rightarrow> nat \<Rightarrow> 'f intrs \<Rightarrow> 'f intrs" where
  "intrunmask b v s = set_bank b ((bank b s)\<lparr>ib_mask := ib_mask (bank b s) OR ibit v\<rparr>) s"

definition maskallints :: "'f intrs \<Rightarrow> 'f intrs" where
  "maskallints s = s\<lparr>in_lo := (in_lo s)\<lparr>ib_mask := 0\<rparr>, in_hi := (in_hi s)\<lparr>ib_mask := 0\<rparr>,
     in_bridge := (in_bridge s)\<lparr>ib_mask := 0\<rparr>\<rparr>"

section \<open>Handlers\<close>

text \<open>\<open>k\<close> is \<open>KNAMELEN\<close>.\<close>

definition intrset :: "nat \<Rightarrow> 'f \<Rightarrow> nat \<Rightarrow> string \<Rightarrow> 'f handler \<Rightarrow> exn + 'f handler" where
  "intrset k f a name h =
     (if h_r h \<noteq> None then Inl (Panic ''duplicate irq'')
      else Inr \<lparr>h_r = Some f, h_a = a, h_name = take (k - 1) name\<rparr>)"

definition intrunset :: "'f handler" where
  "intrunset = \<lparr>h_r = None, h_a = 0, h_name = ''''\<rparr>"

definition intrdel :: "'f \<Rightarrow> nat \<Rightarrow> string \<Rightarrow> 'f handler \<Rightarrow> 'f handler" where
  "intrdel f a name h =
     (if h_r h \<noteq> Some f \<or> h_a h \<noteq> a \<or> h_name h \<noteq> name then h else intrunset)"

definition set_vec :: "sort \<Rightarrow> nat \<Rightarrow> 'f handler \<Rightarrow> 'f intrs \<Rightarrow> 'f intrs" where
  "set_vec b v h s = set_bank b ((bank b s)\<lparr>ib_vec := (ib_vec (bank b s))[v := h]\<rparr>) s"

definition intrenable :: "nat \<Rightarrow> sort \<Rightarrow> nat \<Rightarrow> 'f \<Rightarrow> nat \<Rightarrow> string \<Rightarrow> ('f intrs, unit) kact" where
  "intrenable k b v f a name =
     with_ilock in_lock put_irqlock
       (kbind (kget (\<lambda>s. intrset k f a name (ib_vec (bank b s) ! v))) (\<lambda>r.
        kbind (klift r) (\<lambda>h.
        kmod (\<lambda>s. intrunmask b v (set_vec b v h s)))))"

definition intrdisable :: "sort \<Rightarrow> nat \<Rightarrow> 'f \<Rightarrow> nat \<Rightarrow> string \<Rightarrow> ('f intrs, int) kact" where
  "intrdisable b v f a name =
     with_ilock in_lock put_irqlock
       (kthen (kmod (\<lambda>s. intrmask b v (set_vec b v (intrdel f a name (ib_vec (bank b s) ! v)) s)))
       (kret 0))"

section \<open>Dispatch\<close>

text \<open>The loop over the bits; \<open>run\<close> is what the function of a handler does with its argument.\<close>

fun intrs_loop :: "('f \<Rightarrow> nat \<Rightarrow> 'f intrs \<Rightarrow> 'f intrs) \<Rightarrow> sort \<Rightarrow> nat list \<Rightarrow> u32 \<Rightarrow> 'f intrs \<Rightarrow> u32 \<times> 'f intrs" where
  "intrs_loop run b [] ibits s = (ibits, s)"
| "intrs_loop run b (i # is) ibits s =
     (if ibits = 0 then (ibits, s)
      else if ibits AND ibit i \<noteq> 0 then
        (case h_r (ib_vec (bank b s) ! i) of
           Some f \<Rightarrow> intrs_loop run b is (ibits AND NOT (ibit i)) (run f (h_a (ib_vec (bank b s) ! i)) s)
         | None \<Rightarrow> intrs_loop run b is ibits s)
      else intrs_loop run b is ibits s)"

definition intrs :: "('f \<Rightarrow> nat \<Rightarrow> 'f intrs \<Rightarrow> 'f intrs) \<Rightarrow> sort \<Rightarrow> 'f intrs \<Rightarrow> 'f intrs" where
  "intrs run b s =
     (let (ibits, s) = intrs_loop run b [0..<32] (ib_irq (bank b s) AND ib_mask (bank b s)) s in
      if ibits \<noteq> 0 then irq_write b (ib_irq (bank b s) AND ibits) s else s)"

definition intrhi :: "('f \<Rightarrow> nat \<Rightarrow> 'f intrs \<Rightarrow> 'f intrs) \<Rightarrow> 'f intrs \<Rightarrow> 'f intrs" where
  "intrhi run s = intrs run Irqhi s"

definition intrbridge :: "('f \<Rightarrow> nat \<Rightarrow> 'f intrs \<Rightarrow> 'f intrs) \<Rightarrow> 'f intrs \<Rightarrow> 'f intrs" where
  "intrbridge run s = intrclear Irqlo IRQ0bridge (intrs run Irqbridge s)"

text \<open>The tables after \<open>trapinit\<close>; \<open>hi\<close> and \<open>br\<close> are the functions \<open>intrhi\<close> and \<open>intrbridge\<close>.\<close>

definition trapinit :: "nat \<Rightarrow> 'f \<Rightarrow> 'f \<Rightarrow> ('f intrs, unit) kact" where
  "trapinit k hi br =
     (let clear = (\<lambda>x. x\<lparr>ib_vec := replicate 32 intrunset, ib_mask := 0\<rparr>) in
      kthen (kmod (\<lambda>s. s\<lparr>in_lo := clear (in_lo s), in_hi := clear (in_hi s), in_bridge := clear (in_bridge s),
          in_other := [0, 0, 0, 0]\<rparr>))
      (kthen (kmod (\<lambda>s. irq_write Irqbridge (- 1) (irq_write Irqhi (- 1) (irq_write Irqlo (- 1) s))))
      (kthen (intrenable k Irqlo IRQ0sum hi 0 ''hi'')
      (intrenable k Irqlo IRQ0bridge br 0 ''bridge''))))"


text \<open>
  The beginning of \<open>trapinit\<close>: the stacks of the exception modes, four words each inside \<open>Mach\<close> at \<open>m\<close>, and the
  vectors copied to page 0.  The offsets are those of the members of \<open>Mach\<close>.
\<close>

definition fiqstack_off :: u32 where "fiqstack_off = 52"
definition irqstack_off :: u32 where "irqstack_off = 68"
definition abtstack_off :: u32 where "abtstack_off = 84"
definition undstack_off :: u32 where "undstack_off = 100"

definition Mach_size :: u32 where "Mach_size = 120"

definition trap_stacks :: "u32 \<Rightarrow> (u32 \<Rightarrow> u32) \<Rightarrow> u32 \<Rightarrow> u32" where
  "trap_stacks m r13 =
     r13(PsrMfiq := m + fiqstack_off + 4 * 4, PsrMirq := m + irqstack_off + 4 * 4,
         PsrMabt := m + abtstack_off + 4 * 4, PsrMund := m + undstack_off + 4 * 4)"

record vectorpage =
  vp_vectors :: "u32 list"
  vp_vtable :: "u32 list"

definition trap_vectors :: "u32 list \<Rightarrow> u32 list \<Rightarrow> vectorpage \<Rightarrow> vectorpage" where
  "trap_vectors vectors vtable p = p\<lparr>vp_vectors := take 8 vectors, vp_vtable := take 8 vtable\<rparr>"

text \<open>The stacks do not overlap, and end where the next member begins.\<close>

lemma trap_stacks_apart:
  "trap_stacks m r13 PsrMfiq = m + irqstack_off" "trap_stacks m r13 PsrMirq = m + abtstack_off"
  "trap_stacks m r13 PsrMabt = m + undstack_off" "trap_stacks m r13 PsrMund = m + 116"
  by (simp_all add: trap_stacks_def fiqstack_off_def irqstack_off_def abtstack_off_def undstack_off_def add.assoc)

section \<open>Traps\<close>

text \<open>The fields of \<open>Ureg\<close> and \<open>Proc\<close> that the code changes.\<close>

record ureg =
  ur_type :: u32
  ur_psr :: u32
  ur_pc :: u32
  ur_sp :: u32

record proc =
  pr_pc :: u32
  pr_dbgreg :: bool
  pr_preempted :: nat
  pr_interp :: bool                \<comment> \<open>\<open>type == Interp\<close>\<close>

datatype spl = Splhi | Splflo | Spllo

record 'f trapst =
  tr_intrs :: "'f intrs"
  tr_ureg :: ureg
  tr_end :: u32                    \<comment> \<open>the address after the saved registers\<close>
  tr_up :: "nat option"
  tr_mproc :: "nat option"         \<comment> \<open>\<open>m->proc\<close>\<close>
  tr_procs :: "nat \<Rightarrow> proc"
  tr_spl :: spl
  tr_console :: bool               \<comment> \<open>\<open>serwrite\<close> is the polled output\<close>
  tr_preempt :: "u32 list"         \<comment> \<open>arguments of \<open>preemption\<close>\<close>
  tr_scheds :: nat

datatype brk = BrkSched | BrkNoSched | BrkOther

record 'f trapenv =
  tv_run :: "'f \<Rightarrow> nat \<Rightarrow> 'f intrs \<Rightarrow> 'f intrs"
  tv_rem :: int                    \<comment> \<open>bytes left on the stack\<close>
  tv_instr :: "u32 \<Rightarrow> u32"         \<comment> \<open>the word of memory at an address\<close>
  tv_brk :: "(ureg \<Rightarrow> nat option \<Rightarrow> brk) option"
  tv_catchdbg :: "(ureg \<Rightarrow> bool) option"
  tv_fpiarm :: "ureg \<Rightarrow> (exn + nat) \<times> ureg"

definition trapname :: "u32 \<Rightarrow> string" where
  "trapname psr =
     (let t = psr AND PsrMask in
      if t = PsrMfiq then ''Fiq interrupt''
      else if t = PsrMirq then ''Mirq interrupt''
      else if t = PsrMsvc then ''SVC/SWI Exception''
      else if t = PsrMabt then ''Prefetch Abort/Data Abort''
      else if t = PsrMabt + 1 then ''Data Abort''
      else if t = PsrMund then ''Undefined instruction''
      else if t = PsrMsys then ''Sys trap''
      else ''Undefined trap'')"

definition sys_trap_error :: "u32 \<Rightarrow> ('s, 'a) kact" where
  "sys_trap_error type = kraise (Error (Emsg (''sys: trap: '' @ trapname type @ [CHR 0x0A])))"

definition setpanic :: "'f trapenv \<Rightarrow> ('f trapst, unit) kact" where
  "setpanic env =
     (if tv_brk env \<noteq> None then kret ()
      else kmod (\<lambda>s. s\<lparr>tr_intrs := maskallints (tr_intrs s), tr_spl := Spllo, tr_console := True\<rparr>))"

definition upd_proc :: "(proc \<Rightarrow> proc) \<Rightarrow> 'f trapst \<Rightarrow> 'f trapst" where
  "upd_proc f s = (case tr_up s of None \<Rightarrow> s | Some p \<Rightarrow> s\<lparr>tr_procs := (tr_procs s)(p := f (tr_procs s p))\<rparr>)"

definition trap_panic :: "'f trapenv \<Rightarrow> string \<Rightarrow> ('f trapst, 'a) kact" where
  "trap_panic env msg = kthen (setpanic env) (kraise (Panic msg))"

definition trap_entry :: "'f trapst \<Rightarrow> 'f trapst" where
  "trap_entry s =
     (let ur = tr_ureg s;
          ur = ur\<lparr>ur_pc := ur_pc ur - (if ur_type ur = PsrMabt + 1 then 8 else 4), ur_sp := tr_end s\<rparr> in
      upd_proc (\<lambda>p. p\<lparr>pr_pc := ur_pc ur, pr_dbgreg := True\<rparr>) (s\<lparr>tr_ureg := ur\<rparr>))"

definition trap_irq :: "'f trapenv \<Rightarrow> ('f trapst, bool) kact" where
  "trap_irq env =
     kbind (kget (\<lambda>s. in_ticks (tr_intrs s))) (\<lambda>t.
     kthen (kmod (\<lambda>s. s\<lparr>tr_up := None, tr_spl := Splflo\<rparr>))
     (kthen (kmod (\<lambda>s. s\<lparr>tr_intrs := intrs (tv_run env) Irqlo (tr_intrs s)\<rparr>))
     (kthen (kmod (\<lambda>s. s\<lparr>tr_up := tr_mproc s\<rparr>))
     (kthen (kmod (\<lambda>s. s\<lparr>tr_preempt := tr_preempt s @ [in_ticks (tr_intrs s) - t]\<rparr>))
     (kret True)))))"

text \<open>The result says whether the end of \<open>trap\<close> runs.\<close>

definition trap_und :: "'f trapenv \<Rightarrow> ('f trapst, bool) kact" where
  "trap_und env =
     kbind (kget (\<lambda>s. s)) (\<lambda>s.
     let ur = tr_ureg s in
     case (tv_instr env (ur_pc ur) = BREAK, tv_brk env) of
       (True, Some h) \<Rightarrow>
         (case h ur (tr_up s) of
            BrkSched \<Rightarrow>
              (if tr_up s = None then kraise (Fault ''p->preempted'')
               else kthen (kmod (\<lambda>s. upd_proc (\<lambda>p. p\<lparr>pr_preempted := 0\<rparr>) (s\<lparr>tr_scheds := tr_scheds s + 1\<rparr>))) (kret True))
          | BrkNoSched \<Rightarrow>
              (if tr_up s = None then kraise (Fault ''p->preempted'')
               else kthen (kmod (upd_proc (\<lambda>p. p\<lparr>pr_preempted := 1, pr_dbgreg := False\<rparr>))) (kret False))
          | BrkOther \<Rightarrow> kret True)
     | _ \<Rightarrow>
         if tr_up s = None then trap_panic env (''exception '' @ trapname (ur_type ur))
         else
           kthen (kmod (\<lambda>s. s\<lparr>tr_spl := Spllo\<rparr>))
           (kcatch
             (case tv_fpiarm env ur of
                (Inl e, ur') \<Rightarrow> kthen (kmod (\<lambda>s. s\<lparr>tr_ureg := ur'\<rparr>)) (kraise e)
              | (Inr n, ur') \<Rightarrow>
                  kthen (kmod (\<lambda>s. s\<lparr>tr_ureg := ur'\<rparr>))
                    (if n = 0 then sys_trap_error (ur_type ur') else kret True))
             (\<lambda>e. kbind (kget (\<lambda>s. s)) (\<lambda>s.
                if waslo (ur_psr (tr_ureg s)) \<and> (case tr_up s of Some p \<Rightarrow> pr_interp (tr_procs s p) | None \<Rightarrow> False)
                then kraise (Error e)
                else trap_panic env ''error in a trap''))))"

definition trap_svc :: "'f trapenv \<Rightarrow> ('f trapst, bool) kact" where
  "trap_svc env =
     kbind (kget (\<lambda>s. s)) (\<lambda>s.
     if waslo (ur_psr (tr_ureg s)) \<and> (case tr_up s of Some p \<Rightarrow> pr_interp (tr_procs s p) | None \<Rightarrow> False)
     then kthen (kmod (\<lambda>s. s\<lparr>tr_spl := Spllo\<rparr>)) (sys_trap_error (ur_type (tr_ureg s)))
     else trap_panic env ''SVC/SWI exception'')"

definition trap_body :: "'f trapenv \<Rightarrow> u32 \<Rightarrow> ('f trapst, bool) kact" where
  "trap_body env itype =
     (if itype = PsrMirq then trap_irq env
      else if itype = PsrMund then trap_und env
      else if itype = PsrMsvc then trap_svc env
      else
        kbind (kget tr_ureg) (\<lambda>ur.
        if itype = PsrMabt \<and> (case tv_catchdbg env of Some c \<Rightarrow> c ur | None \<Rightarrow> False) then kret True
        else trap_panic env (''exception '' @ trapname (ur_type ur))))"

definition trap :: "'f trapenv \<Rightarrow> ('f trapst, unit) kact" where
  "trap env =
     kbind (kget (\<lambda>s. ur_type (tr_ureg s))) (\<lambda>itype.
     if itype \<noteq> PsrMfiq \<and> tv_rem env < 256 then kraise (Panic ''trap: bytes remaining'')
     else
       kthen (kmod trap_entry)
       (kbind (trap_body env itype) (\<lambda>end.
        if end then kmod (\<lambda>s. upd_proc (\<lambda>p. p\<lparr>pr_dbgreg := False\<rparr>) (s\<lparr>tr_spl := Splhi\<rparr>)) else kret ())))"

definition isvalidaddr :: "u32 \<Rightarrow> u32 \<Rightarrow> bool" where
  "isvalidaddr topofmem v \<longleftrightarrow> v \<le> topofmem - 1"

text \<open>\<open>%.8lux\<close>, and the words \<open>dumplongs\<close> prints until an address is not in memory; \<open>v\<close> is the address.\<close>

definition hex8 :: "u32 \<Rightarrow> string" where
  "hex8 w = (let h = uhex (unat w) in replicate (8 - length h) (CHR ''0'') @ h)"

fun dumplongs_loop :: "(u32 \<Rightarrow> u32) \<Rightarrow> u32 \<Rightarrow> nat \<Rightarrow> nat \<Rightarrow> u32 \<Rightarrow> string" where
  "dumplongs_loop mem lim 0 l v = []"
| "dumplongs_loop mem lim (Suc n) l v =
     (let (pre, l) = (if l \<ge> 4 then ([CHR 0x0A] @ ''    '' @ hex8 v @ '': '', 0) else ([], l)) in
      if isvalidaddr lim v then pre @ '' '' @ hex8 (mem v) @ dumplongs_loop mem lim n (l + 1) (v + 4)
      else pre @ '' invalid'')"

definition dumplongs :: "(u32 \<Rightarrow> u32) \<Rightarrow> u32 \<Rightarrow> string \<Rightarrow> u32 \<Rightarrow> nat \<Rightarrow> string" where
  "dumplongs mem lim msg v n = msg @ '' at '' @ hex8 v @ '': '' @ dumplongs_loop mem lim n 0 v @ [CHR 0x0A]"

text \<open>
  \<open>%8.8uX\<close>, and the text of \<open>dumpregs\<close>: \<open>r n\<close> is register n, \<open>ur\<close> the address of the saved registers,
  \<open>after\<close> the one behind them, \<open>m\<close> that of \<open>Mach\<close>, and \<open>kstack\<close> the stack of the process, if there is one.
\<close>

definition hex_upper :: "string \<Rightarrow> string" where
  "hex_upper = map (\<lambda>c. if c \<in> set ''abcdef'' then char_of (of_char c - 32 :: nat) else c)"

definition hex8X :: "u32 \<Rightarrow> string" where
  "hex8X w = hex_upper (hex8 w)"

definition hex2X :: "u32 \<Rightarrow> string" where
  "hex2X w = (let h = uhex (unat w) in replicate (2 - length h) (CHR ''0'') @ hex_upper h)"

definition dumpregs ::
  "(u32 \<Rightarrow> u32) \<Rightarrow> u32 \<Rightarrow> u32 \<Rightarrow> u32 option \<Rightarrow> u32 \<Rightarrow> u32 \<Rightarrow> (nat \<Rightarrow> u32) \<Rightarrow> u32 \<Rightarrow> u32 \<Rightarrow> u32 \<Rightarrow> u32 \<Rightarrow> string" where
  "dumpregs mem lim m kstack ur after r psr type pc link =
     (let reg = (\<lambda>l n. l @ '' '' @ hex8X (r n)); nl = [CHR 0x0A] in
      ''TRAP: '' @ trapname type @ (if psr AND PsrMask \<noteq> PsrMsvc then '' in '' @ trapname psr else []) @ nl @
      ''PSR '' @ hex8X psr @ '' type '' @ hex2X type @ '' PC '' @ hex8X pc @ '' LINK '' @ hex8X link @ nl @
      reg ''R14'' 14 @ reg '' R13'' 13 @ reg '' R12'' 12 @ reg '' R11'' 11 @ reg '' R10'' 10 @ nl @
      reg ''R9 '' 9 @ reg '' R8 '' 8 @ reg '' R7 '' 7 @ reg '' R6 '' 6 @ reg '' R5 '' 5 @ nl @
      reg ''R4 '' 4 @ reg '' R3 '' 3 @ reg '' R2 '' 2 @ reg '' R1 '' 1 @ reg '' R0 '' 0 @ nl @
      ''Stack is at: '' @ hex8X ur @ nl @
      (case kstack of
         Some k \<Rightarrow> ''Process stack:  '' @ hex8 k @ ''-'' @ hex8 (k + 8192 - 4)
       | None \<Rightarrow> ''System stack: '' @ hex8 (m + Mach_size) @ ''-'' @ hex8 (m + 4096 - 4)) @ nl @
      dumplongs mem lim ''stack'' after 16 @ ''_dumpstack'' @ nl)"

text \<open>The string with which \<open>dflt\<close> calls \<open>disfault\<close> of the interpreter.\<close>

definition dflt_text :: "u32 \<Rightarrow> u32 \<Rightarrow> string" where
  "dflt_text pc far = ''trap: fault pc='' @ hex8 pc @ '' addr=0x'' @ uhex (unat far)"

section \<open>The clock\<close>

record 'c clock =
  ck_ticks :: u32
  ck_links :: "('c \<times> u32) list"
  ck_lock :: bool
  ck_calls :: "'c list"            \<comment> \<open>the functions called, in order\<close>
  ck_alarms :: nat                 \<comment> \<open>calls of \<open>checkalarms\<close> so far\<close>
  ck_cause :: u32                  \<comment> \<open>the cause register of the bridge\<close>

definition put_cklock :: "bool \<Rightarrow> 'c clock \<Rightarrow> 'c clock" where
  "put_cklock x s = s\<lparr>ck_lock := x\<rparr>"

text \<open>\<open>mem\<close> says whether \<open>malloc\<close> succeeds; the result is always nil.\<close>

definition addclock0link :: "bool \<Rightarrow> 'c \<Rightarrow> int \<Rightarrow> ('c clock, unit) kact" where
  "addclock0link mem f ticks =
     (if \<not> mem then kret ()
      else with_ilock ck_lock put_cklock (kmod (\<lambda>s. s\<lparr>ck_links := (f, of_int ticks) # ck_links s\<rparr>)))"

fun clock_links :: "('c \<times> u32) list \<Rightarrow> ('c clock, unit) kact" where
  "clock_links [] = kret ()"
| "clock_links ((f, tm) # lps) =
     kbind (kget ck_ticks) (\<lambda>t.
     if tm = 0 then kraise (Fault ''division by zero'')
     else kthen (if t mod tm = 0 then kmod (\<lambda>s. s\<lparr>ck_calls := ck_calls s @ [f]\<rparr>) else kret ()) (clock_links lps))"

text \<open>The last step is \<open>intrclear(Irqbridge, IRQcputimer0)\<close>.\<close>

definition clockintr :: "('c clock, unit) kact" where
  "clockintr =
     kthen (kmod (\<lambda>s. s\<lparr>ck_ticks := ck_ticks s + 1\<rparr>))
     (kthen (kmod (\<lambda>s. s\<lparr>ck_alarms := ck_alarms s + 1\<rparr>))
     (kthen
       (kbind (kget (\<lambda>s. s)) (\<lambda>s.
        if ck_lock s then kret ()
        else with_ilock ck_lock put_cklock (clock_links (ck_links s))))
     (kmod (\<lambda>s. s\<lparr>ck_cause := ck_cause s AND NOT (ibit IRQcputimer0)\<rparr>))))"

definition fastticks :: "'c clock \<Rightarrow> u64 \<times> u64" where
  "fastticks s = (100, ucast (ck_ticks s))"

text \<open>The timer after \<open>clockinit\<close>: the count, its reload value, and the control register.\<close>

definition clockinit :: "'c clock \<Rightarrow> (u32 \<times> u32 \<times> u32) \<times> 'c clock" where
  "clockinit s = ((2000000, 2000000, 0x3), s\<lparr>ck_ticks := 0\<rparr>)"

text \<open>The rounds of the empty loops of \<open>microdelay\<close> and \<open>delay\<close>; \<open>loop\<close> is \<open>m->delayloop\<close>.\<close>

definition microdelay :: "u32 \<Rightarrow> int \<Rightarrow> int" where
  "microdelay loop l = (let l = i32 (l * uint loop) sdiv 1000 in if l \<le> 0 then 1 else l)"

definition delay :: "u32 \<Rightarrow> int \<Rightarrow> int" where
  "delay loop l = (if l \<le> 0 then 0 else l * uint loop)"

end
