(* ===== verification/Trap_Io.thy ===== *)
theory Trap_Io
  imports Trap
begin

text \<open>
  Correctness of the dispatch of interrupts and of the clock: every pending interrupt that has a handler
  is served once, in order of its number; what an interrupt without a handler does to the others; and how
  often the functions linked to the clock run.
\<close>

lemma bank_simps [simp]:
  "bank b (put_irqlock x s) = bank b s" "bank b (set_bank b y s) = y"
  by (cases b; simp add: bank_def put_irqlock_def set_bank_def)+

section \<open>Dispatch\<close>

definition has_handler :: "sort \<Rightarrow> 'f intrs \<Rightarrow> nat \<Rightarrow> bool" where
  "has_handler b s i \<longleftrightarrow> h_r (ib_vec (bank b s) ! i) \<noteq> None"

definition run_handler ::
  "('f \<Rightarrow> nat \<Rightarrow> 'f intrs \<Rightarrow> 'f intrs) \<Rightarrow> 'f handler list \<Rightarrow> nat \<Rightarrow> 'f intrs \<Rightarrow> 'f intrs" where
  "run_handler run vec i = run (the (h_r (vec ! i))) (h_a (vec ! i))"

text \<open>The bits of the pending interrupts that have no handler.\<close>

definition spurious :: "sort \<Rightarrow> 'f intrs \<Rightarrow> u32 \<Rightarrow> u32" where
  "spurious b s p = foldl (\<lambda>w i. if has_handler b s i then w AND NOT (ibit i) else w) p [0..<32]"

lemma and_push_bit: "(w :: u32) AND ibit i \<noteq> 0 \<longleftrightarrow> bit w i \<and> i < 32"
  unfolding bit_eq_iff [of "w AND ibit i" 0] by (auto simp: ibit_def bit_simps)

lemma bit_clear: "bit ((w :: u32) AND NOT (ibit i)) j \<longleftrightarrow> bit w j \<and> i \<noteq> j"
  by (auto simp: ibit_def bit_simps dest: bit_imp_le_length)

lemma bit_foldl_clear:
  "bit (foldl (\<lambda>w i. if P i then w AND NOT (ibit i) else w) (w :: u32) is) j \<longleftrightarrow>
     bit w j \<and> \<not> (j \<in> set is \<and> P j)"
proof (induction "is" arbitrary: w)
  case (Cons i "is")
  show ?case
  proof (cases "P i")
    case True
    then have eq: "foldl (\<lambda>w i. if P i then w AND NOT (ibit i) else w) w (i # is)
        = foldl (\<lambda>w i. if P i then w AND NOT (ibit i) else w) (w AND NOT (ibit i)) is" by (simp only: foldl_Cons if_True)
    show ?thesis unfolding eq Cons.IH bit_clear using True by auto
  next
    case False
    then show ?thesis using Cons.IH [of w] by auto
  qed
qed simp

lemma intrs_loop_run:
  assumes keep: "\<And>f a s. ib_vec (bank b (run f a s)) = ib_vec (bank b s)"
    and "distinct is" "set is \<subseteq> {..<32}"
  shows "intrs_loop run b is ibits s =
     (foldl (\<lambda>w i. if has_handler b s i then w AND NOT (ibit i) else w) ibits is,
      fold (run_handler run (ib_vec (bank b s))) (filter (\<lambda>i. bit ibits i \<and> has_handler b s i) is) s)"
  using assms(2,3)
proof (induction "is" arbitrary: ibits s)
  case (Cons i "is")
  have same: "has_handler b (run f a s) = has_handler b s" for f a
    by (simp add: has_handler_def fun_eq_iff keep)
  have i: "i < 32" "i \<notin> set is" using Cons.prems by auto
  have zero: "foldl (\<lambda>w i. if has_handler b s i then w AND NOT (ibit i) else w) (0::u32) is = 0" for "is"
    by (induction "is") auto
  show ?case
  proof (cases "ibits = 0")
    case True
    then show ?thesis unfolding True using zero [of "i # is"] by simp
  next
    case nz: False
    show ?thesis
    proof (cases "bit ibits i \<and> has_handler b s i")
      case True
      then obtain f where f: "h_r (ib_vec (bank b s) ! i) = Some f" by (auto simp: has_handler_def)
      have fil: "filter (\<lambda>j. bit (ibits AND NOT (ibit i)) j \<and> has_handler b s j) is
          = filter (\<lambda>j. bit ibits j \<and> has_handler b s j) is"
        by (rule filter_cong) (use i in \<open>auto simp: bit_clear\<close>)
      have "intrs_loop run b (i # is) ibits s
          = intrs_loop run b is (ibits AND NOT (ibit i)) (run f (h_a (ib_vec (bank b s) ! i)) s)"
        using nz True i f and_push_bit [of ibits i] by simp
      also have "\<dots> = (foldl (\<lambda>w i. if has_handler b s i then w AND NOT (ibit i) else w) (ibits AND NOT (ibit i)) is,
          fold (run_handler run (ib_vec (bank b s))) (filter (\<lambda>j. bit ibits j \<and> has_handler b s j) is)
            (run f (h_a (ib_vec (bank b s) ! i)) s))"
        using Cons by (subst Cons.IH) (simp_all only: same keep fil distinct.simps set_simps insert_subset simp_thms)
      finally show ?thesis using True f by (simp add: run_handler_def [of run "ib_vec (bank b s)" i])
    next
      case False
      have clr: "ibits AND NOT (ibit i) = ibits" if "\<not> bit ibits i"
        by (rule bit_word_eqI) (use that in \<open>auto simp: bit_clear\<close>)
      have "intrs_loop run b (i # is) ibits s = intrs_loop run b is ibits s"
        using nz False i and_push_bit [of ibits i] by (auto simp: has_handler_def split: option.splits)
      then show ?thesis using Cons False clr by auto
    qed
  qed
qed simp

lemma spurious_bit: "i < 32 \<Longrightarrow> bit (spurious b s p) i \<longleftrightarrow> bit p i \<and> \<not> has_handler b s i"
  by (auto simp: spurious_def bit_foldl_clear)

text \<open>
  C30: one dispatch runs the handlers of exactly the interrupts that are pending and not masked, each once
  and in order of number, when no handler changes the table.  When an interrupt without a handler is
  among them, the value then written to the cause register keeps just the bits of such interrupts: they
  stay pending, and every other cause, one that arose meanwhile included, is cleared unserved.
\<close>

theorem intrs_dispatch:
  assumes keep: "\<And>f a s. ib_vec (bank b (run f a s)) = ib_vec (bank b s)"
    and p: "p = ib_irq (bank b s) AND ib_mask (bank b s)"
    and t: "t = fold (run_handler run (ib_vec (bank b s))) (filter (\<lambda>i. bit p i \<and> has_handler b s i) [0..<32]) s"
  shows "if \<forall>i<32. bit p i \<longrightarrow> has_handler b s i then intrs run b s = t
    else intrs run b s = irq_write b (ib_irq (bank b t) AND spurious b s p) t \<and>
      (\<forall>i<32. bit (ib_irq (bank b (intrs run b s))) i \<longleftrightarrow> bit (ib_irq (bank b t)) i \<and> bit p i \<and> \<not> has_handler b s i)"
proof -
  have run: "intrs_loop run b [0..<32] p s = (spurious b s p, t)"
    unfolding t spurious_def by (rule intrs_loop_run [OF keep]) auto
  have sp: "spurious b s p = 0 \<longleftrightarrow> (\<forall>i<32. bit p i \<longrightarrow> has_handler b s i)"
    by (auto simp: bit_eq_iff spurious_bit)
  have bw: "ib_irq (bank b (irq_write b v u)) = ib_irq (bank b u) AND v" for v u
    by (cases b) (simp_all add: irq_write_def bank_def set_bank_def)
  show ?thesis
    using run sp by (auto simp: intrs_def Let_def p [symmetric] bw bit_and_iff spurious_bit)
qed


text \<open>Two pending interrupts on the bridge, one of them without a handler; the handler clears its own.\<close>

definition sample_intrs :: "unit intrs" where
  "sample_intrs =
     (let b = \<lparr>ib_irq = 0, ib_mask = 0, ib_vec = replicate 32 intrunset\<rparr> in
      \<lparr>in_lo = b, in_hi = b,
       in_bridge = \<lparr>ib_irq = 0xa, ib_mask = 0xe, ib_vec = (replicate 32 intrunset)[1 := \<lparr>h_r = Some (), h_a = 0, h_name = ''timer0''\<rparr>]\<rparr>,
       in_lock = False, in_other = [0, 0, 0, 0], in_ticks = 0\<rparr>)"

definition sample_handler :: "unit \<Rightarrow> nat \<Rightarrow> unit intrs \<Rightarrow> unit intrs" where
  "sample_handler f a s = intrclear Irqbridge IRQcputimer0 (s\<lparr>in_ticks := in_ticks s + 1\<rparr>)"

theorem intrs_dispatch_witness:
  "bit (ib_irq (bank Irqbridge (intrs sample_handler Irqbridge sample_intrs))) 3 \<and>
   \<not> bit (ib_irq (bank Irqbridge (intrs sample_handler Irqbridge sample_intrs))) 1"
proof -
  have keep: "\<And>f a s. ib_vec (bank Irqbridge (sample_handler f a s)) = ib_vec (bank Irqbridge s)"
    by (simp add: sample_handler_def intrclear_def irq_write_def bank_def set_bank_def)
  have p: "ib_irq (bank Irqbridge sample_intrs) AND ib_mask (bank Irqbridge sample_intrs) = 0xa"
    by (simp add: sample_intrs_def bank_def Let_def)
  have h: "has_handler Irqbridge sample_intrs i \<longleftrightarrow> i = 1" if "i < 32" for i
    using that by (cases "i = 1") (simp_all add: has_handler_def sample_intrs_def bank_def intrunset_def Let_def)
  have bits: "bit (0xa :: u32) 1" "bit (0xa :: u32) 3" by (simp_all add: bit_numeral_rec)
  have "filter (\<lambda>i. bit (0xa :: u32) i \<and> has_handler Irqbridge sample_intrs i) [0..<32] = filter (\<lambda>i. i = 1) [0..<32]"
    by (rule filter_cong) (use h bits in auto)
  also have "\<dots> = [1]" by (simp add: upt_conv_Cons)
  finally have run: "fold (run_handler sample_handler (ib_vec (bank Irqbridge sample_intrs)))
      (filter (\<lambda>i. bit (0xa :: u32) i \<and> has_handler Irqbridge sample_intrs i) [0..<32]) sample_intrs
     = sample_handler () 0 sample_intrs"
    by (simp add: run_handler_def) (simp add: sample_intrs_def bank_def Let_def)
  have t3: "bit (ib_irq (bank Irqbridge (sample_handler () 0 sample_intrs))) 3"
    by (simp add: sample_handler_def sample_intrs_def intrclear_def irq_write_def bank_def set_bank_def ibit_def bit_numeral_rec Let_def)
  have n: "\<not> (\<forall>i<32. bit (0xa :: u32) i \<longrightarrow> has_handler Irqbridge sample_intrs i)"
    using h [of 3] bits by (auto intro!: exI [of _ 3])
  from intrs_dispatch [where run = sample_handler and b = Irqbridge and s = sample_intrs and p = "0xa"
      and t = "sample_handler () 0 sample_intrs", OF keep p [symmetric] run [symmetric], unfolded if_not_P [OF n]]
  have "\<forall>i<32. bit (ib_irq (bank Irqbridge (intrs sample_handler Irqbridge sample_intrs))) i \<longleftrightarrow>
      bit (ib_irq (bank Irqbridge (sample_handler () 0 sample_intrs))) i \<and> bit (0xa :: u32) i \<and>
      \<not> has_handler Irqbridge sample_intrs i" by (rule conjunct2)
  with t3 show ?thesis using h [of 1] h [of 3] bits by auto
qed

section \<open>Enabling and disabling\<close>

interpretation irql: spin_lens in_lock put_irqlock in_lock
  by unfold_locales (simp_all add: put_irqlock_def)

text \<open>A call of \<open>intrdisable\<close> masks the interrupt even when the handler in the table is not the caller's.\<close>

lemma intrdisable_masks:
  assumes "\<not> in_lock s" "h_r (ib_vec (bank b s) ! v) \<noteq> Some f" "v < 32"
  shows "\<exists>s'. intrdisable b v f a name s = (Inr 0, s') \<and> ib_vec (bank b s') = ib_vec (bank b s) \<and>
    \<not> bit (ib_mask (bank b s')) v"
proof -
  let ?g = "\<lambda>s. intrmask b v (set_vec b v (intrdel f a name (ib_vec (bank b s) ! v)) s)"
  have "intrdisable b v f a name s = (Inr 0, put_irqlock False (?g (put_irqlock True s)))"
    unfolding intrdisable_def by (rule irql.with_ilock_run) (use assms(1) in simp_all)
  then show ?thesis
    using assms(2,3) by (simp add: intrmask_def set_vec_def intrdel_def bit_clear)
qed

section \<open>The clock\<close>

interpretation cklock: spin_lens ck_lock put_cklock ck_lock
  by unfold_locales (simp_all add: put_cklock_def)

lemma clock_links_run:
  "\<forall>(f, tm)\<in>set lps. tm \<noteq> 0 \<Longrightarrow> clock_links lps s =
     (Inr (), s\<lparr>ck_calls := ck_calls s @ map fst (filter (\<lambda>(f, tm). ck_ticks s mod tm = 0) lps)\<rparr>)"
proof (induction lps arbitrary: s)
  case (Cons x lps)
  obtain f tm where x: "x = (f, tm)" by fastforce
  with Cons show ?case by (cases "ck_ticks s mod tm = 0") (simp_all add: kthen_def kbind_def)
qed simp

lemma clockintr_run:
  assumes "\<forall>(f, tm)\<in>set (ck_links s). tm \<noteq> 0" "\<not> ck_lock s"
  shows "clockintr s = (Inr (), s\<lparr>ck_ticks := ck_ticks s + 1, ck_alarms := ck_alarms s + 1,
     ck_calls := ck_calls s @ map fst (filter (\<lambda>(f, tm). (ck_ticks s + 1) mod tm = 0) (ck_links s)),
     ck_cause := ck_cause s AND NOT (ibit IRQcputimer0)\<rparr>)"
proof -
  let ?s = "s\<lparr>ck_ticks := ck_ticks s + 1, ck_alarms := ck_alarms s + 1\<rparr>"
  have "with_ilock ck_lock put_cklock (clock_links (ck_links s)) ?s =
     (Inr (), put_cklock False ((put_cklock True ?s)\<lparr>ck_calls :=
       ck_calls s @ map fst (filter (\<lambda>(f, tm). (ck_ticks s + 1) mod tm = 0) (ck_links s))\<rparr>))"
    by (rule cklock.with_ilock_run) (use assms in \<open>simp_all add: clock_links_run put_cklock_def\<close>)
  then show ?thesis
    using assms(2) by (simp add: clockintr_def put_cklock_def kthen_def kbind_def)
qed

text \<open>When the list is being changed the tick passes without calls; the interrupt is cleared all the same.\<close>

lemma clockintr_locked:
  "ck_lock s \<Longrightarrow> clockintr s = (Inr (), s\<lparr>ck_ticks := ck_ticks s + 1, ck_alarms := ck_alarms s + 1,
     ck_cause := ck_cause s AND NOT (ibit IRQcputimer0)\<rparr>)"
  by (simp add: clockintr_def kthen_def kbind_def)

primrec clock_run :: "nat \<Rightarrow> ('c clock, unit) kact" where
  "clock_run 0 = kret ()"
| "clock_run (Suc n) = kthen (clock_run n) clockintr"

lemma count_calls:
  "distinct (map fst lps) \<Longrightarrow> (f, tm) \<in> set lps \<Longrightarrow>
     count_list (map fst (filter (\<lambda>(f, tm). P tm) lps)) f = (if P tm then 1 else 0)"
proof (induction lps)
  case (Cons x lps)
  obtain g t where x: "x = (g, t)" by fastforce
  have none: "count_list (map fst (filter (\<lambda>(f, tm). P tm) lps)) g = 0"
    using Cons.prems(1) by (auto simp: x count_list_0_iff image_iff)
  show ?case
  proof (cases "(f, tm) = x")
    case True
    with none x show ?thesis by simp
  next
    case False
    with Cons.prems have "(f, tm) \<in> set lps" "f \<noteq> g" by (auto simp: x image_iff)
    with Cons x show ?thesis by simp
  qed
qed simp

text \<open>
  C31: while the lock of the list is free, each function linked to the clock with a period of \<open>tm\<close> ticks
  runs exactly once for every multiple of \<open>tm\<close> the tick counter reaches, as long as the counter does not
  wrap around.
\<close>

theorem clock_calls:
  assumes "\<forall>(f, tm)\<in>set (ck_links s). tm \<noteq> 0" and "distinct (map fst (ck_links s))" and "\<not> ck_lock s"
    and "unat (ck_ticks s) + n < 2 ^ 32"
  shows "\<exists>s'. clock_run n s = (Inr (), s') \<and> unat (ck_ticks s') = unat (ck_ticks s) + n \<and>
    ck_links s' = ck_links s \<and> \<not> ck_lock s' \<and>
    (\<forall>(f, tm)\<in>set (ck_links s). count_list (ck_calls s') f =
       count_list (ck_calls s) f + ((unat (ck_ticks s) + n) div unat tm - unat (ck_ticks s) div unat tm))"
  using assms(4)
proof (induction n)
  case 0
  then show ?case using assms(3) by simp
next
  case (Suc n)
  then obtain t where t: "clock_run n s = (Inr (), t)" "unat (ck_ticks t) = unat (ck_ticks s) + n"
    "ck_links t = ck_links s" "\<not> ck_lock t"
    and calls: "\<forall>(f, tm)\<in>set (ck_links s). count_list (ck_calls t) f =
       count_list (ck_calls s) f + ((unat (ck_ticks s) + n) div unat tm - unat (ck_ticks s) div unat tm)" by auto
  let ?u = "t\<lparr>ck_ticks := ck_ticks t + 1, ck_alarms := ck_alarms t + 1,
     ck_calls := ck_calls t @ map fst (filter (\<lambda>(f, tm). (ck_ticks t + 1) mod tm = 0) (ck_links s)),
     ck_cause := ck_cause t AND NOT (ibit IRQcputimer0)\<rparr>"
  have run: "clock_run (Suc n) s = (Inr (), ?u)"
    unfolding clock_run.simps by (subst kthen_Inr, rule t(1)) (use clockintr_run [of t] assms(1) t in simp)
  have tick: "unat (ck_ticks t + 1) = unat (ck_ticks s) + Suc n"
    using t(2) Suc.prems by (simp add: unat_word_ariths)
  have "count_list (ck_calls ?u) f = count_list (ck_calls s) f +
      ((unat (ck_ticks s) + Suc n) div unat tm - unat (ck_ticks s) div unat tm)" if "(f, tm) \<in> set (ck_links s)" for f tm
  proof -
    have z: "(ck_ticks t + 1) mod tm = 0 \<longleftrightarrow> (unat (ck_ticks s) + Suc n) mod unat tm = 0"
      by (simp add: word_unat_eq_iff unat_mod_distrib tick)
    have mono: "unat (ck_ticks s) div unat tm \<le> (unat (ck_ticks s) + n) div unat tm"
      by (rule div_le_mono) simp
    show ?thesis
      using calls that count_calls [OF assms(2) that, of "\<lambda>tm. (ck_ticks t + 1) mod tm = 0"] mono
      by (auto simp: z div_Suc)
  qed
  with run tick t(3,4) show ?case by auto
qed


definition sample_clock :: "nat clock" where
  "sample_clock = \<lparr>ck_ticks = 7, ck_links = [(1, 10), (2, 3)], ck_lock = False, ck_calls = [], ck_alarms = 0, ck_cause = 2\<rparr>"

theorem clock_calls_witness:
  "\<exists>s'. clock_run 20 sample_clock = (Inr (), s') \<and> count_list (ck_calls s') 1 = 2 \<and> count_list (ck_calls s') 2 = 7"
  using clock_calls [of sample_clock 20] by (auto simp: sample_clock_def)

text \<open>With the loop count of \<open>archconfinit\<close> a pause of 10738 microseconds ends at once: the product wraps.\<close>

lemma microdelay_wraps: "microdelay 200000 10737 = 2147400" "microdelay 200000 10738 = 1"
  by (simp_all add: microdelay_def i32_def signed_take_bit_eq_take_bit_shift take_bit_eq_mod sdiv_nonneg signed_divide_int_def)

end
