(* ===== verification/Xor.thy ===== *)
theory Xor
  imports Kw_Libc
begin

text \<open>
  \<open>xor.c\<close>: the two engines for copying, exclusive or, checksums and initialisation of memory, with two
  ports each.  What an engine makes of a descriptor is a parameter; the cache operations have no effect
  on the model.  Sleeping without a wakeup, or for an engine that is never done, is \<open>Blocked\<close>.
\<close>

section \<open>Constants\<close>

abbreviation ModeXor :: u32 where "ModeXor \<equiv> 0"
abbreviation ModeCrc32c :: u32 where "ModeCrc32c \<equiv> 1"
abbreviation ModeDma :: u32 where "ModeDma \<equiv> 2"
abbreviation ModeMeminit :: u32 where "ModeMeminit \<equiv> 4"
abbreviation Burst32 :: u32 where "Burst32 \<equiv> 2"
definition Srcburst :: "u32 \<Rightarrow> u32" where "Srcburst v = push_bit 4 (v AND mask 3)"
definition Dstburst :: "u32 \<Rightarrow> u32" where "Dstburst v = push_bit 8 (v AND mask 3)"
abbreviation XEstart :: u32 where "XEstart \<equiv> 1"
abbreviation XEstop :: u32 where "XEstop \<equiv> 2"
abbreviation Iendofchain :: u32 where "Iendofchain \<equiv> 2"
definition Window :: "nat \<Rightarrow> u32" where "Window w = push_bit w 1"
definition Windowacl :: "nat \<Rightarrow> u32 \<Rightarrow> u32" where "Windowacl w v = push_bit (16 + 2 * w) v"
abbreviation AccessRW :: u32 where "AccessRW \<equiv> 3"
definition XWintarget :: "u32 \<Rightarrow> u32" where "XWintarget v = v AND mask 4"
definition XWinattr :: "u32 \<Rightarrow> u32" where "XWinattr v = push_bit 8 (v AND mask 8)"
definition XWinbase :: "u32 \<Rightarrow> u32" where "XWinbase v = push_bit 16 ((v div 65536) AND mask 16)"
definition XWinsize :: "u32 \<Rightarrow> u32" where "XWinsize v = push_bit 16 ((v div 65536 - 1) AND mask 16)"
abbreviation Ssuccess :: u32 where "Ssuccess \<equiv> 0x40000000"
abbreviation Sdmaowned :: u32 where "Sdmaowned \<equiv> 0x80000000"
abbreviation Ccrclast :: u32 where "Ccrclast \<equiv> 0x40000000"
abbreviation Descralign :: u32 where "Descralign \<equiv> 32"
abbreviation XDescralign :: u32 where "XDescralign \<equiv> 64"

section \<open>State\<close>

record xdescr =
  xd_status :: u32
  xd_crc32 :: u32
  xd_cmd :: u32
  xd_next :: u32
  xd_count :: u32
  xd_dest :: u32
  xd_src :: "u32 list"

datatype inuse = Punused | Pother | Pmeminit

record xorreg =
  xr_cfg :: u32
  xr_act :: u32
  xr_next :: u32
  xr_winctl :: u32
  xr_aoctl :: u32
  xr_dest :: u32
  xr_blocksize :: u32

record xorereg =
  xe_irq :: u32
  xe_irqmask :: u32
  xe_bar :: "u32 list"
  xe_sizemask :: "u32 list"
  xe_harr :: "u32 list"
  xe_initval :: "u32 \<times> u32"

record xport =
  xp_reg :: xorreg
  xp_done :: bool
  xp_inuse :: inuse

text \<open>The engine of port \<open>i\<close> is \<open>i div 2\<close>.\<close>

record 'm xor =
  xo_ports :: "xport list"
  xo_engines :: "xorereg list"
  xo_lock :: bool
  xo_mem :: 'm

text \<open>
  The engine: what it makes of a started port, with its mode, its descriptor (the destination, the size
  and the value for \<open>ModeMeminit\<close>) and the memory; \<open>None\<close> when it is never done; and
  what the stack holds where the checksum of a descriptor goes.
\<close>

record 'm xorenv =
  xv_run :: "u32 \<Rightarrow> xdescr \<Rightarrow> 'm \<Rightarrow> (xdescr \<times> 'm) option"
  xv_fill :: "u32 \<Rightarrow> u32 \<Rightarrow> u32 \<times> u32 \<Rightarrow> 'm \<Rightarrow> 'm option"
  xv_stale :: u32

definition put_xlock :: "bool \<Rightarrow> 'm xor \<Rightarrow> 'm xor" where
  "put_xlock x s = s\<lparr>xo_lock := x\<rparr>"

definition upd_port :: "nat \<Rightarrow> (xport \<Rightarrow> xport) \<Rightarrow> 'm xor \<Rightarrow> 'm xor" where
  "upd_port i f s = s\<lparr>xo_ports := (xo_ports s)[i := f (xo_ports s ! i)]\<rparr>"

definition upd_xreg :: "nat \<Rightarrow> (xorreg \<Rightarrow> xorreg) \<Rightarrow> 'm xor \<Rightarrow> 'm xor" where
  "upd_xreg i f = upd_port i (\<lambda>p. p\<lparr>xp_reg := f (xp_reg p)\<rparr>)"

definition upd_engine :: "nat \<Rightarrow> (xorereg \<Rightarrow> xorereg) \<Rightarrow> 'm xor \<Rightarrow> 'm xor" where
  "upd_engine i f s = s\<lparr>xo_engines := (xo_engines s)[i := f (xo_engines s ! i)]\<rparr>"

section \<open>Ports\<close>

definition roundup :: "u32 \<Rightarrow> u32 \<Rightarrow> u32" where
  "roundup v sz = (v + sz - 1) AND NOT (sz - 1)"

text \<open>The first of the two ports from \<open>i\<close> that is unused while the other does not initialise memory.\<close>

definition meminitport :: "xport list \<Rightarrow> nat \<Rightarrow> nat option" where
  "meminitport ps i =
     (if xp_inuse (ps ! i) = Punused \<and> xp_inuse (ps ! (i + 1)) \<noteq> Pmeminit then Some i
      else if xp_inuse (ps ! (i + 1)) = Punused \<and> xp_inuse (ps ! i) \<noteq> Pmeminit then Some (i + 1)
      else None)"

definition find_port :: "bool \<Rightarrow> xport list \<Rightarrow> nat option" where
  "find_port ismeminit ps =
     (if ismeminit then
        (case meminitport ps 0 of Some i \<Rightarrow> Some i | None \<Rightarrow> meminitport ps 2)
      else find (\<lambda>i. xp_inuse (ps ! i) = Punused) [0..<4])"

text \<open>Without a free port the caller sleeps; another process would have to wake it.\<close>

definition portget :: "bool \<Rightarrow> ('m xor, nat) kact" where
  "portget ismeminit =
     kthen (ilock xo_lock put_xlock)
     (kbind (kget (\<lambda>s. find_port ismeminit (xo_ports s))) (\<lambda>r.
      case r of
        None \<Rightarrow> kthen (iunlock put_xlock) (kraise Blocked)
      | Some i \<Rightarrow>
          kthen (kmod (upd_port i (\<lambda>p. p\<lparr>xp_inuse := (if ismeminit then Pmeminit else Pother), xp_done := False\<rparr>)))
          (kthen (iunlock put_xlock) (kret i))))"

definition portput :: "nat \<Rightarrow> ('m xor, unit) kact" where
  "portput i = with_ilock xo_lock put_xlock (kmod (upd_port i (\<lambda>p. p\<lparr>xp_inuse := Punused\<rparr>)))"

section \<open>Interrupts and set-up\<close>

text \<open>\<open>p\<close> is the first port of the engine.\<close>

definition xorintr :: "nat \<Rightarrow> ('m xor, unit) kact" where
  "xorintr p =
     kbind (kget (\<lambda>s. xe_irq (xo_engines s ! (p div 2)))) (\<lambda>irq.
     if irq AND NOT (Iendofchain OR push_bit 16 Iendofchain) \<noteq> 0 then kraise (Panic ''unexpected xor interrupt'')
     else
       kthen (if irq AND Iendofchain \<noteq> 0 then kmod (upd_port p (\<lambda>q. q\<lparr>xp_done := True\<rparr>)) else kret ())
       (kthen (if irq AND push_bit 16 Iendofchain \<noteq> 0 then kmod (upd_port (p + 1) (\<lambda>q. q\<lparr>xp_done := True\<rparr>)) else kret ())
       (kmod (upd_engine (p div 2) (\<lambda>e. e\<lparr>xe_irq := 0\<rparr>)))))"

text \<open>The argument \<open>xorlink\<close> registers is nil, and the message reads through it.\<close>

definition xorintrerror :: "('m xor, unit) kact" where
  "xorintrerror = kraise (Fault ''p->er of a nil port'')"

definition initport :: "xorreg \<Rightarrow> xorreg" where
  "initport r = r\<lparr>xr_act := XEstop,
     xr_winctl := (Window 0 OR Windowacl 0 AccessRW) OR (Window 1 OR Windowacl 1 AccessRW), xr_aoctl := 0\<rparr>"

text \<open>The size of the first window is written twice.\<close>

definition initengine :: "xorereg \<Rightarrow> xorereg" where
  "initengine r = r\<lparr>xe_irq := 0, xe_irqmask := - 1,
     xe_bar := (xe_bar r)[0 := XWintarget 0 OR XWinattr 0xE OR XWinbase 0,
       1 := XWintarget 0 OR XWinattr 0xD OR XWinbase 268435456],
     xe_sizemask := (xe_sizemask r)[0 := XWinsize 268435456, 0 := XWinsize 268435456],
     xe_harr := (xe_harr r)[0 := 0, 1 := 0]\<rparr>"

definition xorlink :: "'m xor \<Rightarrow> 'm xor" where
  "xorlink s = s\<lparr>xo_ports := map (\<lambda>p. p\<lparr>xp_reg := initport (xp_reg p)\<rparr>) (xo_ports s),
     xo_engines := map initengine (xo_engines s)\<rparr>"

section \<open>Operations\<close>

definition xor_cfg :: "u32 \<Rightarrow> u32" where
  "xor_cfg mode = mode OR Srcburst Burst32 OR Dstburst Burst32"

text \<open>The engine of port \<open>i\<close> raises the end of the chain, the handler sets \<open>done\<close>, and the sleeper wakes.\<close>

definition xor_sleep :: "nat \<Rightarrow> ('m xor, unit) kact" where
  "xor_sleep i =
     kthen (kmod (upd_engine (i div 2) (\<lambda>e. e\<lparr>xe_irq := xe_irq e OR push_bit (16 * (i mod 2)) Iendofchain\<rparr>)))
     (kthen (xorintr (2 * (i div 2)))
     (kbind (kget (\<lambda>s. xp_done (xo_ports s ! i))) (\<lambda>d. if d then kret () else kraise Blocked)))"

definition meminitdma :: "'m xorenv \<Rightarrow> u32 \<Rightarrow> int \<Rightarrow> u64 \<Rightarrow> ('m xor, unit) kact" where
  "meminitdma env buf n v =
     (if n < 128 then kraise (Panic ''meminitdma with on short buffer'')
      else
        kbind (portget True) (\<lambda>i.
        kthen (kmod (upd_xreg i (\<lambda>r. r\<lparr>xr_cfg := xor_cfg ModeMeminit, xr_dest := buf, xr_blocksize := of_int n\<rparr>)))
        (kthen (kmod (upd_engine (i div 2) (\<lambda>e. e\<lparr>xe_initval := (ucast v, ucast (drop_bit 32 v))\<rparr>)))
        (kthen (kmod (upd_xreg i (\<lambda>r. r\<lparr>xr_act := XEstart\<rparr>)))
        (kbind (kget (\<lambda>s. xv_fill env (xr_dest (xp_reg (xo_ports s ! i))) (xr_blocksize (xp_reg (xo_ports s ! i)))
                   (xe_initval (xo_engines s ! (i div 2))) (xo_mem s))) (\<lambda>r.
         case r of
           None \<Rightarrow> kraise Blocked
         | Some m \<Rightarrow> kthen (kmod (\<lambda>s. s\<lparr>xo_mem := m\<rparr>)) (kthen (xor_sleep i) (portput i))))))))"

text \<open>A descriptor is started on port \<open>i\<close>, at address \<open>d\<close>, and waited for.\<close>

definition xor_start :: "'m xorenv \<Rightarrow> nat \<Rightarrow> u32 \<Rightarrow> u32 \<Rightarrow> xdescr \<Rightarrow> ('m xor, xdescr) kact" where
  "xor_start env i mode a d =
     kthen (kmod (upd_xreg i (\<lambda>r. r\<lparr>xr_cfg := xor_cfg mode, xr_next := a, xr_act := XEstart\<rparr>)))
     (kbind (kget (\<lambda>s. xv_run env (xor_cfg mode) d (xo_mem s))) (\<lambda>r.
      case r of
        None \<Rightarrow> kraise Blocked
      | Some (d', m) \<Rightarrow>
          kthen (kmod (\<lambda>s. s\<lparr>xo_mem := m\<rparr>))
          (kthen (xor_sleep i)
          (if xd_status d' \<noteq> Ssuccess then kraise (Panic ''assert'')
           else kthen (portput i) (kret d')))))"

text \<open>\<open>stk\<close> is the address of the buffer for the descriptor on the stack.\<close>

definition crc32cdma :: "'m xorenv \<Rightarrow> u32 \<Rightarrow> u32 \<Rightarrow> u32 \<Rightarrow> ('m xor, u32) kact" where
  "crc32cdma env stk buf n =
     (if n > 16777216 then kraise (Panic ''crc32cdma on huge block'')
      else
        kbind (portget False) (\<lambda>i.
        kbind (xor_start env i ModeCrc32c (roundup stk Descralign)
          \<lparr>xd_status = Sdmaowned, xd_crc32 = xv_stale env, xd_cmd = Ccrclast, xd_next = 0, xd_count = n, xd_dest = 0, xd_src = [buf]\<rparr>)
        (\<lambda>d. kret (xd_crc32 d))))"

definition memdma :: "'m xorenv \<Rightarrow> u32 \<Rightarrow> u32 \<Rightarrow> u32 \<Rightarrow> u32 \<Rightarrow> ('m xor, unit) kact" where
  "memdma env stk dst src n =
     (if n > 16777216 then kraise (Panic ''memdma on huge block'')
      else
        kbind (portget False) (\<lambda>i.
        kbind (xor_start env i ModeDma (roundup stk Descralign)
          \<lparr>xd_status = Sdmaowned, xd_crc32 = xv_stale env, xd_cmd = 0, xd_next = 0, xd_count = n, xd_dest = dst, xd_src = [src]\<rparr>)
        (\<lambda>_. kret ())))"

text \<open>The descriptor has room for eight sources; more are written past it.\<close>

definition xordma :: "'m xorenv \<Rightarrow> u32 \<Rightarrow> u32 \<Rightarrow> u32 list \<Rightarrow> u32 \<Rightarrow> ('m xor, unit) kact" where
  "xordma env stk dst src n =
     (if n > 16777216 then kraise (Panic ''xordma on huge block'')
      else
        kbind (portget False) (\<lambda>i.
        if length src > 8 then kraise (Fault ''d->src past the descriptor'')
        else
          kbind (xor_start env i ModeXor (roundup stk XDescralign)
            \<lparr>xd_status = Sdmaowned, xd_crc32 = xv_stale env, xd_cmd = mask (length src), xd_next = 0, xd_count = n, xd_dest = dst,
             xd_src = src\<rparr>)
          (\<lambda>_. kret ())))"

end
