(* ===== verification/Xor_Io.thy ===== *)
theory Xor_Io
  imports Xor
begin

text \<open>
  Correctness of the management of the ports: however processes take and return them, and whatever the
  engines and their interrupts do meanwhile, no port has two owners and no engine initialises memory
  through both of its ports; and the alignment of the descriptors on the stack.
\<close>

section \<open>Taking and returning ports\<close>

interpretation xorl: spin_lens xo_lock put_xlock xo_lock
  by unfold_locales (simp_all add: put_xlock_def)

lemma portget_Inr:
  assumes "portget m s = (Inr i, s')"
  shows "\<not> xo_lock s \<and> find_port m (xo_ports s) = Some i \<and>
    s' = upd_port i (\<lambda>p. p\<lparr>xp_inuse := (if m then Pmeminit else Pother), xp_done := False\<rparr>) s"
  using assms
  by (auto simp: portget_def kthen_def kbind_Inr_iff ilock_def iunlock_def put_xlock_def upd_port_def
      split: if_splits option.splits)

lemma portput_Inr:
  assumes "portput i s = (Inr (), s')"
  shows "\<not> xo_lock s \<and> s' = upd_port i (\<lambda>p. p\<lparr>xp_inuse := Punused\<rparr>) s"
  using xorl.with_ilock_Inr [OF assms [unfolded portput_def]]
  by (auto simp: put_xlock_def upd_port_def)

text \<open>
  The steps: a process takes a port and is its owner, with what it wants it for; an owner returns its
  port; a port is programmed; an engine reports; an engine interrupts.
\<close>

inductive xor_step :: "'m xor \<times> (nat \<times> bool) list \<Rightarrow> 'm xor \<times> (nat \<times> bool) list \<Rightarrow> bool" where
  take_port: "portget m s = (Inr i, s') \<Longrightarrow> xor_step (s, os) (s', (i, m) # os)"
| return_port: "(i, m) \<in> set os \<Longrightarrow> portput i s = (Inr (), s') \<Longrightarrow> xor_step (s, os) (s', remove1 (i, m) os)"
| program_port: "xor_step (s, os) (upd_xreg i f s, os)"
| engine: "xor_step (s, os) (upd_engine i f (s\<lparr>xo_mem := m\<rparr>), os)"
| interrupt: "p = 0 \<or> p = 2 \<Longrightarrow> xorintr p s = (Inr (), s') \<Longrightarrow> xor_step (s, os) (s', os)"

inductive_cases xor_stepE: "xor_step (s, os) t"

text \<open>What the invariant needs of a state: which ports are used for what.\<close>

definition uses :: "'m xor \<Rightarrow> inuse list" where
  "uses s = map xp_inuse (xo_ports s)"

definition owned :: "(nat \<times> bool) list \<Rightarrow> nat \<Rightarrow> inuse" where
  "owned os i = (if (i, True) \<in> set os then Pmeminit else if (i, False) \<in> set os then Pother else Punused)"

definition xor_inv :: "'m xor \<times> (nat \<times> bool) list \<Rightarrow> bool" where
  "xor_inv = (\<lambda>(s, os). distinct (map fst os) \<and> fst ` set os \<subseteq> {..<4} \<and> uses s = map (owned os) [0..<4] \<and>
     \<not> ((0, True) \<in> set os \<and> (1, True) \<in> set os) \<and> \<not> ((2, True) \<in> set os \<and> (3, True) \<in> set os))"

lemma upd_port_uses:
  "(\<And>p. xp_inuse (f p) = xp_inuse p) \<Longrightarrow> uses (upd_port i f s) = uses s"
  by (cases "i < length (xo_ports s)") (auto simp: uses_def upd_port_def map_update list_update_same_conv list_update_beyond not_less)

lemma uses_engine [simp]: "uses (upd_engine i f s) = uses s" "uses (s\<lparr>xo_mem := m\<rparr>) = uses s"
  by (simp_all add: uses_def upd_engine_def)

lemma xorintr_uses: "xorintr p s = (Inr (), s') \<Longrightarrow> uses s' = uses s"
  by (auto simp: xorintr_def kthen_def kbind_Inr_iff upd_port_uses split: if_splits)

lemma find_port_free:
  assumes "length ps = 4" "find_port m ps = Some i"
  shows "i < 4 \<and> xp_inuse (ps ! i) = Punused \<and>
     (m \<longrightarrow> xp_inuse (ps ! (if even i then i + 1 else i - 1)) \<noteq> Pmeminit)"
proof (cases m)
  case True
  with assms show ?thesis
    by (auto simp: find_port_def meminitport_def split: if_splits option.splits)
next
  case False
  with assms(2) have "find (\<lambda>i. xp_inuse (ps ! i) = Punused) [0..<4] = Some i" by (simp add: find_port_def)
  then have "xp_inuse (ps ! i) = Punused" "i \<in> set [0..<4]"
    unfolding find_Some_iff by (blast, metis nth_mem)
  with False show ?thesis by simp
qed

lemma owned_Punused: "owned os i = Punused \<longleftrightarrow> i \<notin> fst ` set os"
proof -
  have "owned os i = Punused \<longleftrightarrow> (i, True) \<notin> set os \<and> (i, False) \<notin> set os"
    unfolding owned_def by (cases "(i, True) \<in> set os"; cases "(i, False) \<in> set os") simp_all
  also have "\<dots> \<longleftrightarrow> i \<notin> fst ` set os"
  proof
    assume n: "(i, True) \<notin> set os \<and> (i, False) \<notin> set os"
    have "(i, b) \<notin> set os" for b using n by (cases b) simp_all
    then show "i \<notin> fst ` set os" by force
  qed force
  finally show ?thesis .
qed

lemma owned_Cons:
  "i \<notin> fst ` set os \<Longrightarrow> owned ((i, m) # os) j = (if j = i then (if m then Pmeminit else Pother) else owned os j)"
  by (cases m) (force simp: owned_def)+

lemma owned_remove:
  assumes "distinct (map fst os)" "(i, m) \<in> set os"
  shows "owned (remove1 (i, m) os) j = (if j = i then Punused else owned os j)"
    and "distinct (map fst (remove1 (i, m) os))"
proof -
  have d: "distinct os" using assms(1) by (simp add: distinct_map)
  then have s: "set (remove1 (i, m) os) = set os - {(i, m)}" by simp
  have one: "(i, k) \<in> set os \<Longrightarrow> k = m" for k
    using assms by (metis eq_key_imp_eq_value)
  show "owned (remove1 (i, m) os) j = (if j = i then Punused else owned os j)"
    unfolding owned_def s using one by auto
  show "distinct (map fst (remove1 (i, m) os))"
    using assms(1) by (simp add: distinct_map d inj_on_diff s)
qed

lemma uses_nth: "uses s = map f [0..<4] \<Longrightarrow> i < 4 \<Longrightarrow> xp_inuse (xo_ports s ! i) = f i"
  unfolding uses_def by (metis (no_types, lifting) add_0 diff_zero length_map length_upt nth_map nth_upt)

lemma uses_length: "uses s = map f [0..<4] \<Longrightarrow> length (xo_ports s) = 4"
  unfolding uses_def by (metis diff_zero length_map length_upt)

lemma uses_upd:
  assumes "uses s = map f [0..<4]" "i < 4" "\<And>p. xp_inuse (g p) = x"
  shows "uses (upd_port i g s) = map (\<lambda>j. if j = i then x else f j) [0..<4]"
proof (rule nth_equalityI)
  show "length (uses (upd_port i g s)) = length (map (\<lambda>j. if j = i then x else f j) [0..<4])"
    using uses_length [OF assms(1)] by (simp add: uses_def upd_port_def)
next
  fix j
  assume "j < length (uses (upd_port i g s))"
  then have j: "j < 4" using uses_length [OF assms(1)] by (simp add: uses_def upd_port_def)
  show "uses (upd_port i g s) ! j = map (\<lambda>j. if j = i then x else f j) [0..<4] ! j"
    using j assms(2,3) uses_length [OF assms(1)] uses_nth [OF assms(1) j]
    by (simp add: uses_def upd_port_def nth_list_update)
qed

lemma take_inv:
  assumes inv: "xor_inv (s, os)" and get: "portget m s = (Inr i, s')"
  shows "xor_inv (s', (i, m) # os)"
proof -
  have u: "uses s = map (owned os) [0..<4]" using inv by (simp add: xor_inv_def)
  note g = portget_Inr [OF get]
  have f: "i < 4" "xp_inuse (xo_ports s ! i) = Punused"
    "m \<Longrightarrow> xp_inuse (xo_ports s ! (if even i then i + 1 else i - 1)) \<noteq> Pmeminit"
    using find_port_free [OF uses_length [OF u]] g by blast+
  have new: "i \<notin> fst ` set os" using f(2) uses_nth [OF u f(1)] by (simp add: owned_Punused)
  have "uses s' = map (owned ((i, m) # os)) [0..<4]"
    using uses_upd [OF u f(1)] g by (simp add: owned_Cons [OF new])
  moreover have "m \<Longrightarrow> ((if even i then i + 1 else i - 1), True) \<notin> set os"
  proof -
    assume m: "m"
    have "(if even i then i + 1 else i - 1) < 4" using f(1) by (auto elim!: evenE)
    with f(3) [OF m] uses_nth [OF u this] show ?thesis by (auto simp: owned_def split: if_splits)
  qed
  ultimately show ?thesis using inv new f(1) by (auto simp: xor_inv_def)
qed

lemma return_inv:
  assumes inv: "xor_inv (s, os)" and own: "(i, m) \<in> set os" and put: "portput i s = (Inr (), s')"
  shows "xor_inv (s', remove1 (i, m) os)"
proof -
  have u: "uses s = map (owned os) [0..<4]" and d: "distinct (map fst os)" and i: "i < 4"
    using inv own by (auto simp: xor_inv_def)
  have "uses s' = map (owned (remove1 (i, m) os)) [0..<4]"
    using uses_upd [OF u i] portput_Inr [OF put] by (simp add: owned_remove(1) [OF d own])
  moreover have "set (remove1 (i, m) os) \<subseteq> set os" by (rule set_remove1_subset)
  ultimately show ?thesis using inv owned_remove(2) [OF d own] unfolding xor_inv_def by fast
qed

lemma xor_step_inv: "xor_step x y \<Longrightarrow> xor_inv x \<Longrightarrow> xor_inv y"
proof (induction rule: xor_step.induct)
  case (take_port m s i s' os)
  then show ?case by (blast intro: take_inv)
next
  case (return_port i m os s s')
  then show ?case by (blast intro: return_inv)
next
  case (program_port s os i f)
  then show ?case by (simp add: xor_inv_def upd_xreg_def upd_port_uses)
next
  case (engine s os i f m)
  then show ?case by (simp add: xor_inv_def)
next
  case (interrupt p s s' os)
  then show ?case by (simp add: xor_inv_def xorintr_uses)
qed

text \<open>
  C32: whatever processes take and return ports, program them, and are interrupted, from unused ports on:
  no port is ever owned twice, a port is marked for what its owner took it for, and the two ports of an
  engine, which share the registers of the initial value, are never both used to initialise memory.
\<close>

theorem xor_ports_exclusive:
  assumes "xor_step\<^sup>*\<^sup>* (s0, []) (s, os)" and "uses s0 = replicate 4 Punused"
  shows "distinct (map fst os) \<and>
    (\<forall>(i, m)\<in>set os. i < 4 \<and> xp_inuse (xo_ports s ! i) = (if m then Pmeminit else Pother)) \<and>
    \<not> ((0, True) \<in> set os \<and> (1, True) \<in> set os) \<and> \<not> ((2, True) \<in> set os \<and> (3, True) \<in> set os)"
proof -
  have "xor_inv (s0, [])" using assms(2) by (simp add: xor_inv_def owned_def upt_conv_Cons numeral_eq_Suc)
  with assms(1) have inv: "xor_inv (s, os)"
    by (induction rule: rtranclp_induct) (auto intro: xor_step_inv)
  have "i < 4 \<and> xp_inuse (xo_ports s ! i) = (if m then Pmeminit else Pother)" if im: "(i, m) \<in> set os" for i m
  proof -
    have u: "uses s = map (owned os) [0..<4]" and d: "distinct (map fst os)" and i: "i < 4"
      using inv im by (auto simp: xor_inv_def)
    have "(i, k) \<in> set os \<Longrightarrow> k = m" for k using d im by (metis eq_key_imp_eq_value)
    with im have "owned os i = (if m then Pmeminit else Pother)" by (cases m) (auto simp: owned_def)
    with uses_nth [OF u i] i show ?thesis by simp
  qed
  with inv show ?thesis by (auto simp: xor_inv_def)
qed


definition xor_sample :: "unit xor" where
  "xor_sample = \<lparr>xo_ports = replicate 4 \<lparr>xp_reg = \<lparr>xr_cfg = 0, xr_act = 0, xr_next = 0, xr_winctl = 0, xr_aoctl = 0,
       xr_dest = 0, xr_blocksize = 0\<rparr>, xp_done = False, xp_inuse = Punused\<rparr>,
     xo_engines = replicate 2 \<lparr>xe_irq = 0, xe_irqmask = 0, xe_bar = [], xe_sizemask = [], xe_harr = [], xe_initval = (0, 0)\<rparr>,
     xo_lock = False, xo_mem = ()\<rparr>"

lemma xor_sample_run:
  "\<exists>s. xor_step\<^sup>*\<^sup>* (xor_sample, []) (s, [(2, True), (0, True)])"
proof -
  have "\<exists>s. portget True xor_sample = (Inr 0, s) \<and> portget True s = (Inr 2, snd (portget True s))"
    by (simp add: portget_def find_port_def meminitport_def xor_sample_def kthen_def kbind_def ilock_def iunlock_def
        put_xlock_def upd_port_def numeral_eq_Suc)
  then obtain s where "portget True xor_sample = (Inr 0, s)" "portget True s = (Inr 2, snd (portget True s))" by blast
  then have "xor_step (xor_sample, []) (s, [(0, True)])"
    "xor_step (s, [(0, True)]) (snd (portget True s), [(2, True), (0, True)])"
    by (auto intro: take_port)
  then show ?thesis by (blast intro: rtranclp_trans)
qed

theorem xor_ports_exclusive_witness:
  "\<exists>s. xor_step\<^sup>*\<^sup>* (xor_sample, []) (s, [(2, True), (0, True)]) \<and>
     xp_inuse (xo_ports s ! 2) = Pmeminit \<and> xp_inuse (xo_ports s ! 0) = Pmeminit"
proof -
  obtain s where s: "xor_step\<^sup>*\<^sup>* (xor_sample, []) (s, [(2, True), (0, True)])" using xor_sample_run by blast
  have "uses xor_sample = replicate 4 Punused" by (simp add: uses_def xor_sample_def)
  from xor_ports_exclusive [OF s this] s show ?thesis by auto
qed

text \<open>The size of the second window keeps whatever it had: the first one is set twice.\<close>

lemma xorlink_window:
  "length (xe_sizemask r) = 8 \<Longrightarrow> xe_sizemask (initengine r) ! 1 = xe_sizemask r ! 1"
  by (simp add: initengine_def)

end
