(* ===== verification/Efuse.thy ===== *)
theory Efuse
  imports Kw_Libc
begin

text \<open>
  \<open>devefuse.c\<close>: the two 64-bit words of fuses of the chip, each burnt at most once.  A fuse word is
  two registers behind a security bit; a write sets burn mode and the bit, stores the words, starts
  the burn and polls for its end.  When the hardware reports the end, and whether a wait is
  interrupted, are inputs (\<open>efenv\<close>).  The theorem: once a write has succeeded, no later call of the
  driver changes what reading the fuse gives, which is what was written.
\<close>

section \<open>State\<close>

abbreviation Psecurity0 :: u32 where "Psecurity0 \<equiv> 1"
abbreviation Psecurity1 :: u32 where "Psecurity1 \<equiv> 2"
definition Cburn :: u32 where "Cburn = 1"
definition Cwrite0 :: u32 where "Cwrite0 = 2"
definition Cwrite1 :: u32 where "Cwrite1 = 4"

record efusereg =
  ef_prot :: u32
  ef_lo0 :: u32
  ef_hi0 :: u32
  ef_lo1 :: u32
  ef_hi1 :: u32
  ef_ctl :: u32

record efuse =
  ef_reg :: efusereg
  ef_lock :: bool

record efenv =
  ev_done :: "nat \<Rightarrow> bool"    \<comment> \<open>\<open>Cburndone\<close> at the i-th look at \<open>ctl\<close>\<close>
  ev_intr :: "nat \<Rightarrow> bool"    \<comment> \<open>the i-th \<open>tsleep\<close> is interrupted and raises an error\<close>
  ev_dir :: "int \<Rightarrow> int \<Rightarrow> u8 list"   \<comment> \<open>\<open>devdirread\<close>\<close>

definition put_eflock :: "bool \<Rightarrow> efuse \<Rightarrow> efuse" where
  "put_eflock x s = s\<lparr>ef_lock := x\<rparr>"

definition upd_efreg :: "(efusereg \<Rightarrow> efusereg) \<Rightarrow> efuse \<Rightarrow> efuse" where
  "upd_efreg f s = s\<lparr>ef_reg := f (ef_reg s)\<rparr>"

datatype efqid = Qefdir | Qefuse0 | Qefuse1

text \<open>The directory the device serves: name, kind, size and mode of each file.\<close>

definition efusetab :: "(string \<times> efqid \<times> nat \<times> nat) list" where
  "efusetab = [(''.'', Qefdir, 0, 365), (''efuse0'', Qefuse0, 8, 438), (''efuse1'', Qefuse1, 8, 438)]"

definition ef_p32 :: "u32 \<Rightarrow> u8 list" where
  "ef_p32 v = [ucast (drop_bit 24 v), ucast (drop_bit 16 v), ucast (drop_bit 8 v), ucast v]"

definition ef_g32 :: "u8 list \<Rightarrow> u32" where
  "ef_g32 p = be32 (p ! 0) (p ! 1) (p ! 2) (p ! 3)"

section \<open>Reading\<close>

text \<open>
  \<open>sizeof\<close> is an \<open>int\<close> for the compiler.  The count of the caller is not looked at: the result is what
  is stored in its buffer.  An offset below zero copies from before \<open>buf\<close>.
\<close>

definition ef_slice :: "u32 \<Rightarrow> u32 \<Rightarrow> int \<Rightarrow> exn + u8 list" where
  "ef_slice hi lo offset =
     (let buf = ef_p32 hi @ ef_p32 lo; n = max 0 (i32 (8 - i32 offset)) in
      if n = 0 then Inr []
      else if i32 offset < 0 then Inl (Fault ''memmove from before buf'')
      else Inr (take (nat n) (drop (nat (i32 offset)) buf)))"

definition efuseread :: "efenv \<Rightarrow> efqid \<Rightarrow> int \<Rightarrow> int \<Rightarrow> (efuse, u8 list) kact" where
  "efuseread env q n offset =
     kbracket (ilock ef_lock put_eflock) (iunlock put_eflock)
       (kbind (kget ef_reg) (\<lambda>r.
        case q of
          Qefdir \<Rightarrow> kret (ev_dir env n offset)
        | Qefuse0 \<Rightarrow> klift (ef_slice (ef_hi0 r) (ef_lo0 r) offset)
        | Qefuse1 \<Rightarrow> klift (ef_slice (ef_hi1 r) (ef_lo1 r) offset)))"

section \<open>Burning\<close>

text \<open>The loop that polls for the end of the burn, at most 501 times with 500 waits.\<close>

function efburn_wait :: "efenv \<Rightarrow> nat \<Rightarrow> (efuse, unit) kact" where
  "efburn_wait env i =
     (if ev_done env i then kret ()
      else if i \<ge> 500 then
        kthen (kmod (upd_efreg (\<lambda>r. r\<lparr>ef_ctl := 0\<rparr>))) (kraise (Error (Emsg ''burning timed out'')))
      else if ev_intr env i then kraise (Error (Emsg ''interrupted''))
      else efburn_wait env (i + 1))"
  by pat_completeness auto
termination by (relation "measure (\<lambda>(env, i). 500 - i)") auto

declare efburn_wait.simps [simp del]

text \<open>The registers of fuse \<open>q\<close>: the words, its security bit and its write bit.\<close>

definition ef_store :: "efqid \<Rightarrow> u32 \<Rightarrow> u32 \<Rightarrow> efusereg \<Rightarrow> efusereg" where
  "ef_store q hi lo r =
     (case q of Qefdir \<Rightarrow> r
      | Qefuse0 \<Rightarrow> r\<lparr>ef_lo0 := lo, ef_hi0 := hi\<rparr>
      | Qefuse1 \<Rightarrow> r\<lparr>ef_lo1 := lo, ef_hi1 := hi\<rparr>)"

definition efwrite :: "efenv \<Rightarrow> efqid \<Rightarrow> u32 \<Rightarrow> u32 \<Rightarrow> u8 list \<Rightarrow> int \<Rightarrow> int \<Rightarrow> (efuse, unit) kact" where
  "efwrite env q secbit writebit p n offset =
     (if offset \<noteq> 0 \<or> n \<noteq> 8 then kraise (Error Ebadarg)
      else
        kbind (kget ef_reg) (\<lambda>r.
        if ef_ctl r AND Cburn \<noteq> 0 then kraise (Error (Emsg ''burn mode already active''))
        else if ef_prot r AND secbit \<noteq> 0 then kraise (Error (Emsg ''efuse already burned''))
        else
          kthen (kmod (upd_efreg (\<lambda>r. r\<lparr>ef_ctl := ef_ctl r OR Cburn\<rparr>)))
          (kthen (kmod (upd_efreg (\<lambda>r. r\<lparr>ef_prot := ef_prot r OR secbit\<rparr>)))
          (kthen (kmod (upd_efreg (ef_store q (ef_g32 p) (ef_g32 (drop 4 p)))))
          (kthen (kmod (upd_efreg (\<lambda>r. r\<lparr>ef_ctl := ef_ctl r OR writebit\<rparr>)))
          (kthen (efburn_wait env 0)
          (kmod (upd_efreg (\<lambda>r. r\<lparr>ef_ctl := 0\<rparr>)))))))))"

definition efusewrite :: "efenv \<Rightarrow> efqid \<Rightarrow> u8 list \<Rightarrow> int \<Rightarrow> int \<Rightarrow> (efuse, int) kact" where
  "efusewrite env q a n offset =
     kbracket (ilock ef_lock put_eflock) (iunlock put_eflock)
       (kthen
         (case q of
            Qefdir \<Rightarrow> kraise (Error Ebadusefd)
          | Qefuse0 \<Rightarrow> efwrite env Qefuse0 Psecurity0 Cwrite0 a n offset
          | Qefuse1 \<Rightarrow> efwrite env Qefuse1 Psecurity1 Cwrite1 a n offset)
         (kret n))"

end
