(* ===== verification/Efuse_Io.thy ===== *)
theory Efuse_Io
  imports Efuse
begin

text \<open>
  A fuse word is burnt once: the security bit that guards it is set before the word is stored and is
  never cleared, so a successful write is final.  A write that is interrupted leaves burn mode on, and
  no fuse can be written after it.
\<close>

interpretation eful: spin_lens ef_lock put_eflock ef_lock
  by unfold_locales (simp_all add: put_eflock_def)

section \<open>What a write changes\<close>

text \<open>The security bit and the words of a fuse.\<close>

definition ef_sec :: "efqid \<Rightarrow> u32" where
  "ef_sec q = (case q of Qefdir \<Rightarrow> 0 | Qefuse0 \<Rightarrow> Psecurity0 | Qefuse1 \<Rightarrow> Psecurity1)"

definition ef_words :: "efqid \<Rightarrow> efusereg \<Rightarrow> u32 \<times> u32" where
  "ef_words q r = (case q of Qefdir \<Rightarrow> (0, 0) | Qefuse0 \<Rightarrow> (ef_hi0 r, ef_lo0 r) | Qefuse1 \<Rightarrow> (ef_hi1 r, ef_lo1 r))"

definition burnt :: "efqid \<Rightarrow> u32 \<times> u32 \<Rightarrow> efuse \<Rightarrow> bool" where
  "burnt q w s \<longleftrightarrow> ef_prot (ef_reg s) AND ef_sec q \<noteq> 0 \<and> ef_words q (ef_reg s) = w"

lemma burnt_simps [simp]:
  "burnt q w (upd_efreg (\<lambda>r. r\<lparr>ef_ctl := f r\<rparr>) s) = burnt q w s"
  "burnt q w (put_eflock x s) = burnt q w s"
  by (cases q; simp add: burnt_def ef_words_def upd_efreg_def put_eflock_def)+

lemma burnt_prot [simp]: "burnt q w s \<Longrightarrow> burnt q w (upd_efreg (\<lambda>r. r\<lparr>ef_prot := ef_prot r OR b\<rparr>) s)"
proof -
  have "(x OR b) AND c \<noteq> 0" if "x AND c \<noteq> 0" for x c :: u32
    using that by (simp add: word_ao_dist or_eq_0_iff)
  then show "burnt q w s \<Longrightarrow> ?thesis"
    by (cases q) (simp_all add: burnt_def ef_words_def upd_efreg_def)
qed

lemma burnt_store:
  "burnt q w s \<Longrightarrow> q' \<noteq> q \<Longrightarrow> burnt q w (upd_efreg (ef_store q' hi lo) s)"
  by (cases q; cases q') (auto simp: burnt_def ef_words_def ef_store_def upd_efreg_def)

lemma efburn_wait_Inr: "efburn_wait env i s = (Inr (), s') \<Longrightarrow> s' = s"
  by (induction env i arbitrary: s rule: efburn_wait.induct)
    (subst (asm) (2) efburn_wait.simps, simp split: if_splits)

lemma efburn_wait_burnt: "kinv (burnt q w) (efburn_wait env i)"
proof (induction env i rule: efburn_wait.induct)
  case (1 env i)
  then show ?case
    by (subst efburn_wait.simps) (auto intro!: kinv_rule kinv_mod)
qed

lemma efwrite_burnt:
  assumes "b = ef_sec q'"
  shows "kinv (burnt q w) (efwrite env q' b wb p n off)"
proof (rule kinvI)
  fix s r s'
  assume bn: "burnt q w s" and run: "efwrite env q' b wb p n off s = (r, s')"
  show "burnt q w s'"
  proof (cases "q' = q")
    case True
    with bn assms have "ef_prot (ef_reg s) AND b \<noteq> 0" by (simp add: burnt_def)
    with run bn show ?thesis by (auto simp: efwrite_def split: if_splits)
  next
    case False
    have "kinv (burnt q w) (efwrite env q' b wb p n off)"
      unfolding efwrite_def using False
      by (auto intro!: kinv_rule kinv_mod efburn_wait_burnt burnt_store)
    with bn run show ?thesis by (auto dest: kinvD)
  qed
qed

lemma kinv_bracket:
  assumes "kinv P body" and put: "\<And>x s. P s \<Longrightarrow> P (put_eflock x s)"
  shows "kinv P (kbracket (ilock ef_lock put_eflock) (iunlock put_eflock) body)"
proof -
  have l: "kinv P (ilock ef_lock put_eflock)" "kinv P (iunlock put_eflock)"
    using put by (simp_all add: kinv_def ilock_def iunlock_def)
  show ?thesis unfolding kbracket_def by (intro kinv_rule l assms(1))
qed

lemma efusewrite_burnt: "kinv (burnt q w) (efusewrite env q' a n off)"
  unfolding efusewrite_def
  by (rule kinv_bracket, cases q') (auto intro!: kinv_rule efwrite_burnt simp: ef_sec_def)

lemma efuseread_burnt: "kinv (burnt q w) (efuseread env q' n off)"
  unfolding efuseread_def
  by (rule kinv_bracket, cases q') (auto intro!: kinv_rule)

section \<open>The locks\<close>

lemma efwrite_balanced: "balanced ef_lock (efwrite env q b wb p n off)"
proof -
  have w: "balanced ef_lock (efburn_wait env i)" for i
  proof (induction env i rule: efburn_wait.induct)
    case (1 env i)
    then show ?case
      by (subst efburn_wait.simps) (auto intro!: balanced_rule balanced_mod simp: upd_efreg_def)
  qed
  show ?thesis unfolding efwrite_def
    by (auto intro!: balanced_rule balanced_mod w simp: upd_efreg_def)
qed

lemma efusewrite_balanced: "balanced ef_lock (efusewrite env q a n off)"
  unfolding efusewrite_def
  by (rule eful.spin.bracket_balanced, cases q) (auto intro!: balanced_rule efwrite_balanced)

lemma efuseread_balanced: "balanced ef_lock (efuseread env q n off)"
  unfolding efuseread_def
  by (rule eful.spin.bracket_balanced, cases q) (auto intro!: balanced_rule)

text \<open>A call of the driver that returns, or raises an error.\<close>

definition returned :: "exn + 'a \<Rightarrow> bool" where
  "returned r = (case r of Inr _ \<Rightarrow> True | Inl (Error _) \<Rightarrow> True | _ \<Rightarrow> False)"

inductive ef_call :: "efuse \<Rightarrow> efuse \<Rightarrow> bool" where
  call_read: "efuseread env q n off s = (r, s') \<Longrightarrow> returned r \<Longrightarrow> ef_call s s'"
| call_write: "efusewrite env q a n off s = (r, s') \<Longrightarrow> returned r \<Longrightarrow> ef_call s s'"

lemma returned_iff: "returned r \<longleftrightarrow> (\<exists>x. r = Inr x) \<or> (\<exists>e. r = Inl (Error e))"
  by (auto simp: returned_def split: sum.splits exn.splits)

lemma ef_call_inv: "ef_call s s' \<Longrightarrow> burnt q w s \<and> \<not> ef_lock s \<Longrightarrow> burnt q w s' \<and> \<not> ef_lock s'"
proof (induction rule: ef_call.induct)
  case (call_read env q' n off s r s')
  have "ef_lock s' = ef_lock s"
    using efuseread_balanced [of env q' n off] call_read by (auto simp: balanced_def returned_iff)
  with call_read show ?case by (auto dest: kinvD [OF efuseread_burnt])
next
  case (call_write env q' a n off s r s')
  have "ef_lock s' = ef_lock s"
    using efusewrite_balanced [of env q' a n off] call_write by (auto simp: balanced_def returned_iff)
  with call_write show ?case by (auto dest: kinvD [OF efusewrite_burnt])
qed

lemma ef_calls_inv:
  "ef_call\<^sup>*\<^sup>* s s' \<Longrightarrow> burnt q w s \<Longrightarrow> \<not> ef_lock s \<Longrightarrow> burnt q w s' \<and> \<not> ef_lock s'"
  by (induction rule: rtranclp_induct) (auto dest: ef_call_inv)

section \<open>A successful write\<close>

lemma bracket_Inr:
  assumes "kbracket (ilock ef_lock put_eflock) (iunlock put_eflock) body s = (Inr x, s')"
  shows "\<not> ef_lock s \<and> (\<exists>t. body (put_eflock True s) = (Inr x, t) \<and> s' = put_eflock False t)"
  using assms
  by (auto simp: kbracket_def kthen_def kbind_def ilock_def iunlock_def kcatch_def split: if_splits prod.splits sum.splits exn.splits)

lemma efwrite_Inr:
  assumes "efwrite env q b wb p n off s = (Inr (), s')"
  shows "n = 8 \<and> off = 0 \<and>
    s' = upd_efreg (\<lambda>r. (ef_store q (ef_g32 p) (ef_g32 (drop 4 p)) r)\<lparr>ef_prot := ef_prot r OR b, ef_ctl := 0\<rparr>) s"
  using assms
  by (cases q) (auto simp: efwrite_def kbind_def kthen_def upd_efreg_def ef_store_def dest!: efburn_wait_Inr split: if_splits prod.splits sum.splits)

lemma sec_or: "q \<noteq> Qefdir \<Longrightarrow> (x OR ef_sec q) AND ef_sec q \<noteq> 0"
  by (cases q) (simp_all add: ef_sec_def)

lemma efusewrite_Inr:
  assumes "efusewrite env q p n off s = (Inr k, s')"
  shows "q \<noteq> Qefdir \<and> n = 8 \<and> off = 0 \<and> k = 8 \<and> \<not> ef_lock s' \<and> burnt q (ef_g32 p, ef_g32 (drop 4 p)) s'"
proof -
  from bracket_Inr [OF assms [unfolded efusewrite_def]] have q: "q \<noteq> Qefdir" and l: "\<not> ef_lock s'"
    by (auto simp: put_eflock_def split: efqid.splits)
  obtain t wb where w: "efwrite env q (ef_sec q) wb p n off (put_eflock True s) = (Inr (), t)"
    and s': "s' = put_eflock False t" and k: "k = n"
    using bracket_Inr [OF assms [unfolded efusewrite_def]] q
    by (cases q) (auto simp: ef_sec_def kthen_Inr_iff)
  from efwrite_Inr [OF w] have t: "n = 8" "off = 0"
    "burnt q (ef_g32 p, ef_g32 (drop 4 p)) t"
    using q sec_or [OF q] by (cases q; simp add: burnt_def ef_words_def upd_efreg_def ef_store_def)+
  with q l s' k show ?thesis by simp
qed

section \<open>Reading back\<close>

lemma ef_p32_g32: "length p = 8 \<Longrightarrow> ef_p32 (ef_g32 p) @ ef_p32 (ef_g32 (drop 4 p)) = p"
proof -
  assume "length p = 8"
  then obtain a b c d a' b' c' d' where "p = [a, b, c, d, a', b', c', d']"
    by (auto simp: numeral_eq_Suc length_Suc_conv)
  then show ?thesis by (simp add: ef_p32_def ef_g32_def be32_bytes)
qed

lemma ef_slice_0: "ef_slice hi lo 0 = Inr (ef_p32 hi @ ef_p32 lo)"
  by (simp add: ef_slice_def i32_id ef_p32_def)

lemma efuseread_burnt_eq:
  assumes "burnt q (ef_g32 p, ef_g32 (drop 4 p)) s" "\<not> ef_lock s" "q \<noteq> Qefdir" "length p = 8"
  shows "efuseread env q n 0 s = (Inr p, s)"
  using assms
  by (cases q) (auto simp: efuseread_def burnt_def ef_words_def kbracket_def kthen_def kbind_def ilock_def iunlock_def
      put_eflock_def kcatch_def ef_slice_0 ef_p32_g32)

lemma efusewrite_burnt_fails:
  assumes "burnt q w s" "\<not> ef_lock s" "q \<noteq> Qefdir"
  shows "\<exists>e s'. efusewrite env q a n off s = (Inl (Error e), s')"
  using assms
  by (cases q) (auto simp: efusewrite_def efwrite_def burnt_def ef_sec_def kbracket_def kthen_def kbind_def ilock_def iunlock_def
      put_eflock_def kcatch_def)

text \<open>
  C33: A fuse is burnt once.  When a write of a fuse has succeeded, with eight bytes at offset 0, then
  whatever calls of the driver follow, on either fuse, whether they succeed or fail: reading the fuse
  gives those eight bytes, whatever the count of the caller, and every further write of it is an error.
\<close>

theorem efuse_burns_once:
  assumes "efusewrite env q p n off s = (Inr k, s1)" and "length p = nat n"
    and "ef_call\<^sup>*\<^sup>* s1 s2"
  shows "efuseread env' q m 0 s2 = (Inr p, s2) \<and>
    (\<exists>e s3. efusewrite env'' q a n' off' s2 = (Inl (Error e), s3))"
proof -
  from efusewrite_Inr [OF assms(1)] assms(2) have q: "q \<noteq> Qefdir" "length p = 8"
    and b: "burnt q (ef_g32 p, ef_g32 (drop 4 p)) s1" "\<not> ef_lock s1" by auto
  from ef_calls_inv [OF assms(3) b] have "burnt q (ef_g32 p, ef_g32 (drop 4 p)) s2" "\<not> ef_lock s2" by auto
  with q show ?thesis by (blast intro: efuseread_burnt_eq efusewrite_burnt_fails)
qed

definition efuse_sample :: efuse where
  "efuse_sample = \<lparr>ef_reg = \<lparr>ef_prot = 0, ef_lo0 = 0, ef_hi0 = 0, ef_lo1 = 0, ef_hi1 = 0, ef_ctl = 0\<rparr>, ef_lock = False\<rparr>"

definition efenv_sample :: efenv where
  "efenv_sample = \<lparr>ev_done = (\<lambda>i. i \<ge> 1), ev_intr = (\<lambda>_. False), ev_dir = (\<lambda>_ _. [])\<rparr>"

lemma efuse_sample_write:
  "efusewrite efenv_sample Qefuse1 [1, 2, 3, 4, 5, 6, 7, 8] 8 0 efuse_sample =
     (Inr 8, efuse_sample\<lparr>ef_reg := \<lparr>ef_prot = 2, ef_lo0 = 0, ef_hi0 = 0, ef_lo1 = 0x05060708, ef_hi1 = 0x01020304, ef_ctl = 0\<rparr>\<rparr>)"
  by (simp add: efusewrite_def efwrite_def kbracket_def kthen_def kbind_def ilock_def iunlock_def put_eflock_def kcatch_def
      efuse_sample_def efenv_sample_def Cburn_def Cwrite1_def upd_efreg_def efburn_wait.simps ef_store_def ef_g32_def be32_def)

theorem efuse_burns_once_witness:
  "\<exists>s. ef_call efuse_sample s \<and> efuseread efenv_sample Qefuse1 0 0 s = (Inr [1, 2, 3, 4, 5, 6, 7, 8], s)"
  using efuse_burns_once [OF efuse_sample_write _ rtranclp.rtrancl_refl]
    call_write [OF efuse_sample_write] by (auto simp: returned_def)

section \<open>A write that is interrupted\<close>

text \<open>Burn mode stays on after an interrupted wait, and every write after it is refused.\<close>

lemma efuse_stuck:
  assumes "ef_ctl (ef_reg s) AND Cburn \<noteq> 0" "\<not> ef_lock s"
  shows "\<exists>e. efusewrite env q a n off s = (Inl (Error e), s)"
  using assms
  by (cases q) (auto simp: efusewrite_def efwrite_def kbracket_def kthen_def kbind_def ilock_def iunlock_def
      put_eflock_def kcatch_def)

lemma efburn_interrupted:
  "\<not> ev_done env 0 \<Longrightarrow> ev_intr env 0 \<Longrightarrow> efburn_wait env 0 s = (Inl (Error (Emsg ''interrupted'')), s)"
  by (simp add: efburn_wait.simps)

end
