(* ===== verification/Fpiarm.thy ===== *)
theory Fpiarm
  imports Kw_Libc
begin

text \<open>
  \<open>fpiarm.c\<close>: the emulator of the floating point instructions the processor does not have.  The
  arithmetic on the internal form of numbers (\<open>fpi.c\<close>) and its conversions (\<open>fpimem.c\<close>) are in
  \<open>../port\<close> and parameters here (\<open>fpops\<close>), and so is memory.  Running the instructions at the pc ends
  when one is no floating point instruction, so the loop takes fuel.
\<close>

section \<open>Numbers\<close>

record internal =
  i_s :: u8
  i_e :: int                       \<comment> \<open>\<open>short\<close>\<close>
  i_l :: u32
  i_h :: u32

abbreviation FractBits :: nat where "FractBits \<equiv> 28"
abbreviation ExpBias :: int where "ExpBias \<equiv> 1023"
abbreviation ExpInfinity :: int where "ExpInfinity \<equiv> 2047"

definition IsWeird :: "internal \<Rightarrow> bool" where "IsWeird n \<longleftrightarrow> i_e n \<ge> ExpInfinity"

definition SetZero :: "internal \<Rightarrow> internal" where "SetZero n = n\<lparr>i_e := 1, i_h := 0, i_l := 0\<rparr>"

definition fpconst :: "internal list" where
  "fpconst = map (\<lambda>(s, e, l, h). \<lparr>i_s = s, i_e = e, i_l = l, i_h = h\<rparr>)
     [(0, 0x1, 0, 0), (0, 0x3FF, 0, 0x08000000), (0, 0x400, 0, 0x08000000), (0, 0x400, 0, 0x0C000000),
      (0, 0x401, 0, 0x08000000), (0, 0x401, 0, 0x0A000000), (0, 0x3FE, 0, 0x08000000), (0, 0x402, 0, 0x0A000000)]"

record 'm fpops =
  fo_add :: "internal \<Rightarrow> internal \<Rightarrow> internal"
  fo_sub :: "internal \<Rightarrow> internal \<Rightarrow> internal"
  fo_mul :: "internal \<Rightarrow> internal \<Rightarrow> internal"
  fo_div :: "internal \<Rightarrow> internal \<Rightarrow> internal"
  fo_round :: "internal \<Rightarrow> internal"
  fo_cmp :: "internal \<Rightarrow> internal \<Rightarrow> int"
  fo_s2i :: "'m \<Rightarrow> u32 \<Rightarrow> internal"
  fo_d2i :: "'m \<Rightarrow> u32 \<Rightarrow> internal"
  fo_i2s :: "u32 \<Rightarrow> internal \<Rightarrow> 'm \<Rightarrow> 'm"
  fo_i2d :: "u32 \<Rightarrow> internal \<Rightarrow> 'm \<Rightarrow> 'm"
  fo_w2i :: "u32 \<Rightarrow> internal"
  fo_i2w :: "internal \<Rightarrow> u32"
  fo_instr :: "'m \<Rightarrow> u32 \<Rightarrow> u32"      \<comment> \<open>the word at an address\<close>

definition negate :: "internal \<Rightarrow> internal" where "negate m = m\<lparr>i_s := i_s m XOR 1\<rparr>"

definition fadd :: "'m fpops \<Rightarrow> internal \<Rightarrow> internal \<Rightarrow> internal" where
  "fadd k m n = (if i_s m = i_s n then fo_add k else fo_sub k) m n"

definition fsub :: "'m fpops \<Rightarrow> internal \<Rightarrow> internal \<Rightarrow> internal" where
  "fsub k m n = (let m = negate m in (if i_s m = i_s n then fo_add k else fo_sub k) m n)"

definition fsubr :: "'m fpops \<Rightarrow> internal \<Rightarrow> internal \<Rightarrow> internal" where
  "fsubr k m n = (let n = negate n in (if i_s n = i_s m then fo_add k else fo_sub k) n m)"

definition fmul :: "'m fpops \<Rightarrow> internal \<Rightarrow> internal \<Rightarrow> internal" where "fmul k m n = fo_mul k m n"
definition fdiv :: "'m fpops \<Rightarrow> internal \<Rightarrow> internal \<Rightarrow> internal" where "fdiv k m n = fo_div k m n"
definition fdivr :: "'m fpops \<Rightarrow> internal \<Rightarrow> internal \<Rightarrow> internal" where "fdivr k m n = fo_div k n m"

definition fmov :: "'m fpops \<Rightarrow> internal \<Rightarrow> internal" where "fmov k m = m"
definition fmovn :: "'m fpops \<Rightarrow> internal \<Rightarrow> internal" where "fmovn k m = negate m"
definition fabsf :: "'m fpops \<Rightarrow> internal \<Rightarrow> internal" where "fabsf k m = m\<lparr>i_s := 0\<rparr>"

text \<open>The end of \<open>frnd\<close>: the bits of the fraction are cleared; the number has \<open>e\<close> bits before the point.\<close>

definition frnd_clear :: "internal \<Rightarrow> internal" where
  "frnd_clear d =
     (let e = signed_take_bit 15 (i_e d - ExpBias + 1) in
      if e \<le> 0 then SetZero d
      else if e > int FractBits then
        (if e < 2 * int FractBits then d\<lparr>i_l := i_l d AND NOT (push_bit (nat (2 * int FractBits - e)) 1 - 1)\<rparr> else d)
      else
        (let d = d\<lparr>i_l := 0\<rparr> in
         if e < int FractBits then d\<lparr>i_h := i_h d AND NOT (push_bit (nat (int FractBits - e)) 1 - 1)\<rparr> else d))"

definition frnd :: "'m fpops \<Rightarrow> internal \<Rightarrow> internal" where
  "frnd k m =
     (let d = (if i_s m \<noteq> 0 then fsub k else fadd k) (fpconst ! 6) m in
      if IsWeird d then d else frnd_clear (fo_round k d))"

definition optab1 :: "'m fpops \<Rightarrow> nat \<Rightarrow> (internal \<Rightarrow> internal) option" where
  "optab1 k o1 = (if o1 = 0 then Some (fmov k) else if o1 = 1 then Some (fmovn k) else if o1 = 2 then Some (fabsf k)
     else if o1 = 3 then Some (frnd k) else None)"

definition optab2 :: "'m fpops \<Rightarrow> nat \<Rightarrow> (internal \<Rightarrow> internal \<Rightarrow> internal) option" where
  "optab2 k o2 = (if o2 = 0 then Some (fadd k) else if o2 = 1 \<or> o2 = 9 then Some (fmul k)
     else if o2 = 2 then Some (fsub k) else if o2 = 3 then Some (fsubr k)
     else if o2 = 4 \<or> o2 = 10 then Some (fdiv k) else if o2 = 5 \<or> o2 = 11 then Some (fdivr k) else None)"

section \<open>Flags and conditions\<close>

abbreviation PsrN :: u32 where "PsrN \<equiv> 0x80000000"
abbreviation PsrZ :: u32 where "PsrZ \<equiv> 0x40000000"
abbreviation PsrC :: u32 where "PsrC \<equiv> 0x20000000"
abbreviation PsrV :: u32 where "PsrV \<equiv> 0x10000000"

definition fcmp :: "'m fpops \<Rightarrow> internal \<Rightarrow> internal \<Rightarrow> u32" where
  "fcmp k n m =
     (if IsWeird m \<or> IsWeird n then PsrV OR PsrC
      else let i = fo_cmp k n m in if i > 0 then PsrC else if i = 0 then PsrC OR PsrZ else PsrN)"

definition condok :: "u32 \<Rightarrow> nat \<Rightarrow> bool" where
  "condok cc c =
     (if c = 0 then cc AND PsrZ \<noteq> 0
      else if c = 1 then cc AND PsrZ = 0
      else if c = 2 then cc AND PsrC \<noteq> 0
      else if c = 3 then cc AND PsrC = 0
      else if c = 4 then cc AND PsrN \<noteq> 0
      else if c = 5 then cc AND PsrN = 0
      else if c = 6 then cc AND PsrV \<noteq> 0
      else if c = 7 then cc AND PsrV = 0
      else if c = 8 then cc AND PsrC \<noteq> 0 \<and> cc AND PsrZ = 0
      else if c = 9 then cc AND PsrC = 0 \<or> cc AND PsrZ \<noteq> 0
      else if c = 10 then NOT cc AND (PsrN OR PsrV) = 0 \<or> cc AND (PsrN OR PsrV) = 0
      else if c = 11 then cc AND (PsrN OR PsrV) = PsrN \<or> cc AND (PsrN OR PsrV) = PsrV
      else if c = 12 then cc AND PsrZ = 0 \<and> (NOT cc AND (PsrN OR PsrV) = 0 \<or> cc AND (PsrN OR PsrV) = 0)
      else if c = 13 then cc AND PsrZ \<noteq> 0 \<or> cc AND (PsrN OR PsrV) = PsrN \<or> cc AND (PsrN OR PsrV) = PsrV
      else c = 14)"

section \<open>State\<close>

datatype fpistate = FPINIT | FPACTIVE | FPINACTIVE

record fpenv =
  fe_status :: u32
  fe_control :: u32
  fe_state :: fpistate
  fe_regs :: "internal list"

text \<open>
  The registers are those of \<open>Ureg\<close> in the order of \<open>roff\<close>: the place of \<open>r13\<close> is the field \<open>type\<close>, in
  which \<open>fpiarm\<close> stores the address after the structure.
\<close>

record 'm fpst =
  ft_regs :: "u32 list"
  ft_psr :: u32
  ft_env :: fpenv
  ft_mem :: 'm
  ft_up :: bool
  ft_scheds :: nat

abbreviation REGPC :: nat where "REGPC \<equiv> 15"

definition set_reg :: "nat \<Rightarrow> u32 \<Rightarrow> 'm fpst \<Rightarrow> 'm fpst" where
  "set_reg r v s = s\<lparr>ft_regs := (ft_regs s)[r := v]\<rparr>"

definition FR :: "'m fpst \<Rightarrow> nat \<Rightarrow> internal" where
  "FR s x = fe_regs (ft_env s) ! (x mod 8)"

definition set_FR :: "nat \<Rightarrow> internal \<Rightarrow> 'm fpst \<Rightarrow> 'm fpst" where
  "set_FR x v s = s\<lparr>ft_env := (ft_env s)\<lparr>fe_regs := (fe_regs (ft_env s))[x mod 8 := v]\<rparr>\<rparr>"

definition fp_status :: "u32 \<Rightarrow> 'm fpst \<Rightarrow> 'm fpst" where
  "fp_status v s = s\<lparr>ft_env := (ft_env s)\<lparr>fe_status := v\<rparr>\<rparr>"

definition fp_control :: "u32 \<Rightarrow> 'm fpst \<Rightarrow> 'm fpst" where
  "fp_control v s = s\<lparr>ft_env := (ft_env s)\<lparr>fe_control := v\<rparr>\<rparr>"

text \<open>A field of the instruction.\<close>

definition opf :: "u32 \<Rightarrow> nat \<Rightarrow> u32 \<Rightarrow> nat" where
  "opf op i m = unat (drop_bit i op AND m)"

definition unimp :: "u32 \<Rightarrow> u32 \<Rightarrow> ('s, 'a) kact" where
  "unimp pc op =
     (let h = uhex (unat op) in
      kraise (Error (Emsg (seprint 60 [] (''sys: fp: pc='' @ uhex (unat pc) @ '' unimp fp 0x'' @
        replicate (8 - length h) (CHR ''0'') @ h)))))"

section \<open>One instruction\<close>

definition fld :: "('m \<Rightarrow> u32 \<Rightarrow> internal) \<Rightarrow> nat \<Rightarrow> u32 \<Rightarrow> ('m fpst, unit) kact" where
  "fld f d ea = kmod (\<lambda>s. set_FR d (f (ft_mem s) ea) s)"

definition fstf :: "(u32 \<Rightarrow> internal \<Rightarrow> 'm \<Rightarrow> 'm) \<Rightarrow> u32 \<Rightarrow> nat \<Rightarrow> ('m fpst, unit) kact" where
  "fstf f ea r = kmod (\<lambda>s. s\<lparr>ft_mem := f ea (FR s r) (ft_mem s)\<rparr>)"

text \<open>Loads and stores: the address, before or after the offset, and the register written back.\<close>

definition fpemu_mem :: "'m fpops \<Rightarrow> u32 \<Rightarrow> u32 \<Rightarrow> ('m fpst, unit) kact" where
  "fpemu_mem k pc op =
     (if bit op 22 then unimp pc op
      else
        kbind (kget ft_regs) (\<lambda>regs.
        let rn = opf op 16 0xF;
            off = push_bit 2 (op AND 0xFF);
            off = (if \<not> bit op 23 then - off else off);
            ea = regs ! rn;
            ea = (if rn = REGPC then ea + 8 else ea);
            ea = (if bit op 24 then ea + off else ea);
            rd = opf op 12 7 in
        kthen (if bit op 20 then (if bit op 15 then fld (fo_d2i k) rd ea else fld (fo_s2i k) rd ea)
               else if bit op 15 then fstf (fo_i2d k) ea rd else fstf (fo_i2s k) ea rd)
        (let ea = (if \<not> bit op 24 then ea + off else ea) in
         if bit op 21 then kmod (set_reg rn ea) else kret ())))"

text \<open>The operand \<open>Fm\<close>: a constant or a register.\<close>

definition fp_operand :: "u32 \<Rightarrow> 'm fpst \<Rightarrow> internal" where
  "fp_operand op s = (if bit op 3 then fpconst ! opf op 0 7 else FR s (opf op 0 7))"

definition set_flags :: "u32 \<Rightarrow> 'm fpst \<Rightarrow> 'm fpst" where
  "set_flags v s = s\<lparr>ft_psr := ft_psr s AND NOT (PsrN OR PsrC OR PsrZ OR PsrV) OR v\<rparr>"

definition fpemu_cmp :: "'m fpops \<Rightarrow> u32 \<Rightarrow> u32 \<Rightarrow> ('m fpst, unit) kact" where
  "fpemu_cmp k pc op =
     (let o3 = opf op 21 7 in
      if o3 = 4 \<or> o3 = 6 then kmod (\<lambda>s. set_flags (fcmp k (FR s (opf op 16 7)) (fp_operand op s)) s)
      else if o3 = 5 \<or> o3 = 7 then kmod (\<lambda>s. set_flags (fcmp k (FR s (opf op 16 7)) (negate (fp_operand op s))) s)
      else unimp pc op)"

definition fpemu_xfer :: "'m fpops \<Rightarrow> u32 \<Rightarrow> u32 \<Rightarrow> ('m fpst, unit) kact" where
  "fpemu_xfer k pc op =
     (let rd = opf op 12 0xF; o4 = opf op 20 0xF in
      if o4 = 0 then kmod (\<lambda>s. set_FR (opf op 16 7) (fo_w2i k (ft_regs s ! rd)) s)
      else if o4 = 1 then
        (if bit op 3 then unimp pc op else kmod (\<lambda>s. set_reg rd (fo_i2w k (FR s (opf op 0 7))) s))
      else if o4 = 2 then kmod (\<lambda>s. fp_status (ft_regs s ! rd) s)
      else if o4 = 3 then kmod (\<lambda>s. set_reg rd (fe_status (ft_env s)) s)
      else if o4 = 4 then kmod (\<lambda>s. fp_control (ft_regs s ! rd) s)
      else if o4 = 5 then kmod (\<lambda>s. set_reg rd (fe_control (ft_env s)) s)
      else unimp pc op)"

definition fpemu_arith :: "'m fpops \<Rightarrow> u32 \<Rightarrow> u32 \<Rightarrow> ('m fpst, unit) kact" where
  "fpemu_arith k pc op =
     (let rd = opf op 12 7; o4 = opf op 20 0xF in
      if bit op 15 then
        (case optab1 k o4 of
           None \<Rightarrow> unimp pc op
         | Some f \<Rightarrow> kmod (\<lambda>s. set_FR rd (f (fp_operand op s)) s))
      else
        (case optab2 k o4 of
           None \<Rightarrow> unimp pc op
         | Some f \<Rightarrow> kmod (\<lambda>s. set_FR rd (f (fp_operand op s) (FR s (opf op 16 7))) s)))"

definition fpemu :: "'m fpops \<Rightarrow> u32 \<Rightarrow> u32 \<Rightarrow> ('m fpst, unit) kact" where
  "fpemu k pc op =
     (if opf op 25 7 = 6 then fpemu_mem k pc op
      else if bit op 4 then
        (if opf op 12 0xF = 15 \<and> bit op 20 then fpemu_cmp k pc op else fpemu_xfer k pc op)
      else fpemu_arith k pc op)"

section \<open>The instructions at the pc\<close>

definition is_fpop :: "u32 \<Rightarrow> bool" where
  "is_fpop op \<longleftrightarrow>
     (let o4 = drop_bit 24 op AND 0xF in
      \<not> (drop_bit 8 op AND 0xF \<noteq> 1 \<or> o4 \<noteq> 0xE \<and> o4 AND NOT 1 \<noteq> 0xC))"

text \<open>\<open>higher n\<close>: another process is ready after the n-th instruction, and runs.\<close>

primrec fpiarm_loop :: "'m fpops \<Rightarrow> (nat \<Rightarrow> bool) \<Rightarrow> nat \<Rightarrow> nat \<Rightarrow> ('m fpst, nat) kact" where
  "fpiarm_loop k higher 0 n = kraise Fuel"
| "fpiarm_loop k higher (Suc fuel) n =
     kbind (kget (\<lambda>s. (ft_regs s ! REGPC, fo_instr k (ft_mem s) (ft_regs s ! REGPC), ft_psr s))) (\<lambda>(pc, op, psr).
     if \<not> is_fpop op then kret n
     else
       kthen (if condok psr (unat (drop_bit 28 op)) then fpemu k pc op else kret ())
       (kthen (kmod (\<lambda>s. set_reg REGPC (ft_regs s ! REGPC + 4) s))
       (kthen (if higher n then kmod (\<lambda>s. s\<lparr>ft_scheds := ft_scheds s + 1\<rparr>) else kret ())
       (fpiarm_loop k higher fuel (n + 1)))))"

definition fp_start :: "'m fpst \<Rightarrow> 'm fpst" where
  "fp_start s =
     (if fe_state (ft_env s) \<noteq> FPACTIVE then
        s\<lparr>ft_env := \<lparr>fe_status = push_bit 28 1 OR push_bit 12 1, fe_control = 0, fe_state = FPACTIVE,
           fe_regs = replicate 8 (fpconst ! 0)\<rparr>\<rparr>
      else s)"

text \<open>\<open>after\<close> is the address after the saved registers.\<close>

definition fpiarm :: "'m fpops \<Rightarrow> (nat \<Rightarrow> bool) \<Rightarrow> nat \<Rightarrow> u32 \<Rightarrow> ('m fpst, nat) kact" where
  "fpiarm k higher fuel after =
     kthen (kmod (set_reg 13 after))
     (kbind (kget ft_up) (\<lambda>up.
      if \<not> up then kraise (Panic ''fpiarm not in a process'')
      else kthen (kmod fp_start) (fpiarm_loop k higher fuel 0)))"

end
