(* ===== verification/Fpiarm_Io.thy ===== *)
theory Fpiarm_Io
  imports Fpiarm
begin

text \<open>
  Correctness of the emulator: the flags a comparison leaves decide every condition as the comparison
  came out, \<open>frnd\<close> clears exactly the fraction of a number, and the loop runs the instructions one
  after the other.
\<close>

section \<open>Flags and conditions\<close>

text \<open>What the condition \<open>c\<close> says of a comparison that came out as \<open>i\<close>, or was unordered (\<open>w\<close>).\<close>

definition fp_rel :: "nat \<Rightarrow> bool \<Rightarrow> int \<Rightarrow> bool" where
  "fp_rel c w i =
     [\<not> w \<and> i = 0, w \<or> i \<noteq> 0, w \<or> i \<ge> 0, \<not> w \<and> i < 0, \<not> w \<and> i < 0, w \<or> i \<ge> 0, w, \<not> w,
      w \<or> i > 0, \<not> w \<and> i \<le> 0, \<not> w \<and> i \<ge> 0, w \<or> i < 0, \<not> w \<and> i > 0, w \<or> i \<le> 0, True, False] ! c"

lemma flags_masked:
  "(psr AND NOT F OR v) AND m = v AND m" if "m AND NOT F = 0" for psr :: u32
proof (rule bit_word_eqI)
  fix n
  assume "n < LENGTH(32)"
  have "\<not> bit (m AND NOT F) n" using that by simp
  then show "bit ((psr AND NOT F OR v) AND m) n = bit (v AND m) n" using \<open>n < LENGTH(32)\<close>
    by (auto simp: bit_simps)
qed

lemma flags_not_masked:
  "NOT (psr AND NOT F OR v) AND m = NOT v AND m" if "m AND NOT F = 0" for psr :: u32
proof (rule bit_word_eqI)
  fix n
  assume "n < LENGTH(32)"
  have "\<not> bit (m AND NOT F) n" using that by simp
  then show "bit (NOT (psr AND NOT F OR v) AND m) n = bit (NOT v AND m) n" using \<open>n < LENGTH(32)\<close>
    by (auto simp: bit_simps)
qed

lemma condok_flags: "condok (psr AND NOT (PsrN OR PsrC OR PsrZ OR PsrV) OR v) c = condok v c"
proof -
  have m: "PsrZ AND NOT (PsrN OR PsrC OR PsrZ OR PsrV) = 0" "PsrC AND NOT (PsrN OR PsrC OR PsrZ OR PsrV) = 0"
    "PsrN AND NOT (PsrN OR PsrC OR PsrZ OR PsrV) = 0" "PsrV AND NOT (PsrN OR PsrC OR PsrZ OR PsrV) = 0"
    "(PsrN OR PsrV) AND NOT (PsrN OR PsrC OR PsrZ OR PsrV) = 0"
    by simp_all
  show ?thesis unfolding condok_def by (simp only: m [THEN flags_masked] m [THEN flags_not_masked])
qed

lemma condok_fcmp:
  assumes "c < 16"
  shows "condok (fcmp k n m) c = fp_rel c (IsWeird m \<or> IsWeird n) (fo_cmp k n m)"
proof -
  have "c \<in> {0, 1, 2, 3, 4, 5, 6, 7, 8, 9, 10, 11, 12, 13, 14, 15}"
    unfolding insert_iff empty_iff using assms by presburger
  then show ?thesis
    by (elim insertE emptyE) (auto simp: condok_def fcmp_def fp_rel_def Let_def)
qed

section \<open>Running instructions\<close>

text \<open>A comparison of two registers, and a move between two registers on condition \<open>c\<close>.\<close>

definition is_cmf :: "u32 \<Rightarrow> nat \<Rightarrow> nat \<Rightarrow> bool" where
  "is_cmf op n m \<longleftrightarrow> is_fpop op \<and> opf op 25 7 = 7 \<and> opf op 12 0xF = 15 \<and> bit op 20 \<and> bit op 4 \<and> opf op 21 7 = 4 \<and>
     opf op 16 7 = n \<and> \<not> bit op 3 \<and> opf op 0 7 = m \<and> unat (drop_bit 28 op) = 14"

definition is_mvf :: "u32 \<Rightarrow> nat \<Rightarrow> nat \<Rightarrow> nat \<Rightarrow> bool" where
  "is_mvf op c d m \<longleftrightarrow> is_fpop op \<and> opf op 25 7 = 7 \<and> \<not> bit op 4 \<and> bit op 15 \<and> opf op 20 0xF = 0 \<and>
     opf op 12 7 = d \<and> \<not> bit op 3 \<and> opf op 0 7 = m \<and> unat (drop_bit 28 op) = c"

lemma and_7_less: "unat (x AND 7 :: u32) < 8"
proof -
  have "x AND 7 = take_bit 3 x" by (simp add: take_bit_eq_mask mask_numeral)
  moreover have "unat (take_bit 3 x) < 8" by (subst unsigned_take_bit_eq) (simp add: take_bit_eq_mod)
  ultimately show ?thesis by simp
qed

lemma opf_less: "opf op i 7 < 8"
  unfolding opf_def by (rule and_7_less)

lemma drop_28_less: "unat (drop_bit 28 (op :: u32)) < 16"
proof -
  have "unat op < 2 ^ 32" using unsigned_less [of op] by simp
  then show ?thesis by (subst unsigned_drop_bit_eq) (simp add: drop_bit_eq_div less_mult_imp_div_less take_bit_nat_eq_self)
qed

lemma condok_always: "condok cc 14"
  by (simp add: condok_def)

lemma fpemu_cmf: "is_cmf op n m \<Longrightarrow>
    fpemu k pc op s = (Inr (), set_flags (fcmp k (FR s n) (FR s m)) s)"
  by (auto simp: is_cmf_def fpemu_def fpemu_cmp_def fp_operand_def Let_def)

lemma fpemu_mvf: "is_mvf op c d m \<Longrightarrow> fpemu k pc op s = (Inr (), set_FR d (FR s m) s)"
  by (auto simp: is_mvf_def fpemu_def fpemu_arith_def fp_operand_def optab1_def fmov_def Let_def)

declare fpiarm_loop.simps [simp del]

text \<open>One instruction of the loop: it is emulated, or skipped when its condition does not hold.\<close>

lemma fpiarm_step:
  assumes "is_fpop (fo_instr k (ft_mem s) (ft_regs s ! REGPC))" and "op = fo_instr k (ft_mem s) (ft_regs s ! REGPC)"
    and "(if condok (ft_psr s) (unat (drop_bit 28 op)) then fpemu k (ft_regs s ! REGPC) op else kret ()) s = (Inr (), t)"
  shows "fpiarm_loop k higher (Suc fuel) n s =
    fpiarm_loop k higher fuel (n + 1)
      ((set_reg REGPC (ft_regs t ! REGPC + 4) t)\<lparr>ft_scheds := ft_scheds t + (if higher n then 1 else 0)\<rparr>)"
  using assms(1) assms(3) [unfolded assms(2)]
  by (simp add: fpiarm_loop.simps kthen_Inr set_reg_def)

lemma fpiarm_stop:
  "\<not> is_fpop (fo_instr k (ft_mem s) (ft_regs s ! REGPC)) \<Longrightarrow> fpiarm_loop k higher (Suc fuel) n s = (Inr n, s)"
  by (simp add: fpiarm_loop.simps)

lemma FR_simps [simp]:
  "FR (set_reg r v s) x = FR s x" "FR (set_flags f s) x = FR s x" "FR (s\<lparr>ft_scheds := q\<rparr>) x = FR s x"
  by (simp_all add: FR_def set_reg_def set_flags_def)

lemma st_simps [simp]:
  "ft_regs (set_reg r v s) = (ft_regs s)[r := v]" "ft_mem (set_reg r v s) = ft_mem s" "ft_psr (set_reg r v s) = ft_psr s"
  "ft_regs (set_flags f s) = ft_regs s" "ft_mem (set_flags f s) = ft_mem s"
  "ft_regs (set_FR x i s) = ft_regs s" "ft_mem (set_FR x i s) = ft_mem s"
  "fe_regs (ft_env (set_reg r v s)) = fe_regs (ft_env s)" "fe_regs (ft_env (set_flags f s)) = fe_regs (ft_env s)"
  by (simp_all add: set_reg_def set_flags_def set_FR_def)

lemma FR_set_FR: "length (fe_regs (ft_env s)) = 8 \<Longrightarrow> d < 8 \<Longrightarrow> x < 8 \<Longrightarrow>
    FR (set_FR d v s) x = (if x = d then v else FR s x)"
  by (simp add: FR_def set_FR_def nth_list_update)

text \<open>
  C34: Comparisons decide what follows them.  When the pc is at a comparison of \<open>F\<close>\<open>n\<close> with \<open>F\<close>\<open>m\<close>, a move of
  \<open>F\<close>\<open>m'\<close> to \<open>F\<close>\<open>d\<close> under condition \<open>c\<close>, and then no floating point instruction, the emulator runs two
  instructions, moves the pc past them, and the move happened if and only if the condition is true of
  the two numbers, unordered ones included; no other register changes.
\<close>

theorem fpiarm_compare_move:
  assumes st: "fe_state (ft_env s) = FPACTIVE" "ft_up s" "length (ft_regs s) = 16" "length (fe_regs (ft_env s)) = 8"
    and op1: "is_cmf (fo_instr k (ft_mem s) (ft_regs s ! 15)) n m"
    and op2: "is_mvf (fo_instr k (ft_mem s) (ft_regs s ! 15 + 4)) c d m'"
    and op3: "\<not> is_fpop (fo_instr k (ft_mem s) (ft_regs s ! 15 + 8))"
    and fuel: "fuel \<ge> 3"
  shows "\<exists>s'. fpiarm k higher fuel after s = (Inr 2, s') \<and> ft_regs s' ! 15 = ft_regs s ! 15 + 8 \<and>
    (\<forall>x<8. FR s' x =
       (if x = d \<and> fp_rel c (IsWeird (FR s m) \<or> IsWeird (FR s n)) (fo_cmp k (FR s n) (FR s m)) then FR s m' else FR s x))"
proof -
  define pc where "pc = ft_regs s ! 15"
  define op where "op = fo_instr k (ft_mem s) (pc + 4)"
  define s0 where "s0 = set_reg 13 after s"
  define s1 where "s1 = (set_reg REGPC (pc + 4) (set_flags (fcmp k (FR s n) (FR s m)) s0))\<lparr>ft_scheds := ft_scheds s + (if higher 0 then 1 else 0)\<rparr>"
  define ok where "ok \<longleftrightarrow> fp_rel c (IsWeird (FR s m) \<or> IsWeird (FR s n)) (fo_cmp k (FR s n) (FR s m))"
  define t where "t = (if ok then set_FR d (FR s m') s1 else s1)"
  define s2 where "s2 = (set_reg REGPC (pc + 8) t)\<lparr>ft_scheds := ft_scheds t + (if higher 1 then 1 else 0)\<rparr>"
  define f where "f = fuel - 3"
  have f: "fuel = Suc (Suc (Suc f))" using fuel by (simp add: f_def)
  have c: "c = unat (drop_bit 28 op)" "d < 8" using op2 by (auto simp: is_mvf_def op_def pc_def opf_less)
  have pc0: "ft_regs s0 ! REGPC = pc" "ft_mem s0 = ft_mem s" using st by (simp_all add: s0_def pc_def)
  have start: "fpiarm k higher fuel after s = fpiarm_loop k higher fuel 0 s0"
    using st by (simp add: fpiarm_def s0_def fp_start_def set_reg_def)
  define cmf where "cmf = fo_instr k (ft_mem s) pc"
  have cmf: "is_cmf cmf n m" "is_fpop cmf" "unat (drop_bit 28 cmf) = 14"
    using op1 by (simp_all add: cmf_def pc_def is_cmf_def)
  have fr0: "FR s0 x = FR s x" for x by (simp add: s0_def)
  have run1: "(if condok (ft_psr s0) (unat (drop_bit 28 cmf)) then fpemu k (ft_regs s0 ! REGPC) cmf else kret ()) s0 =
      (Inr (), set_flags (fcmp k (FR s n) (FR s m)) s0)"
    by (simp only: cmf(3) condok_always if_True fpemu_cmf [OF cmf(1)] fr0)
  have e1: "fpiarm_loop k higher fuel 0 s0 = fpiarm_loop k higher (Suc (Suc f)) 1 s1"
    unfolding f by (subst fpiarm_step [OF _ _ run1])
      (simp_all only: pc0 cmf_def [symmetric] cmf(2) s1_def st_simps One_nat_def add_0, simp add: set_flags_def s0_def set_reg_def)
  have pc1: "ft_regs s1 ! REGPC = pc + 4" "ft_mem s1 = ft_mem s" "FR s1 x = FR s x" for x
    using st by (simp_all add: s1_def s0_def)
  have psr: "ft_psr s1 = (ft_psr s0 AND NOT (PsrN OR PsrC OR PsrZ OR PsrV)) OR fcmp k (FR s n) (FR s m)"
    by (simp add: s1_def set_flags_def)
  have ok: "condok (ft_psr s1) c = ok"
    unfolding psr condok_flags ok_def c(1) by (rule condok_fcmp [OF drop_28_less])
  have e2: "fpiarm_loop k higher (Suc (Suc f)) 1 s1 = fpiarm_loop k higher (Suc f) 2 s2"
  proof -
    have ft: "ft_regs t ! REGPC = pc + 4" using pc1 by (simp add: t_def)
    have "(if condok (ft_psr s1) (unat (drop_bit 28 op)) then fpemu k (ft_regs s1 ! REGPC) op else kret ()) s1 = (Inr (), t)"
      unfolding c(1) [symmetric] ok t_def
      using fpemu_mvf [OF op2, of k "ft_regs s1 ! REGPC" s1] by (simp add: op_def pc_def pc1(3))
    moreover have "is_fpop (fo_instr k (ft_mem s1) (ft_regs s1 ! REGPC))"
      using op2 by (simp add: pc1 is_mvf_def pc_def)
    ultimately show ?thesis
      by (subst fpiarm_step [where op = op and t = t]) (simp_all add: pc1 op_def s2_def ft add.assoc numeral_2_eq_2)
  qed
  have len: "length (ft_regs t) = 16" "ft_mem t = ft_mem s" "length (fe_regs (ft_env s1)) = 8"
    using st by (simp_all add: t_def s1_def s0_def)
  have e3: "fpiarm_loop k higher (Suc f) 2 s2 = (Inr 2, s2)"
    by (rule fpiarm_stop) (use op3 len in \<open>simp add: s2_def pc_def\<close>)
  have fr: "FR s2 x = (if x = d \<and> ok then FR s m' else FR s x)" if "x < 8" for x
    using that c(2) len(3) by (simp add: s2_def t_def FR_set_FR pc1(3))
  have "ft_regs s2 ! 15 = pc + 8" using len by (simp add: s2_def)
  with start e1 e2 e3 fr show ?thesis unfolding ok_def pc_def by auto
qed

text \<open>Registers 0 to 7 hold the constants; the second instruction moves \<open>F3\<close> to \<open>F0\<close> on GT.\<close>

definition fps_sample :: "unit fpst" where
  "fps_sample = \<lparr>ft_regs = replicate 15 0 @ [0x1000], ft_psr = 0,
     ft_env = \<lparr>fe_status = 0, fe_control = 0, fe_state = FPACTIVE, fe_regs = fpconst\<rparr>, ft_mem = (), ft_up = True, ft_scheds = 0\<rparr>"

definition fpops_sample :: "unit fpops" where
  "fpops_sample = \<lparr>fo_add = (\<lambda>x y. x), fo_sub = (\<lambda>x y. x), fo_mul = (\<lambda>x y. x), fo_div = (\<lambda>x y. x), fo_round = (\<lambda>x. x),
     fo_cmp = (\<lambda>x y. i_e x - i_e y), fo_s2i = (\<lambda>_ _. fpconst ! 0), fo_d2i = (\<lambda>_ _. fpconst ! 0),
     fo_i2s = (\<lambda>_ _ m. m), fo_i2d = (\<lambda>_ _ m. m), fo_w2i = (\<lambda>_. fpconst ! 0), fo_i2w = (\<lambda>_. 0),
     fo_instr = (\<lambda>_ a. if a = 0x1000 then 0xEE92F111 else if a = 0x1004 then 0xCE008103 else 0)\<rparr>"

lemma fpops_sample_instrs:
  "is_cmf 0xEE92F111 2 1" "is_mvf 0xCE008103 12 0 3" "\<not> is_fpop 0"
  by (simp_all add: is_cmf_def is_mvf_def is_fpop_def opf_def bit_numeral_rec)

theorem fpiarm_compare_move_witness:
  "\<exists>s'. fpiarm fpops_sample (\<lambda>_. False) 3 0x2000 fps_sample = (Inr 2, s') \<and> ft_regs s' ! 15 = 0x1008 \<and> FR s' 0 = fpconst ! 3"
proof -
  have "FR fps_sample x = fpconst ! x" if "x < 8" for x using that by (simp add: FR_def fps_sample_def)
  moreover have "fe_state (ft_env fps_sample) = FPACTIVE" "ft_up fps_sample" "length (ft_regs fps_sample) = 16"
    "length (fe_regs (ft_env fps_sample)) = 8" "ft_regs fps_sample ! 15 = 0x1000" "ft_mem fps_sample = ()"
    by (simp_all add: fps_sample_def fpconst_def nth_append)
  ultimately show ?thesis
    using fpiarm_compare_move [where s = fps_sample and k = fpops_sample and n = 2 and m = 1 and c = 12 and d = 0 and m' = 3
        and fuel = 3 and higher = "\<lambda>_. False" and after = "0x2000"] fpops_sample_instrs
    by (auto simp: fpops_sample_def fp_rel_def IsWeird_def fpconst_def)
qed

section \<open>Rounding to an integer\<close>

text \<open>The fraction of a number, as an integer of 56 bits.\<close>

definition mant :: "internal \<Rightarrow> nat" where
  "mant d = unat (i_h d) * 2 ^ 28 + unat (i_l d)"

lemma mant_mod_low: "j \<le> 28 \<Longrightarrow> (h * 2 ^ 28 + l) mod 2 ^ j = l mod 2 ^ j" for h l :: nat
proof -
  assume "j \<le> 28"
  then have "h * 2 ^ 28 = h * 2 ^ (28 - j) * 2 ^ j" by (simp flip: power_add)
  then show ?thesis by (metis mod_mult_self3)
qed

lemma mant_mod_high: "l < 2 ^ 28 \<Longrightarrow> (h * 2 ^ 28 + l) mod 2 ^ (28 + j) = h mod 2 ^ j * 2 ^ 28 + l" for h l :: nat
  by (simp add: power_add mod_mult2_eq)

lemma clear_low:
  fixes x :: u32
  assumes "j < 32"
  shows "unat (x AND NOT (push_bit j 1 - 1)) = unat x - unat x mod 2 ^ j"
proof -
  have m: "push_bit j 1 - 1 = (mask j :: u32)" by (simp add: mask_eq_exp_minus_1)
  have t: "unat (take_bit j x) = unat x mod 2 ^ j" by (subst unsigned_take_bit_eq) (simp add: take_bit_eq_mod)
  have "x AND NOT (mask j) = push_bit j (drop_bit j x)"
    by (rule bit_word_eqI) (auto simp: bit_simps)
  then have "x AND NOT (mask j) = x - take_bit j x"
    using bits_ident [of j x] by (metis add_diff_cancel_right')
  moreover have "unat (x - take_bit j x) = unat x - unat (take_bit j x)"
    by (rule unat_sub) (simp add: word_le_nat_alt t)
  ultimately show ?thesis using m t by simp
qed

text \<open>
  Rounding to an integer clears exactly the fraction.  With the sum of the operand and one half, as
  \<open>fpiround\<close> leaves it, an exponent that gives it \<open>e\<close> bits before the point makes \<open>frnd\<close> zero for \<open>e\<close>
  below one, leaves it alone from 56, and otherwise clears the lowest \<open>56 - e\<close> of its 56 bits.
\<close>

lemma frnd_integer:
  assumes "d = (if i_s m \<noteq> 0 then fsub k else fadd k) (fpconst ! 6) m" "\<not> IsWeird d"
    and "d' = fo_round k d" "e = i_e d' - 1022" "\<bar>e\<bar> < 32768" "unat (i_h d') < 2 ^ 28" "unat (i_l d') < 2 ^ 28"
  shows "i_s (frnd k m) = i_s d' \<and>
    (if e \<le> 0 then mant (frnd k m) = 0 \<and> i_e (frnd k m) = 1
     else i_e (frnd k m) = i_e d' \<and>
       mant (frnd k m) = (if e < 56 then mant d' - mant d' mod 2 ^ nat (56 - e) else mant d'))"
proof -
  have e: "signed_take_bit 15 (i_e d' - 1022) = e"
    using assms(4,5) by (simp add: signed_take_bit_int_eq_self)
  have f: "frnd k m = frnd_clear d'" unfolding frnd_def Let_def using assms(1-3) by simp
  consider "e \<le> 0" | "0 < e" "e \<le> 28" | "28 < e" "e < 56" | "56 \<le> e" by linarith
  then show ?thesis
  proof cases
    case 2
    define j where "j = nat (28 - e)"
    have j: "j < 28" "nat (56 - e) = 28 + j" using 2 by (auto simp: j_def)
    have "unat (i_h (frnd k m)) = unat (i_h d') - unat (i_h d') mod 2 ^ j" "i_l (frnd k m) = 0" "i_s (frnd k m) = i_s d'"
      "i_e (frnd k m) = i_e d'"
      using 2 clear_low [of j] j by (auto simp: f frnd_clear_def e Let_def j_def)
    moreover have "mant d' mod 2 ^ (28 + j) = unat (i_h d') mod 2 ^ j * 2 ^ 28 + unat (i_l d')"
      unfolding mant_def by (rule mant_mod_high) (rule assms(7))
    ultimately show ?thesis using 2 unfolding j(2) by (simp add: mant_def diff_mult_distrib)
  next
    case 3
    define j where "j = nat (56 - e)"
    have j: "j < 28" using 3 by (auto simp: j_def)
    have "unat (i_l (frnd k m)) = unat (i_l d') - unat (i_l d') mod 2 ^ j" "i_h (frnd k m) = i_h d'" "i_s (frnd k m) = i_s d'"
      "i_e (frnd k m) = i_e d'"
      using 3 clear_low [of j] j by (auto simp: f frnd_clear_def e Let_def j_def)
    moreover have "mant d' mod 2 ^ j = unat (i_l d') mod 2 ^ j"
      unfolding mant_def by (rule mant_mod_low) (use j in simp)
    ultimately show ?thesis using 3 unfolding j_def [symmetric] by (simp add: mant_def)
  qed (simp_all add: f frnd_clear_def e SetZero_def mant_def)
qed

text \<open>2.5 becomes 3: the sum is 3.0, with a fraction of 56 bits of which two are before the point.\<close>

lemma frnd_integer_witness:
  "mant (frnd (fpops_sample\<lparr>fo_add := (\<lambda>x y. y\<lparr>i_h := i_h y + push_bit 25 1\<rparr>)\<rparr>)
     \<lparr>i_s = 0, i_e = 1024, i_l = 1, i_h = 0x0A000000\<rparr>) = 3 * 2 ^ 54"
proof -
  let ?k = "fpops_sample\<lparr>fo_add := (\<lambda>x y. y\<lparr>i_h := i_h y + push_bit 25 1\<rparr>)\<rparr>"
  let ?m = "\<lparr>i_s = 0, i_e = 1024, i_l = 1, i_h = 0x0A000000\<rparr>"
  let ?d = "\<lparr>i_s = 0, i_e = 1024, i_l = 1, i_h = 0x0C000000\<rparr>"
  have "?d = (if i_s ?m \<noteq> 0 then fsub ?k else fadd ?k) (fpconst ! 6) ?m" "\<not> IsWeird ?d" "?d = fo_round ?k ?d"
    by (simp_all add: fadd_def fpconst_def IsWeird_def fpops_sample_def)
  from frnd_integer [OF this, of 2] show ?thesis by (simp add: mant_def)
qed

end
