(* ===== verification/Boot.thy ===== *)
theory Boot
  imports Kw_Libc
begin

text \<open>
  \<open>main.c\<close> and \<open>archkirkwood.c\<close>: the parameters the boot loader leaves in memory, the page table and the
  control registers, the sizes computed from the memory, and the reset and reboot of the machine.  \<open>main\<close> itself
  is in \<open>Boot_Main\<close>.
  Memory is a function from addresses to bytes.  The walk over the parameters follows lengths it
  finds in memory and need not end, so it takes fuel; \<open>None\<close> is no result yet.
  The code copies names and values with \<open>strdup\<close> and does not look whether that failed; here it succeeds.
\<close>

section \<open>Configuration\<close>

abbreviation MAXCONF :: nat where "MAXCONF \<equiv> 32"

type_synonym conf = "(string \<times> string option) list"

definition addconf :: "string \<times> string option \<Rightarrow> conf \<Rightarrow> conf" where
  "addconf kv cs = (if length cs \<ge> MAXCONF then cs else cs @ [kv])"

definition getconf :: "conf \<Rightarrow> string \<Rightarrow> string option" where
  "getconf cs name = (case find (\<lambda>(k, v). cistrcmp_eq k name) cs of None \<Rightarrow> None | Some (k, v) \<Rightarrow> v)"

section \<open>Parameters of the boot loader\<close>

abbreviation Atagcore :: u32 where "Atagcore \<equiv> 0x54410001"
abbreviation Atagcmdline :: u32 where "Atagcmdline \<equiv> 0x54410009"
abbreviation Atagnone :: u32 where "Atagnone \<equiv> 0"
abbreviation Atagmax :: u32 where "Atagmax \<equiv> 4096"

type_synonym memory = "u32 \<Rightarrow> u8"

definition ulong_at :: "memory \<Rightarrow> u32 \<Rightarrow> u32" where
  "ulong_at m a = be32 (m (a + 3)) (m (a + 2)) (m (a + 1)) (m a)"

text \<open>\<open>v = strchr(k, c); *v++ = 0;\<close> what is before the character and what is after it.\<close>

definition split_at :: "char \<Rightarrow> string \<Rightarrow> (string \<times> string) option" where
  "split_at c k = (if c \<in> set k then Some (takeWhile (\<lambda>x. x \<noteq> c) k, tl (dropWhile (\<lambda>x. x \<noteq> c) k)) else None)"

lemma split_at_shorter:
  assumes "split_at c k = Some (a, b)"
  shows "length b < length k"
proof -
  from assms have c: "c \<in> set k" and b: "b = tl (dropWhile (\<lambda>x. x \<noteq> c) k)"
    by (simp_all add: split_at_def split: if_splits)
  have "dropWhile (\<lambda>x. x \<noteq> c) k \<noteq> []" using c by (simp add: dropWhile_eq_Nil_conv)
  then have "length b < length (dropWhile (\<lambda>x. x \<noteq> c) k)" by (simp add: b)
  also have "\<dots> \<le> length k" by (rule length_dropWhile_le)
  finally show ?thesis .
qed

function parse_cmdline :: "string \<Rightarrow> conf \<Rightarrow> conf" where
  "parse_cmdline k cs =
     (if k = [] then cs
      else
        case split_at CHR ''='' k of
          None \<Rightarrow> addconf (k, None) cs
        | Some (n, v) \<Rightarrow>
            (case split_at CHR '' '' v of
               None \<Rightarrow> addconf (n, Some v) cs
             | Some (v', next) \<Rightarrow> parse_cmdline next (addconf (n, Some v') cs)))"
  by pat_completeness auto
termination by (relation "measure (\<lambda>(k, cs). length k)") (auto dest!: split_at_shorter)

declare parse_cmdline.simps [simp del]

text \<open>The string at an address, and the address after the tag that begins the parameters.\<close>

primrec str_at :: "memory \<Rightarrow> nat \<Rightarrow> u32 \<Rightarrow> string option" where
  "str_at m 0 a = None"
| "str_at m (Suc fuel) a = (if m a = 0 then Some [] else map_option (Cons (chr_of (m a))) (str_at m fuel (a + 1)))"

function atag_core :: "memory \<Rightarrow> nat \<Rightarrow> u32 option" where
  "atag_core m i =
     (if i + 1 \<ge> unat Atagmax then None
      else
        let p = 0x100 + 4 * of_nat i in
        if ulong_at m (p + 4) = Atagcore then Some (p + 4 * ulong_at m p) else atag_core m (i + 1))"
  by pat_completeness auto
termination by (relation "measure (\<lambda>(m, i). unat Atagmax - i)") auto

declare atag_core.simps [simp del]

primrec atags :: "memory \<Rightarrow> nat \<Rightarrow> u32 \<Rightarrow> conf \<Rightarrow> conf option" where
  "atags m 0 p cs = None"
| "atags m (Suc fuel) p cs =
     (if \<not> p < 0x100 + 4 * Atagmax then Some cs
      else
        let size = ulong_at m p; tag = ulong_at m (p + 4) in
        if tag = Atagnone then Some cs
        else if tag = Atagcmdline then map_option (\<lambda>k. parse_cmdline k cs) (str_at m fuel (p + 8))
        else atags m fuel (p + 8 + 4 * (size - 2)) cs)"

definition options :: "memory \<Rightarrow> nat \<Rightarrow> conf \<Rightarrow> conf option" where
  "options m fuel cs = (case atag_core m 0 of None \<Rightarrow> Some cs | Some p \<Rightarrow> atags m fuel p cs)"

section \<open>The page table and the control registers\<close>

abbreviation Regbase :: u32 where "Regbase \<equiv> 0xf1000000"
abbreviation AddrPhyNand :: u32 where "AddrPhyNand \<equiv> 0xf9000000"
definition AP :: u32 where "AP = push_bit 10 3"
definition Cacheable :: u32 where "Cacheable = push_bit 3 1"
definition Bufferable :: u32 where "Bufferable = push_bit 2 1"
definition Sectiondescr :: u32 where "Sectiondescr = push_bit 4 1 OR 2"
definition Icacheena :: u32 where "Icacheena = push_bit 12 1"
definition Dcacheena :: u32 where "Dcacheena = push_bit 2 1"
definition Alignfault :: u32 where "Alignfault = push_bit 1 1"
definition MMUena :: u32 where "MMUena = 1"
definition ML2noprefetch :: u32 where "ML2noprefetch = push_bit 24 1"
definition ML2enable :: u32 where "ML2enable = push_bit 22 1"
definition L2ecc :: u32 where "L2ecc = push_bit 2 1"
definition L2exists :: u32 where "L2exists = push_bit 3 1"
definition L2wtmode :: u32 where "L2wtmode = push_bit 4 1"
definition Manager :: u32 where "Manager = 3"

definition mmu_table :: "u32 list" where
  "mmu_table =
     (let p = replicate 4096 0;
          p = fold (\<lambda>i p. p[i := push_bit 20 (of_nat i) OR AP OR Cacheable OR Bufferable OR Sectiondescr]) [0..<512] p;
          p = p[unat (drop_bit 20 Regbase) := (Regbase AND NOT (mask 20)) OR AP OR Sectiondescr]
      in p[unat (drop_bit 20 AddrPhyNand) := (AddrPhyNand AND NOT (mask 20)) OR AP OR Sectiondescr])"

text \<open>Coprocessor 15 and the configuration of the second level cache; \<open>cp_flushed\<close> counts the invalidations.\<close>

record cp15 =
  cp_ttb :: u32
  cp_dac :: u32
  cp_pid :: u32
  cp_ctl :: u32
  cp_mvfeat :: u32
  cp_ilock :: u32
  cp_dlock :: u32
  cp_l2cfg :: u32
  cp_flushed :: nat

text \<open>\<open>p\<close> is the address of the table, \<open>None\<close> without memory for it.\<close>

definition mmuinit :: "u32 option \<Rightarrow> (cp15, u32 list) kact" where
  "mmuinit p =
     (case p of
        None \<Rightarrow> kraise (Panic ''no memory for mmu'')
      | Some p \<Rightarrow>
          kthen (kmod (\<lambda>c. c\<lparr>cp_ttb := p, cp_dac := Manager, cp_pid := 0, cp_flushed := cp_flushed c + 3,
             cp_dlock := push_bit 4 0xFFF\<rparr>))
          (kthen (kmod (\<lambda>c. c\<lparr>cp_ctl := cp_ctl c AND NOT (Icacheena OR Dcacheena)\<rparr>))
          (kthen (kmod (\<lambda>c. c\<lparr>cp_l2cfg := cp_l2cfg c OR (L2exists OR L2wtmode)\<rparr>))
          (kthen (kmod (\<lambda>c. c\<lparr>cp_mvfeat := cp_mvfeat c OR ML2noprefetch OR ML2enable\<rparr>))
          (kthen (kmod (\<lambda>c. c\<lparr>cp_ctl := cp_ctl c OR MMUena OR Icacheena OR Dcacheena OR Alignfault\<rparr>))
          (kret mmu_table))))))"

text \<open>The first steps of \<open>main\<close>: the second level cache off, the first level instruction cache on.\<close>

definition main_cache :: "cp15 \<Rightarrow> cp15" where
  "main_cache c =
     (let c = c\<lparr>cp_l2cfg := cp_l2cfg c AND NOT L2exists, cp_ilock := push_bit 4 0xFFF, cp_flushed := cp_flushed c + 1\<rparr>
      in c\<lparr>cp_ctl := cp_ctl c OR Icacheena\<rparr>)"

definition onoff :: "u32 \<Rightarrow> string" where
  "onoff v = (if v \<noteq> 0 then ''on'' else ''off'')"

definition l2print :: "u32 \<Rightarrow> string" where
  "l2print v = ''l2: '' @ (if v AND L2exists \<noteq> 0 then ''on'' else ''off'') @ '', ecc '' @
     (if v AND L2ecc \<noteq> 0 then ''on'' else ''off'') @ '', mode '' @
     (if v AND L2wtmode \<noteq> 0 then ''writethrough'' else ''writeback'') @ [CHR 0x0A]"

text \<open>A size field of 0 makes the compiler's shift count -1, for which the processor shifts by 255.\<close>

definition cacheprint0 :: "string \<Rightarrow> u32 \<Rightarrow> u32 \<Rightarrow> string" where
  "cacheprint0 s on v =
     (let len = v AND mask 2; m = drop_bit 2 v AND mask 1; assoc = drop_bit 3 v AND mask 3; sz = drop_bit 6 v AND mask 4 in
      if m = 0 then
        s @ '' '' @ onoff on @ '', '' @ sdec (if sz = 0 then 0 else 2 ^ (unat sz - 1)) @ ''kb, '' @
        (if assoc = 2 then ''4-way'' else ''unknown'') @ '' associative, '' @
        (if len = 2 then ''32 byte'' else ''unknown sized'') @ '' lines'' @ [CHR 0x0A]
      else s @ '' absent'' @ [CHR 0x0A])"

definition cacheprint :: "u32 \<Rightarrow> u32 \<Rightarrow> string" where
  "cacheprint cache cpctl =
     cacheprint0 ''icache'' (cpctl AND Icacheena) (cache AND mask 12) @
     cacheprint0 ''dcache'' (cpctl AND Dcacheena) (drop_bit 12 cache AND mask 12)"

section \<open>Sizes\<close>

record confsizes =
  co_nmach :: u32
  co_nproc :: u32
  co_npage0 :: u32
  co_npage1 :: u32
  co_topofmem :: u32
  co_npage :: u32
  co_base0 :: u32
  co_base1 :: u32
  co_ialloc :: u32
  co_devidstr :: string

record mach =
  ma_cpuhz :: u32
  ma_delayloop :: u32

definition devidstr :: "u32 \<Rightarrow> string" where
  "devidstr v =
     (if v = 0 then ''88F6180-Z0'' else if v = 1 then ''88F619[02]'' else if v = 2 then ''88F6281-A0''
      else if v = 3 then ''88F6281-A1'' else ''unknown'')"

definition archconfinit :: "u32 \<Rightarrow> confsizes \<times> mach \<Rightarrow> confsizes \<times> mach" where
  "archconfinit devid = (\<lambda>(c, m).
     (c\<lparr>co_topofmem := 512 * 1024 * 1024, co_devidstr := devidstr devid\<rparr>,
      m\<lparr>ma_cpuhz := 1200000000, ma_delayloop := 1200000000 div 6000\<rparr>))"

definition PGROUND :: "u32 \<Rightarrow> u32" where "PGROUND v = (v + 4095) AND NOT 4095"

text \<open>\<open>end\<close> is the address after the kernel, \<open>pcnt\<close> the share of the main pool.\<close>

definition confinit :: "u32 \<Rightarrow> u32 \<Rightarrow> u32 \<Rightarrow> confsizes \<times> mach \<Rightarrow> confsizes \<times> mach" where
  "confinit end devid pcnt cm =
     (let (c, m) = archconfinit devid cm;
          base = PGROUND end;
          npage = (co_topofmem c - base) div 4096 in
      (c\<lparr>co_base0 := base, co_npage0 := npage, co_base1 := 0, co_npage1 := 0, co_npage := npage + 0,
         co_ialloc := (npage * pcnt) div 100 div 2 * 4096,
         co_nproc := 100 + (npage * 4096) div 1048576 * 5, co_nmach := 1\<rparr>, m))"

text \<open>The limits of the pools: the product with the share is 64 bits wide, the limit an \<open>int\<close>.\<close>

definition pool_limit :: "u32 \<Rightarrow> u32 \<Rightarrow> int" where
  "pool_limit npage pcnt = i32 (uint ((ucast (npage * 4096) :: u64) * ucast pcnt div 100))"

definition poolsizeinit :: "u32 \<Rightarrow> u32 \<times> u32 \<times> u32 \<Rightarrow> (string \<times> int \<times> bool) list" where
  "poolsizeinit npage = (\<lambda>(main, heap, image).
     [(''main'', pool_limit npage main, False), (''heap'', pool_limit npage heap, False), (''image'', pool_limit npage image, True)])"

section \<open>The machine\<close>

definition Intrblock :: u32 where "Intrblock = push_bit 28 1"
definition Powersave :: u32 where "Powersave = push_bit 11 1"
definition Powerhalf :: u32 where "Powerhalf = push_bit 12 1"
definition RstoutWatchdog :: u32 where "RstoutWatchdog = push_bit 1 1"
definition RstoutSoft :: u32 where "RstoutSoft = push_bit 2 1"
definition ResetSystem :: u32 where "ResetSystem = 1"
definition TmrWDenable :: u32 where "TmrWDenable = push_bit 4 1"

record cpucsreg =
  cr_cpucsr :: u32
  cr_clockgate :: u32
  cr_rstout :: u32
  cr_softreset :: u32
  cr_wdctl :: u32        \<comment> \<open>\<open>TIMERREG->ctl\<close>\<close>
  cr_timerwd :: u32
  cr_ifccfg :: u32       \<comment> \<open>\<open>SATA0REG->ifc.ifccfg\<close>\<close>

definition archcpufreq :: "bool \<Rightarrow> cpucsreg \<Rightarrow> cpucsreg" where
  "archcpufreq low r =
     (let r = r\<lparr>cr_cpucsr := cr_cpucsr r OR Intrblock\<rparr>;
          r = (if low then r\<lparr>cr_clockgate := cr_clockgate r OR Powersave OR Powerhalf\<rparr>
               else r\<lparr>cr_clockgate := cr_clockgate r AND NOT (Powersave OR Powerhalf)\<rparr>)
      in r\<lparr>cr_cpucsr := cr_cpucsr r AND NOT Intrblock\<rparr>)"

definition archreset :: "cpucsreg \<Rightarrow> cpucsreg" where
  "archreset r = r\<lparr>cr_wdctl := cr_wdctl r AND NOT TmrWDenable, cr_ifccfg := cr_ifccfg r OR push_bit 9 1\<rparr>"

text \<open>The processor waits for the reset it asked for.\<close>

definition archreboot :: "(cpucsreg, 'a) kact" where
  "archreboot = kthen (kmod (\<lambda>r. r\<lparr>cr_rstout := RstoutSoft, cr_softreset := ResetSystem\<rparr>)) (kraise Blocked)"

definition kexit :: "bool \<Rightarrow> bool \<Rightarrow> (cpucsreg, 'a) kact" where
  "kexit inpanic panicreset = (if inpanic \<and> \<not> panicreset then kraise Blocked else archreboot)"

definition reboot :: "bool \<Rightarrow> (cpucsreg, 'a) kact" where
  "reboot panicreset = kexit False panicreset"

record flash =
  fl_type :: string
  fl_addr :: u32
  fl_size :: nat
  fl_width :: nat
  fl_interleave :: nat

definition archflashreset :: "int \<Rightarrow> flash \<Rightarrow> int \<times> flash" where
  "archflashreset bank f =
     (if bank \<noteq> 0 then (- 1, f)
      else (0, f\<lparr>fl_type := ''nand'', fl_addr := AddrPhyNand, fl_size := 0, fl_width := 1, fl_interleave := 0\<rparr>))"

text \<open>The label a new process starts from: \<open>linkproc\<close> or \<open>init0\<close>, near the end of its stack.\<close>

record 'f kproc =
  kp_pc :: 'f
  kp_sp :: u32
  kp_func :: 'f
  kp_arg :: u32

definition kprocchild :: "'f \<Rightarrow> u32 \<Rightarrow> 'f \<Rightarrow> u32 \<Rightarrow> 'f kproc \<Rightarrow> 'f kproc" where
  "kprocchild linkproc kstack func arg p =
     p\<lparr>kp_pc := linkproc, kp_sp := kstack + 8192 - 8, kp_func := func, kp_arg := arg\<rparr>"

end
