(* ===== verification/Boot_Io.thy ===== *)
theory Boot_Io
  imports Boot
begin

text \<open>
  Correctness of the boot code: the command line of the boot loader becomes the configuration it
  spells, and the page table maps memory and devices where they are and nothing else.
\<close>

section \<open>Reading memory\<close>

text \<open>A string with its NUL at an address, and tags of the given sizes from one address to another.\<close>

primrec cstr_at :: "memory \<Rightarrow> u32 \<Rightarrow> string \<Rightarrow> bool" where
  "cstr_at m a [] \<longleftrightarrow> m a = 0"
| "cstr_at m a (c # s) \<longleftrightarrow> m a = byte_of c \<and> byte_of c \<noteq> 0 \<and> cstr_at m (a + 1) s"

primrec tags_at :: "memory \<Rightarrow> u32 \<Rightarrow> (u32 \<times> u32) list \<Rightarrow> u32 \<Rightarrow> bool" where
  "tags_at m p [] q \<longleftrightarrow> p = q"
| "tags_at m p (t # ts) q \<longleftrightarrow> p < 0x100 + 4 * Atagmax \<and> ulong_at m p = fst t \<and> ulong_at m (p + 4) = snd t \<and>
     snd t \<noteq> Atagnone \<and> snd t \<noteq> Atagcmdline \<and> tags_at m (p + 4 * fst t) ts q"

lemma str_at_cstr: "cstr_at m a s \<Longrightarrow> length s < fuel \<Longrightarrow> str_at m fuel a = Some s"
  by (induction s arbitrary: a fuel) (auto simp: gr0_conv_Suc less_Suc_eq_0_disj Suc_less_eq2)

lemma atags_tags:
  "tags_at m p ts q \<Longrightarrow> atags m (length ts + fuel) p cs = atags m fuel q cs"
proof (induction ts arbitrary: p)
  case (Cons t ts)
  then have "atags m (length ts + fuel) (p + 4 * fst t) cs = atags m fuel q cs" by simp
  moreover have "p + 8 + 4 * (fst t - 2) = p + 4 * fst t" by (simp add: algebra_simps)
  ultimately show ?case using Cons.prems by simp
qed simp

lemma atag_core_first: "ulong_at m 0x104 = Atagcore \<Longrightarrow> atag_core m 0 = Some (0x100 + 4 * ulong_at m 0x100)"
  by (simp add: atag_core.simps)

section \<open>The command line\<close>

definition show_conf :: "string \<times> string \<Rightarrow> string" where
  "show_conf kv = fst kv @ CHR ''='' # snd kv"

fun show_cmdline :: "(string \<times> string) list \<Rightarrow> string" where
  "show_cmdline [] = []"
| "show_cmdline [kv] = show_conf kv"
| "show_cmdline (kv # kvs) = show_conf kv @ CHR '' '' # show_cmdline kvs"

lemma split_at_append: "c \<notin> set a \<Longrightarrow> split_at c (a @ c # b) = Some (a, b)"
  unfolding split_at_def by (induction a) auto

lemma split_at_none: "c \<notin> set a \<Longrightarrow> split_at c a = None"
  by (simp add: split_at_def)

definition kv_ok :: "string \<times> string \<Rightarrow> bool" where
  "kv_ok kv \<longleftrightarrow> CHR ''='' \<notin> set (fst kv) \<and> CHR '' '' \<notin> set (snd kv)"

lemma fold_addconf:
  "length cs \<le> MAXCONF \<Longrightarrow> fold (\<lambda>(k, v). addconf (k, Some v)) kvs cs = take MAXCONF (cs @ map (\<lambda>(k, v). (k, Some v)) kvs)"
proof (induction kvs arbitrary: cs)
  case (Cons kv kvs)
  then show ?case
    by (cases kv; cases "length cs = MAXCONF") (auto simp: addconf_def take_Cons')
qed simp

lemma parse_show:
  "\<forall>kv\<in>set kvs. kv_ok kv \<Longrightarrow> parse_cmdline (show_cmdline kvs) cs = fold (\<lambda>(k, v). addconf (k, Some v)) kvs cs"
proof (induction kvs arbitrary: cs rule: show_cmdline.induct)
  case 1
  then show ?case by (simp add: parse_cmdline.simps)
next
  case (2 kv)
  then show ?case
    by (subst parse_cmdline.simps) (auto simp: show_conf_def kv_ok_def split_at_append split_at_none split: prod.splits)
next
  case (3 kv kv' kvs)
  have "split_at CHR ''='' (show_cmdline (kv # kv' # kvs)) = Some (fst kv, snd kv @ CHR '' '' # show_cmdline (kv' # kvs))"
    using 3 by (simp add: show_conf_def kv_ok_def split_at_append)
  moreover have "split_at CHR '' '' (snd kv @ CHR '' '' # show_cmdline (kv' # kvs)) = Some (snd kv, show_cmdline (kv' # kvs))"
    using 3 by (simp add: kv_ok_def split_at_append)
  moreover have "show_cmdline (kv # kv' # kvs) \<noteq> []" by (simp add: show_conf_def)
  moreover have "parse_cmdline (show_cmdline (kv' # kvs)) (addconf (fst kv, Some (snd kv)) cs) =
      fold (\<lambda>(k, v). addconf (k, Some v)) (kv' # kvs) (addconf (fst kv, Some (snd kv)) cs)"
    using 3 by (intro 3) simp
  ultimately show ?case
    by (subst parse_cmdline.simps) (simp add: split_beta)
qed

lemma cistrcmp_eq_iff: "cistrcmp_eq a b \<longleftrightarrow> map to_lower a = map to_lower b"
  by (simp add: cistrcmp_eq_def)

lemma getconf_distinct:
  "distinct (map (\<lambda>kv. map to_lower (fst kv)) kvs) \<Longrightarrow> (k, v) \<in> set kvs \<Longrightarrow>
    getconf (map (\<lambda>(k, v). (k, Some v)) kvs) k = Some v"
proof (induction kvs)
  case (Cons kv kvs)
  show ?case
  proof (cases "kv = (k, v)")
    case True
    then show ?thesis by (simp add: getconf_def cistrcmp_eq_iff)
  next
    case False
    with Cons.prems have kv: "(k, v) \<in> set kvs" by auto
    then have "map to_lower k \<in> (\<lambda>kv. map to_lower (fst kv)) ` set kvs" by force
    moreover have "map to_lower (fst kv) \<notin> (\<lambda>kv. map to_lower (fst kv)) ` set kvs" using Cons.prems(1) by simp
    ultimately have "map to_lower (fst kv) \<noteq> map to_lower k" by metis
    with Cons.IH Cons.prems kv show ?thesis by (cases kv) (simp add: getconf_def cistrcmp_eq_iff)
  qed
qed simp

lemma parsed_conf:
  assumes core: "ulong_at m 0x104 = Atagcore"
    and tags: "tags_at m (0x100 + 4 * ulong_at m 0x100) ts q"
    and q: "q < 0x100 + 4 * Atagmax" "ulong_at m (q + 4) = Atagcmdline"
    and line: "cstr_at m (q + 8) (show_cmdline kvs)" "\<forall>kv\<in>set kvs. kv_ok kv"
    and fuel: "fuel > length ts + length (show_cmdline kvs) + 1"
  shows "options m fuel [] = Some (take MAXCONF (map (\<lambda>(k, v). (k, Some v)) kvs))"
proof -
  define f where "f = fuel - length ts - 1"
  have f: "fuel = length ts + Suc f" "length (show_cmdline kvs) < f" using fuel by (auto simp: f_def)
  have "options m fuel [] = atags m (Suc f) q []"
    unfolding options_def atag_core_first [OF core] option.case f(1) by (rule atags_tags [OF tags])
  also have "\<dots> = Some (parse_cmdline (show_cmdline kvs) [])"
    using q str_at_cstr [OF line(1) f(2)] by simp
  also have "\<dots> = Some (take MAXCONF (map (\<lambda>(k, v). (k, Some v)) kvs))"
    using fold_addconf [of "[]" kvs] by (simp add: parse_show [OF line(2)])
  finally show ?thesis .
qed

text \<open>
  C35: The command line becomes the configuration.  When memory holds the core tag, any tags that are
  neither the last nor the command line, and then the command line tag with the text
  \<open>k1=v1 k2=v2 \<dots>\<close>, \<open>options\<close> returns, having stored the first 32 pairs in order; and when
  there are no more and no name comes twice (whatever the case of its letters), \<open>getconf\<close> finds the
  value of each.
\<close>

theorem options_cmdline:
  assumes core: "ulong_at m 0x104 = Atagcore"
    and tags: "tags_at m (0x100 + 4 * ulong_at m 0x100) ts q"
    and q: "q < 0x100 + 4 * Atagmax" "ulong_at m (q + 4) = Atagcmdline"
    and line: "cstr_at m (q + 8) (show_cmdline kvs)" "\<forall>kv\<in>set kvs. kv_ok kv"
    and fuel: "fuel > length ts + length (show_cmdline kvs) + 1"
  shows "options m fuel [] = Some (take MAXCONF (map (\<lambda>(k, v). (k, Some v)) kvs)) \<and>
    (length kvs \<le> MAXCONF \<and> distinct (map (\<lambda>kv. map to_lower (fst kv)) kvs) \<longrightarrow>
      (\<forall>(k, v)\<in>set kvs. getconf (the (options m fuel [])) k = Some v))"
proof -
  have o: "options m fuel [] = Some (take MAXCONF (map (\<lambda>(k, v). (k, Some v)) kvs))"
    by (rule parsed_conf [OF assms])
  have "getconf (the (options m fuel [])) k = Some v"
    if "length kvs \<le> MAXCONF" "distinct (map (\<lambda>kv. map to_lower (fst kv)) kvs)" "(k, v) \<in> set kvs" for k v
    using getconf_distinct [OF that(2,3)] that(1) by (simp add: o)
  with o show ?thesis by auto
qed

text \<open>\<open>memory_of xs\<close>: the bytes \<open>xs\<close> from address 256 on.\<close>

definition memory_of :: "u8 list \<Rightarrow> memory" where
  "memory_of xs a = (let i = unat a in if 256 \<le> i \<and> i - 256 < length xs then xs ! (i - 256) else 0)"

definition le32_bytes :: "u32 \<Rightarrow> u8 list" where
  "le32_bytes v = [ucast v, ucast (drop_bit 8 v), ucast (drop_bit 16 v), ucast (drop_bit 24 v)]"

definition boot_sample :: memory where
  "boot_sample = memory_of (concat (map le32_bytes [2, Atagcore, 3, 0x54410002, 7, 6, Atagcmdline]) @
     map byte_of ''console=0 Root=x=y'' @ [0])"

theorem options_cmdline_witness:
  "getconf (the (options boot_sample 25 [])) ''console'' = Some ''0'' \<and>
   getconf (the (options boot_sample 25 [])) ''Root'' = Some ''x=y''"
proof -
  have "ulong_at boot_sample 0x100 = 2" "ulong_at boot_sample 0x104 = Atagcore"
    by (simp_all add: boot_sample_def memory_of_def ulong_at_def le32_bytes_def be32_def)
  moreover have "tags_at boot_sample 0x108 [(3, 0x54410002)] 0x114"
    by (simp add: boot_sample_def memory_of_def ulong_at_def le32_bytes_def be32_def)
  moreover have "ulong_at boot_sample 0x118 = Atagcmdline"
    by (simp add: boot_sample_def memory_of_def ulong_at_def le32_bytes_def be32_def)
  moreover have "cstr_at boot_sample 0x11c (show_cmdline [(''console'', ''0''), (''Root'', ''x=y'')])"
    by (simp add: boot_sample_def memory_of_def le32_bytes_def show_conf_def byte_of_def)
  ultimately have "options boot_sample 25 [] = Some [(''console'', Some ''0''), (''Root'', Some ''x=y'')]"
    using options_cmdline [of boot_sample "[(3, 0x54410002)]" "0x114" "[(''console'', ''0''), (''Root'', ''x=y'')]" 25]
    by (simp add: kv_ok_def show_conf_def to_lower_def)
  then show ?thesis by (simp add: getconf_def cistrcmp_eq_def to_lower_def)
qed

text \<open>A tag of size 0 that is neither the last nor the command line is read again for ever.\<close>

lemma atags_hang:
  assumes "p < 0x100 + 4 * Atagmax" "ulong_at m p = 0" "ulong_at m (p + 4) \<noteq> Atagnone" "ulong_at m (p + 4) \<noteq> Atagcmdline"
  shows "atags m fuel p cs = None"
  using assms by (induction fuel) simp_all

section \<open>The page table\<close>

text \<open>
  What the processor makes of a section entry: the address it translates to, and whether it is
  cacheable and bufferable; \<open>None\<close> is a fault.
\<close>

definition section_lookup :: "u32 list \<Rightarrow> u32 \<Rightarrow> (u32 \<times> bool \<times> bool) option" where
  "section_lookup tbl va =
     (let d = tbl ! unat (drop_bit 20 va) in
      if d AND 3 = 2 then Some ((d AND NOT (mask 20)) OR (va AND mask 20), d AND Cacheable \<noteq> 0, d AND Bufferable \<noteq> 0)
      else None)"

lemma fold_update_nth:
  "n \<le> length p \<Longrightarrow> fold (\<lambda>i p. p[i := f i]) [0..<n] p ! j = (if j < n then f j else p ! j) \<and>
    length (fold (\<lambda>i p. p[i := f i]) [0..<n] p) = length p"
  by (induction n) (auto simp: nth_list_update)

lemma section_page: "unat (drop_bit 20 va) < 4096" for va :: u32
proof -
  have "unat va < 2 ^ 32" using unsigned_less [of va] by simp
  then show ?thesis by (subst unsigned_drop_bit_eq) (simp add: drop_bit_eq_div less_mult_imp_div_less take_bit_nat_eq_self)
qed

lemma mmu_table_nth:
  assumes "j < 4096"
  shows "mmu_table ! j =
    (if j < 512 then push_bit 20 (of_nat j) OR 0xC1E
     else if j = 0xF10 then Regbase OR 0xC12
     else if j = 0xF90 then AddrPhyNand OR 0xC12 else 0)"
  using assms fold_update_nth [of 512 "replicate 4096 0" "\<lambda>i. push_bit 20 (of_nat i) OR AP OR Cacheable OR Bufferable OR Sectiondescr" j]
  by (simp add: mmu_table_def AP_def Cacheable_def Bufferable_def Sectiondescr_def nth_list_update or.assoc mask_numeral Let_def)

lemma section_of_page:
  assumes "j = unat (drop_bit 20 va)" "c AND NOT (mask 20) = 0"
  shows "(push_bit 20 (of_nat j) OR c) AND NOT (mask 20) OR (va AND mask 20) = (va :: u32)"
proof (rule bit_word_eqI)
  fix n
  assume n: "n < LENGTH(32)"
  have "\<not> bit (c AND NOT (mask 20)) n" using assms(2) by simp
  then have "20 \<le> n \<Longrightarrow> \<not> bit c n" using n by (auto simp: bit_simps)
  then show "bit ((push_bit 20 (of_nat j) OR c) AND NOT (mask 20) OR (va AND mask 20)) n = bit va n"
    using n unfolding assms(1) by (auto simp: bit_simps)
qed

lemma and_push_low: "k < 20 \<Longrightarrow> push_bit 20 x AND push_bit k 1 = (0 :: u32)"
  by (rule bit_word_eqI) (auto simp: bit_simps)

lemma ram_section:
  assumes "j = unat (drop_bit 20 va)" "d = push_bit 20 (of_nat j) OR 0xC1E"
  shows "d AND 3 = 2" "d AND NOT (mask 20) OR (va AND mask 20) = va" "d AND Cacheable \<noteq> 0" "d AND Bufferable \<noteq> 0"
proof -
  have three: "3 = (mask 2 :: u32)" by (simp add: mask_numeral)
  have "push_bit 20 (of_nat j) AND 3 = (0 :: u32)"
    unfolding three by (rule bit_word_eqI) (auto simp: bit_simps)
  then show "d AND 3 = 2" using assms(2) by (simp add: word_ao_dist)
  show "d AND NOT (mask 20) OR (va AND mask 20) = va"
    unfolding assms(2) by (rule section_of_page [OF assms(1)]) (simp add: mask_numeral)
  show "d AND Cacheable \<noteq> 0" "d AND Bufferable \<noteq> 0"
    using and_push_low [of 3 "of_nat j"] and_push_low [of 2 "of_nat j"]
    by (simp_all add: assms(2) word_ao_dist Cacheable_def Bufferable_def)
qed

lemma device_section:
  assumes "drop_bit 20 va = drop_bit 20 b" "b AND mask 20 = 0" "d = b OR 0xC12"
  shows "d AND 3 = 2" "d AND NOT (mask 20) OR (va AND mask 20) = va" "d AND Cacheable = 0" "d AND Bufferable = 0"
proof -
  have low: "b AND x = 0" if "x AND NOT (mask 20) = 0" for x
  proof (rule bit_word_eqI)
    fix n assume n: "n < LENGTH(32)"
    have "\<not> bit (b AND mask 20) n" "\<not> bit (x AND NOT (mask 20)) n" using assms(2) that by simp_all
    then show "bit (b AND x) n = bit 0 n" using n by (auto simp: bit_simps)
  qed
  have "b AND 3 = 0" "b AND Cacheable = 0" "b AND Bufferable = 0"
    by (rule low; simp add: Cacheable_def Bufferable_def mask_numeral)+
  then show "d AND 3 = 2" "d AND Cacheable = 0" "d AND Bufferable = 0"
    by (simp_all add: assms(3) word_ao_dist Cacheable_def Bufferable_def)
  have "bit va n = bit b n" if "20 \<le> n" "n < 32" for n
  proof -
    have "bit (drop_bit 20 va) (n - 20) = bit (drop_bit 20 b) (n - 20)" using assms(1) by simp
    with that show ?thesis by (simp add: bit_simps)
  qed
  moreover have "\<not> bit (0xC12 :: u32) n" if "20 \<le> n" for n
  proof -
    have "\<not> bit (0xC12 AND NOT (mask 20) :: u32) n" by (simp add: mask_numeral)
    then show ?thesis using that by (cases "n < 32") (auto simp: bit_simps dest: bit_imp_le_length)
  qed
  ultimately show "d AND NOT (mask 20) OR (va AND mask 20) = va"
    unfolding assms(3) by (intro bit_word_eqI) (auto simp: bit_simps)
qed

lemma mmu_lookup:
  "section_lookup mmu_table va =
     (if va < 0x20000000 then Some (va, True, True)
      else if drop_bit 20 va = drop_bit 20 Regbase \<or> drop_bit 20 va = drop_bit 20 AddrPhyNand then Some (va, False, False)
      else None)"
proof -
  let ?j = "unat (drop_bit 20 va)"
  have ram: "va < 0x20000000 \<longleftrightarrow> ?j < 512"
    by (subst unsigned_drop_bit_eq) (simp add: word_less_nat_alt drop_bit_eq_div take_bit_nat_eq_self div_less_iff_less_mult less_le_trans [OF unsigned_less])
  have dev: "?j = unat (drop_bit 20 b) \<longleftrightarrow> drop_bit 20 va = drop_bit 20 b" for b :: u32 by (simp add: word_unat_eq_iff)
  have e: "mmu_table ! ?j =
    (if ?j < 512 then push_bit 20 (of_nat ?j) OR 0xC1E
     else if ?j = 0xF10 then Regbase OR 0xC12
     else if ?j = 0xF90 then AddrPhyNand OR 0xC12 else 0)" by (rule mmu_table_nth [OF section_page])
  have "unat (drop_bit 20 Regbase) = 0xF10" "unat (drop_bit 20 AddrPhyNand) = 0xF90" by simp_all
  with dev [of Regbase] dev [of AddrPhyNand] have d: "?j = 0xF10 \<longleftrightarrow> drop_bit 20 va = drop_bit 20 Regbase"
    "?j = 0xF90 \<longleftrightarrow> drop_bit 20 va = drop_bit 20 AddrPhyNand" by simp_all
  consider "?j < 512" | "\<not> ?j < 512" "?j = 0xF10" | "\<not> ?j < 512" "?j = 0xF90" | "\<not> ?j < 512" "?j \<noteq> 0xF10" "?j \<noteq> 0xF90"
    by blast
  then show ?thesis
  proof cases
    case 1
    then show ?thesis unfolding section_lookup_def Let_def e ram by (simp only: ram_section [OF refl refl] if_True simp_thms)
  next
    case 2
    with d(1) have v: "drop_bit 20 va = drop_bit 20 Regbase" by simp
    have "Regbase AND mask 20 = 0" by (simp add: mask_numeral)
    from device_section [OF v this refl] 2 v show ?thesis unfolding section_lookup_def Let_def e ram by simp
  next
    case 3
    with d(2) have v: "drop_bit 20 va = drop_bit 20 AddrPhyNand" by simp
    have "AddrPhyNand AND mask 20 = 0" by (simp add: mask_numeral)
    from device_section [OF v this refl] 3 v show ?thesis unfolding section_lookup_def Let_def e ram by simp
  next
    case 4
    then show ?thesis unfolding section_lookup_def Let_def e ram d [symmetric] by simp
  qed
qed

text \<open>
  The page table maps memory and the devices where they are.  After \<open>mmuinit\<close> the processor
  translates with its table; every address below 512 MB translates to itself, cached and buffered;
  the registers and the NAND interface, a section of 1 MB each, to themselves, neither cached nor
  buffered; and every other address is a fault.
\<close>

lemma mmu_identity:
  "\<exists>c' tbl. mmuinit (Some p) c = (Inr tbl, c') \<and> cp_ttb c' = p \<and> cp_ctl c' AND MMUena \<noteq> 0 \<and> length tbl = 4096 \<and>
    (\<forall>va. section_lookup tbl va =
       (if va < 0x20000000 then Some (va, True, True)
        else if drop_bit 20 va = drop_bit 20 Regbase \<or> drop_bit 20 va = drop_bit 20 AddrPhyNand then Some (va, False, False)
        else None))"
proof -
  have "length mmu_table = 4096"
    using fold_update_nth [of 512 "replicate 4096 0" "\<lambda>i. push_bit 20 (of_nat i) OR AP OR Cacheable OR Bufferable OR Sectiondescr"]
    by (simp add: mmu_table_def Let_def)
  moreover have "(x OR MMUena OR Icacheena OR Dcacheena OR Alignfault) AND MMUena \<noteq> 0" for x
    by (simp add: word_ao_dist MMUena_def Icacheena_def Dcacheena_def Alignfault_def or_eq_0_iff)
  ultimately show ?thesis using mmu_lookup by (simp add: mmuinit_def)
qed

end
