(* ===== verification/Sheeva.thy ===== *)
theory Sheeva
  imports Boot
begin

text \<open>
  \<open>devsheeva.c\<close>: the watchdog, and the files that control it and the clock of the processor and read
  and write memory.  \<open>parsecmd\<close> is a parameter; the registers the control file changes are those of
  \<open>Boot\<close>, and memory is a function from addresses to bytes.  The lemmas: the watchdog process keeps the
  machine running as long as it is scheduled in time, and a hang resets it; the registers file writes
  what it then reads.
\<close>

section \<open>The watchdog\<close>

definition WDcheckms :: nat where "WDcheckms = 10 * 1000"
definition WDupdatems :: nat where "WDupdatems = WDcheckms - WDcheckms * 5 div 100"

definition MS2TMR :: "nat \<Rightarrow> u32" where
  "MS2TMR t = ucast ((of_nat t * 200000000 :: u64) div 1000)"

definition watchdog_start :: "cpucsreg \<Rightarrow> cpucsreg" where
  "watchdog_start r = r\<lparr>cr_wdctl := cr_wdctl r OR TmrWDenable, cr_rstout := cr_rstout r OR RstoutWatchdog\<rparr>"

text \<open>
  The loop: the timer is set and the process sleeps; \<open>ks\<close> are the ticks of the timer until it runs
  again.  \<open>None\<close>: the timer reached zero meanwhile, and the watchdog was on and reset the machine.
\<close>

primrec watchdog_loop :: "nat list \<Rightarrow> cpucsreg \<Rightarrow> cpucsreg option" where
  "watchdog_loop [] r = Some r"
| "watchdog_loop (k # ks) r =
     (let r = r\<lparr>cr_timerwd := MS2TMR WDcheckms\<rparr> in
      if cr_wdctl r AND TmrWDenable \<noteq> 0 \<and> unat (cr_timerwd r) \<le> k then None
      else watchdog_loop ks (r\<lparr>cr_timerwd := cr_timerwd r - of_nat k\<rparr>))"

definition watchdogproc :: "nat list \<Rightarrow> cpucsreg \<Rightarrow> cpucsreg option" where
  "watchdogproc ks r = watchdog_loop ks (watchdog_start r)"

section \<open>Files\<close>

datatype shqid = Qshdir | Qshctl | Qshmem | Qshregs | Qshdelay

definition sheevatab :: "(string \<times> shqid \<times> nat) list" where
  "sheevatab = [(''.'', Qshdir, 365), (''sheevactl'', Qshctl, 384), (''sheevamem'', Qshmem, 384),
     (''sheevaregs'', Qshregs, 384), (''sheevadelay'', Qshdelay, 384)]"

record sheeva =
  sh_reg :: cpucsreg
  sh_mem :: memory
  sh_delayed :: "int list"        \<comment> \<open>arguments of \<open>delay\<close>\<close>

record shenv =
  sv_dir :: "int \<Rightarrow> int \<Rightarrow> u8 list"
  sv_eve :: bool
  sv_parsecmd :: "u8 list \<Rightarrow> exn + string list"

definition mem_store :: "u32 \<Rightarrow> u8 list \<Rightarrow> memory \<Rightarrow> memory" where
  "mem_store a bs m = fold (\<lambda>i m. m(a + of_nat i := bs ! i)) [0..<length bs] m"

definition word_bytes :: "u32 \<Rightarrow> u8 list" where
  "word_bytes v = [ucast v, ucast (drop_bit 8 v), ucast (drop_bit 16 v), ucast (drop_bit 24 v)]"

definition sheevaread :: "shenv \<Rightarrow> shqid \<Rightarrow> int \<Rightarrow> int \<Rightarrow> (sheeva, u8 list) kact" where
  "sheevaread env q n offset =
     (case q of
        Qshdir \<Rightarrow> kret (sv_dir env n offset)
      | Qshmem \<Rightarrow> kget (\<lambda>s. map (\<lambda>i. sh_mem s (of_int offset + of_nat i)) [0..<nat n])
      | Qshregs \<Rightarrow>
          (if n \<noteq> 4 \<or> offset smod 4 \<noteq> 0 then kraise (Error Ebadusefd)
           else kget (\<lambda>s. word_bytes (ulong_at (sh_mem s) (of_int offset))))
      | _ \<Rightarrow> kret [])"

definition CMwatchdog :: nat where "CMwatchdog = 0"
definition CMcpufreq :: nat where "CMcpufreq = 1"

definition sheevactl :: "(nat \<times> string \<times> nat) list" where
  "sheevactl = [(CMwatchdog, ''watchdog'', 2), (CMcpufreq, ''cpufreq'', 2)]"

definition upd_shreg :: "(cpucsreg \<Rightarrow> cpucsreg) \<Rightarrow> sheeva \<Rightarrow> sheeva" where
  "upd_shreg f s = s\<lparr>sh_reg := f (sh_reg s)\<rparr>"

definition sheeva_ctl :: "shenv \<Rightarrow> u8 list \<Rightarrow> (sheeva, unit) kact" where
  "sheeva_ctl env a =
     (if \<not> sv_eve env then kraise (Error Eperm)
      else
        kbind (klift (sv_parsecmd env a)) (\<lambda>f.
        kbind (klift (lookupcmd sheevactl f)) (\<lambda>ct.
        if ct = CMwatchdog then
          (if f ! 1 = ''on'' then kmod (upd_shreg (\<lambda>r. r\<lparr>cr_wdctl := cr_wdctl r OR TmrWDenable\<rparr>))
           else if f ! 1 = ''off'' then kmod (upd_shreg (\<lambda>r. r\<lparr>cr_wdctl := cr_wdctl r AND NOT TmrWDenable\<rparr>))
           else kraise (Error Ebadctl))
        else if ct = CMcpufreq then
          (if f ! 1 = ''low'' then kmod (upd_shreg (archcpufreq True))
           else if f ! 1 = ''high'' then kmod (upd_shreg (archcpufreq False))
           else kraise (Error Ebadctl))
        else kraise (Error Ebadctl))))"

text \<open>\<open>a\<close> is the buffer of the caller; its first \<open>n\<close> bytes are written.\<close>

definition sheevawrite :: "shenv \<Rightarrow> shqid \<Rightarrow> u8 list \<Rightarrow> int \<Rightarrow> int \<Rightarrow> (sheeva, int) kact" where
  "sheevawrite env q a n offset =
     kthen
       (case q of
          Qshctl \<Rightarrow> sheeva_ctl env (take (nat n) a)
        | Qshmem \<Rightarrow> kmod (\<lambda>s. s\<lparr>sh_mem := mem_store (of_int offset) (take (nat n) a) (sh_mem s)\<rparr>)
        | Qshregs \<Rightarrow>
            (if n \<noteq> 4 \<or> offset smod 4 \<noteq> 0 then kraise (Error Ebadusefd)
             else kmod (\<lambda>s. s\<lparr>sh_mem := mem_store (of_int offset) (word_bytes (be32 (a ! 3) (a ! 2) (a ! 1) (a ! 0))) (sh_mem s)\<rparr>))
        | Qshdelay \<Rightarrow> kmod (\<lambda>s. s\<lparr>sh_delayed := sh_delayed s @ [atoi (cstr a)]\<rparr>)
        | Qshdir \<Rightarrow> kraise (Error Ebadusefd))
       (kret n)"

section \<open>Lemmas\<close>

lemma wd_ticks: "unat (MS2TMR WDcheckms) = 2000000000" "unat (MS2TMR WDupdatems) = 1900000000"
  by (simp_all add: MS2TMR_def WDcheckms_def WDupdatems_def)

lemma watchdog_on: "cr_wdctl (watchdog_start r) AND TmrWDenable \<noteq> 0"
  by (simp add: watchdog_start_def word_ao_dist TmrWDenable_def or_eq_0_iff)

lemma watchdog_loop_fed:
  "\<forall>k\<in>set ks. k < 2000000000 \<Longrightarrow> \<exists>r'. watchdog_loop ks r = Some r' \<and> cr_wdctl r' = cr_wdctl r"
proof (induction ks arbitrary: r)
  case (Cons k ks)
  then show ?case using Cons.IH [of "r\<lparr>cr_timerwd := MS2TMR WDcheckms - of_nat k\<rparr>"] by (auto simp: wd_ticks Let_def)
qed simp

text \<open>The watchdog never fires while the process is late by less than half a second, and fires on a hang.\<close>

lemma watchdog_fed:
  "\<forall>k\<in>set ks. k < unat (MS2TMR WDupdatems) + 100000000 \<Longrightarrow>
    \<exists>r'. watchdogproc ks r = Some r' \<and> cr_wdctl r' AND TmrWDenable \<noteq> 0"
  using watchdog_loop_fed [of ks "watchdog_start r"] watchdog_on [of r] by (auto simp: watchdogproc_def wd_ticks)

lemma watchdog_hang:
  "\<exists>k\<in>set ks. k \<ge> unat (MS2TMR WDcheckms) \<Longrightarrow> watchdogproc ks r = None"
proof -
  assume h: "\<exists>k\<in>set ks. k \<ge> unat (MS2TMR WDcheckms)"
  have "cr_wdctl r AND TmrWDenable \<noteq> 0 \<Longrightarrow> watchdog_loop ks r = None" for r
    using h
  proof (induction ks arbitrary: r)
    case (Cons k ks)
    let ?r = "r\<lparr>cr_timerwd := MS2TMR WDcheckms - of_nat k\<rparr>"
    show ?case
    proof (cases "k \<ge> unat (MS2TMR WDcheckms)")
      case False
      with Cons.prems(2) have "\<exists>k\<in>set ks. k \<ge> unat (MS2TMR WDcheckms)" by auto
      with Cons.prems(1) have "watchdog_loop ks ?r = None" by (intro Cons.IH) simp_all
      with False show ?thesis by (simp add: Let_def)
    qed (use Cons.prems in \<open>simp add: Let_def\<close>)
  qed simp
  then show ?thesis using watchdog_on [of r] by (simp add: watchdogproc_def)
qed

lemma word_bytes_be32: "word_bytes (be32 a b c d) = [d, c, b, a]"
  by (simp add: word_bytes_def be32_bytes)

lemma ulong_at_store: "ulong_at (mem_store a [b0, b1, b2, b3] m) a = be32 b3 b2 b1 b0"
proof -
  have "[0..<4] = [0, 1, 2, 3 :: nat]" by (simp add: upt_rec)
  then show ?thesis by (simp add: ulong_at_def mem_store_def)
qed

lemma sheeva_regs_roundtrip:
  assumes "length a = 4" "offset smod 4 = 0"
  shows "\<exists>s'. sheevawrite env Qshregs a 4 offset s = (Inr 4, s') \<and> sheevaread env Qshregs 4 offset s' = (Inr a, s')"
proof -
  obtain b0 b1 b2 b3 where a: "a = [b0, b1, b2, b3]" using assms(1) by (auto simp: numeral_eq_Suc length_Suc_conv)
  show ?thesis using assms(2)
    by (simp add: sheevawrite_def sheevaread_def a word_bytes_be32 ulong_at_store)
qed

end
