(* ===== verification/Io.thy ===== *)
theory Io
  imports Kw_Libc
begin

text \<open>
  \<open>io.h\<close>: the registers of the chip as C structures laid over their addresses.  A structure is a list of
  items; the padding between registers is written with the addresses it is meant to lie between
  (\<open>PAD(start, end)\<close>, or a byte array of a difference), and comments state addresses.  From the list
  follow the offset of every register and whether it agrees with what the paddings and comments say.
\<close>

section \<open>Layouts\<close>

text \<open>
  Words, half words, bytes, paddings, a comment with the address of what follows, structures (an array of
  them), and unions.
\<close>

datatype item =
    W string nat
  | H string nat
  | B string nat
  | PADW nat nat
  | PADB nat nat
  | At nat
  | G string nat "item list"
  | Alt "item list"

text \<open>\<open>PAD(start, end)\<close>: the number of words, counted from the last register before the padding.\<close>

definition PAD :: "nat \<Rightarrow> nat \<Rightarrow> nat" where
  "PAD start end = (end - 4 - start) div 4"

fun isize :: "item \<Rightarrow> nat" where
  "isize (W s n) = 4 * n"
| "isize (H s n) = 2 * n"
| "isize (B s n) = n"
| "isize (PADW a b) = 4 * PAD a b"
| "isize (PADB a b) = b - a"
| "isize (At a) = 0"
| "isize (G s n is) = n * sum_list (map isize is)"
| "isize (Alt is) = fold max (map isize is) 0"

text \<open>The addresses of the members, when the first item is at \<open>c\<close>; of an array, those of the first element.\<close>

fun addrs_of :: "nat \<Rightarrow> item list \<Rightarrow> (string \<times> nat) list" and item_addrs :: "nat \<Rightarrow> item \<Rightarrow> (string \<times> nat) list" where
  "addrs_of c [] = []"
| "addrs_of c (i # is) = item_addrs c i @ addrs_of (c + isize i) is"
| "item_addrs c (W s n) = [(s, c)]"
| "item_addrs c (H s n) = [(s, c)]"
| "item_addrs c (B s n) = [(s, c)]"
| "item_addrs c (PADW a b) = []"
| "item_addrs c (PADB a b) = []"
| "item_addrs c (At a) = []"
| "item_addrs c (G s n is) = map (\<lambda>(t, a). (s @ CHR ''.'' # t, a)) (addrs_of c is)"
| "item_addrs c (Alt is) = concat (map (item_addrs c) is)"

text \<open>What the paddings and the comments say is true.\<close>

fun layout_ok :: "nat \<Rightarrow> item list \<Rightarrow> bool" and item_ok :: "nat \<Rightarrow> item \<Rightarrow> bool" where
  "layout_ok c [] = True"
| "layout_ok c (i # is) = (item_ok c i \<and> layout_ok (c + isize i) is)"
| "item_ok c (W s n) = (c mod 4 = 0)"
| "item_ok c (H s n) = (c mod 2 = 0)"
| "item_ok c (B s n) = True"
| "item_ok c (PADW a b) = (a + 4 = c \<and> c + 4 * PAD a b = b)"
| "item_ok c (PADB a b) = (a = c \<and> a \<le> b)"
| "item_ok c (At a) = (a = c)"
| "item_ok c (G s n is) = layout_ok c is"
| "item_ok c (Alt is) = list_all (item_ok c) is"

section \<open>The structures\<close>

definition CpucsReg :: "item list" where
  "CpucsReg =
    [
     W ''cpucfg'' 1, W ''cpucsr'' 1, W ''rstout'' 1, W ''softreset'' 1, W ''irq'' 1, W ''irqmask'' 1,
     W ''mempm'' 1, W ''clockgate'' 1, W ''biu'' 1, W ''pad0'' 1, W ''l2cfg'' 1, W ''pad1'' 2, W ''l2tm0'' 1,
     W ''l2tm1'' 1, W ''pad2'' 2, W ''l2pm'' 1, W ''ram0'' 1, W ''ram1'' 1, W ''ram2'' 1, W ''ram3'' 1]"

definition IntrReg :: "item list" where
  "IntrReg =
    [
     G ''lo'' 1 [W ''irq'' 1, W ''irqmask'' 1, W ''fiqmask'' 1, W ''epmask'' 1],
     G ''hi'' 1 [W ''irq'' 1, W ''irqmask'' 1, W ''fiqmask'' 1, W ''epmask'' 1]]"

definition TimerReg :: "item list" where
  "TimerReg =
    [
     W ''ctl'' 1, W ''pad'' 3, W ''reload0'' 1, W ''timer0'' 1, W ''reload1'' 1, W ''timer1'' 1,
     W ''reloadwd'' 1, W ''timerwd'' 1]"

definition L2winReg :: "item list" where
  "L2winReg =
    [
     G ''win'' 4 [W ''addr'' 1, W ''size'' 1]]"

definition UartReg :: "item list" where
  "UartReg =
    [
     Alt [W ''thr'' 1, W ''dll'' 1, W ''rbr'' 1], Alt [W ''ier'' 1, W ''dlh'' 1],
     Alt [W ''iir'' 1, W ''fcr'' 1], W ''lcr'' 1, W ''mcr'' 1, W ''lsr'' 1, W ''msr'' 1, W ''scr'' 1]"

definition RtcReg :: "item list" where
  "RtcReg =
    [
     W ''time'' 1, W ''date'' 1, W ''alarmtm'' 1, W ''alarmdt'' 1, W ''intrmask'' 1, W ''intrcause'' 1]"

definition NandfReg :: "item list" where
  "NandfReg =
    [
     W ''rdparms'' 1, W ''wrparms'' 1, PADB 0x20 0x70, W ''ctl'' 1]"

definition AesReg :: "item list" where
  "AesReg =
    [
     W ''key'' 8, W ''data'' 4, W ''cmd'' 1]"

definition DesReg :: "item list" where
  "DesReg =
    [
     W ''ivlo'' 1, W ''ivhi'' 1, W ''key0lo'' 1, W ''key0hi'' 1, W ''key1lo'' 1, W ''key1hi'' 1, W ''cmd'' 1,
     W ''pad0'' 1, W ''key2lo'' 1, W ''key2hi'' 1, W ''pad1'' 2, W ''datalo'' 1, W ''datahi'' 1, W ''outlo'' 1,
     W ''outhi'' 1]"

definition HashReg :: "item list" where
  "HashReg =
    [
     W ''iv'' 5, W ''pad0'' 1, W ''cmd'' 1, W ''pad1'' 1, W ''bitcountlo'' 1, At 0x3dd24, W ''bitcounthi'' 1,
     PADW 0x3dd24 0x3dd38, At 0x3dd38, W ''data'' 1]"

definition CryptReg :: "item list" where
  "CryptReg =
    [
     W ''cmd'' 1, W ''descr'' 1, W ''cfg'' 1, At 0x3de0c, W ''status'' 1, PADW 0x3de0c 0x3de20, At 0x3de20,
     W ''irq'' 1, W ''irqmask'' 1]"

definition TdmaReg :: "item list" where
  "TdmaReg =
    [
     W ''bytecount'' 1, W ''pad0'' 3, W ''src'' 1, W ''pad1'' 3, W ''dst'' 1, W ''pad2'' 3, W ''nextdescr'' 1,
     W ''pad3'' 3, W ''ctl'' 1, W ''pad4'' 3, At 0x30870, W ''curdescr'' 1, PADW 0x30870 0x308c8, At 0x308c8,
     W ''irqerr'' 1, At 0x308cc, W ''irqerrmask'' 1, PADW 0x308cc 0x30a00,
     G ''addr'' 4 [W ''bar'' 1, W ''winctl'' 1]]"

definition GbeReg :: "item list" where
  "GbeReg =
    [
     W ''phy'' 1, W ''smi'' 1, W ''euda'' 1, W ''eudid'' 1, PADW 0x7200c 0x72080, W ''euirq'' 1,
     W ''euirqmask'' 1, PADW 0x72084 0x72094, W ''euea'' 1, W ''euiae'' 1, PADW 0x72098 0x720b0, W ''euc'' 1,
     PADW 0x720b0 0x72200, G ''base'' 6 [W ''base'' 1, W ''size'' 1], PADW 0x7222c 0x72280, W ''harr'' 4,
     W ''bare'' 1, W ''epap'' 1, PADW 0x72294 0x72400, W ''portcfg'' 1, W ''portcfgx'' 1, W ''mii'' 1,
     W ''_pad6'' 1, W ''evlane'' 1, W ''macal'' 1, W ''macah'' 1, W ''sdc'' 1, W ''dscp'' 7, W ''psc0'' 1,
     W ''vpt2p'' 1, W ''ps0'' 1, W ''tqc'' 1, W ''psc1'' 1, W ''ps1'' 1, W ''mvhdr'' 1, W ''_pad8'' 2,
     W ''irq'' 1, W ''irqe'' 1, W ''irqmask'' 1, W ''irqemask'' 1, W ''_pad9'' 1, W ''pxtfut'' 1,
     W ''_pad10'' 1, W ''pxmfs'' 1, W ''_pad11'' 1, W ''pxdfc'' 1, W ''pxofc'' 1, W ''_pad12'' 2, W ''piae'' 1,
     PADW 0x72494 0x724bc, W ''etherprio'' 1, PADW 0x724bc 0x724dc, W ''tqfpc'' 1, W ''pttbrc'' 1,
     W ''tqc1'' 1, W ''pmtu'' 1, W ''pmtbs'' 1, PADW 0x724ec 0x72600, G ''crdp'' 8 [W ''_pad'' 3, W ''r'' 1],
     W ''rqc'' 1, W ''tcsdp'' 1, PADW 0x72684 0x726c0, W ''tcqdp'' 8, PADW 0x726dc 0x72700,
     G ''tq'' 8 [W ''tbctr'' 1, W ''tbcfg'' 1, W ''acfg'' 1, W ''_pad'' 1], W ''pttbc'' 1,
     PADW 0x72780 0x727a8, W ''ipg2'' 1, W ''_pad19'' 3, W ''ipg3'' 1, W ''_pad20'' 1, W ''htlp'' 1,
     W ''htap'' 1, W ''ltap'' 1, W ''_pad21'' 1, At 0x727d0, W ''ts'' 1, PADW 0x727d0 0x73000,
     W ''rxoctetshi'' 1, W ''rxoctetslo'' 1, W ''badrxoctets'' 1, W ''mactxerror'' 1, W ''rxframes'' 1,
     W ''badrxframes'' 1, W ''rxbroadcastframes'' 1, W ''rxmulticastframes'' 1, W ''rxframe64'' 1,
     W ''rxframe65to127'' 1, W ''rxframe128to255'' 1, W ''rxframe256to511'' 1, W ''rxframe512to1023'' 1,
     W ''rxframe1024tomax'' 1, W ''txoctetshi'' 1, W ''txoctetslo'' 1, W ''txframes'' 1,
     W ''txcollisionframedrop'' 1, W ''txmulticastframes'' 1, W ''txbroadcastframes'' 1,
     W ''badmaccontrolframes'' 1, W ''txflowcontrol'' 1, W ''rxflowcontrol'' 1, W ''badrxflowcontrol'' 1,
     W ''rxundersized'' 1, W ''rxfragments'' 1, W ''rxoversized'' 1, W ''rxjabber'' 1, W ''rxerrors'' 1,
     W ''crcerrors'' 1, W ''collisions'' 1, At 0x7307c, W ''latecollisions'' 1, PADW 0x7307c 0x73400,
     At 0x73400, W ''dfsmt'' 64, W ''dfomt'' 64, W ''dfut'' 4]"

definition SdioReg :: "item list" where
  "SdioReg =
    [
     W ''dmaaddrlo'' 1, W ''dmaaddrhi'' 1, W ''blksize'' 1, W ''blkcount'' 1, W ''arglo'' 1, W ''arghi'' 1,
     W ''mode'' 1, W ''cmd'' 1, W ''resp'' 8, W ''fifo'' 1, W ''crc7'' 1, W ''hoststate'' 1, W ''pad0'' 1,
     W ''hostctl'' 1, W ''blkgapctl'' 1, W ''clkctl'' 1, W ''swreset'' 1, W ''st'' 1, W ''est'' 1,
     W ''stena'' 1, W ''estena'' 1, W ''stirq'' 1, W ''estirq'' 1, W ''acmd12st'' 1, W ''currbyteleft'' 1,
     W ''currblkleft'' 1, W ''acmd12arglo'' 1, W ''acmd12arghi'' 1, W ''acmd12idx'' 1, W ''acmdrsp'' 3,
     PADW 0x90098 0x90100, W ''mbusctllo'' 1, W ''mbusctlhi'' 1, G ''win'' 4 [W ''ctl'' 1, W ''data'' 1],
     W ''clockdiv'' 1, W ''addrdecerr'' 1, W ''addrdecerrmsk'' 1]"

definition MppReg :: "item list" where
  "MppReg =
    [
     W ''ctl'' 7, PADW 0x18 0x30, W ''sampatrst'' 1]"

definition GpioReg :: "item list" where
  "GpioReg =
    [
     W ''dataout'' 1, W ''dataoutena'' 1, W ''blinkena'' 1, W ''datainpol'' 1, W ''datain'' 1,
     W ''intrcause'' 1, W ''intredgeena'' 1, W ''intrlevelena'' 1]"

definition WinReg :: "item list" where
  "WinReg =
    [
     G ''w'' 7 [W ''ctl'' 1, W ''base'' 1, W ''remaplo'' 1, W ''remaphi'' 1], PADW 0x74 0x80, W ''intbase'' 1]"

definition EfuseReg :: "item list" where
  "EfuseReg =
    [
     W ''protection'' 1, PADW 0x1008c 0x100a4, W ''lo0'' 1, W ''hi0'' 1, W ''lo1'' 1, W ''hi1'' 1, W ''ctl'' 1]"

definition XoreReg :: "item list" where
  "XoreReg =
    [
     At 0x60800, W ''xechar'' 1, PADW 0x60800 0x60830, At 0x60830, W ''irq'' 1, W ''pad1'' 3, At 0x60840,
     W ''irqmask'' 1, W ''pad2'' 3, At 0x60850, W ''errorcause'' 1, W ''pad3'' 3, At 0x60860,
     W ''erroraddr'' 1, PADW 0x60860 0x60a50, At 0x60a50, W ''bar'' 8, At 0x60a70, W ''sizemask'' 8,
     At 0x60a90, W ''harr'' 4, PADW 0x60a9c 0x60ae0, At 0x60ae0, W ''initvallo'' 1, At 0x60ae4,
     W ''initvalhi'' 1]"

definition XorReg :: "item list" where
  "XorReg =
    [
     At 0x60810, W ''cfg'' 1, W ''pad0'' 3, At 0x60820, W ''act'' 1, PADW 0x60820 0x60a00, At 0x60a00,
     W ''nextdescr'' 1, W ''pad2'' 3, At 0x60a10, W ''curdescr'' 1, W ''pad3'' 3, At 0x60a20,
     W ''bytecount'' 1, PADW 0x60a20 0x60a40, At 0x60a40, W ''winctl'' 1, PADW 0x60a40 0x60aa0, At 0x60aa0,
     W ''aoctl'' 1, W ''pad6'' 3, At 0x60ab0, W ''dest'' 1, W ''pad7'' 3, At 0x60ac0, W ''blocksize'' 1]"

definition SDramcReg :: "item list" where
  "SDramcReg =
    [
     W ''ctl'' 1, W ''ddrctllo'' 1, W ''timinglo'' 1, W ''timinghi'' 1, W ''addrctl'' 1, W ''opagectl'' 1,
     W ''oper'' 1, W ''mode'' 1, W ''extmode'' 1, W ''ddrctlhi'' 1, W ''ddr2timelo'' 1, W ''operctl'' 1,
     W ''mbusctllo'' 1, W ''mbusctlhi'' 1, W ''mbustimeout'' 1, PADB 0x3c 0x7c, W ''ddrtimehi'' 1,
     W ''sdinitctl'' 1, W ''pad1'' 2, W ''extsdmode1'' 1, W ''extsdmode2'' 1, W ''odtctllo'' 1,
     W ''odtctlhi'' 1, W ''ddrodtctl'' 1, W ''rbuffsel'' 1, PADB 0xa8 0xc0, W ''accalib'' 1, W ''dqcalib'' 1,
     W ''dqscalib'' 1]"

definition SDramdReg :: "item list" where
  "SDramdReg =
    [
     G ''win'' 4 [W ''base'' 1, W ''size'' 1]]"

definition UsbReg :: "item list" where
  "UsbReg =
    [
     W ''id'' 1, W ''hwgeneral'' 1, W ''hwhost'' 1, W ''hwdevice'' 1, W ''hwtxbuf'' 1, W ''hwrxbuf'' 1,
     W ''hwtttxbuf'' 1, W ''hwttrxbuf'' 1, PADW 0x5001c 0x50100, B ''caplength'' 1, B ''pad1'' 1,
     H ''hciversion'' 1, W ''hcsparams'' 1, W ''hccparams'' 1, PADW 0x50108 0x50120, H ''dciversion'' 1,
     H ''pad3'' 1, W ''dccparams'' 1, PADW 0x50124 0x50140, W ''usbcmd'' 1, W ''usbsts'' 1, W ''usbintr'' 1,
     W ''frindex'' 1, PADW 0x5014c 0x50154, W ''devaddr'' 1, W ''endptaddr'' 1, W ''ttctrl'' 1,
     W ''burstsz'' 1, W ''txfilltun'' 1, W ''txttfilltun'' 1, PADW 0x50168 0x50180, W ''configflag'' 1,
     W ''portsc1'' 1, PADW 0x50184 0x501a4, W ''otgsc'' 1, W ''usbmode'' 1,
     G ''endpt'' 1 [W ''setupstat'' 1, W ''prime'' 1, W ''flush'' 1, W ''status'' 1, W ''complete'' 1,
     W ''ctrl'' 4], PADW 0x501cc 0x50300, W ''brdgctl'' 1, PADW 0x50300 0x50310,
     G ''brdg'' 1 [W ''intr'' 1, W ''intrmask'' 1, W ''pad0'' 1, W ''erraddr'' 1],
     G ''win'' 4 [W ''ctl'' 1, W ''base'' 1, W ''pad0'' 2], W ''phyconf'' 1, PADW 0x50360 0x50400, W ''power'' 1]"

definition SatahcReg :: "item list" where
  "SatahcReg =
    [
     W ''cfg'' 1, W ''qout'' 1, W ''qin'' 1, W ''intrcoalesc'' 1, W ''intrtime'' 1, W ''intr'' 1,
     W ''_pad0'' 2, W ''intrmain'' 1, W ''intrmainena'' 1, W ''_pad1'' 1, W ''ledcfg'' 1,
     G ''win'' 4 [W ''ctl'' 1, W ''base'' 1, W ''_pad0'' 2]]"

definition SataReg :: "item list" where
  "SataReg =
    [
     Alt [G ''bdma'' 1 [B ''_pad0'' 0x224, W ''cmd'' 1, W ''status'' 1, W ''dtlo'' 1, W ''dthi'' 1,
     W ''drlo'' 1, W ''drhi'' 1], G ''edma'' 1 [W ''cfg'' 1, W ''_pad0'' 1, W ''intre'' 1, W ''intreena'' 1,
     W ''reqbasehi'' 1, W ''reqin'' 1, W ''reqout'' 1, W ''respbasehi'' 1, W ''respin'' 1, W ''respout'' 1,
     W ''cmd'' 1, W ''_pad1'' 1, W ''status'' 1, W ''iordytimeout'' 1, W ''_pad2'' 2, W ''cmddelaythr'' 1,
     PADB 0x44 0x60, W ''haltcond'' 1, PADB 0x64 0x94, W ''ncqdone'' 1], G ''ifc'' 1 [PADB 0 0x50,
     W ''ifccfg'' 1, W ''pllcfg'' 1, PADB 0x58 0x300, W ''sstatus'' 1, W ''serror'' 1, W ''scontrol'' 1,
     W ''ltmode'' 1, W ''phym3'' 1, W ''phym4'' 1, W ''_pad8'' 5, W ''phym1'' 1, W ''phym2'' 1,
     W ''bistctl'' 1, W ''bist1'' 1, W ''bist2'' 1, W ''serrintrena'' 1, W ''ifcctl'' 1, W ''ifctestctl'' 1,
     W ''ifcstatus'' 1, W ''_pad9'' 3, W ''vendor'' 1, W ''fiscfg'' 1, W ''fisintr'' 1, W ''fisintrena'' 1,
     W ''_pad10'' 1, W ''fis'' 7, W ''_pad11'' 3, W ''phym9g2'' 1, W ''phym9g1'' 1, W ''phycfg'' 1,
     W ''phytctl'' 1, W ''phym10'' 1, W ''_pad12'' 1, W ''phym12'' 1]]]"

definition AtaReg :: "item list" where
  "AtaReg =
    [
     W ''data'' 1, Alt [W ''feat'' 1, W ''error'' 1], W ''sectors'' 1, W ''lbalow'' 1, W ''lbamid'' 1,
     W ''lbahigh'' 1, W ''dev'' 1, Alt [W ''cmd'' 1, W ''status'' 1], W ''ctl'' 1]"

section \<open>Addresses\<close>

text \<open>The addresses, and the macros that lay a structure over one; \<open>AddrXore1p0\<close> is four after \<open>AddrXore0p0\<close>.\<close>

definition RegbaseN :: nat where "RegbaseN = 0xf1000000"
definition AddrSDramc :: nat where "AddrSDramc = RegbaseN + 0x1400"
definition AddrSDramd :: nat where "AddrSDramd = RegbaseN + 0x1500"
definition AddrMpp :: nat where "AddrMpp = RegbaseN + 0x10000"
definition AddrGpio0 :: nat where "AddrGpio0 = RegbaseN + 0x10100"
definition AddrGpio1 :: nat where "AddrGpio1 = RegbaseN + 0x10140"
definition AddrRtc :: nat where "AddrRtc = RegbaseN + 0x10300"
definition AddrNandf :: nat where "AddrNandf = RegbaseN + 0x10418"
definition AddrDeviceid :: nat where "AddrDeviceid = RegbaseN + 0x10034"
definition AddrClockctl :: nat where "AddrClockctl = RegbaseN + 0x1004c"
definition AddrIocfg0 :: nat where "AddrIocfg0 = RegbaseN + 0x100e0"
definition AddrEfuse :: nat where "AddrEfuse = RegbaseN + 0x1008c"
definition AddrTwsi :: nat where "AddrTwsi = RegbaseN + 0x11000"
definition AddrUart0 :: nat where "AddrUart0 = RegbaseN + 0x12000"
definition AddrUart1 :: nat where "AddrUart1 = RegbaseN + 0x12100"
definition AddrWin :: nat where "AddrWin = RegbaseN + 0x20000"
definition AddrCpucsr :: nat where "AddrCpucsr = RegbaseN + 0x20100"
definition AddrIntr :: nat where "AddrIntr = RegbaseN + 0x20200"
definition AddrTimer :: nat where "AddrTimer = RegbaseN + 0x20300"
definition AddrL2win :: nat where "AddrL2win = RegbaseN + 0x20a00"
definition AddrTdma :: nat where "AddrTdma = RegbaseN + 0x30800"
definition AddrHash :: nat where "AddrHash = RegbaseN + 0x3dd00"
definition AddrDes :: nat where "AddrDes = RegbaseN + 0x3dd40"
definition AddrAesenc :: nat where "AddrAesenc = RegbaseN + 0x3dd80"
definition AddrAesdec :: nat where "AddrAesdec = RegbaseN + 0x3ddc0"
definition AddrCrypt :: nat where "AddrCrypt = RegbaseN + 0x3de00"
definition AddrUsb :: nat where "AddrUsb = RegbaseN + 0x50000"
definition AddrXore0 :: nat where "AddrXore0 = RegbaseN + 0x60800"
definition AddrXore1 :: nat where "AddrXore1 = AddrXore0 + 0x100"
definition AddrXore0p0 :: nat where "AddrXore0p0 = RegbaseN + 0x60810"
definition AddrXore1p0 :: nat where "AddrXore1p0 = AddrXore0p0 + 4"
definition AddrXore0p1 :: nat where "AddrXore0p1 = AddrXore0p0 + 0x100"
definition AddrXore1p1 :: nat where "AddrXore1p1 = AddrXore0p1 + 4"
definition AddrGbe0 :: nat where "AddrGbe0 = RegbaseN + 0x72000"
definition AddrGbe1 :: nat where "AddrGbe1 = RegbaseN + 0x76000"
definition AddrSatahc :: nat where "AddrSatahc = RegbaseN + 0x80000"
definition AddrSata0 :: nat where "AddrSata0 = RegbaseN + 0x82000"
definition AddrSata1 :: nat where "AddrSata1 = RegbaseN + 0x84000"
definition AddrAta0 :: nat where "AddrAta0 = RegbaseN + 0x82100"
definition AddrAta1 :: nat where "AddrAta1 = RegbaseN + 0x84100"
definition AddrSdio :: nat where "AddrSdio = RegbaseN + 0x90000"
definition AddrPhyNandN :: nat where "AddrPhyNandN = 0xf9000000"

lemmas addr_defs = RegbaseN_def AddrSDramc_def AddrSDramd_def AddrMpp_def AddrGpio0_def AddrGpio1_def AddrRtc_def
  AddrNandf_def AddrDeviceid_def AddrClockctl_def AddrIocfg0_def AddrEfuse_def AddrTwsi_def
  AddrUart0_def AddrUart1_def AddrWin_def AddrCpucsr_def AddrIntr_def AddrTimer_def AddrL2win_def
  AddrTdma_def AddrHash_def AddrDes_def AddrAesenc_def AddrAesdec_def AddrCrypt_def AddrUsb_def
  AddrXore0_def AddrXore1_def AddrXore0p0_def AddrXore1p0_def AddrXore0p1_def AddrXore1p1_def
  AddrGbe0_def AddrGbe1_def AddrSatahc_def AddrSata0_def AddrSata1_def AddrAta0_def AddrAta1_def
  AddrSdio_def AddrPhyNandN_def

definition io_regs :: "(string \<times> item list \<times> nat) list" where
  "io_regs =
    [
     (''CPUCSREG'', CpucsReg, AddrCpucsr), (''INTRREG'', IntrReg, AddrIntr),
     (''TIMERREG'', TimerReg, AddrTimer), (''L2WINREG'', L2winReg, AddrL2win),
     (''UART0REG'', UartReg, AddrUart0), (''UART1REG'', UartReg, AddrUart1), (''RTCREG'', RtcReg, AddrRtc),
     (''NANDFREG'', NandfReg, AddrNandf), (''AESDECREG'', AesReg, AddrAesdec),
     (''AESENCREG'', AesReg, AddrAesenc), (''DESREG'', DesReg, AddrDes), (''HASHREG'', HashReg, AddrHash),
     (''CRYPTREG'', CryptReg, AddrCrypt), (''TDMAREG'', TdmaReg, AddrTdma), (''GBE0REG'', GbeReg, AddrGbe0),
     (''GBE1REG'', GbeReg, AddrGbe1), (''SDIOREG'', SdioReg, AddrSdio), (''MPPREG'', MppReg, AddrMpp),
     (''GPIO0REG'', GpioReg, AddrGpio0), (''GPIO1REG'', GpioReg, AddrGpio1), (''WINREG'', WinReg, AddrWin),
     (''EFUSEREG'', EfuseReg, AddrEfuse), (''XORE0REG'', XoreReg, AddrXore0),
     (''XORE1REG'', XoreReg, AddrXore1), (''XORE0P0REG'', XorReg, AddrXore0p0),
     (''XORE1P0REG'', XorReg, AddrXore1p0), (''XORE0P1REG'', XorReg, AddrXore0p1),
     (''XORE1P1REG'', XorReg, AddrXore1p1), (''SDRAMCREG'', SDramcReg, AddrSDramc),
     (''SDRAMDREG'', SDramdReg, AddrSDramd), (''USBREG'', UsbReg, AddrUsb),
     (''SATAHCREG'', SatahcReg, AddrSatahc), (''SATA0REG'', SataReg, AddrSata0),
     (''SATA1REG'', SataReg, AddrSata1), (''ATA0REG'', AtaReg, AddrAta0), (''ATA1REG'', AtaReg, AddrAta1)]"

text \<open>
  Where the addresses in the paddings and comments of a structure count from: the block of its unit, or
  the structure itself.
\<close>

definition io_orgs :: "(string \<times> item list \<times> nat) list" where
  "io_orgs =
    [
     (''CpucsReg'', CpucsReg, 0x0), (''IntrReg'', IntrReg, 0x0), (''TimerReg'', TimerReg, 0x0),
     (''L2winReg'', L2winReg, 0x0), (''UartReg'', UartReg, 0x0), (''RtcReg'', RtcReg, 0x0),
     (''NandfReg'', NandfReg, 0x18), (''AesReg'', AesReg, 0x0), (''DesReg'', DesReg, 0x0),
     (''HashReg'', HashReg, 0x3dd00), (''CryptReg'', CryptReg, 0x3de00), (''TdmaReg'', TdmaReg, 0x30800),
     (''GbeReg'', GbeReg, 0x72000), (''SdioReg'', SdioReg, 0x90000), (''MppReg'', MppReg, 0x0),
     (''GpioReg'', GpioReg, 0x0), (''WinReg'', WinReg, 0x0), (''EfuseReg'', EfuseReg, 0x1008c),
     (''XoreReg'', XoreReg, 0x60800), (''XorReg'', XorReg, 0x60810), (''SDramcReg'', SDramcReg, 0x0),
     (''SDramdReg'', SDramdReg, 0x0), (''UsbReg'', UsbReg, 0x50000), (''SatahcReg'', SatahcReg, 0x0),
     (''SataReg'', SataReg, 0x0), (''AtaReg'', AtaReg, 0x0)]"

end
