(* ===== verification/Io_Regs.thy ===== *)
theory Io_Regs
  imports Io
begin

text \<open>
  The structures of \<open>io.h\<close> against the addresses written in it, and the extent of the register file.
\<close>

text \<open>A padding that begins where it says ends where it says.\<close>

lemma PAD_ends: "start mod 4 = e mod 4 \<Longrightarrow> start + 4 \<le> e \<Longrightarrow> item_ok (start + 4) (PADW start e)"
proof -
  assume m: "start mod 4 = e mod 4" and l: "start + 4 \<le> e"
  then have "(e - 4 - start) mod 4 = 0" by (metis diff_diff_left add.commute mod_eq_dvd_iff_nat le_add1 dvd_imp_mod_0 mod_add_self2 le_trans)
  then have "4 * ((e - 4 - start) div 4) = e - 4 - start" by presburger
  with l show ?thesis by (simp add: PAD_def)
qed

lemmas layout_defs = CpucsReg_def IntrReg_def TimerReg_def L2winReg_def UartReg_def RtcReg_def NandfReg_def AesReg_def DesReg_def HashReg_def CryptReg_def TdmaReg_def GbeReg_def SdioReg_def MppReg_def GpioReg_def WinReg_def EfuseReg_def XoreReg_def XorReg_def SDramcReg_def SDramdReg_def UsbReg_def SatahcReg_def SataReg_def AtaReg_def

lemma layouts_ok:
  "layout_ok 0x0 CpucsReg"
  "layout_ok 0x0 IntrReg"
  "layout_ok 0x0 TimerReg"
  "layout_ok 0x0 L2winReg"
  "layout_ok 0x0 UartReg"
  "layout_ok 0x0 RtcReg"
  "layout_ok 0x18 NandfReg"
  "layout_ok 0x0 AesReg"
  "layout_ok 0x0 DesReg"
  "layout_ok 0x3dd00 HashReg"
  "layout_ok 0x3de00 CryptReg"
  "layout_ok 0x72000 GbeReg"
  "layout_ok 0x90000 SdioReg"
  "layout_ok 0x0 MppReg"
  "layout_ok 0x0 GpioReg"
  "layout_ok 0x1008c EfuseReg"
  "layout_ok 0x60800 XoreReg"
  "layout_ok 0x60810 XorReg"
  "layout_ok 0x0 SDramdReg"
  "layout_ok 0x50000 UsbReg"
  "layout_ok 0x0 SatahcReg"
  "layout_ok 0x0 SataReg"
  "layout_ok 0x0 AtaReg"
  by (simp_all add: layout_defs PAD_def)

lemma layouts_wrong: "\<not> layout_ok 0x30800 TdmaReg" "\<not> layout_ok 0 WinReg" "\<not> layout_ok 0 SDramcReg"
  by (simp_all add: layout_defs PAD_def)

lemma layout_reach:
  "\<forall>(s, a)\<in>set (addrs_of c CpucsReg). c \<le> a \<and> a < c + 0x4000"
  "\<forall>(s, a)\<in>set (addrs_of c IntrReg). c \<le> a \<and> a < c + 0x4000"
  "\<forall>(s, a)\<in>set (addrs_of c TimerReg). c \<le> a \<and> a < c + 0x4000"
  "\<forall>(s, a)\<in>set (addrs_of c L2winReg). c \<le> a \<and> a < c + 0x4000"
  "\<forall>(s, a)\<in>set (addrs_of c UartReg). c \<le> a \<and> a < c + 0x4000"
  "\<forall>(s, a)\<in>set (addrs_of c RtcReg). c \<le> a \<and> a < c + 0x4000"
  "\<forall>(s, a)\<in>set (addrs_of c NandfReg). c \<le> a \<and> a < c + 0x4000"
  "\<forall>(s, a)\<in>set (addrs_of c AesReg). c \<le> a \<and> a < c + 0x4000"
  "\<forall>(s, a)\<in>set (addrs_of c DesReg). c \<le> a \<and> a < c + 0x4000"
  "\<forall>(s, a)\<in>set (addrs_of c HashReg). c \<le> a \<and> a < c + 0x4000"
  "\<forall>(s, a)\<in>set (addrs_of c CryptReg). c \<le> a \<and> a < c + 0x4000"
  "\<forall>(s, a)\<in>set (addrs_of c TdmaReg). c \<le> a \<and> a < c + 0x4000"
  "\<forall>(s, a)\<in>set (addrs_of c GbeReg). c \<le> a \<and> a < c + 0x4000"
  "\<forall>(s, a)\<in>set (addrs_of c SdioReg). c \<le> a \<and> a < c + 0x4000"
  "\<forall>(s, a)\<in>set (addrs_of c MppReg). c \<le> a \<and> a < c + 0x4000"
  "\<forall>(s, a)\<in>set (addrs_of c GpioReg). c \<le> a \<and> a < c + 0x4000"
  "\<forall>(s, a)\<in>set (addrs_of c WinReg). c \<le> a \<and> a < c + 0x4000"
  "\<forall>(s, a)\<in>set (addrs_of c EfuseReg). c \<le> a \<and> a < c + 0x4000"
  "\<forall>(s, a)\<in>set (addrs_of c XoreReg). c \<le> a \<and> a < c + 0x4000"
  "\<forall>(s, a)\<in>set (addrs_of c XorReg). c \<le> a \<and> a < c + 0x4000"
  "\<forall>(s, a)\<in>set (addrs_of c SDramcReg). c \<le> a \<and> a < c + 0x4000"
  "\<forall>(s, a)\<in>set (addrs_of c SDramdReg). c \<le> a \<and> a < c + 0x4000"
  "\<forall>(s, a)\<in>set (addrs_of c UsbReg). c \<le> a \<and> a < c + 0x4000"
  "\<forall>(s, a)\<in>set (addrs_of c SatahcReg). c \<le> a \<and> a < c + 0x4000"
  "\<forall>(s, a)\<in>set (addrs_of c SataReg). c \<le> a \<and> a < c + 0x4000"
  "\<forall>(s, a)\<in>set (addrs_of c AtaReg). c \<le> a \<and> a < c + 0x4000"
  by (simp_all add: layout_defs PAD_def)

lemma reg_bases: "\<forall>(r, is, b)\<in>set io_regs. 0xf1000000 \<le> b \<and> b \<le> 0xf10f0000"
  by (simp add: io_regs_def addr_defs)

lemma reg_reach: "\<forall>(r, is, b)\<in>set io_regs. \<forall>(s, a)\<in>set (addrs_of c is). c \<le> a \<and> a < c + 0x4000"
  unfolding io_regs_def by (simp only: list.set ball_simps prod.case simp_thms) (intro conjI layout_reach)

text \<open>Every member of every block is in the megabyte of the register file.\<close>

lemma reg_addr_range:
  assumes "(r, l, b) \<in> set io_regs" and "(s, a) \<in> set (addrs_of b l)"
  shows "0xf1000000 \<le> a \<and> a < 0xf1100000"
proof -
  have "0xf1000000 \<le> b \<and> b \<le> 0xf10f0000" using reg_bases assms(1) by fastforce
  moreover have "b \<le> a \<and> a < b + 0x4000" using reg_reach [of b] assms by fastforce
  ultimately show ?thesis by linarith
qed

text \<open>
  C36: The registers are where the header says.  In every structure but three each padding and each
  comment that states an address is right; the DMA registers of the cryptographic unit lack eight words
  after the control register, the address windows two before the base of the registers, and the memory
  controller one, so that the registers after them are at addresses that much too low.
\<close>

theorem io_layouts:
  "map fst (filter (\<lambda>(n, is, org). \<not> layout_ok org is) io_orgs) = [''TdmaReg'', ''WinReg'', ''SDramcReg''] \<and>
   (''irqerr'', 0x308c8 - 0x20) \<in> set (addrs_of 0x30800 TdmaReg) \<and>
   (''intbase'', 0x80 - 8) \<in> set (addrs_of 0 WinReg) \<and>
   (''accalib'', 0xc0 - 4) \<in> set (addrs_of 0 SDramcReg)"
proof (intro conjI)
  show "map fst (filter (\<lambda>(n, is, org). \<not> layout_ok org is) io_orgs) = [''TdmaReg'', ''WinReg'', ''SDramcReg'']"
    unfolding io_orgs_def by (simp add: layouts_ok [simplified] layouts_wrong [simplified])
qed (simp_all add: TdmaReg_def WinReg_def SDramcReg_def PAD_def)

end
