(* ===== verification/Trap_Fp.thy ===== *)
theory Trap_Fp
  imports Trap_Io Fpiarm_Io
begin

text \<open>
  The trap handler with the emulator of \<open>fpiarm.c\<close> behind it: an undefined instruction in a process is
  given to the emulator, on the registers the trap saved.  Both use one structure \<open>Ureg\<close>; the models have
  the fields each of them changes, and \<open>fp_enter\<close> and \<open>fp_leave\<close> carry them over.
\<close>

definition fp_enter :: "ureg \<Rightarrow> 'm fpst \<Rightarrow> 'm fpst" where
  "fp_enter ur f = f\<lparr>ft_regs := (ft_regs f)[13 := ur_type ur, REGPC := ur_pc ur], ft_psr := ur_psr ur\<rparr>"

definition fp_leave :: "'m fpst \<Rightarrow> ureg \<Rightarrow> ureg" where
  "fp_leave f ur = ur\<lparr>ur_type := ft_regs f ! 13, ur_pc := ft_regs f ! REGPC, ur_psr := ft_psr f\<rparr>"

definition trap_fpiarm :: "'m fpops \<Rightarrow> (nat \<Rightarrow> bool) \<Rightarrow> nat \<Rightarrow> u32 \<Rightarrow> 'm fpst \<Rightarrow> ureg \<Rightarrow> (exn + nat) \<times> ureg" where
  "trap_fpiarm k higher fuel after f ur =
     (case fpiarm k higher fuel after (fp_enter ur f) of (r, t) \<Rightarrow> (r, fp_leave t ur))"

text \<open>The registers as the handler passes them on: the pc is that of the instruction.\<close>

definition und_ureg :: "'f trapst \<Rightarrow> ureg" where
  "und_ureg s = (tr_ureg s)\<lparr>ur_pc := ur_pc (tr_ureg s) - 4, ur_sp := tr_end s\<rparr>"

lemma trap_entry_und:
  assumes "ur_type (tr_ureg s) = PsrMund" "tr_up s = Some p"
  shows "tr_ureg (trap_entry s) = und_ureg s" "tr_up (trap_entry s) = Some p"
    "pr_interp (tr_procs (trap_entry s) p) = pr_interp (tr_procs s p)"
  using assms by (simp_all add: trap_entry_def upd_proc_def und_ureg_def Let_def)

section \<open>A run of instructions\<close>

text \<open>
  What a run of floating point instructions at consecutive addresses means: each is executed at its own
  address, if its condition holds for the flags as they are then, and other processes may run after it.
\<close>

primrec fp_exec :: "'m fpops \<Rightarrow> (nat \<Rightarrow> bool) \<Rightarrow> nat \<Rightarrow> u32 \<Rightarrow> u32 list \<Rightarrow> ('m fpst, unit) kact" where
  "fp_exec k higher n pc [] = kmod (set_reg REGPC pc)"
| "fp_exec k higher n pc (op # ops) =
     kthen (kmod (set_reg REGPC pc))
     (kbind (kget ft_psr) (\<lambda>psr.
      kthen (if condok psr (unat (drop_bit 28 op)) then fpemu k pc op else kret ())
      (kthen (if higher n then kmod (\<lambda>s. s\<lparr>ft_scheds := ft_scheds s + 1\<rparr>) else kret ())
        (fp_exec k higher (n + 1) (pc + 4) ops))))"

text \<open>The only instruction that writes the pc is a load or store that writes back to it.\<close>

definition keeps_pc :: "u32 \<Rightarrow> bool" where
  "keeps_pc op \<longleftrightarrow> \<not> (opf op 25 7 = 6 \<and> bit op 21 \<and> opf op 16 0xF = REGPC)"

text \<open>The instructions \<open>ops\<close> are at \<open>pc\<close>, whatever the emulated stores do, and one that is none is behind them.\<close>

definition fp_code :: "'m fpops \<Rightarrow> u32 \<Rightarrow> u32 list \<Rightarrow> bool" where
  "fp_code k pc ops \<longleftrightarrow>
     (\<forall>m. (\<forall>j<length ops. fo_instr k m (pc + 4 * of_nat j) = ops ! j) \<and>
        \<not> is_fpop (fo_instr k m (pc + 4 * of_nat (length ops)))) \<and>
     (\<forall>op\<in>set ops. is_fpop op \<and> keeps_pc op)"

definition same_pc :: "'m fpst \<Rightarrow> 'm fpst \<Rightarrow> bool" where
  "same_pc s t \<longleftrightarrow> length (ft_regs t) = length (ft_regs s) \<and> ft_regs t ! REGPC = ft_regs s ! REGPC"

lemma fpemu_mem_pc:
  assumes "fpemu_mem k pc op s = (Inr u, t)" and "\<not> (bit op 21 \<and> opf op 16 0xF = REGPC)"
  shows "same_pc s t"
  using assms
  by (auto simp: fpemu_mem_def unimp_def Let_def fld_def fstf_def kthen_def kbind_def same_pc_def split: if_splits)

lemma fpemu_xfer_pc:
  assumes "fpemu_xfer k pc op s = (Inr u, t)" and "\<not> (opf op 12 0xF = 15 \<and> bit op 20)"
  shows "same_pc s t"
proof -
  have odd: "bit op 20" if "opf op 20 0xF = 1 \<or> opf op 20 0xF = 3 \<or> opf op 20 0xF = 5"
  proof -
    have "bit (opf op 20 0xF) 0" unfolding bit_0 using that by auto
    then have "bit (drop_bit 20 op AND 0xF) 0" by (simp only: opf_def bit_unsigned_iff)
    then show ?thesis by (simp only: bit_and_iff bit_drop_bit_eq o_apply) simp
  qed
  show ?thesis
    using assms odd
    by (auto simp: fpemu_xfer_def unimp_def Let_def fp_status_def fp_control_def same_pc_def split: if_splits)
qed

lemma fpemu_pc:
  assumes "fpemu k pc op s = (Inr u, t)" and "keeps_pc op"
  shows "same_pc s t"
  using assms fpemu_mem_pc [of k pc op s u t] fpemu_xfer_pc [of k pc op s u t]
  by (auto simp: fpemu_def keeps_pc_def fpemu_cmp_def fpemu_arith_def unimp_def Let_def same_pc_def
      split: if_splits option.splits)

lemma fp_code_Cons:
  assumes "fp_code k pc (op # ops)"
  shows "fo_instr k m pc = op" "is_fpop op" "keeps_pc op" "fp_code k (pc + 4) ops"
proof -
  have j: "(\<forall>j<length (op # ops). fo_instr k m (pc + 4 * of_nat j) = (op # ops) ! j) \<and>
      \<not> is_fpop (fo_instr k m (pc + 4 * of_nat (length (op # ops))))" for m
    using assms unfolding fp_code_def by blast
  show "fo_instr k m pc = op" using j [of m] by force
  show "is_fpop op" "keeps_pc op" using assms by (simp_all add: fp_code_def)
  have "fo_instr k m (pc + 4 + 4 * of_nat i) = ops ! i" if "i < length ops" for i m
    using j [of m, THEN conjunct1, rule_format, of "Suc i"] that by (simp add: add.assoc)
  moreover have "\<not> is_fpop (fo_instr k m (pc + 4 + 4 * of_nat (length ops)))" for m
    using j [of m, THEN conjunct2] by (simp add: add.assoc)
  ultimately show "fp_code k (pc + 4) ops" using assms by (simp add: fp_code_def)
qed

lemma set_reg_same: "ft_regs s ! r = v \<Longrightarrow> set_reg r v s = s"
  by (cases s) (auto simp: set_reg_def)

lemma fpiarm_straight:
  assumes "fp_code k pc ops" and "length ops < fuel" and "length (ft_regs s) = 16" and "ft_regs s ! REGPC = pc"
  shows "fpiarm_loop k higher fuel n s =
    (case fp_exec k higher n pc ops s of
       (Inr _, u) \<Rightarrow> (Inr (n + length ops), u)
     | (Inl e, u) \<Rightarrow> (Inl e, u))"
  using assms
proof (induction ops arbitrary: pc fuel n s)
  case Nil
  then obtain f where "fuel = Suc f" by (cases fuel) auto
  moreover have "set_reg REGPC pc s = s" by (rule set_reg_same [OF Nil.prems(4)])
  moreover have "\<not> is_fpop (fo_instr k (ft_mem s) (ft_regs s ! REGPC))"
    using Nil.prems(1,4) by (simp add: fp_code_def)
  ultimately show ?case by (simp add: fpiarm_stop)
next
  case (Cons op ops)
  note code = fp_code_Cons [OF Cons.prems(1)]
  obtain f where f: "fuel = Suc f" "length ops < f" using Cons.prems(2) by (cases fuel) auto
  have s: "set_reg REGPC pc s = s" by (rule set_reg_same [OF Cons.prems(4)])
  let ?e = "if condok (ft_psr s) (unat (drop_bit 28 op)) then fpemu k pc op else kret ()"
  show ?case
  proof (cases "?e s")
    case (Pair r t)
    show ?thesis
    proof (cases r)
      case (Inl e)
      with Pair code(1,2) Cons.prems(4) s f show ?thesis by (simp add: fpiarm_loop.simps kthen_def kbind_def)
    next
      case (Inr u)
      have sp: "same_pc s t"
        using Pair Inr fpemu_pc [OF _ code(3)] by (auto simp: same_pc_def split: if_splits)
      let ?t = "(set_reg REGPC (pc + 4) t)\<lparr>ft_scheds := ft_scheds t + (if higher n then 1 else 0)\<rparr>"
      have t: "length (ft_regs ?t) = 16" "ft_regs ?t ! REGPC = pc + 4" "ft_regs t ! REGPC = pc"
        using sp Cons.prems(3,4) by (simp_all add: same_pc_def set_reg_def)
      have step: "fpiarm_loop k higher (Suc f) n s = fpiarm_loop k higher f (n + 1) ?t"
      proof -
        have "is_fpop (fo_instr k (ft_mem s) (ft_regs s ! REGPC))" "op = fo_instr k (ft_mem s) (ft_regs s ! REGPC)"
          using code(1,2) Cons.prems(4) by simp_all
        moreover have "(if condok (ft_psr s) (unat (drop_bit 28 op)) then fpemu k (ft_regs s ! REGPC) op else kret ()) s
            = (Inr (), t)"
          using Pair Inr by (auto simp: Cons.prems(4) split: if_splits)
        ultimately show ?thesis
          using fpiarm_step [where op = op and fuel = f and n = n and higher = higher and k = k and s = s and t = t]
          by (simp only: t(3))
      qed
      have "fp_exec k higher n pc (op # ops) s
          = fp_exec k higher (n + 1) (pc + 4) ops (t\<lparr>ft_scheds := ft_scheds t + (if higher n then 1 else 0)\<rparr>)"
        using Pair Inr s by (simp add: kthen_def kbind_def)
      also have "\<dots> = fp_exec k higher (n + 1) (pc + 4) ops ?t"
        by (cases ops) (simp_all add: kthen_def kbind_def set_reg_def)
      finally show ?thesis
        using Cons.IH [OF code(4) f(2) t(1,2), of "n + 1"] step f(1) by (simp split: prod.split sum.split)
    qed
  qed
qed

lemma fp_exec_pc:
  assumes "fp_exec k higher n pc ops s = (Inr (), u)" and "\<forall>op\<in>set ops. keeps_pc op" and "length (ft_regs s) = 16"
  shows "ft_regs u ! REGPC = pc + 4 * of_nat (length ops)"
  using assms
proof (induction ops arbitrary: pc n s)
  case Nil
  then show ?case by (auto simp: set_reg_def)
next
  case (Cons op ops)
  let ?s = "set_reg REGPC pc s"
  from Cons.prems(1) obtain t where
    t: "(if condok (ft_psr ?s) (unat (drop_bit 28 op)) then fpemu k pc op else kret ()) ?s = (Inr (), t)"
    "fp_exec k higher (n + 1) (pc + 4) ops (t\<lparr>ft_scheds := ft_scheds t + (if higher n then 1 else 0)\<rparr>) = (Inr (), u)"
    by (auto simp: kact_Inr_iff split: if_splits)
  have "same_pc ?s t"
    using t(1) fpemu_pc [of k pc op ?s "()" t] Cons.prems(2) by (auto simp: same_pc_def split: if_splits)
  then show ?case
    using Cons.IH [OF t(2)] Cons.prems(2,3) by (simp add: same_pc_def set_reg_def)
qed

text \<open>
  C38: Undefined instructions are emulated.  A process traps on an undefined instruction that is no break
  point, with \<open>ops\<close> the floating point instructions from there on and one that is none behind them.  If
  there is at least one and the emulator knows them all, the handler returns behind the last of them, at
  the address plus 4 for each, with the flags that executing them in order, each at its own address, leaves.
  If the emulator does not know one of them, interpreted code that had interrupts on gets the error that
  names it, everything else a panic.  And if the instruction is no floating point one, interpreted code
  that had interrupts on gets an error and everything else a panic; that error names the trap after the
  address that the emulator stored over the type of the trap.
\<close>

theorem trap_emulates_fp:
  assumes t: "ur_type (tr_ureg s) = PsrMund" "tr_up s = Some p" "256 \<le> tv_rem env"
    and i: "tv_instr env pc \<noteq> BREAK" "pc = ur_pc (tr_ureg s) - 4"
    and e: "tv_fpiarm env = trap_fpiarm k higher fuel after f" "ft_up f" "length (ft_regs f) = 16"
    and c: "fp_code k pc ops" "length ops < fuel"
    and x: "fp_exec k higher 0 pc ops (fp_start (set_reg 13 after (fp_enter (und_ureg s) f))) = (r, u)"
  shows "(ops \<noteq> [] \<and> r = Inr () \<longrightarrow>
      (\<exists>s'. trap env s = (Inr (), s') \<and> tr_up s' = Some p \<and> ur_pc (tr_ureg s') = pc + 4 * of_nat (length ops) \<and>
         ur_psr (tr_ureg s') = ft_psr u \<and> ur_sp (tr_ureg s') = tr_end s)) \<and>
    (\<forall>m. r = Inl (Error m) \<longrightarrow>
      fst (trap env s) = Inl (if waslo (ft_psr u) \<and> pr_interp (tr_procs s p)
        then Error m else Panic ''error in a trap'')) \<and>
    (ops = [] \<longrightarrow>
      fst (trap env s) = Inl (if waslo (ur_psr (tr_ureg s)) \<and> pr_interp (tr_procs s p)
        then Error (Emsg (''sys: trap: '' @ trapname after @ [CHR 0x0A])) else Panic ''error in a trap''))"
proof -
  note ent = trap_entry_und [OF t(1,2)]
  have pc: "ur_pc (und_ureg s) = pc" by (simp add: und_ureg_def i(2))
  let ?f = "fp_start (set_reg 13 after (fp_enter (und_ureg s) f))"
  have f: "length (ft_regs ?f) = 16" "ft_regs ?f ! REGPC = pc" "ft_psr ?f = ur_psr (tr_ureg s)"
    "ft_regs ?f ! 13 = after"
    using e(3) pc by (simp_all add: fp_start_def set_reg_def fp_enter_def und_ureg_def)
  have run: "fpiarm k higher fuel after (fp_enter (und_ureg s) f)
      = (case r of Inr _ \<Rightarrow> (Inr (length ops), u) | Inl e \<Rightarrow> (Inl e, u))"
    using fpiarm_straight [OF c f(1,2), of higher 0] x e(2)
    by (simp add: fpiarm_def set_reg_def fp_enter_def split: sum.split)
  have und: "trap env s = kbind (trap_und env) (\<lambda>end. if end then kmod (\<lambda>s. upd_proc (\<lambda>p. p\<lparr>pr_dbgreg := False\<rparr>) (s\<lparr>tr_spl := Splhi\<rparr>)) else kret ()) (trap_entry s)"
    using t by (simp add: trap_def trap_body_def)
  note unf = trap_und_def e(1) trap_fpiarm_def kcatch_def kbind_def kthen_def pc
  have 1: "\<exists>s'. trap env s = (Inr (), s') \<and> tr_up s' = Some p \<and> tr_ureg s' = fp_leave u (und_ureg s)"
    if "ops \<noteq> []" "r = Inr ()"
    using that ent i(1) run unfolding und by (simp add: unf upd_proc_def)
  have 2: "fst (trap env s) = Inl (if waslo (ft_psr u) \<and> pr_interp (tr_procs s p)
        then Error m else Panic ''error in a trap'')" if "r = Inl (Error m)" for m
    using that ent i(1) run unfolding und
    by (simp add: unf trap_panic_def setpanic_def fp_leave_def)
  have 3: "fst (trap env s) = Inl (if waslo (ur_psr (tr_ureg s)) \<and> pr_interp (tr_procs s p)
        then Error (Emsg (''sys: trap: '' @ trapname after @ [CHR 0x0A])) else Panic ''error in a trap'')"
    if "ops = []"
  proof -
    have u: "u = ?f" "r = Inr ()" using x f(2) that by (auto simp: set_reg_def)
    show ?thesis using that ent i(1) run unfolding und
      by (simp add: unf u f sys_trap_error_def trap_panic_def setpanic_def fp_leave_def)
  qed
  have pcu: "ft_regs u ! REGPC = pc + 4 * of_nat (length ops)" if "r = Inr ()"
    using fp_exec_pc [of k higher 0 pc ops ?f u] x that c(1) f(1) by (simp add: fp_code_def)
  show ?thesis using 1 2 3 pcu by (auto simp: fp_leave_def und_ureg_def)
qed

text \<open>A process at the two instructions of \<open>fpops_sample\<close>, and one at an instruction that is none.\<close>

definition trap_sample :: "u32 \<Rightarrow> unit trapst" where
  "trap_sample pc = \<lparr>tr_intrs = sample_intrs, tr_ureg = \<lparr>ur_type = PsrMund, ur_psr = PsrMsys, ur_pc = pc, ur_sp = 0\<rparr>,
     tr_end = 0x2000, tr_up = Some 0, tr_mproc = None, tr_procs = (\<lambda>_. \<lparr>pr_pc = 0, pr_dbgreg = False, pr_preempted = 0, pr_interp = True\<rparr>),
     tr_spl = Splhi, tr_console = False, tr_preempt = [], tr_scheds = 0\<rparr>"

definition trapenv_sample :: "unit trapenv" where
  "trapenv_sample = \<lparr>tv_run = sample_handler, tv_rem = 1000, tv_instr = fo_instr fpops_sample (), tv_brk = None, tv_catchdbg = None,
     tv_fpiarm = trap_fpiarm fpops_sample (\<lambda>_. False) 3 0x2000 fps_sample\<rparr>"

lemma fp_sample_code: "fp_code fpops_sample 0x1000 [0xEE92F111, 0xCE008103]" "fp_code fpops_sample 0x1008 []"
  by (simp_all add: fp_code_def fpops_sample_def is_fpop_def keeps_pc_def opf_def less_Suc_eq)

lemma fp_sample_exec:
  assumes "length (ft_regs s) = 16"
  shows "\<exists>u. fp_exec fpops_sample (\<lambda>_. False) 0 0x1000 [0xEE92F111, 0xCE008103] s = (Inr (), u)"
proof -
  let ?s = "set_reg REGPC 0x1000 s"
  let ?a = "set_flags (fcmp fpops_sample (FR ?s 2) (FR ?s 1)) ?s"
  let ?b = "set_reg REGPC 0x1004 ?a"
  have a: "fpemu fpops_sample 0x1000 0xEE92F111 ?s = (Inr (), ?a)"
    using fpemu_cmf [OF fpops_sample_instrs(1), of fpops_sample "0x1000" ?s] by simp
  have b: "fpemu fpops_sample 0x1004 0xCE008103 ?b = (Inr (), set_FR 0 (FR ?b 3) ?b)"
    using fpemu_mvf [OF fpops_sample_instrs(2), of fpops_sample "0x1004" ?b] by simp
  show ?thesis using a b by (simp add: kthen_def kbind_def condok_always)
qed

theorem trap_emulates_fp_witness:
  "(\<exists>s'. trap trapenv_sample (trap_sample 0x1004) = (Inr (), s') \<and> ur_pc (tr_ureg s') = 0x1008) \<and>
   fst (trap trapenv_sample (trap_sample 0x100C)) = Inl (Error (Emsg (''sys: trap: Undefined trap'' @ [CHR 0x0A])))"
proof
  have h: "ur_type (tr_ureg (trap_sample q)) = PsrMund" "tr_up (trap_sample q) = Some 0" "256 \<le> tv_rem trapenv_sample"
    "tv_instr trapenv_sample 0x1000 \<noteq> BREAK" "tv_instr trapenv_sample 0x1008 \<noteq> BREAK"
    "tv_fpiarm trapenv_sample = trap_fpiarm fpops_sample (\<lambda>_. False) 3 0x2000 fps_sample" "ft_up fps_sample"
    "length (ft_regs fps_sample) = 16"
    for q by (simp_all add: trap_sample_def trapenv_sample_def fps_sample_def fpops_sample_def BREAK_def)
  have pc: "0x1000 = ur_pc (tr_ureg (trap_sample 0x1004)) - 4" "0x1008 = ur_pc (tr_ureg (trap_sample 0x100C)) - 4"
    by (simp_all add: trap_sample_def)
  let ?f = "\<lambda>q. fp_start (set_reg 13 0x2000 (fp_enter (und_ureg (trap_sample q)) fps_sample))"
  have "length (ft_regs (?f q)) = 16" for q
    using h(8) by (simp add: fp_start_def set_reg_def fp_enter_def)
  from fp_sample_exec [OF this] obtain u where
    u: "fp_exec fpops_sample (\<lambda>_. False) 0 0x1000 [0xEE92F111, 0xCE008103] (?f 0x1004) = (Inr (), u)" by blast
  show "\<exists>s'. trap trapenv_sample (trap_sample 0x1004) = (Inr (), s') \<and> ur_pc (tr_ureg s') = 0x1008"
    using trap_emulates_fp [OF h(1-4) pc(1) h(6-8) fp_sample_code(1) _ u] by auto
  have "waslo (ur_psr (tr_ureg (trap_sample 0x100C)))" "pr_interp (tr_procs (trap_sample 0x100C) 0)"
    by (simp_all add: trap_sample_def waslo_def)
  moreover have "trapname 0x2000 = ''Undefined trap''" by (simp add: trapname_def)
  ultimately show "fst (trap trapenv_sample (trap_sample 0x100C)) = Inl (Error (Emsg (''sys: trap: Undefined trap'' @ [CHR 0x0A])))"
    using trap_emulates_fp [OF h(1-3,5) pc(2) h(6-8) fp_sample_code(2), where r = "Inr ()"] by simp
qed

end
