(* ===== verification/Boot_Intr.thy ===== *)
theory Boot_Intr
  imports Trap_Io "HOL-Library.Multiset"
begin

text \<open>
  The interrupts of the machine: the numbers in \<open>io.h\<close>, and who registers for which of them while the
  kernel \<open>sheeva\<close> starts: the drivers its configuration names, in the phase each of them runs in.
  \<open>intrenable\<close> panics on a vector that is taken; the lemma says that this does not happen, whatever the
  order of the drivers of a phase, and which vectors are served afterwards.
\<close>

section \<open>Numbers\<close>

text \<open>The number of an interrupt is its place in the enumeration.\<close>

definition IRQ0 :: "string list" where
  "IRQ0 =
    [
     ''IRQ0sum'', ''IRQ0bridge'', ''IRQ0h2cdoorbell'', ''IRQ0c2hdoorbell'', ''_IRQ0reserved0'',
     ''IRQ0xor0chan0'', ''IRQ0xor0chan1'', ''IRQ0xor1chan0'', ''IRQ0xor1chan1'', ''IRQ0pex0int'',
     ''_IRQ0reserved1'', ''IRQ0gbe0sum'', ''IRQ0gbe0rx'', ''IRQ0gbe0tx'', ''IRQ0gbe0misc'', ''IRQ0gbe1sum'',
     ''IRQ0gbe1rx'', ''IRQ0gbe1tx'', ''IRQ0gbe1misc'', ''IRQ0usb0'', ''_IRQ0reserved2'', ''IRQ0sata'',
     ''IRQ0crypto'', ''IRQ0spi'', ''IRQ0audio'', ''_IRQ0reserved3'', ''IRQ0ts0'', ''_IRQ0reserved4'',
     ''IRQ0sdio'', ''IRQ0twsi'', ''IRQ0avb'', ''IRQ0tdm'']"

definition IRQ1 :: "string list" where
  "IRQ1 =
    [
     ''_IRQ1reserved0'', ''IRQ1uart0'', ''IRQ1uart1'', ''IRQ1gpiolo0'', ''IRQ1gpiolo1'', ''IRQ1gpiolo2'',
     ''IRQ1gpiolo3'', ''IRQ1gpiohi0'', ''IRQ1gpiohi1'', ''IRQ1gpiohi2'', ''IRQ1xor0err'', ''IRQ1xor1err'',
     ''IRQ1pex0err'', ''_IRQ1reserved1'', ''IRQ1gbe0err'', ''IRQ1gbe1err'', ''IRQ1usberr'',
     ''IRQ1cryptoerr'', ''IRQ1audioerr'', ''_IRQ1reserved2'', ''_IRQ1reserved3'', ''IRQ1rtc'']"

fun irq_index :: "string list \<Rightarrow> string \<Rightarrow> nat" where
  "irq_index [] n = 0"
| "irq_index (x # xs) n = (if x = n then 0 else 1 + irq_index xs n)"

section \<open>Registrations\<close>

text \<open>One call of \<open>intrenable\<close>: the table, the number, the function with its argument, and the name.\<close>

type_synonym reg = "sort \<times> nat \<times> string \<times> nat \<times> string"

definition sata_intr :: reg where
  "sata_intr = (Irqlo, irq_index IRQ0 ''IRQ0sata'', ''sataintr'', 0, ''sata'')"

definition sdio_intr :: reg where
  "sdio_intr = (Irqlo, irq_index IRQ0 ''IRQ0sdio'', ''sdiointr'', 0, ''sdio'')"

definition clock_intr :: reg where
  "clock_intr = (Irqbridge, IRQcputimer0, ''clockintr'', 0, ''timer0'')"

definition uart_intr :: reg where
  "uart_intr = (Irqhi, irq_index IRQ1 ''IRQ1uart0'', ''kw_intr'', 1, ''eia0'')"

text \<open>\<open>ether->itype\<close> and \<open>ether->irq\<close> are what \<open>archether\<close> stores.\<close>

definition ether_intr :: reg where
  "ether_intr = (Irqlo, irq_index IRQ0 ''IRQ0gbe0sum'', ''interrupt'', 1, ''ether0'')"

definition cesa_intrs :: "reg list" where
  "cesa_intrs =
     [(Irqlo, irq_index IRQ0 ''IRQ0crypto'', ''cryptintr'', 0, ''crypto''),
      (Irqhi, irq_index IRQ1 ''IRQ1cryptoerr'', ''crypterrintr'', 0, ''cryptoerr'')]"

text \<open>The arguments are the addresses of the ports 0 and 2, from one.\<close>

definition xor_intrs :: "reg list" where
  "xor_intrs =
     [(Irqlo, irq_index IRQ0 ''IRQ0xor0chan0'', ''xorintr'', 1, ''xore0p0''),
      (Irqlo, irq_index IRQ0 ''IRQ0xor0chan1'', ''xorintr'', 1, ''xore0p1''),
      (Irqlo, irq_index IRQ0 ''IRQ0xor1chan0'', ''xorintr'', 3, ''xore1p0''),
      (Irqlo, irq_index IRQ0 ''IRQ0xor1chan1'', ''xorintr'', 3, ''xore1p1''),
      (Irqhi, irq_index IRQ1 ''IRQ1xor0err'', ''xorintrerror'', 0, ''xorerr0''),
      (Irqhi, irq_index IRQ1 ''IRQ1xor1err'', ''xorintrerror'', 0, ''xorerr1'')]"

text \<open>
  A driver that starts either registers or takes a registration back.  \<open>kwsdiolink\<close> only takes back, through
  \<open>sdioreset\<close>; the card's driver registers later, in \<open>sdioinit0\<close>, when \<open>init0\<close> has started the devices.
\<close>

datatype intr_op = On reg | Off reg

definition link_ops :: "string \<Rightarrow> intr_op list" where
  "link_ops n =
     (if n = ''xor'' then map On xor_intrs
      else if n = ''kwsdio'' then [Off sdio_intr]
      else if n = ''cesa'' then map On cesa_intrs
      else [])"

definition dev_ops :: "string \<Rightarrow> intr_op list" where
  "dev_ops n =
     (if n = ''uart'' then [On uart_intr]
      else if n = ''ether'' then [On ether_intr]
      else if n = ''sata'' then [On sata_intr]
      else [])"

text \<open>The sections \<open>dev\<close> and \<open>link\<close> of the configuration; \<open>cesa\<close>, \<open>flashnand\<close> and \<open>sdio\<close> are commented out.\<close>

definition conf_devs :: "string list" where
  "conf_devs = [''root'', ''cons'', ''env'', ''indir'', ''mnt'', ''pipe'', ''prog'', ''srv'', ''dup'', ''uart'',
     ''rtc'', ''ssl'', ''cap'', ''ip'', ''ether'', ''boot'', ''flash'', ''ftl'', ''sheeva'', ''efuse'', ''sata'',
     ''bs'']"

definition conf_links :: "string list" where
  "conf_links = [''ethermedium'', ''etherkirkwood'', ''xor'', ''kwnand'', ''kwsdio'']"

definition register :: "nat \<Rightarrow> reg \<Rightarrow> (string intrs, unit) kact" where
  "register k = (\<lambda>(b, v, f, a, n). intrenable k b v f a n)"

definition unregister :: "reg \<Rightarrow> (string intrs, unit) kact" where
  "unregister = (\<lambda>(b, v, f, a, n). kthen (intrdisable b v f a n) (kret ()))"

definition intr_op :: "nat \<Rightarrow> intr_op \<Rightarrow> (string intrs, unit) kact" where
  "intr_op k x = (case x of On r \<Rightarrow> register k r | Off r \<Rightarrow> unregister r)"

text \<open>\<open>trapinit\<close>, the clock, and then the links and the devices; \<open>k\<close> is \<open>KNAMELEN\<close>.\<close>

definition boot_intrs :: "nat \<Rightarrow> string list \<Rightarrow> string list \<Rightarrow> (string intrs, unit) kact" where
  "boot_intrs k links devs =
     kthen (trapinit k ''intrhi'' ''intrbridge'')
     (kthen (register k clock_intr)
     (kthen (kfor (concat (map link_ops links)) (intr_op k))
       (kfor (concat (map dev_ops devs)) (intr_op k))))"

text \<open>Who has registered when the kernel \<open>sheeva\<close> has started.\<close>

definition boot_regs :: "reg list" where
  "boot_regs = [clock_intr, uart_intr, ether_intr, sata_intr] @ xor_intrs"

section \<open>What a registration does\<close>

definition vec :: "sort \<Rightarrow> nat \<Rightarrow> 'f intrs \<Rightarrow> 'f handler" where
  "vec b v s = ib_vec (bank b s) ! v"

definition enabled :: "sort \<Rightarrow> nat \<Rightarrow> 'f intrs \<Rightarrow> bool" where
  "enabled b v s = bit (ib_mask (bank b s)) v"

definition tables :: "'f intrs \<Rightarrow> bool" where
  "tables s \<longleftrightarrow> \<not> in_lock s \<and> (\<forall>b. length (ib_vec (bank b s)) = 32)"

lemma bank_set_bank: "bank b (set_bank c x s) = (if b = c then x else bank b s)"
  by (cases b; cases c) (simp_all add: bank_def set_bank_def)

lemma in_lock_simps [simp]: "in_lock (set_bank b x s) = in_lock s" "in_lock (put_irqlock l s) = l"
  by (cases b) (simp_all add: set_bank_def put_irqlock_def)

lemma intrenable_run:
  assumes "tables s" "v < 32" "h_r (vec b v s) = None"
  shows "\<exists>s'. intrenable k b v f a n s = (Inr (), s') \<and> tables s' \<and>
     (\<forall>c w. w < 32 \<longrightarrow> vec c w s' = (if c = b \<and> w = v then \<lparr>h_r = Some f, h_a = a, h_name = take (k - 1) n\<rparr> else vec c w s)) \<and>
     (\<forall>c w. w < 32 \<longrightarrow> enabled c w s' = (c = b \<and> w = v \<or> enabled c w s))"
proof -
  let ?h = "\<lparr>h_r = Some f, h_a = a, h_name = take (k - 1) n\<rparr>"
  let ?t = "put_irqlock False (intrunmask b v (set_vec b v ?h (put_irqlock True s)))"
  have run: "intrenable k b v f a n s = (Inr (), ?t)"
    using assms by (simp add: intrenable_def with_ilock_def kthen_def kbind_def ilock_def iunlock_def tables_def intrset_def vec_def)
  have bk: "bank c ?t = (if c = b then (bank b s)\<lparr>ib_vec := (ib_vec (bank b s))[v := ?h], ib_mask := ib_mask (bank b s) OR ibit v\<rparr> else bank c s)" for c
    by (simp add: intrunmask_def set_vec_def bank_set_bank)
  have t1: "tables ?t" using assms(1) unfolding tables_def bk by (auto simp: put_irqlock_def)
  have t2: "vec c w ?t = (if c = b \<and> w = v then ?h else vec c w s)" if "w < 32" for c w
    using assms(1,2) that unfolding vec_def bk by (auto simp: tables_def nth_list_update)
  have t3: "enabled c w ?t = (c = b \<and> w = v \<or> enabled c w s)" if "w < 32" for c w
    using that unfolding enabled_def bk by (auto simp: bit_or_iff ibit_def bit_simps)
  show ?thesis by (intro exI [of _ ?t] conjI allI impI run t1 t2 t3)
qed

text \<open>Taking a registration back masks the vector, whoever has it.\<close>

lemma intrdisable_run:
  assumes "tables s" "v < 32"
  shows "\<exists>s'. intrdisable b v f a n s = (Inr 0, s') \<and> tables s' \<and>
     (\<forall>c w. w < 32 \<longrightarrow> vec c w s' = (if c = b \<and> w = v then intrdel f a n (vec b v s) else vec c w s)) \<and>
     (\<forall>c w. w < 32 \<longrightarrow> enabled c w s' = (enabled c w s \<and> \<not> (c = b \<and> w = v)))"
proof -
  define h where "h = intrdel f a n (vec b v s)"
  let ?t = "put_irqlock False (intrmask b v (set_vec b v h (put_irqlock True s)))"
  have run: "intrdisable b v f a n s = (Inr 0, ?t)"
    using assms by (simp add: intrdisable_def with_ilock_def kthen_def kbind_def ilock_def iunlock_def tables_def
        vec_def h_def)
  have bk: "bank c ?t = (if c = b then (bank b s)\<lparr>ib_vec := (ib_vec (bank b s))[v := h], ib_mask := ib_mask (bank b s) AND NOT (ibit v)\<rparr> else bank c s)" for c
    by (simp add: intrmask_def set_vec_def bank_set_bank)
  have t1: "tables ?t" using assms(1) unfolding tables_def bk by (auto simp: put_irqlock_def)
  have t2: "vec c w ?t = (if c = b \<and> w = v then h else vec c w s)" if "w < 32" for c w
    using assms(1,2) that unfolding vec_def bk by (auto simp: tables_def nth_list_update)
  have t3: "enabled c w ?t = (enabled c w s \<and> \<not> (c = b \<and> w = v))" if "w < 32" for c w
    using that unfolding enabled_def bk by (auto simp: bit_simps ibit_def)
  show ?thesis unfolding h_def [symmetric] by (intro exI [of _ ?t] conjI allI impI run t1 t2 t3)
qed

text \<open>
  A list of both, where the vectors registered for are different and free and the others are free and stay
  so.
\<close>

definition slot :: "reg \<Rightarrow> sort \<times> nat" where "slot r = (fst r, fst (snd r))"

primrec ons :: "intr_op \<Rightarrow> reg list" where
  "ons (On r) = [r]"
| "ons (Off r) = []"

primrec offs :: "intr_op \<Rightarrow> reg list" where
  "offs (On r) = []"
| "offs (Off r) = [r]"

definition free_slot :: "string intrs \<Rightarrow> reg \<Rightarrow> bool" where
  "free_slot s d \<longleftrightarrow> snd (slot d) < 32 \<and> h_r (vec (fst (slot d)) (snd (slot d)) s) = None"

lemma ops_all:
  assumes "tables s" and "distinct (map slot (concat (map ons xs)))"
    and "slot ` set (concat (map ons xs)) \<inter> slot ` set (concat (map offs xs)) = {}"
    and "\<forall>d\<in>set (concat (map ons xs)) \<union> set (concat (map offs xs)). free_slot s d"
  shows "\<exists>s'. kfor xs (intr_op k) s = (Inr (), s') \<and> tables s' \<and>
     (\<forall>(b, v, f, a, n)\<in>set (concat (map ons xs)). vec b v s' = \<lparr>h_r = Some f, h_a = a, h_name = take (k - 1) n\<rparr>) \<and>
     (\<forall>b v. v < 32 \<longrightarrow> (b, v) \<notin> slot ` set (concat (map ons xs)) \<longrightarrow> vec b v s' = vec b v s) \<and>
     (\<forall>b v. v < 32 \<longrightarrow> enabled b v s' =
        ((b, v) \<in> slot ` set (concat (map ons xs)) \<or>
         enabled b v s \<and> (b, v) \<notin> slot ` set (concat (map offs xs))))"
  using assms
proof (induction xs arbitrary: s)
  case (Cons x xs)
  note IH = Cons.IH
  show ?case
  proof (cases x)
    case (On d)
    obtain b v f a n where d: "d = (b, v, f, a, n)" by (metis prod.collapse)
    have v: "v < 32" "h_r (vec b v s) = None"
      using Cons.prems(4) by (auto simp: On d slot_def free_slot_def)
    obtain t where t: "intrenable k b v f a n s = (Inr (), t)" "tables t"
      and vt: "\<And>c w. w < 32 \<Longrightarrow> vec c w t = (if c = b \<and> w = v then \<lparr>h_r = Some f, h_a = a, h_name = take (k - 1) n\<rparr> else vec c w s)"
      and et: "\<And>c w. w < 32 \<Longrightarrow> enabled c w t = (c = b \<and> w = v \<or> enabled c w s)"
      using intrenable_run [OF Cons.prems(1) v, of k f a n] by blast
    have nd: "(b, v) \<notin> slot ` set (concat (map ons xs))" "(b, v) \<notin> slot ` set (concat (map offs xs))"
      using Cons.prems(2,3) by (auto simp: On d slot_def)
    have fr: "\<forall>e\<in>set (concat (map ons xs)) \<union> set (concat (map offs xs)). free_slot t e"
    proof
      fix e assume e: "e \<in> set (concat (map ons xs)) \<union> set (concat (map offs xs))"
      then have "slot e \<noteq> (b, v)" using nd by (metis UnE image_eqI)
      moreover have "free_slot s e" using Cons.prems(4) e by (auto simp: On)
      ultimately show "free_slot t e" using vt by (cases "slot e") (auto simp: free_slot_def)
    qed
    from IH [OF t(2) _ _ fr] Cons.prems(2,3)
    obtain s' where s': "kfor xs (intr_op k) t = (Inr (), s')" "tables s'"
      "\<forall>(b, v, f, a, n)\<in>set (concat (map ons xs)). vec b v s' = \<lparr>h_r = Some f, h_a = a, h_name = take (k - 1) n\<rparr>"
      "\<forall>b v. v < 32 \<longrightarrow> (b, v) \<notin> slot ` set (concat (map ons xs)) \<longrightarrow> vec b v s' = vec b v t"
      "\<forall>b v. v < 32 \<longrightarrow> enabled b v s' = ((b, v) \<in> slot ` set (concat (map ons xs)) \<or>
         enabled b v t \<and> (b, v) \<notin> slot ` set (concat (map offs xs)))" by (auto simp: On)
    have "kfor (x # xs) (intr_op k) s = (Inr (), s')"
      using t(1) s'(1) by (simp add: intr_op_def register_def On d kthen_Inr)
    moreover have "vec b v s' = \<lparr>h_r = Some f, h_a = a, h_name = take (k - 1) n\<rparr>" using s'(4) nd v vt by simp
    ultimately show ?thesis using s' vt et v nd
      by (intro exI [of _ s']) (auto simp: On d slot_def [of "(b, v, f, a, n)"])
  next
    case (Off d)
    obtain b v f a n where d: "d = (b, v, f, a, n)" by (metis prod.collapse)
    have v: "v < 32" "h_r (vec b v s) = None"
      using Cons.prems(4) by (auto simp: Off d slot_def free_slot_def)
    obtain t where t: "intrdisable b v f a n s = (Inr 0, t)" "tables t"
      and vt: "\<And>c w. w < 32 \<Longrightarrow> vec c w t = vec c w s"
      and et: "\<And>c w. w < 32 \<Longrightarrow> enabled c w t = (enabled c w s \<and> \<not> (c = b \<and> w = v))"
      using intrdisable_run [OF Cons.prems(1) v(1), of b f a n] v(2) by (auto simp: intrdel_def)
    have "\<forall>e\<in>set (concat (map ons xs)) \<union> set (concat (map offs xs)). free_slot t e"
      using Cons.prems(4) vt by (auto simp: Off free_slot_def)
    from IH [OF t(2) _ _ this] Cons.prems(2,3)
    obtain s' where s': "kfor xs (intr_op k) t = (Inr (), s')" "tables s'"
      "\<forall>(b, v, f, a, n)\<in>set (concat (map ons xs)). vec b v s' = \<lparr>h_r = Some f, h_a = a, h_name = take (k - 1) n\<rparr>"
      "\<forall>b v. v < 32 \<longrightarrow> (b, v) \<notin> slot ` set (concat (map ons xs)) \<longrightarrow> vec b v s' = vec b v t"
      "\<forall>b v. v < 32 \<longrightarrow> enabled b v s' = ((b, v) \<in> slot ` set (concat (map ons xs)) \<or>
         enabled b v t \<and> (b, v) \<notin> slot ` set (concat (map offs xs)))" by (auto simp: Off)
    have "kfor (x # xs) (intr_op k) s = (Inr (), s')"
      using t(1) s'(1) by (simp add: intr_op_def unregister_def Off d kthen_Inr)
    then show ?thesis using s' vt et
      by (intro exI [of _ s']) (auto simp: Off d slot_def [of "(b, v, f, a, n)"])
  qed
qed (auto simp: vec_def)

section \<open>The interrupts after the start\<close>

lemma trapinit_run:
  assumes "\<not> in_lock s"
  shows "\<exists>s'. trapinit k hi br s = (Inr (), s') \<and> tables s' \<and>
    (\<forall>b v. v < 32 \<longrightarrow> enabled b v s' = ((b, v) \<in> {(Irqlo, 0), (Irqlo, 1)}) \<and>
       h_r (vec b v s') = (if (b, v) = (Irqlo, 0) then Some hi else if (b, v) = (Irqlo, 1) then Some br else None))"
proof -
  let ?c = "\<lambda>x. x\<lparr>ib_vec := replicate 32 intrunset, ib_mask := 0\<rparr>"
  let ?s = "irq_write Irqbridge (- 1) (irq_write Irqhi (- 1) (irq_write Irqlo (- 1)
    (s\<lparr>in_lo := ?c (in_lo s), in_hi := ?c (in_hi s), in_bridge := ?c (in_bridge s), in_other := [0, 0, 0, 0]\<rparr>)))"
  have b: "bank b ?s = ?c (bank b s)" for b
    by (cases b) (simp_all add: irq_write_def bank_def set_bank_def)
  have t0: "tables ?s" using assms unfolding tables_def b by (simp add: irq_write_def)
  have v0: "vec b v ?s = intrunset" "\<not> enabled b v ?s" if "v < 32" for b v
    using that unfolding vec_def enabled_def b by simp_all
  obtain t where t: "intrenable k Irqlo 0 hi 0 ''hi'' ?s = (Inr (), t)" "tables t"
    "\<And>c w. w < 32 \<Longrightarrow> vec c w t = (if c = Irqlo \<and> w = 0 then \<lparr>h_r = Some hi, h_a = 0, h_name = take (k - 1) ''hi''\<rparr> else vec c w ?s)"
    "\<And>c w. w < 32 \<Longrightarrow> enabled c w t = (c = Irqlo \<and> w = 0 \<or> enabled c w ?s)"
    using intrenable_run [OF t0, of 0 Irqlo k hi 0 "''hi''"] v0 by (auto simp: intrunset_def)
  obtain u where u: "intrenable k Irqlo 1 br 0 ''bridge'' t = (Inr (), u)" "tables u"
    "\<And>c w. w < 32 \<Longrightarrow> vec c w u = (if c = Irqlo \<and> w = 1 then \<lparr>h_r = Some br, h_a = 0, h_name = take (k - 1) ''bridge''\<rparr> else vec c w t)"
    "\<And>c w. w < 32 \<Longrightarrow> enabled c w u = (c = Irqlo \<and> w = 1 \<or> enabled c w t)"
    using intrenable_run [OF t(2), of 1 Irqlo k br 0 "''bridge''"] t(3) v0 by (auto simp: intrunset_def)
  have "trapinit k hi br s = (Inr (), u)"
    using t(1) u(1) by (simp add: trapinit_def Let_def kthen_Inr)
  with u t v0 show ?thesis by (intro exI [of _ u]) (auto simp: intrunset_def)
qed

lemma kfor_append: "kfor (xs @ ys) f s = kthen (kfor xs f) (kfor ys f) s"
  by (induction xs arbitrary: s) (simp_all add: kthen_def kbind_def split: prod.split sum.split)

lemma mset_concat_map: "mset (concat (map f xs)) = \<Sum>\<^sub># (image_mset (\<lambda>x. mset (f x)) (mset xs))"
  by (induction xs) simp_all

lemma perm_concat_map: "mset xs = mset ys \<Longrightarrow> mset (concat (map f xs)) = mset (concat (map f ys))"
  by (simp only: mset_concat_map)

text \<open>
  Every driver gets its interrupt.  When the tables are set up and the clock, the links and the devices of the
  kernel \<open>sheeva\<close> start, the drivers of each phase in any order, no vector is taken twice, so that no call
  panics; each vector has its driver's function, argument and name and is unmasked, and every vector nobody
  registered for is masked, that of the card among them, which nobody has.
\<close>

lemma boot_interrupts:
  assumes "\<not> in_lock s" and "mset links = mset conf_links" and "mset devs = mset conf_devs"
  shows "\<exists>s'. boot_intrs k links devs s = (Inr (), s') \<and> tables s' \<and>
    (\<forall>(b, v, f, a, n)\<in>set boot_regs. ib_vec (bank b s') ! v = \<lparr>h_r = Some f, h_a = a, h_name = take (k - 1) n\<rparr>) \<and>
    (\<forall>b v. v < 32 \<longrightarrow> bit (ib_mask (bank b s')) v =
       ((b, v) \<in> {(Irqlo, 0), (Irqlo, 1)} \<or> (\<exists>f a n. (b, v, f, a, n) \<in> set boot_regs))) \<and>
    h_r (ib_vec (bank Irqlo s') ! 28) = None"
proof -
  let ?ops = "On clock_intr # concat (map link_ops links) @ concat (map dev_ops devs)"
  let ?conf = "On clock_intr # concat (map link_ops conf_links) @ concat (map dev_ops conf_devs)"
  have ops: "mset ?ops = mset ?conf"
    using perm_concat_map [OF assms(2), of link_ops] perm_concat_map [OF assms(3), of dev_ops] by simp
  note ms = perm_concat_map [OF ops]
  have c: "concat (map ons ?conf) = clock_intr # xor_intrs @ [uart_intr, ether_intr, sata_intr]"
    "concat (map offs ?conf) = [sdio_intr]"
    by (simp_all add: conf_links_def conf_devs_def link_ops_def dev_ops_def xor_intrs_def)
  have set: "set (concat (map ons ?ops)) = set boot_regs"
    using mset_eq_setD [OF ms [of ons]] unfolding c by (auto simp: boot_regs_def)
  have off: "set (concat (map offs ?ops)) = {sdio_intr}"
    using mset_eq_setD [OF ms [of offs]] unfolding c by simp
  note regs = boot_regs_def slot_def clock_intr_def uart_intr_def ether_intr_def sata_intr_def sdio_intr_def
    xor_intrs_def IRQ0_def IRQ1_def
  have "distinct (map slot (concat (map ons ?conf)))" unfolding c by (simp add: regs)
  moreover have "mset (map slot (concat (map ons ?ops))) = mset (map slot (concat (map ons ?conf)))"
    using ms [of ons] by (simp only: mset_map)
  ultimately have dist: "distinct (map slot (concat (map ons ?ops)))" by (metis mset_eq_imp_distinct_iff)
  have range: "\<forall>d\<in>insert sdio_intr (set boot_regs). snd (slot d) < 32 \<and> slot d \<noteq> (Irqlo, 0) \<and> slot d \<noteq> (Irqlo, 1)"
    by (simp add: regs)
  have apart: "slot ` set (concat (map ons ?ops)) \<inter> slot ` set (concat (map offs ?ops)) = {}"
    unfolding set off by (simp add: regs)
  obtain t where t: "trapinit k ''intrhi'' ''intrbridge'' s = (Inr (), t)" "tables t"
    and tv: "\<And>b v. v < 32 \<Longrightarrow> enabled b v t = ((b, v) \<in> {(Irqlo, 0), (Irqlo, 1)}) \<and>
       h_r (vec b v t) = (if (b, v) = (Irqlo, 0) then Some ''intrhi'' else if (b, v) = (Irqlo, 1) then Some ''intrbridge'' else None)"
    using trapinit_run [OF assms(1), of k "''intrhi''" "''intrbridge''"] by blast
  have free: "\<forall>d\<in>set (concat (map ons ?ops)) \<union> set (concat (map offs ?ops)). free_slot t d"
  proof
    fix d assume "d \<in> set (concat (map ons ?ops)) \<union> set (concat (map offs ?ops))"
    then have d: "snd (slot d) < 32" "slot d \<noteq> (Irqlo, 0)" "slot d \<noteq> (Irqlo, 1)"
      using range unfolding set off by blast+
    show "free_slot t d"
      using tv [OF d(1), of "fst (slot d)"] d unfolding prod.collapse free_slot_def by simp
  qed
  from ops_all [OF t(2) dist apart free, of k, unfolded set off]
  obtain s' where s': "kfor ?ops (intr_op k) t = (Inr (), s')" "tables s'"
    "\<forall>(b, v, f, a, n)\<in>set boot_regs. vec b v s' = \<lparr>h_r = Some f, h_a = a, h_name = take (k - 1) n\<rparr>"
    "\<forall>b v. v < 32 \<longrightarrow> (b, v) \<notin> slot ` set boot_regs \<longrightarrow> vec b v s' = vec b v t"
    "\<forall>b v. v < 32 \<longrightarrow> enabled b v s' = ((b, v) \<in> slot ` set boot_regs \<or> enabled b v t \<and> (b, v) \<notin> slot ` {sdio_intr})"
    by blast
  have sd: "slot sdio_intr = (Irqlo, 28)" "(Irqlo, 28) \<notin> slot ` set boot_regs" by (simp_all add: regs)
  have im: "(b, v) \<in> slot ` set boot_regs \<longleftrightarrow> (\<exists>f a n. (b, v, f, a, n) \<in> set boot_regs)" for b v
    by (force simp: slot_def image_iff)
  have "boot_intrs k links devs s = (Inr (), s')"
    using t(1) s'(1) by (simp add: boot_intrs_def intr_op_def kthen_Inr kfor_append kthen_def kbind_def split: prod.splits sum.splits)
  moreover have "bit (ib_mask (bank b s')) v =
       ((b, v) \<in> {(Irqlo, 0), (Irqlo, 1)} \<or> (\<exists>f a n. (b, v, f, a, n) \<in> set boot_regs))" if "v < 32" for b v
    using s'(5) tv that im [of b v] sd unfolding enabled_def by auto
  moreover have "h_r (ib_vec (bank Irqlo s') ! 28) = None"
    using s'(4) sd(2) tv [of 28 Irqlo] unfolding vec_def by simp
  ultimately show ?thesis using s'(2,3) unfolding vec_def by blast
qed

text \<open>
  When the card's driver is initialised afterwards, as often as it may be, its interrupt is taken back and
  registered again, and no call panics.
\<close>

lemma sdio_registers:
  assumes "tables s" and "h_r (vec Irqlo 28 s) = None \<or> vec Irqlo 28 s = \<lparr>h_r = Some ''sdiointr'', h_a = 0, h_name = ''sdio''\<rparr>"
    and "5 \<le> k"
  shows "\<exists>s'. kthen (unregister sdio_intr) (register k sdio_intr) s = (Inr (), s') \<and> tables s' \<and>
    vec Irqlo 28 s' = \<lparr>h_r = Some ''sdiointr'', h_a = 0, h_name = ''sdio''\<rparr> \<and> enabled Irqlo 28 s'"
proof -
  have sd: "sdio_intr = (Irqlo, 28, ''sdiointr'', 0, ''sdio'')" by (simp add: sdio_intr_def IRQ0_def)
  obtain t where t: "intrdisable Irqlo 28 ''sdiointr'' 0 ''sdio'' s = (Inr 0, t)" "tables t"
    "vec Irqlo 28 t = intrdel ''sdiointr'' 0 ''sdio'' (vec Irqlo 28 s)"
    using intrdisable_run [OF assms(1), of 28 Irqlo "''sdiointr''" 0 "''sdio''"] by auto
  have v: "h_r (vec Irqlo 28 t) = None" using assms(2) t(3) by (auto simp: intrdel_def intrunset_def)
  have n: "take (k - 1) ''sdio'' = ''sdio''" using assms(3) by simp
  show ?thesis
    using t(1) intrenable_run [OF t(2) _ v, of k "''sdiointr''" 0 "''sdio''"] n
    by (auto simp: kthen_Inr_iff unregister_def register_def sd)
qed

definition blank_intrs :: "string intrs" where
  "blank_intrs =
     (let b = \<lparr>ib_irq = 0, ib_mask = 7, ib_vec = []\<rparr> in
      \<lparr>in_lo = b, in_hi = b, in_bridge = b, in_lock = False, in_other = [], in_ticks = 0\<rparr>)"

end
