(* ===== verification/Boot_Main.thy ===== *)
theory Boot_Main
  imports Boot_Io Boot_Intr
begin

text \<open>
  The start of the kernel as a whole: \<open>main\<close> of \<open>main.c\<close> with the state of the components it starts, and
  the first process.  The portable kernel's \<open>xinit\<close>, \<open>poolinit\<close>, \<open>printinit\<close> and \<open>procinit\<close> have no
  part in this state; \<open>newproc\<close>, \<open>xspanalloc\<close> and the linker's symbols are parameters.  The theorem
  composes those of the page table, the command line and the interrupts.
\<close>

section \<open>State\<close>

text \<open>The first process: \<open>text\<close>, \<open>user\<close>, \<open>fpstate\<close>, and the label it starts from.\<close>

record uproc =
  up_text :: string
  up_user :: string
  up_fpstate :: string
  up_pc :: string
  up_sp :: u32

record boot =
  bt_mem :: memory
  bt_cp :: cp15
  bt_csr :: cpucsreg
  bt_sizes :: "confsizes \<times> mach"
  bt_tbl :: "u32 list"             \<comment> \<open>the page table\<close>
  bt_pools :: "(string \<times> int \<times> bool) list"
  bt_conf :: conf
  bt_r13 :: "u32 \<Rightarrow> u32"           \<comment> \<open>the stack pointers of the modes\<close>
  bt_page0 :: vectorpage
  bt_intrs :: "string intrs"
  bt_timer :: "u32 \<times> u32 \<times> u32"
  bt_clock :: "string clock"
  bt_eve :: string
  bt_out :: string                 \<comment> \<open>what was printed\<close>
  bt_ready :: "uproc list"
  bt_sched :: bool                 \<comment> \<open>the scheduler runs\<close>

text \<open>What \<open>main\<close> finds: symbols of the linker, shares of the pools, registers it only reads, the memory it is given.\<close>

record bootenv =
  be_edata :: u32
  be_end :: u32
  be_pcnt :: "u32 \<times> u32 \<times> u32"     \<comment> \<open>main, heap, image\<close>
  be_devid :: u32
  be_xspan :: "u32 option"
  be_fuel :: nat
  be_knamelen :: nat
  be_vectors :: "u32 list"
  be_vtable :: "u32 list"
  be_links :: "string list"        \<comment> \<open>the links, in the order in which \<open>links\<close> runs them\<close>
  be_devs :: "string list"         \<comment> \<open>the devices, in the order in which \<open>chandevreset\<close> resets them\<close>
  be_cpuid :: u32
  be_cache :: u32
  be_version :: string
  be_conffile :: string
  be_kerndate :: u32
  be_cflag :: int
  be_kstack :: u32

abbreviation MACHADDR :: u32 where "MACHADDR \<equiv> 0x1000"

text \<open>An action on a part of the state.\<close>

definition kon :: "('s \<Rightarrow> 't) \<Rightarrow> ('t \<Rightarrow> 's \<Rightarrow> 's) \<Rightarrow> ('t, 'a) kact \<Rightarrow> ('s, 'a) kact" where
  "kon get put act s = (case act (get s) of (r, t) \<Rightarrow> (r, put t s))"

definition put_intrs :: "string intrs \<Rightarrow> boot \<Rightarrow> boot" where
  "put_intrs x s = s\<lparr>bt_intrs := x\<rparr>"

definition put_cp :: "cp15 \<Rightarrow> boot \<Rightarrow> boot" where
  "put_cp x s = s\<lparr>bt_cp := x\<rparr>"

definition say :: "string \<Rightarrow> (boot, unit) kact" where
  "say t = kmod (\<lambda>s. s\<lparr>bt_out := bt_out s @ t\<rparr>)"

text \<open>\<open>memset(a, 0, n)\<close>.\<close>

definition memclear :: "u32 \<Rightarrow> u32 \<Rightarrow> memory \<Rightarrow> memory" where
  "memclear a n m x = (if x - a < n then 0 else m x)"

section \<open>The first process\<close>

definition userinit :: "u32 \<Rightarrow> (boot, unit) kact" where
  "userinit kstack =
     kmod (\<lambda>s. s\<lparr>bt_ready := bt_ready s @
       [\<lparr>up_text = ''interp'', up_user = bt_eve s, up_fpstate = ''FPINIT'', up_pc = ''init0'', up_sp = kstack + 8192 - 8\<rparr>]\<rparr>)"

record initst =
  is_spl :: spl
  is_slash :: "string option"      \<comment> \<open>the name of \<open>pgrp->slash\<close>\<close>
  is_dot :: "string option"
  is_env :: "string \<rightharpoonup> string"
  is_started :: "string option"    \<comment> \<open>the module the interpreter runs\<close>

text \<open>
  \<open>namec\<close>, \<open>chandevinit\<close> and \<open>ksetenv\<close> of the portable kernel are parameters; \<open>k\<close> is \<open>KNAMELEN\<close>.  An error
  while the variables are set is ignored, any other one is a panic.
\<close>

definition init0 :: "exn + unit \<Rightarrow> (initst, unit) kact \<Rightarrow> (string \<Rightarrow> string \<Rightarrow> (initst, unit) kact) \<Rightarrow> nat \<Rightarrow> string \<Rightarrow>
    (initst, unit) kact" where
  "init0 namec chandevinit ksetenv k conffile =
     kthen (kmod (\<lambda>s. s\<lparr>is_spl := Spllo\<rparr>))
     (kthen
       (kcatch
         (kthen (klift namec)
         (kthen (kmod (\<lambda>s. s\<lparr>is_slash := Some ''/''\<rparr>))
         (kthen (kmod (\<lambda>s. s\<lparr>is_dot := is_slash s\<rparr>))
         (kthen chandevinit
         (kcatch
           (kthen (ksetenv ''cputype'' ''arm'')
             (ksetenv ''terminal'' (take (2 * k - 1) (''arm '' @ conffile))))
           (\<lambda>e. kret ()))))))
         (\<lambda>e. kraise (Panic ''init0'')))
     (kmod (\<lambda>s. s\<lparr>is_started := Some ''/osinit.dis''\<rparr>)))"

text \<open>Where a kernel process starts: \<open>func\<close> is what its function does; an error it does not catch is printed.\<close>

record 's linkst =
  lp_st :: 's
  lp_out :: string
  lp_exit :: "(string \<times> bool) option"  \<comment> \<open>the arguments of \<open>pexit\<close>\<close>

definition linkproc :: "(kerr \<Rightarrow> string) \<Rightarrow> ('s linkst, unit) kact \<Rightarrow> ('s linkst, unit) kact" where
  "linkproc errstr func =
     kthen (kcatch func (\<lambda>e. kmod (\<lambda>s. s\<lparr>lp_out := lp_out s @ ''error() underflow: '' @ errstr e @ [CHR 0x0A]\<rparr>)))
       (kmod (\<lambda>s. s\<lparr>lp_exit := Some (''end proc'', True)\<rparr>))"

text \<open>The processor stops; and it sleeps, the memory refreshing itself.\<close>

definition halt :: "(string, unit) kact" where
  "halt = kthen (kmod (\<lambda>out. out @ ''cpu halted'' @ [CHR 0x0A])) (kraise Blocked)"

definition idlehands :: "(u32 \<Rightarrow> u32) \<Rightarrow> u32 \<Rightarrow> u32" where
  "idlehands idle oper = idle 0x7"

section \<open>\<open>main\<close>\<close>

text \<open>\<open>main\<close> until the memory is mapped.\<close>

definition main_early :: "bootenv \<Rightarrow> (boot, unit) kact" where
  "main_early e =
     kthen (kmod (\<lambda>s. s\<lparr>bt_cp := main_cache (bt_cp s)\<rparr>))
     (kthen (kmod (\<lambda>s. s\<lparr>bt_mem := memclear (be_edata e) (be_end e - be_edata e) (bt_mem s)\<rparr>))
     (kthen (kmod (\<lambda>s. s\<lparr>bt_mem := memclear MACHADDR Mach_size (bt_mem s),
        bt_sizes := (fst (bt_sizes s), \<lparr>ma_cpuhz = 0, ma_delayloop = 0\<rparr>), bt_intrs := (bt_intrs s)\<lparr>in_ticks := 0\<rparr>\<rparr>))
     (kthen (kmod (\<lambda>s. s\<lparr>bt_sizes := (fst (bt_sizes s)\<lparr>co_nmach := 1\<rparr>, snd (bt_sizes s))\<rparr>))
     (kthen (kmod (\<lambda>s. s\<lparr>bt_csr := archreset (bt_csr s)\<rparr>))
     (kthen (kmod (\<lambda>s. s\<lparr>bt_sizes := confinit (be_end e) (be_devid e) (fst (be_pcnt e)) (bt_sizes s)\<rparr>))
     (kthen (say (''mmuinit'' @ [CHR 0x0A]))
     (kbind (kon bt_cp put_cp (mmuinit (be_xspan e))) (\<lambda>tbl.
      kmod (\<lambda>s. s\<lparr>bt_tbl := tbl\<rparr>)))))))))"

text \<open>The pools and the parameters; a walk over the parameters that does not end hangs the kernel.\<close>

definition main_options :: "bootenv \<Rightarrow> (boot, unit) kact" where
  "main_options e =
     kthen (kmod (\<lambda>s. s\<lparr>bt_pools := poolsizeinit (co_npage (fst (bt_sizes s))) (be_pcnt e)\<rparr>))
     (kbind (kget (\<lambda>s. options (bt_mem s) (be_fuel e) (bt_conf s))) (\<lambda>r.
      case r of None \<Rightarrow> kraise Fuel | Some c \<Rightarrow> kmod (\<lambda>s. s\<lparr>bt_conf := c\<rparr>)))"

text \<open>
  Traps, the clock, and the devices; a registration that panics ends the start.  Of what \<open>links\<close> and the resets
  of the drivers do, the state here has the registrations of interrupts, by \<open>link_ops\<close> and \<open>dev_ops\<close>;
  \<open>archconsole\<close> sets the serial port (\<open>Uart\<close>) and registers nothing, its interrupt comes with the resets.
\<close>

definition main_devices :: "bootenv \<Rightarrow> (boot, unit) kact" where
  "main_devices e =
     kthen (kmod (\<lambda>s. s\<lparr>bt_r13 := trap_stacks MACHADDR (bt_r13 s),
        bt_page0 := trap_vectors (be_vectors e) (be_vtable e) (bt_page0 s)\<rparr>))
     (kthen (kon bt_intrs put_intrs (trapinit (be_knamelen e) ''intrhi'' ''intrbridge''))
     (kthen (kmod (\<lambda>s. let (t, c) = clockinit (bt_clock s) in s\<lparr>bt_timer := t, bt_clock := c\<rparr>))
     (kthen (kon bt_intrs put_intrs (register (be_knamelen e) clock_intr))
     (kthen (say (''links'' @ [CHR 0x0A]))
     (kthen (kon bt_intrs put_intrs (kfor (concat (map link_ops (be_links e))) (intr_op (be_knamelen e))))
     (kthen (say (''chandevreset'' @ [CHR 0x0A]))
     (kon bt_intrs put_intrs (kfor (concat (map dev_ops (be_devs e))) (intr_op (be_knamelen e))))))))))"

definition banner :: "bootenv \<Rightarrow> boot \<Rightarrow> string" where
  "banner e s =
     (let nl = [CHR 0x0A]; (c, m) = bt_sizes s in
      sdec (sint ((ma_cpuhz m + 500000) div 1000000)) @ '' MHz, id '' @ hex8 (be_cpuid e) @ nl @
      nl @ ''Inferno '' @ be_version e @ nl @
      ''Vita Nuova'' @ nl @
      ''conf '' @ be_conffile e @ '' ('' @ sdec (uint (be_kerndate e)) @ '') jit '' @ sdec (be_cflag e) @ nl @ nl @
      ''kirkwood '' @ co_devidstr c @ nl @ nl @
      ''mvfeat '' @ xhex (unat (cp_mvfeat (bt_cp s))) @ nl @
      l2print (cp_l2cfg (bt_cp s)) @ cacheprint (be_cache e) (cp_ctl (bt_cp s)))"

text \<open>What is left; \<open>schedinit\<close> does not return.\<close>

definition main_late :: "bootenv \<Rightarrow> (boot, unit) kact" where
  "main_late e =
     kthen (kmod (\<lambda>s. s\<lparr>bt_eve := ''inferno''\<rparr>))
     (kthen (say (''kbdinit'' @ [CHR 0x0A]))
     (kthen (kbind (kget (banner e)) say)
     (kthen (say (''userinit'' @ [CHR 0x0A]))
     (kthen (userinit (be_kstack e))
     (kthen (say (''schedinit'' @ [CHR 0x0A]))
     (kthen (kmod (\<lambda>s. s\<lparr>bt_sched := True\<rparr>))
     (kraise Blocked)))))))"

definition main :: "bootenv \<Rightarrow> (boot, unit) kact" where
  "main e = kthen (main_early e) (kthen (main_options e) (kthen (main_devices e) (main_late e)))"

section \<open>The parameters survive\<close>

text \<open>The tags from \<open>p\<close> to \<open>q\<close>, each between the vectors and \<open>Mach\<close>.\<close>

primrec boot_tags :: "memory \<Rightarrow> u32 \<Rightarrow> (u32 \<times> u32) list \<Rightarrow> u32 \<Rightarrow> bool" where
  "boot_tags m p [] q \<longleftrightarrow> p = q"
| "boot_tags m p (t # ts) q \<longleftrightarrow> 0x100 \<le> p \<and> p \<le> 0xFF8 \<and> ulong_at m p = fst t \<and> ulong_at m (p + 4) = snd t \<and>
     snd t \<noteq> Atagnone \<and> snd t \<noteq> Atagcmdline \<and> boot_tags m (p + 4 * fst t) ts q"

definition agree :: "memory \<Rightarrow> memory \<Rightarrow> bool" where
  "agree m m' \<longleftrightarrow> (\<forall>a. 0x100 \<le> a \<longrightarrow> a < MACHADDR \<longrightarrow> m' a = m a)"

lemma agree_ulong:
  assumes "agree m m'" "0x100 \<le> p" "p \<le> 0xFFC"
  shows "ulong_at m' p = ulong_at m p"
proof -
  have "0x100 \<le> p + k \<and> p + k < MACHADDR" if "k \<le> 3" for k :: u32
    using assms(2,3) that by (auto simp: word_le_nat_alt word_less_nat_alt unat_word_ariths)
  from this [of 0] this [of 1] this [of 2] this [of 3] show ?thesis using assms(1) by (simp add: ulong_at_def agree_def)
qed

lemma agree_tags: "agree m m' \<Longrightarrow> boot_tags m p ts q \<Longrightarrow> tags_at m' p ts q"
proof (induction ts arbitrary: p)
  case (Cons t ts)
  then have p: "0x100 \<le> p" "p \<le> 0xFF8" by simp_all
  then have "p < 0x100 + 4 * Atagmax" "p \<le> 0xFFC" "0x100 \<le> p + 4" "p + 4 \<le> 0xFFC"
    by (auto simp: word_le_nat_alt word_less_nat_alt unat_word_ariths)
  with Cons p show ?case by (simp add: agree_ulong)
qed simp

lemma agree_cstr:
  "agree m m' \<Longrightarrow> cstr_at m a s \<Longrightarrow> 0x100 \<le> a \<Longrightarrow> unat a + length s < 0x1000 \<Longrightarrow> cstr_at m' a s"
proof (induction s arbitrary: a)
  case Nil
  then show ?case by (simp add: agree_def word_less_nat_alt)
next
  case (Cons c s)
  then have "unat (a + 1) = unat a + 1" by (simp add: unat_word_ariths)
  moreover from this have "0x100 \<le> a + 1" using Cons.prems(3) by (simp add: word_le_nat_alt)
  ultimately show ?case using Cons by (simp add: agree_def word_less_nat_alt)
qed

lemma cleared_agree:
  assumes "MACHADDR \<le> d" "d \<le> e"
  shows "agree m (memclear MACHADDR Mach_size (memclear d (e - d) m))"
proof -
  have "\<not> a - d < e - d" "\<not> a - MACHADDR < Mach_size" if "a < MACHADDR" for a
  proof -
    have "unat a < 0x1000" "0x1000 \<le> unat d" "unat d \<le> unat e" "unat e < 2 ^ 32"
      using that assms unsigned_less [of e] by (simp_all add: word_less_nat_alt word_le_nat_alt)
    then show "\<not> a - d < e - d" "\<not> a - MACHADDR < Mach_size"
      by (simp_all add: Mach_size_def word_less_nat_alt unat_sub_if')
  qed
  then show ?thesis by (simp add: agree_def memclear_def)
qed

text \<open>
  A parameter that begins in \<open>Mach\<close>, which lies in the region the walk covers and has been cleared, reads as
  the end of the parameters: the ones behind it are lost.
\<close>

lemma tags_in_mach_lost:
  assumes "MACHADDR \<le> p" "p \<le> MACHADDR + 112"
  shows "atags (memclear MACHADDR Mach_size m) (Suc fuel) p cs = Some cs"
proof -
  have z: "memclear MACHADDR Mach_size m (p + k) = 0" if "k < 8" for k
    using assms that unfolding Mach_size_def memclear_def by uint_arith
  have "ulong_at (memclear MACHADDR Mach_size m) (p + 4) = 0"
    using z [of 4] z [of 5] z [of 6] z [of 7] by (simp add: ulong_at_def be32_def add.assoc)
  then show ?thesis by simp
qed

section \<open>The kernel starts\<close>

lemma kon_Inr: "act (get s) = (Inr x, t) \<Longrightarrow> kon get put act s = (Inr x, put t s)"
  by (simp add: kon_def)

lemma early_run:
  assumes "be_xspan e = Some p"
  shows "\<exists>s'. main_early e s = (Inr (), s') \<and>
    bt_mem s' = memclear MACHADDR Mach_size (memclear (be_edata e) (be_end e - be_edata e) (bt_mem s)) \<and>
    cp_ttb (bt_cp s') = p \<and> cp_ctl (bt_cp s') AND (MMUena OR Icacheena OR Dcacheena) = MMUena OR Icacheena OR Dcacheena \<and>
    bt_tbl s' = mmu_table \<and> co_npage (fst (bt_sizes s')) = (0x20000000 - PGROUND (be_end e)) div 4096 \<and>
    bt_conf s' = bt_conf s \<and> bt_ready s' = bt_ready s \<and> in_lock (bt_intrs s') = in_lock (bt_intrs s)"
proof -
  have "(x OR MMUena OR Icacheena OR Dcacheena OR Alignfault) AND (MMUena OR Icacheena OR Dcacheena)
      = MMUena OR Icacheena OR Dcacheena" for x
    by (rule bit_word_eqI) (auto simp: bit_simps)
  then show ?thesis
    using assms by (simp add: main_early_def mmuinit_def kon_def kbind_def kthen_def say_def put_cp_def confinit_def
        archconfinit_def Let_def split: prod.split)
qed

lemma options_run:
  assumes "options (bt_mem s) (be_fuel e) (bt_conf s) = Some c"
  shows "main_options e s = (Inr (), s\<lparr>bt_pools := poolsizeinit (co_npage (fst (bt_sizes s))) (be_pcnt e), bt_conf := c\<rparr>)"
  using assms by (simp add: main_options_def kthen_Inr)

lemma devices_run:
  assumes "boot_intrs (be_knamelen e) (be_links e) (be_devs e) (bt_intrs s) = (Inr (), i)"
  shows "\<exists>s'. main_devices e s = (Inr (), s') \<and> bt_conf s' = bt_conf s \<and> bt_ready s' = bt_ready s \<and>
    bt_cp s' = bt_cp s \<and> bt_tbl s' = bt_tbl s \<and> bt_pools s' = bt_pools s \<and> bt_intrs s' = i"
proof -
  obtain a b d where a: "trapinit (be_knamelen e) ''intrhi'' ''intrbridge'' (bt_intrs s) = (Inr (), a)"
    and b: "register (be_knamelen e) clock_intr a = (Inr (), b)"
    and d: "kfor (concat (map link_ops (be_links e))) (intr_op (be_knamelen e)) b = (Inr (), d)"
    and i: "kfor (concat (map dev_ops (be_devs e))) (intr_op (be_knamelen e)) d = (Inr (), i)"
    using assms by (auto simp: boot_intrs_def kthen_Inr_iff)
  note step = kthen_Inr [OF kon_Inr]
  show ?thesis
    unfolding main_devices_def
    using a b d i by (auto simp: step put_intrs_def say_def kon_Inr clockinit_def)
qed

lemma late_run:
  "\<exists>s'. main_late e s = (Inl Blocked, s') \<and> bt_sched s' \<and>
     bt_ready s' = bt_ready s @ [\<lparr>up_text = ''interp'', up_user = ''inferno'', up_fpstate = ''FPINIT'', up_pc = ''init0'',
       up_sp = be_kstack e + 8192 - 8\<rparr>] \<and>
     bt_conf s' = bt_conf s \<and> bt_cp s' = bt_cp s \<and> bt_tbl s' = bt_tbl s \<and> bt_pools s' = bt_pools s \<and>
     bt_intrs s' = bt_intrs s"
  by (simp add: main_late_def say_def userinit_def kthen_def kbind_def)

text \<open>
  C39: The kernel starts.  Let the boot loader have left its parameters between the vectors and \<open>Mach\<close>, with a
  command line, the cleared data of the kernel lie above \<open>Mach\<close>, there be memory for the page table, and
  the links and the devices be those of the configuration \<open>sheeva\<close>, each in any order.  Then \<open>main\<close> reaches the
  scheduler: the pairs of the command line are the configuration
  although memory was cleared before they are read; the first process is ready, in \<open>init0\<close> near the end of its
  stack; the mapping and both first level caches are on, with memory mapped cached, the two device sections
  uncached, each to itself, and nothing else; the pools have their limits for the memory behind the kernel; no driver
  took a vector that was taken; the clock, the serial port, the ethernet, the disk and the four DMA channels have
  their functions, arguments and names at their vectors; their interrupts, with the two that chain, are the
  ones unmasked; and the card has no function at its vector yet.
\<close>

theorem main_boots:
  assumes mem: "MACHADDR \<le> be_edata e" "be_edata e \<le> be_end e" "be_xspan e = Some p"
    and core: "ulong_at (bt_mem s) 0x104 = Atagcore"
    and tags: "boot_tags (bt_mem s) (0x100 + 4 * ulong_at (bt_mem s) 0x100) ts q"
    and q: "0x100 \<le> q" "ulong_at (bt_mem s) (q + 4) = Atagcmdline"
    and line: "cstr_at (bt_mem s) (q + 8) (show_cmdline kvs)" "unat q + 8 + length (show_cmdline kvs) < 0x1000"
      "\<forall>kv\<in>set kvs. kv_ok kv"
    and fuel: "be_fuel e > length ts + length (show_cmdline kvs) + 1"
    and start: "bt_conf s = []" "\<not> in_lock (bt_intrs s)"
    and drivers: "mset (be_links e) = mset conf_links" "mset (be_devs e) = mset conf_devs"
  shows "\<exists>s'. main e s = (Inl Blocked, s') \<and> bt_sched s' \<and>
    bt_conf s' = take MAXCONF (map (\<lambda>(k, v). (k, Some v)) kvs) \<and>
    bt_ready s' = bt_ready s @ [\<lparr>up_text = ''interp'', up_user = ''inferno'', up_fpstate = ''FPINIT'', up_pc = ''init0'',
       up_sp = be_kstack e + 8192 - 8\<rparr>] \<and>
    cp_ttb (bt_cp s') = p \<and> cp_ctl (bt_cp s') AND (MMUena OR Icacheena OR Dcacheena) = MMUena OR Icacheena OR Dcacheena \<and>
    (\<forall>va. section_lookup (bt_tbl s') va =
       (if va < 0x20000000 then Some (va, True, True)
        else if drop_bit 20 va = drop_bit 20 Regbase \<or> drop_bit 20 va = drop_bit 20 AddrPhyNand then Some (va, False, False)
        else None)) \<and>
    bt_pools s' = poolsizeinit ((0x20000000 - PGROUND (be_end e)) div 4096) (be_pcnt e) \<and>
    (\<forall>(b, v, f, a, n)\<in>set boot_regs.
       ib_vec (bank b (bt_intrs s')) ! v = \<lparr>h_r = Some f, h_a = a, h_name = take (be_knamelen e - 1) n\<rparr>) \<and>
    (\<forall>b v. v < 32 \<longrightarrow> bit (ib_mask (bank b (bt_intrs s'))) v =
       ((b, v) \<in> {(Irqlo, 0), (Irqlo, 1)} \<or> (\<exists>f a n. (b, v, f, a, n) \<in> set boot_regs))) \<and>
    h_r (ib_vec (bank Irqlo (bt_intrs s')) ! 28) = None"
proof -
  obtain t where t: "main_early e s = (Inr (), t)" "cp_ttb (bt_cp t) = p"
      "cp_ctl (bt_cp t) AND (MMUena OR Icacheena OR Dcacheena) = MMUena OR Icacheena OR Dcacheena"
      "bt_tbl t = mmu_table" "co_npage (fst (bt_sizes t)) = (0x20000000 - PGROUND (be_end e)) div 4096"
      "bt_conf t = []" "bt_ready t = bt_ready s" "\<not> in_lock (bt_intrs t)"
      "bt_mem t = memclear MACHADDR Mach_size (memclear (be_edata e) (be_end e - be_edata e) (bt_mem s))"
    using early_run [OF mem(3), of s] start by auto
  have ag: "agree (bt_mem s) (bt_mem t)" unfolding t(9) by (rule cleared_agree [OF mem(1,2)])
  have q8: "unat (q + 8) = unat q + 8" "unat (q + 4) = unat q + 4"
    using line(2) by (simp_all add: unat_word_ariths)
  then have b: "0x100 \<le> q + 4" "q + 4 \<le> 0xFFC" "0x100 \<le> q + 8" "q < 0x100 + 4 * Atagmax"
    using q(1) line(2) by (simp_all add: word_le_nat_alt word_less_nat_alt)
  have "options (bt_mem t) (be_fuel e) [] = Some (take MAXCONF (map (\<lambda>(k, v). (k, Some v)) kvs))"
  proof (rule parsed_conf)
    show "ulong_at (bt_mem t) 0x104 = Atagcore" using core by (simp add: agree_ulong [OF ag])
    show "tags_at (bt_mem t) (0x100 + 4 * ulong_at (bt_mem t) 0x100) ts q"
      using agree_tags [OF ag tags] by (simp add: agree_ulong [OF ag])
    show "ulong_at (bt_mem t) (q + 4) = Atagcmdline" using q(2) b by (simp add: agree_ulong [OF ag])
    show "cstr_at (bt_mem t) (q + 8) (show_cmdline kvs)"
      using agree_cstr [OF ag line(1) b(3)] line(2) q8 by simp
  qed (use b line(3) fuel in auto)
  then obtain u where u: "main_options e t = (Inr (), u)" "u = t\<lparr>bt_pools := poolsizeinit (co_npage (fst (bt_sizes t))) (be_pcnt e),
      bt_conf := take MAXCONF (map (\<lambda>(k, v). (k, Some v)) kvs)\<rparr>"
    using options_run [of t e] t(6) by simp
  have "\<not> in_lock (bt_intrs u)" using t(8) u(2) by simp
  from boot_interrupts [OF this drivers, of "be_knamelen e"] obtain i where
    i: "boot_intrs (be_knamelen e) (be_links e) (be_devs e) (bt_intrs u) = (Inr (), i)"
    "\<forall>(b, v, f, a, n)\<in>set boot_regs. ib_vec (bank b i) ! v = \<lparr>h_r = Some f, h_a = a, h_name = take (be_knamelen e - 1) n\<rparr>"
    "\<forall>b v. v < 32 \<longrightarrow> bit (ib_mask (bank b i)) v =
       ((b, v) \<in> {(Irqlo, 0), (Irqlo, 1)} \<or> (\<exists>f a n. (b, v, f, a, n) \<in> set boot_regs))"
    "h_r (ib_vec (bank Irqlo i) ! 28) = None" by blast
  from devices_run [OF i(1)] obtain w where w: "main_devices e u = (Inr (), w)" "bt_conf w = bt_conf u"
    "bt_ready w = bt_ready u" "bt_cp w = bt_cp u" "bt_tbl w = bt_tbl u" "bt_pools w = bt_pools u" "bt_intrs w = i" by blast
  have "main e s = main_late e w" by (simp add: main_def kthen_def kbind_def t(1) u(1) w(1))
  with late_run [of e w] obtain z where z: "main e s = (Inl Blocked, z)" "bt_sched z"
    "bt_ready z = bt_ready w @ [\<lparr>up_text = ''interp'', up_user = ''inferno'', up_fpstate = ''FPINIT'', up_pc = ''init0'',
       up_sp = be_kstack e + 8192 - 8\<rparr>]"
    "bt_conf z = bt_conf w" "bt_cp z = bt_cp w" "bt_tbl z = bt_tbl w" "bt_pools z = bt_pools w" "bt_intrs z = bt_intrs w" by metis
  have f: "bt_conf z = take MAXCONF (map (\<lambda>(k, v). (k, Some v)) kvs)" "bt_cp z = bt_cp t" "bt_tbl z = mmu_table"
    "bt_pools z = poolsizeinit ((0x20000000 - PGROUND (be_end e)) div 4096) (be_pcnt e)" "bt_intrs z = i"
    "bt_ready w = bt_ready s"
    using z w u(2) t by simp_all
  have vecs: "\<forall>(b, v, f, a, n)\<in>set boot_regs.
      ib_vec (bank b (bt_intrs z)) ! v = \<lparr>h_r = Some f, h_a = a, h_name = take (be_knamelen e - 1) n\<rparr>" unfolding f(5) by (rule i(2))
  have ints: "\<forall>b v. v < 32 \<longrightarrow> bit (ib_mask (bank b (bt_intrs z))) v =
       ((b, v) \<in> {(Irqlo, 0), (Irqlo, 1)} \<or> (\<exists>f a n. (b, v, f, a, n) \<in> set boot_regs))" unfolding f(5) by (rule i(3))
  have sdio: "h_r (ib_vec (bank Irqlo (bt_intrs z)) ! 28) = None" unfolding f(5) by (rule i(4))
  show ?thesis
    by (intro exI [of _ z] conjI) (rule vecs ints sdio | simp only: z(1-3) f t(2,3) mmu_lookup simp_thms)+
qed

definition boot_env_sample :: bootenv where
  "boot_env_sample =
     \<lparr>be_edata = 0x200000, be_end = 0x280123, be_pcnt = (30, 40, 30), be_devid = 3, be_xspan = Some 0x284000,
      be_fuel = 30, be_knamelen = 28, be_vectors = replicate 8 0xE59FF018, be_vtable = replicate 8 0x8100,
      be_links = conf_links, be_devs = conf_devs,
      be_cpuid = 0x56251311, be_cache = 0, be_version = ''Fourth Edition'', be_conffile = ''sheeva'', be_kerndate = 0,
      be_cflag = 0, be_kstack = 0x300000\<rparr>"

definition boot_state_sample :: boot where
  "boot_state_sample =
     \<lparr>bt_mem = boot_sample,
      bt_cp = \<lparr>cp_ttb = 0, cp_dac = 0, cp_pid = 0, cp_ctl = 0, cp_mvfeat = 0, cp_ilock = 0, cp_dlock = 0, cp_l2cfg = 0, cp_flushed = 0\<rparr>,
      bt_csr = \<lparr>cr_cpucsr = 0, cr_clockgate = 0, cr_rstout = 0, cr_softreset = 0, cr_wdctl = 0, cr_timerwd = 0, cr_ifccfg = 0\<rparr>,
      bt_sizes = (\<lparr>co_nmach = 0, co_nproc = 0, co_npage0 = 0, co_npage1 = 0, co_topofmem = 0, co_npage = 0, co_base0 = 0,
         co_base1 = 0, co_ialloc = 0, co_devidstr = []\<rparr>, \<lparr>ma_cpuhz = 7, ma_delayloop = 7\<rparr>),
      bt_tbl = [], bt_pools = [], bt_conf = [], bt_r13 = (\<lambda>_. 0), bt_page0 = \<lparr>vp_vectors = [], vp_vtable = []\<rparr>,
      bt_intrs = blank_intrs, bt_timer = (0, 0, 0), bt_clock = \<lparr>ck_ticks = 9, ck_links = [], ck_lock = False, ck_calls = [], ck_alarms = 0, ck_cause = 0\<rparr>,
      bt_eve = [], bt_out = [], bt_ready = [], bt_sched = False\<rparr>"

theorem main_boots_witness:
  "\<exists>s'. main boot_env_sample boot_state_sample = (Inl Blocked, s') \<and> bt_sched s' \<and> map up_pc (bt_ready s') = [''init0''] \<and>
     bt_conf s' = [(''console'', Some ''0''), (''Root'', Some ''x=y'')]"
proof -
  let ?kvs = "[(''console'', ''0''), (''Root'', ''x=y'')]"
  have "ulong_at boot_sample 0x104 = Atagcore"
    "boot_tags boot_sample (0x100 + 4 * ulong_at boot_sample 0x100) [(3, 0x54410002)] 0x114"
    "ulong_at boot_sample (0x114 + 4) = Atagcmdline"
    by (simp_all add: boot_sample_def memory_of_def ulong_at_def le32_bytes_def be32_def)
  moreover have "cstr_at boot_sample (0x114 + 8) (show_cmdline ?kvs)"
    by (simp add: boot_sample_def memory_of_def le32_bytes_def show_conf_def byte_of_def)
  moreover have "\<forall>kv\<in>set ?kvs. kv_ok kv" "length (show_cmdline ?kvs) = 18"
    by (simp_all add: kv_ok_def show_conf_def)
  moreover have "mset (be_links boot_env_sample) = mset conf_links" "mset (be_devs boot_env_sample) = mset conf_devs"
    by (simp_all add: boot_env_sample_def)
  moreover have "be_xspan boot_env_sample = Some 0x284000" "MACHADDR \<le> be_edata boot_env_sample" "be_edata boot_env_sample \<le> be_end boot_env_sample"
    "be_fuel boot_env_sample = 30" by (simp_all add: boot_env_sample_def)
  moreover have "bt_mem boot_state_sample = boot_sample" "bt_conf boot_state_sample = []" "\<not> in_lock (bt_intrs boot_state_sample)"
    "bt_ready boot_state_sample = []" by (simp_all add: boot_state_sample_def blank_intrs_def Let_def)
  ultimately obtain s' where "main boot_env_sample boot_state_sample = (Inl Blocked, s')" "bt_sched s'"
    "bt_conf s' = take MAXCONF (map (\<lambda>(k, v). (k, Some v)) ?kvs)" "map up_pc (bt_ready s') = [''init0'']"
    using main_boots [where e = boot_env_sample and p = "0x284000" and s = boot_state_sample and ts = "[(3, 0x54410002)]" and q = "0x114"
      and kvs = ?kvs] by force
  then show ?thesis by auto
qed

section \<open>Processes\<close>

text \<open>
  \<open>init0\<close> starts the interpreter with the environment set when names resolve and the variables can be
  stored, and panics on an error in \<open>namec\<close> or the start of the devices.
\<close>

definition store_env :: "string \<Rightarrow> string \<Rightarrow> (initst, unit) kact" where
  "store_env k v = kmod (\<lambda>s. s\<lparr>is_env := (is_env s)(k \<mapsto> v)\<rparr>)"

lemma init0_run:
  "init0 (Inr ()) (kret ()) store_env k conffile s =
     (Inr (), s\<lparr>is_spl := Spllo, is_slash := Some ''/'', is_dot := Some ''/'',
       is_env := (is_env s)(''cputype'' \<mapsto> ''arm'', ''terminal'' \<mapsto> take (2 * k - 1) (''arm '' @ conffile)),
       is_started := Some ''/osinit.dis''\<rparr>)"
  by (simp add: init0_def kthen_def kbind_def kcatch_def store_env_def)

lemma init0_panics:
  "fst (init0 (Inl (Error er)) chandevinit ksetenv k conffile s) = Inl (Panic ''init0'')"
  "fst (init0 (Inr ()) (kraise (Error er)) ksetenv k conffile s) = Inl (Panic ''init0'')"
  by (simp_all add: init0_def kthen_def kbind_def kcatch_def)

text \<open>A kernel process ends in \<open>pexit\<close> whether its function returns or raises an error.\<close>

lemma linkproc_exits:
  assumes "fst (func s) = Inr () \<or> (\<exists>er. fst (func s) = Inl (Error er))"
  shows "\<exists>s'. linkproc errstr func s = (Inr (), s') \<and> lp_exit s' = Some (''end proc'', True)"
  using assms by (cases "func s") (auto simp: linkproc_def kthen_def kbind_def kcatch_def)

end
