(* ===== verification/Spec2Isabelle.thy ===== *)
theory Spec2Isabelle
  imports Part Rtc Sdcard Uimage Ether Blockstore_Chan Blockstore_Io Kwsdio_Io Sata_Io Kirkwood_Ring Cesa_Aes Nand_Io Uart Trap_Io Xor_Io Efuse_Io Fpiarm_Io Boot_Io Sheeva Io_Regs Trap_Fp Boot_Main
begin

text \<open>
  Verification of the Inferno kernel port for the Marvell Kirkwood (\<open>inferno-kirkwood\<close>): the machine
  dependent part of an operating system kernel for a 32-bit ARM processor, in C, with the tool that
  wraps the kernel in a boot image.

  The parts and how they interact.  \<open>main.c\<close> is entered by the boot loader, maps memory, sets up the traps
  and the clock (\<open>trap.c\<close>, \<open>clock.c\<close>) and starts the devices, which register for their interrupts.  Three
  drivers hold disks: \<open>devsata.c\<close> serves files of its own, \<open>kwsdio.c\<close> (with the registers of the card in
  \<open>sdcard.c\<close>) is a store of the block device \<open>devbs.c\<close>, and \<open>kwnand.c\<close> with \<open>nand.c\<close> provides a flash to the
  portable kernel.  \<open>devbs.c\<close> and \<open>devsata.c\<close> find partitions with \<open>part.c\<close>.  \<open>etherkirkwood.c\<close> drives the
  network controller and passes frames to \<open>devether.c\<close>, which hands them to connections.  \<open>cesa.c\<close> and
  \<open>xor.c\<close> drive engines other code uses; \<open>devrtc.c\<close>, \<open>devefuse.c\<close> and \<open>devsheeva.c\<close> serve small files;
  \<open>uartkirkwood.c\<close> is the console; \<open>fpiarm.c\<close> runs floating point instructions that trap;
  \<open>archkirkwood.c\<close> identifies and resets the machine; \<open>io.h\<close> lays out all registers.

  How code is written here.  An operation that may raise an error is an action of \<open>Kw_Prelude\<close>: from a
  record of the component's state to an outcome and the new state, which is there in every case, since
  what code wrote before \<open>error()\<close> stays.  \<open>waserror\<close> is \<open>kcatch\<close> or \<open>kbracket\<close>; \<open>panic\<close>, an access through
  nil, and a wait nothing ends are outcomes of their own.  \<open>ulong\<close> and \<open>uchar\<close> are words, \<open>int\<close> is reduced
  to its range by \<open>i32\<close> where it could leave it, C strings are lists of characters without the NUL.
  Hardware is a parameter: a function from what was written to the registers to what they hold
  afterwards, or the values successive reads return.  What is in \<open>../port\<close>, the portable kernel, is not in
  this repository and is a parameter wherever its result matters.  The interfaces several drivers share
  are locales, interpreted on the drivers' own definitions: locks (\<open>lock_pair\<close>, \<open>rw_lens\<close>, \<open>spin_lens\<close>:
  bracketed code gives back what it took on every path), rings of descriptors (\<open>ring_index\<close>), drivers of
  stores (\<open>bs_driver\<close>), byte codecs and table driven checksums.

  The theories.
  \<^item> \<open>Kw_Prelude\<close>, \<open>Kw_Libc\<close>: outcomes, actions and their rules, locks, rings; strings, numbers and formats of the
    C library.
  \<^item> \<open>Part\<close> (\<open>part.c\<close>): boot record and Plan 9 partitions.  Every partition is inside the disk unless its start
    wrapped; boot record partitions are disjoint or nested; names are distinct; the search for a name ends.
  \<^item> \<open>Blockstore\<close>, \<open>Blockstore_Chan\<close>, \<open>Blockstore_Io\<close> (\<open>devbs.c\<close>): files, locks and stores; stale channels and
    exclusive opening; a read refines reading the bytes of the partition.  It does so below 4 GiB: above, the offset
    is truncated, and what happens then is a theorem of its own.  \<open>bsopen\<close> is one step of the model.  In the code
    two processes can pass its check before either counts its open (\<open>bs_open_race\<close>).
  \<^item> \<open>Sdcard\<close> (\<open>sdcard.c\<close>), \<open>Kwsdio\<close>, \<open>Kwsdio_Io\<close> (\<open>kwsdio.c\<close>): the fields of the card's registers are bit fields of
    192 bits; commands, transfers, initialisation, which computes the size from the raw bits of the CSD; a
    partition read through both drivers gives the bytes of the card, for high capacity cards of less than 4 GiB and
    transfers of up to 512 KiB, which the controller can count.  The controller moves the data through the registers for
    address, block size, count and mode, as the driver wrote them.
  \<^item> \<open>Sata\<close>, \<open>Sata_Req\<close>, \<open>Sata_Io\<close> (\<open>devsata.c\<close>): a request decodes to what was asked; a read gives the bytes of
    the disk; no tag is held twice in any interleaving of requests, completions, failures, identify and reset; a failed
    request keeps its tag until a reset, which gives all of them back, those of requests under way included.  The
    engine finds a request in the ring, at the slot and through the addresses the driver wrote.  A finished request gives its
    tag back in one step; in the code it does not hold the lock there, and two can lose one (\<open>put_tag_race\<close>).
  \<^item> \<open>Nand\<close>, \<open>Nand_Io\<close> (\<open>kwnand.c\<close>, \<open>nand.c\<close>): an erased and written page reads back through correctable noise.
  \<^item> \<open>Ether\<close> (\<open>devether.c\<close>, \<open>etherif.h\<close>), \<open>Kirkwood\<close>, \<open>Kirkwood_Ring\<close> (\<open>etherkirkwood.c\<close>): delivery of packets to
    connections, writes, files, the table of cards; the two rings, whose receive buffers have one owner each in
    every interleaving of controller, interrupts and returned buffers.
  \<^item> \<open>Cesa\<close>, \<open>Cesa_Io\<close>, \<open>Cesa_Aes\<close> (\<open>cesa.c\<close>): hashing in pieces refines the digest of the whole; CBC decryption inverts
    encryption; DES is a map over blocks.
  \<^item> \<open>Xor\<close>, \<open>Xor_Io\<close> (\<open>xor.c\<close>): ports have one owner and an engine initialises memory through one port at a time.
  \<^item> \<open>Rtc\<close> (\<open>devrtc.c\<close>): dates and seconds, both ways.  \<open>Efuse\<close>, \<open>Efuse_Io\<close> (\<open>devefuse.c\<close>): a written fuse is final.
    \<open>Sheeva\<close> (\<open>devsheeva.c\<close>): the watchdog and the control files.  \<open>Uart\<close> (\<open>uartkirkwood.c\<close>): the divisor, received
    characters and errors.
  \<^item> \<open>Trap\<close>, \<open>Trap_Io\<close> (\<open>trap.c\<close>, \<open>clock.c\<close>): dispatch of interrupts, traps, dumps, clock functions.  \<open>Fpiarm\<close>, \<open>Fpiarm_Io\<close>
    (\<open>fpiarm.c\<close>, \<open>fpi.h\<close>): the emulator.  \<open>Trap_Fp\<close>: both together, to the
    program counter behind the emulated instructions.
  \<^item> \<open>Io\<close>, \<open>Io_Regs\<close> (\<open>io.h\<close>): register structures against the addresses written beside them.
  \<^item> \<open>Boot\<close>, \<open>Boot_Io\<close> (\<open>main.c\<close>, \<open>archkirkwood.c\<close>): parameters of the boot loader, page table, sizes, reset.
    \<open>Boot_Intr\<close>: interrupt numbers, and the registrations the drivers of the configuration \<open>sheeva\<close> make and take
    back: the SD card has its interrupt from \<open>init0\<close> on, the crypto engine is not configured.  \<open>Boot_Main\<close>: \<open>main\<close> from its first line to
    the scheduler, and the first processes.
  \<^item> \<open>Uimage\<close> (\<open>mkuimage/\<close>): the image tool.  Every image passes the boot loader's checks.
  \<^item> This theory: the two checksums of the repository agree; registers are reached past the caches.

  Bounds and fuel.  Fuel is a parameter and not a bound of the model; each theorem that needs it says how much
  is enough.  The walk over the boot parameters and its string take one unit for a tag and for a character,
  so the number of tags and the length of the line, plus two, suffice; a tag of size 0 makes the code itself
  loop, and then no fuel is enough (\<open>atags_hang\<close>).  The search for a partition's name takes at most as many units
  as there are partitions, plus one, where the name leaves room for a number; with a name of 31 characters that is
  taken it does not end (\<open>partgenname_long\<close>).  The emulator
  takes one unit for an instruction in a row, the ethernet interrupt one for a finished descriptor, a busy
  disk one for an interrupt it sleeps for.  The polls the drivers bound themselves (501 for a fuse, and those
  of the card) have the bounds of the code.  Everything else recurses on data or a measure and is total.

  Not modelled.
  \<^item> \<open>l.s\<close>: assembly (entry, vectors, interrupt levels, coprocessor access, cache maintenance).  The coprocessor
    registers \<open>main.c\<close> sets are state of \<open>Boot\<close>; cache maintenance has no effect where memory is a function.
  \<^item> The portable kernel \<open>../port\<close>, \<open>libkern\<close>, \<open>libinterp\<close>: not in the repository; parameters.
  \<^item> Tables of functions (\<open>Dev\<close>, \<open>PhysUart\<close>, \<open>Bsdev\<close>) and entries that only call a generic helper (\<open>devattach\<close>,
    \<open>devwalk\<close>, \<open>devstat\<close>, \<open>devopen\<close>): no state of their own.
  \<^item> Empty functions, code under \<open>if(0)\<close>, debug output, \<open>cesatest\<close>, which nothing calls, and constants and
    macros without a register of their own that no code uses.
  \<^item> \<open>sheevainit.b\<close> (Limbo, runs in user space), \<open>misc/\<close> (patches and scripts), \<open>doc/\<close>, \<open>fns.h\<close> (prototypes), \<open>mkfile\<close>, and
    of the configuration \<open>sheeva\<close> all but the drivers it names.  The drivers of \<open>../port\<close> among them are taken to
    register for no interrupt, except \<open>uart\<close>, which enables the console.
  \<^item> Timing and concurrency beyond what is stated: an operation runs to where it waits; where interleavings
    matter (receive ring, tags, DMA ports) they are steps of a relation.  \<open>receive\<close> is one step with respect to the
    controller, and receive buffers are identities, whose memory is taken not to overlap.
  \<^item> Failing allocation where the code does not look: \<open>strdup\<close> of the boot parameters is taken to succeed.
\<close>

section \<open>Properties that span components\<close>

lemma ethercrc_one: "ethercrc_bit (c, b) = (bit_step c (bit b 0), drop_bit 1 b)"
proof -
  have "((c XOR b) AND 1 \<noteq> 0) = (bit c 0 \<noteq> bit b 0)"
    by (simp add: and_one_eq bit_0 odd_iff_mod_2_eq_one [symmetric] flip: bit_0) (simp add: bit_xor_iff)
  then show ?thesis
    by (simp add: ethercrc_bit_def bit_step_def Poly_def xor.commute)
qed

lemma ethercrc_bits:
  "(ethercrc_bit ^^ n) (c, b) = (foldl bit_step c (map (bit b) [0..<n]), drop_bit n b)"
proof (induction n)
  case 0
  then show ?case by simp
next
  case (Suc n)
  have "drop_bit 1 (drop_bit n b) = drop_bit (Suc n) b" by (simp add: ac_simps)
  with Suc show ?case by (simp add: ethercrc_one bit_drop_bit_eq)
qed

text \<open>
  C11: The two checksums.  The image tool's table-driven CRC-32 of a buffer is the complement of
  the ethernet driver's bit-serial checksum of the same buffer.
\<close>

theorem crc32_ethercrc: "crc32 0 buf = NOT (ethercrc buf)"
proof -
  have "foldl (\<lambda>crc b. fst ((ethercrc_bit ^^ 8) (crc, ucast b))) c buf
      = foldl bit_step c (concat (map byte_bits buf))" for c
  proof (induction buf arbitrary: c)
    case Nil
    then show ?case by simp
  next
    case (Cons b bs)
    have "map (bit (ucast b :: u32)) [0..<8] = byte_bits b"
      by (simp add: byte_bits_def bit_simps)
    then show ?case using Cons by (simp add: ethercrc_bits)
  qed
  moreover have "(NOT 0 :: u32) = 0xffffffff" by simp
  ultimately show ?thesis
    by (simp add: ethercrc_def crc32_def uimage_crc.table_fold xor_ones del: bit.compl_zero)
qed

text \<open>
  C37: The drivers reach the registers past the caches.  With the page table \<open>mmuinit\<close> leaves, the address of
  every member of every register block translates to itself, neither cached nor buffered.
\<close>

theorem registers_uncached:
  assumes "mmuinit (Some p) c = (Inr tbl, c')" and "(r, l, b) \<in> set io_regs" and "(s, a) \<in> set (addrs_of b l)"
  shows "section_lookup tbl (of_nat a) = Some (of_nat a, False, False)"
proof -
  have a: "0xf1000000 \<le> a" "a < 0xf1100000" using reg_addr_range [OF assms(2,3)] by simp_all
  then have u: "unat (of_nat a :: u32) = a" by (intro unat_of_nat_u32) simp
  have "unat (drop_bit 20 (of_nat a :: u32)) = a div 2 ^ 20"
    by (subst unsigned_drop_bit_eq) (use a u in \<open>simp add: drop_bit_eq_div take_bit_nat_eq_self\<close>)
  also have "\<dots> = unat (drop_bit 20 Regbase)" using a by (simp add: div_nat_eqI)
  finally have "drop_bit 20 (of_nat a :: u32) = drop_bit 20 Regbase" by (simp add: word_unat_eq_iff)
  moreover have "\<not> (of_nat a :: u32) < 0x20000000" using a u by (simp add: word_less_nat_alt)
  moreover have "tbl = mmu_table" using assms(1) by (simp add: mmuinit_def)
  ultimately show ?thesis by (simp add: mmu_lookup)
qed

theorem registers_uncached_witness:
  "section_lookup mmu_table 0xf1090128 = Some (0xf1090128, False, False)"
proof -
  have "\<exists>c'. mmuinit (Some 0x4000) \<lparr>cp_ttb = 0, cp_dac = 0, cp_pid = 0, cp_ctl = 0, cp_mvfeat = 0, cp_ilock = 0, cp_dlock = 0,
      cp_l2cfg = 0, cp_flushed = 0\<rparr> = (Inr mmu_table, c')"
    by (simp add: mmuinit_def)
  moreover have "(''SDIOREG'', SdioReg, AddrSdio) \<in> set io_regs" by (simp add: io_regs_def)
  moreover have "(''clockdiv'', 0xf1090128) \<in> set (addrs_of AddrSdio SdioReg)"
    by (simp add: SdioReg_def AddrSdio_def RegbaseN_def PAD_def)
  ultimately show ?thesis using registers_uncached by fastforce
qed

end
